(* ===== verification/Prelude.thy ===== *)
theory Prelude
  imports Main "HOL-Library.AList"
begin

text \<open>
  What every component of the model shares: the error values that stand for the Python
  exceptions, first-failure validation (the shape of a dataclass \<open>__post_init__\<close>), the string
  operations of Python the sources use, date-times, JSON-like detail payloads and
  order-preserving de-duplication.

  Conventions. A Python string is a HOL \<open>string\<close>: its characters are the code points 0 to 255.
  A call that raises is \<open>Inl error\<close>; the caller's unit of work is rolled back, so the half
  updated Python object is not part of the result. Every operation that reads the clock takes
  the value of \<open>now or datetime.now(UTC)\<close> as its argument \<open>t\<close>. UUIDs are natural numbers, and
  \<open>str(uuid)\<close>, \<open>isoformat()\<close> inside detail payloads are kept as the value they print.
\<close>

named_theorems op_defs "definitions of the operations of a component"
named_theorems enum_defs "constant tables of a component"

type_synonym uuid = nat

subsection \<open>Errors\<close>

datatype error =
    ValueError string
  | TypeErr string
  | KeyErr string
  | RuntimeErr string
  | InvalidJobTransition string
  | JobNotFound uuid
  | DuplicateJob uuid
  | JobPausedBatch
  | UnknownJobKind string
  | JobCancelled
  | JobWaitingHuman
  | ReconciliationRequired
  | BatchConflict string string
  | RepairImpactInvariant string
  | RepairRefused string
  | TlpDowngrade string
  | EditionImmutable string
  | CompositionInvariant string
  | RunNotFound uuid
  | RetryPrerequisiteMissing string "string option" "string option"
  | ReviewRecovery string
  | BatchRequestConflict string "uuid list"
  | BatchNotFound uuid
  | BatchOwnership string
  | StaleBatch string
  | CollectionNotAllowed string
  | IntegrityError string
  | ActiveRunConflict
  | BudgetExceeded string
  | VersionConflict string
  | EffectInvalid string
  | EffectRefused string "string option"
  | Raised string string

type_synonym 'a result = "error + 'a"

fun first_error :: "(bool \<times> error) list \<Rightarrow> error option" where
  "first_error [] = None"
| "first_error ((bad, e) # cs) = (if bad then Some e else first_error cs)"

definition validated :: "(bool \<times> error) list \<Rightarrow> 'a \<Rightarrow> 'a result" where
  "validated cs x = (case first_error cs of Some e \<Rightarrow> Inl e | None \<Rightarrow> Inr x)"

lemma first_error_None: "first_error cs = None \<longleftrightarrow> (\<forall>c \<in> set cs. \<not> fst c)"
  by (induction cs rule: first_error.induct) auto

lemma first_error_Some: "first_error cs = Some e \<Longrightarrow> \<exists>c \<in> set cs. fst c \<and> snd c = e"
  by (induction cs rule: first_error.induct) (auto split: if_splits)

lemma validated_Inr: "validated cs x = Inr y \<longleftrightarrow> y = x \<and> (\<forall>c \<in> set cs. \<not> fst c)"
  using first_error_None [of cs] by (auto simp: validated_def split: option.splits)

lemma validated_Inl: "validated cs x = Inl e \<longleftrightarrow> first_error cs = Some e"
  by (auto simp: validated_def split: option.splits)

definition and_then :: "'a result \<Rightarrow> ('a \<Rightarrow> 'b result) \<Rightarrow> 'b result" where
  "and_then r f = (case r of Inl e \<Rightarrow> Inl e | Inr x \<Rightarrow> f x)"

lemma and_then_simps [simp]:
  "and_then (Inl e) f = Inl e"
  "and_then (Inr x) f = f x"
  by (simp_all add: and_then_def)

lemma and_then_Inr: "and_then r f = Inr y \<longleftrightarrow> (\<exists>x. r = Inr x \<and> f x = Inr y)"
  by (cases r) auto

lemma guard_Inr: "(if b then Inl e else r) = Inr y \<longleftrightarrow> \<not> b \<and> r = Inr y"
  by simp

lemma then_unit_Inr: "and_then r (\<lambda>_ :: unit. q) = Inr y \<longleftrightarrow> r = Inr () \<and> q = Inr y"
  by (cases r) auto

definition is_error :: "'a result \<Rightarrow> bool" where
  "is_error r = (case r of Inl _ \<Rightarrow> True | Inr _ \<Rightarrow> False)"

lemma is_error_simps [simp]: "is_error (Inl e)" "\<not> is_error (Inr x)"
  by (simp_all add: is_error_def)

subsection \<open>Python strings\<close>

definition py_space :: "char \<Rightarrow> bool" where
  "py_space c = (let n = of_char c :: nat in
     (9 \<le> n \<and> n \<le> 13) \<or> (28 \<le> n \<and> n \<le> 32) \<or> n = 133 \<or> n = 160)"

definition py_strip :: "string \<Rightarrow> string" where
  "py_strip s = rev (dropWhile py_space (rev (dropWhile py_space s)))"

definition blank :: "string \<Rightarrow> bool" where
  "blank s = (py_strip s = [])"

lemma blank_iff: "blank s \<longleftrightarrow> (\<forall>c \<in> set s. py_space c)"
proof -
  have "py_strip s = [] \<longleftrightarrow> (\<forall>c \<in> set (dropWhile py_space s). py_space c)"
    by (simp add: py_strip_def)
  also have "\<dots> \<longleftrightarrow> (\<forall>c \<in> set s. py_space c)"
    by (induction s) auto
  finally show ?thesis by (simp add: blank_def)
qed

lemma blank_py_strip [simp]: "blank (py_strip s) \<longleftrightarrow> blank s"
proof
  assume b: "blank (py_strip s)"
  let ?xs = "dropWhile py_space (rev (dropWhile py_space s))"
  show "blank s"
  proof (cases "?xs = []")
    case True
    then show ?thesis by (simp add: blank_def py_strip_def)
  next
    case False
    then have "hd ?xs \<in> set (py_strip s)" by (simp add: py_strip_def)
    with b have "py_space (hd ?xs)" by (simp add: blank_iff)
    with False hd_dropWhile [of py_space "rev (dropWhile py_space s)"] show ?thesis by simp
  qed
next
  assume "blank s"
  then show "blank (py_strip s)" by (simp add: blank_def) (simp add: py_strip_def)
qed

text \<open>\<open>str.split()\<close> without a separator: the maximal runs of non-space characters.\<close>

fun split_words :: "string \<Rightarrow> string \<Rightarrow> string list" where
  "split_words acc [] = (if acc = [] then [] else [rev acc])"
| "split_words acc (c # cs) =
     (if py_space c then (if acc = [] then split_words [] cs else rev acc # split_words [] cs)
      else split_words (c # acc) cs)"

definition py_split :: "string \<Rightarrow> string list" where
  "py_split s = split_words [] s"

fun join_with :: "string \<Rightarrow> string list \<Rightarrow> string" where
  "join_with sep [] = []"
| "join_with sep [w] = w"
| "join_with sep (w # ws) = w @ sep @ join_with sep ws"

definition squeeze :: "string \<Rightarrow> string" where
  "squeeze s = join_with '' '' (py_split s)"

text \<open>\<open>" ".join(message.replace("\x00", "").split())\<close>, the cleaning of every public message.\<close>

definition clean_message :: "string \<Rightarrow> string" where
  "clean_message s = squeeze (filter (\<lambda>c. of_char c \<noteq> (0 :: nat)) s)"

definition hex_digits :: string where
  "hex_digits = ''0123456789abcdef''"

definition all_hex :: "string \<Rightarrow> bool" where
  "all_hex s = list_all (\<lambda>c. c \<in> set hex_digits) s"

definition is_sha256 :: "string \<Rightarrow> bool" where
  "is_sha256 s = (length s = 64 \<and> all_hex s)"

definition starts_with :: "string \<Rightarrow> string \<Rightarrow> bool" where
  "starts_with s p = (take (length p) s = p)"

lemma starts_with_append [simp]: "starts_with (p @ s) p"
  by (simp add: starts_with_def)

text \<open>\<open>a or b\<close> for optional strings: the empty string is falsy, like \<open>None\<close>.\<close>

definition str_or :: "string option \<Rightarrow> string option \<Rightarrow> string option" where
  "str_or a b = (case a of None \<Rightarrow> b | Some s \<Rightarrow> if s = [] then b else a)"

definition truthy :: "string option \<Rightarrow> bool" where
  "truthy a = (case a of None \<Rightarrow> False | Some s \<Rightarrow> s \<noteq> [])"

subsection \<open>Date-times\<close>

text \<open>
  \<open>dt_micros\<close> is the wall-clock reading in microseconds, \<open>dt_offset\<close> the UTC offset in
  microseconds, \<open>None\<close> for a naive value. A value is timezone-aware when
  \<open>tzinfo\<close> and \<open>utcoffset()\<close> are both present.
\<close>

record datetime =
  dt_micros :: int
  dt_offset :: "int option"

definition aware :: "datetime \<Rightarrow> bool" where
  "aware d = (dt_offset d \<noteq> None)"

definition instant :: "datetime \<Rightarrow> int" where
  "instant d = dt_micros d - (case dt_offset d of None \<Rightarrow> 0 | Some k \<Rightarrow> k)"

definition dt_plus :: "datetime \<Rightarrow> int \<Rightarrow> datetime" where
  "dt_plus d us = d\<lparr>dt_micros := dt_micros d + us\<rparr>"

definition dt_later :: "datetime \<Rightarrow> datetime \<Rightarrow> bool" where
  "dt_later a b = (instant b < instant a)"

definition as_utc :: "datetime \<Rightarrow> datetime" where
  "as_utc d = \<lparr>dt_micros = instant d, dt_offset = Some 0\<rparr>"

definition utc :: "int \<Rightarrow> datetime" where
  "utc us = \<lparr>dt_micros = us, dt_offset = Some 0\<rparr>"

lemma aware_utc [simp]: "aware (utc us)"
  by (simp add: aware_def utc_def)

lemma as_utc_instant [simp]: "instant (as_utc d) = instant d" "aware (as_utc d)"
  by (simp_all add: as_utc_def instant_def aware_def)

text \<open>\<open>datetime.date()\<close>: the day of the wall-clock reading.\<close>

definition dt_day :: "datetime \<Rightarrow> int" where
  "dt_day d = dt_micros d div 86400000000"

definition dt_or :: "datetime option \<Rightarrow> datetime \<Rightarrow> datetime option" where
  "dt_or a t = (case a of None \<Rightarrow> Some t | Some x \<Rightarrow> Some x)"

lemma dt_or_not_None [simp]: "dt_or a t \<noteq> None" "None \<noteq> dt_or a t"
  by (auto simp: dt_or_def split: option.splits)

subsection \<open>Detail payloads\<close>

datatype json =
    JNull
  | JBool bool
  | JInt int
  | JStr string
  | JUuid uuid
  | JTime datetime
  | JArr "json list"
  | JObj "(string \<times> json) list"

type_synonym details = "(string \<times> json) list"

text \<open>\<open>{**d, k: v}\<close> and \<open>d[k] = v\<close>: replace in place, append a new key at the end.\<close>

definition put :: "string \<Rightarrow> json \<Rightarrow> details \<Rightarrow> details" where
  "put k v d = AList.update k v d"

definition details_or_empty :: "details option \<Rightarrow> details" where
  "details_or_empty d = (case d of None \<Rightarrow> [] | Some xs \<Rightarrow> xs)"

lemma map_of_put [simp]: "map_of (put k v d) = (map_of d)(k \<mapsto> v)"
  by (simp add: put_def update_conv')

subsection \<open>Ordered de-duplication (dict.fromkeys)\<close>

fun fromkeys :: "'a list \<Rightarrow> 'a list" where
  "fromkeys [] = []"
| "fromkeys (x # xs) = x # filter (\<lambda>y. y \<noteq> x) (fromkeys xs)"

lemma set_fromkeys [simp]: "set (fromkeys xs) = set xs"
  by (induction xs) auto

lemma distinct_fromkeys [simp]: "distinct (fromkeys xs)"
  by (induction xs) auto

lemma fromkeys_distinct: "distinct xs \<Longrightarrow> fromkeys xs = xs"
  by (induction xs) (auto simp: filter_id_conv)

lemma fromkeys_idem [simp]: "fromkeys (fromkeys xs) = fromkeys xs"
  by (simp add: fromkeys_distinct)

lemma fromkeys_Nil [simp]: "fromkeys xs = [] \<longleftrightarrow> xs = []"
  by (cases xs) auto

text \<open>\<open>xs[-n:]\<close>: the last \<open>n\<close> elements.\<close>

definition last_n :: "nat \<Rightarrow> 'a list \<Rightarrow> 'a list" where
  "last_n n xs = drop (length xs - n) xs"

lemma length_last_n [simp]: "length (last_n n xs) = min n (length xs)"
  by (simp add: last_n_def)

lemma last_n_short: "length xs \<le> n \<Longrightarrow> last_n n xs = xs"
  by (simp add: last_n_def)

lemma last_n_snoc: "0 < n \<Longrightarrow> last_n n (xs @ [x]) = last_n (n - 1) xs @ [x]"
  by (cases n) (auto simp: last_n_def Suc_diff_le)

subsection \<open>Tuples\<close>

text \<open>\<open>xs.index(x)\<close>: the first position of \<open>x\<close>, \<open>None\<close> for its \<open>ValueError\<close>.\<close>

fun index_of :: "'a \<Rightarrow> 'a list \<Rightarrow> nat option" where
  "index_of x [] = None"
| "index_of x (y # ys) = (if x = y then Some 0 else map_option Suc (index_of x ys))"

lemma index_of_None [simp]: "index_of x xs = None \<longleftrightarrow> x \<notin> set xs"
  by (induction xs) auto

lemma index_of_Some: "index_of x xs = Some n \<Longrightarrow> n < length xs \<and> xs ! n = x \<and> x \<notin> set (take n xs)"
  by (induction xs arbitrary: n) (auto split: if_splits)

lemma index_of_nth: "distinct xs \<Longrightarrow> n < length xs \<Longrightarrow> index_of (xs ! n) xs = Some n"
  by (induction xs arbitrary: n) (auto simp: nth_Cons split: nat.splits)

subsection \<open>Searches\<close>

lemma find_append: "find P (xs @ ys) = (case find P xs of None \<Rightarrow> find P ys | Some x \<Rightarrow> Some x)"
  by (induction xs) auto

lemma find_member: "find P xs = Some x \<Longrightarrow> x \<in> set xs \<and> P x"
  by (induction xs) (auto split: if_splits)

lemma find_filter_conj: "(\<And>x. Q x \<Longrightarrow> B x) \<Longrightarrow>
    find Q (filter (\<lambda>x. A x \<and> B x) xs) = find Q (filter A xs)"
  by (induction xs) auto

lemma set_alist_update: "set (AList.update k v al) \<subseteq> insert (k, v) (set al)"
  by (induction al) auto

lemma last_sort_key:
  fixes f :: "'a \<Rightarrow> 'k :: linorder"
  assumes "d \<in> set xs" and "\<And>x. x \<in> set xs \<Longrightarrow> x \<noteq> d \<Longrightarrow> f x < f d"
  shows "\<exists>ys. sort_key f xs = ys @ [d]"
proof -
  have ne: "sort_key f xs \<noteq> []" using assms(1) by (metis empty_iff list.set(1) set_sort)
  then obtain ys y where split: "sort_key f xs = ys @ [y]" by (metis rev_exhaust)
  then have y: "y \<in> set xs" by (metis in_set_conv_decomp set_sort)
  have "sorted (map f (ys @ [y]))" using split by (metis sorted_sort_key)
  then have "\<forall>x \<in> set (ys @ [y]). f x \<le> f y" by (auto simp: sorted_append)
  moreover have "d \<in> set (ys @ [y])" using assms(1) split by (metis set_sort)
  ultimately have "f d \<le> f y" by blast
  with assms(2) [OF y] have "y = d" by force
  with split show ?thesis by blast
qed

end
