(* ===== verification/Machines.thy ===== *)
theory Machines
  imports Prelude
begin

text \<open>
  The contract every stateful entity of the program shares: an entity is a state with a set of
  operations, each either raising (the transaction is rolled back and the stored state stays) or
  producing the next state. A component provides \<open>exec\<close>; a client issues any sequence of
  operations. The locales below state what a component may promise of one operation and
  prove once what then holds of every sequence; each is interpreted on the operations of the
  components in their own theories.
\<close>

definition step :: "('op \<Rightarrow> 's \<Rightarrow> 's result) \<Rightarrow> 'op \<Rightarrow> 's \<Rightarrow> 's" where
  "step exec op s = (case exec op s of Inl _ \<Rightarrow> s | Inr s' \<Rightarrow> s')"

fun drive :: "('op \<Rightarrow> 's \<Rightarrow> 's result) \<Rightarrow> 'op list \<Rightarrow> 's \<Rightarrow> 's" where
  "drive exec [] s = s"
| "drive exec (op # ops) s = drive exec ops (step exec op s)"

text \<open>The operations of a sequence that did not raise.\<close>

fun accepted :: "('op \<Rightarrow> 's \<Rightarrow> 's result) \<Rightarrow> 'op list \<Rightarrow> 's \<Rightarrow> 'op list" where
  "accepted exec [] s = []"
| "accepted exec (op # ops) s =
     (case exec op s of
        Inl _ \<Rightarrow> accepted exec ops s
      | Inr s' \<Rightarrow> op # accepted exec ops s')"

lemma length_accepted: "length (accepted exec ops s) \<le> length ops"
  by (induction ops arbitrary: s) (auto split: sum.split simp: le_SucI)

lemma set_accepted: "set (accepted exec ops s) \<subseteq> set ops"
  by (induction ops arbitrary: s) (auto split: sum.splits)

lemma drive_append: "drive exec (xs @ ys) s = drive exec ys (drive exec xs s)"
  by (induction xs arbitrary: s) auto

lemma step_cases:
  assumes "exec op s = Inr (step exec op s) \<Longrightarrow> P (step exec op s)"
    and "\<And>e. exec op s = Inl e \<Longrightarrow> P s"
  shows "P (step exec op s)"
  using assms by (cases "exec op s") (auto simp: step_def)

text \<open>An invariant kept by every operation.\<close>

locale guarded_machine =
  fixes exec :: "'op \<Rightarrow> 's \<Rightarrow> 's result"
    and inv :: "'s \<Rightarrow> bool"
  assumes preserves: "inv s \<Longrightarrow> exec op s = Inr s' \<Longrightarrow> inv s'"
begin

lemma step_inv: "inv s \<Longrightarrow> inv (step exec op s)"
  by (rule step_cases) (auto intro: preserves)

lemma drive_inv: "inv s \<Longrightarrow> inv (drive exec ops s)"
  by (induction ops arbitrary: s) (auto intro: step_inv)

end

text \<open>
  States that an operation outside \<open>reopens\<close> never leaves, with a view of the state that
  stays the same while the machine is there.
\<close>

locale absorbing_machine =
  fixes exec :: "'op \<Rightarrow> 's \<Rightarrow> 's result"
    and final :: "'s \<Rightarrow> bool"
    and view :: "'s \<Rightarrow> 'v"
    and reopens :: "'op \<Rightarrow> bool"
  assumes absorb: "final s \<Longrightarrow> \<not> reopens op \<Longrightarrow> exec op s = Inr s' \<Longrightarrow> final s' \<and> view s' = view s"
begin

lemma step_absorb: "final s \<Longrightarrow> \<not> reopens op \<Longrightarrow>
    final (step exec op s) \<and> view (step exec op s) = view s"
  by (rule step_cases) (auto dest: absorb)

lemma drive_absorb: "final s \<Longrightarrow> list_all (\<lambda>op. \<not> reopens op) ops \<Longrightarrow>
    final (drive exec ops s) \<and> view (drive exec ops s) = view s"
proof (induction ops arbitrary: s)
  case (Cons op ops)
  then have "final (step exec op s) \<and> view (step exec op s) = view s"
    by (simp add: step_absorb)
  with Cons show ?case by simp
qed simp

end

text \<open>
  A level that an accepted operation raises by at most its allowance (which may be negative):
  along any sequence it is raised by at most the sum of the allowances of the accepted operations.
\<close>

locale metered_machine = guarded_machine exec inv
  for exec :: "'op \<Rightarrow> 's \<Rightarrow> 's result" and inv :: "'s \<Rightarrow> bool" +
  fixes level :: "'s \<Rightarrow> int"
    and allowance :: "'op \<Rightarrow> int"
  assumes metered: "inv s \<Longrightarrow> exec op s = Inr s' \<Longrightarrow> level s' \<le> level s + allowance op"
begin

lemma drive_metered:
  "inv s \<Longrightarrow> level (drive exec ops s) \<le> level s + sum_list (map allowance (accepted exec ops s))"
proof (induction ops arbitrary: s)
  case (Cons op ops)
  show ?case
  proof (cases "exec op s")
    case (Inl e)
    with Cons show ?thesis by (simp add: step_def)
  next
    case (Inr s')
    with Cons have "level (drive exec ops s') \<le> level s' + sum_list (map allowance (accepted exec ops s'))"
      using preserves by blast
    with Inr metered [OF Cons.prems Inr] show ?thesis by (simp add: step_def)
  qed
qed simp

end

text \<open>A rank that no operation lowers.\<close>

locale monotone_machine = guarded_machine exec inv
  for exec :: "'op \<Rightarrow> 's \<Rightarrow> 's result" and inv :: "'s \<Rightarrow> bool" +
  fixes rank :: "'s \<Rightarrow> int"
  assumes ascends: "inv s \<Longrightarrow> exec op s = Inr s' \<Longrightarrow> rank s \<le> rank s'"
begin

lemma step_ascends: "inv s \<Longrightarrow> rank s \<le> rank (step exec op s)"
  by (rule step_cases) (auto dest: ascends)

lemma drive_ascends: "inv s \<Longrightarrow> rank s \<le> rank (drive exec ops s)"
proof (induction ops arbitrary: s)
  case (Cons op ops)
  then have "rank (step exec op s) \<le> rank (drive exec ops (step exec op s))"
    using step_inv by blast
  with step_ascends [OF Cons.prems, of op] show ?case by simp
qed simp

end

text \<open>
  An optimistic-lock version: every operation advances it by at most one and never lowers it, so
  it is both a rank and a meter.
\<close>

locale versioned_machine = guarded_machine exec inv
  for exec :: "'op \<Rightarrow> 's \<Rightarrow> 's result" and inv :: "'s \<Rightarrow> bool" +
  fixes version :: "'s \<Rightarrow> int"
  assumes advances: "inv s \<Longrightarrow> exec op s = Inr s' \<Longrightarrow> version s \<le> version s' \<and> version s' \<le> version s + 1"

sublocale versioned_machine \<subseteq> monotone_machine exec inv version
  by unfold_locales (simp add: advances)

sublocale versioned_machine \<subseteq> metered_machine exec inv version "\<lambda>_. 1"
  by unfold_locales (simp_all add: advances)

context versioned_machine
begin

lemma drive_version:
  assumes "inv s"
  shows "version s \<le> version (drive exec ops s) \<and>
    version (drive exec ops s) \<le> version s + int (length (accepted exec ops s))"
  using drive_metered [OF assms, of ops] drive_ascends [OF assms, of ops]
  by (simp add: sum_list_replicate map_replicate_const)

end

text \<open>
  A table of rows with a primary key, as the repositories of the units of work offer it: a
  row that exists can be saved, and after a save the key reads back the row saved while the other
  keys read as before. \<open>update_row\<close> is the locked read-modify-write transaction the services are
  made of.
\<close>

definition update_row ::
  "('t \<Rightarrow> 'k \<Rightarrow> 'r option) \<Rightarrow> ('t \<Rightarrow> 'r \<Rightarrow> 't result) \<Rightarrow> ('k \<Rightarrow> error) \<Rightarrow> 'k \<Rightarrow>
   ('r \<Rightarrow> 'r result) \<Rightarrow> 't \<Rightarrow> 't result" where
  "update_row get save missing k f tbl =
     (case get tbl k of None \<Rightarrow> Inl (missing k) | Some r \<Rightarrow> and_then (f r) (save tbl))"

locale keyed_table =
  fixes key :: "'r \<Rightarrow> 'k"
    and get :: "'t \<Rightarrow> 'k \<Rightarrow> 'r option"
    and save :: "'t \<Rightarrow> 'r \<Rightarrow> 't result"
  assumes get_key: "get tbl k = Some r \<Longrightarrow> key r = k"
    and save_defined: "get tbl (key r) \<noteq> None \<Longrightarrow> \<exists>tbl'. save tbl r = Inr tbl'"
    and get_save: "save tbl r = Inr tbl' \<Longrightarrow> get tbl' k = (if k = key r then Some r else get tbl k)"
begin

lemma save_rows:
  assumes "\<And>k r. get tbl k = Some r \<Longrightarrow> P r" and "P r0" and "save tbl r0 = Inr tbl'"
  shows "get tbl' k = Some r \<Longrightarrow> P r"
  using assms by (auto simp: get_save split: if_splits)

lemma update_row_get:
  assumes "update_row get save missing k f tbl = Inr tbl'"
    and same_key: "\<And>r r'. f r = Inr r' \<Longrightarrow> key r' = key r"
  obtains r r' where "get tbl k = Some r" "f r = Inr r'"
    "\<And>k'. get tbl' k' = (if k' = k then Some r' else get tbl k')"
proof -
  from assms(1) obtain r r' where r: "get tbl k = Some r" "f r = Inr r'" "save tbl r' = Inr tbl'"
    by (auto simp: update_row_def and_then_Inr split: option.splits)
  have "key r' = k" using same_key [OF r(2)] get_key [OF r(1)] by simp
  with r show thesis using that get_save by blast
qed

lemma update_row_defined:
  assumes "get tbl k = Some r" and "f r = Inr r'" and "key r' = key r"
  shows "\<exists>tbl'. update_row get save missing k f tbl = Inr tbl'"
proof -
  have "get tbl (key r') \<noteq> None" using assms get_key by fastforce
  then obtain tbl' where "save tbl r' = Inr tbl'" using save_defined by blast
  with assms show ?thesis by (simp add: update_row_def)
qed

end

end
