(* ===== verification/Job.thy ===== *)
theory Job
  imports Machines
begin

text \<open>
  The asynchronous job entity, \<open>backend/src/cti_app/domain/jobs.py\<close>: the record, one definition
  per method, its well-formedness invariant and the laws every sequence of method calls keeps.
\<close>

subsection \<open>State\<close>

datatype job_status = Queued | Running | WaitingHuman | Succeeded | Failed | Cancelled

fun job_status_value :: "job_status \<Rightarrow> string" where
  "job_status_value Queued = ''queued''"
| "job_status_value Running = ''running''"
| "job_status_value WaitingHuman = ''waiting_human''"
| "job_status_value Succeeded = ''succeeded''"
| "job_status_value Failed = ''failed''"
| "job_status_value Cancelled = ''cancelled''"

definition terminal_job_statuses :: "job_status list" where
  [enum_defs]: "terminal_job_statuses = [Succeeded, Failed, Cancelled]"

record job =
  job_kind :: string
  job_aggregate_type :: string
  job_aggregate_id :: uuid
  job_idempotency_key :: string
  job_correlation_id :: string
  job_input_parameters :: details
  job_max_attempts :: int
  job_id :: uuid
  job_status :: job_status
  job_progress_current :: int
  job_progress_total :: int
  job_user_message :: "string option"
  job_attempt :: int
  job_next_retry_at :: "datetime option"
  job_started_at :: "datetime option"
  job_finished_at :: "datetime option"
  job_heartbeat_at :: "datetime option"
  job_error_code :: "string option"
  job_error_message :: "string option"
  job_error_details :: "details option"
  job_output_reference :: "string option"
  job_cancellation_requested_at :: "datetime option"
  job_created_at :: datetime
  job_updated_at :: datetime

text \<open>French user messages; the accented letters are given by their code points.\<close>

definition msg_retry_planned :: string where
  "msg_retry_planned = ''Nouvelle tentative planifi'' @ [CHR 0xE9] @ ''e''"
definition msg_retry_requested :: string where
  "msg_retry_requested = ''Relance demand'' @ [CHR 0xE9] @ ''e''"
definition msg_resumed :: string where
  "msg_resumed = ''Reprise valid'' @ [CHR 0xE9] @ ''e par l'' @ [CHR 0x27] @ ''analyste''"
definition msg_cancel_requested :: string where
  "msg_cancel_requested = ''Annulation demand'' @ [CHR 0xE9] @ ''e''"
definition msg_cancelled :: string where
  "msg_cancelled = ''T'' @ [CHR 0xE2] @ ''che annul'' @ [CHR 0xE9] @ ''e''"
definition msg_durable_wait :: string where
  "msg_durable_wait = ''La t'' @ [CHR 0xE2] @ ''che reprend son attente durable apr'' @ [CHR 0xE8]
     @ ''s une interruption.''"
definition msg_wait_planned :: string where
  "msg_wait_planned = ''Reprise de l'' @ [CHR 0x27] @ ''attente planifi'' @ [CHR 0xE9] @ ''e''"
definition msg_recovered :: string where
  "msg_recovered = ''La t'' @ [CHR 0xE2] @ ''che a '' @ [CHR 0xE9] @ ''t'' @ [CHR 0xE9]
     @ '' reprise apr'' @ [CHR 0xE8] @ ''s une interruption du worker.''"
definition msg_resume_planned :: string where
  "msg_resume_planned = ''Reprise planifi'' @ [CHR 0xE9] @ ''e''"
definition msg_not_recoverable :: string where
  "msg_not_recoverable = ''La t'' @ [CHR 0xE2] @ ''che a '' @ [CHR 0xE9] @ ''t'' @ [CHR 0xE9]
     @ '' interrompue et ne peut plus '' @ [CHR 0xEA] @ ''tre relanc'' @ [CHR 0xE9]
     @ ''e automatiquement.''"

subsection \<open>Construction\<close>

definition bad_progress :: "int \<Rightarrow> int \<Rightarrow> bool" where
  "bad_progress current n = (current < 0 \<or> n < 0 \<or> (0 < n \<and> n < current))"

definition job_post_init :: "job \<Rightarrow> job result" where
  "job_post_init j = validated
     [(blank (job_kind j), ValueError ''Job kind must not be empty''),
      (blank (job_aggregate_type j), ValueError ''Aggregate type must not be empty''),
      (blank (job_idempotency_key j), ValueError ''Idempotency key must not be empty''),
      (\<not> (1 \<le> job_max_attempts j \<and> job_max_attempts j \<le> 20),
        ValueError ''max_attempts must be between 1 and 20''),
      (bad_progress (job_progress_current j) (job_progress_total j),
        ValueError ''Invalid job progress'')] j"

text \<open>\<open>Job(kind=..., ...)\<close> with every defaulted field at its default.\<close>

definition new_job ::
  "uuid \<Rightarrow> datetime \<Rightarrow> string \<Rightarrow> string \<Rightarrow> uuid \<Rightarrow> string \<Rightarrow> string \<Rightarrow> details \<Rightarrow> int \<Rightarrow>
   string option \<Rightarrow> job result" where
  "new_job i t kind agg agg_id key corr params attempts msg = job_post_init
     \<lparr>job_kind = kind, job_aggregate_type = agg, job_aggregate_id = agg_id,
      job_idempotency_key = key, job_correlation_id = corr, job_input_parameters = params,
      job_max_attempts = attempts, job_id = i, job_status = Queued, job_progress_current = 0,
      job_progress_total = 0, job_user_message = msg, job_attempt = 0, job_next_retry_at = None,
      job_started_at = None, job_finished_at = None, job_heartbeat_at = None,
      job_error_code = None, job_error_message = None, job_error_details = None,
      job_output_reference = None, job_cancellation_requested_at = None, job_created_at = t,
      job_updated_at = t\<rparr>"

subsection \<open>Methods\<close>

definition job_is_terminal :: "job \<Rightarrow> bool" where
  "job_is_terminal j = (job_status j \<in> set terminal_job_statuses)"

definition job_cancellation_requested :: "job \<Rightarrow> bool" where
  "job_cancellation_requested j = (job_cancellation_requested_at j \<noteq> None)"

definition status_mismatch :: "job_status \<Rightarrow> job \<Rightarrow> error" where
  "status_mismatch expected j = InvalidJobTransition
     (''Expected '' @ job_status_value expected @ '', got '' @ job_status_value (job_status j))"

definition exhausted_attempts :: error where
  "exhausted_attempts = InvalidJobTransition ''Job has exhausted its attempts''"

definition job_start :: "datetime \<Rightarrow> job \<Rightarrow> job result" where
  [op_defs]: "job_start t j =
     (if job_status j \<noteq> Queued
      then Inl (status_mismatch Queued j)
      else if job_max_attempts j \<le> job_attempt j then Inl exhausted_attempts
      else Inr (j\<lparr>job_status := Running, job_attempt := job_attempt j + 1,
        job_started_at := dt_or (job_started_at j) t, job_finished_at := None,
        job_heartbeat_at := Some t, job_next_retry_at := None, job_error_code := None,
        job_error_message := None, job_error_details := None, job_updated_at := t\<rparr>))"

definition job_report_progress ::
  "datetime \<Rightarrow> int \<Rightarrow> int \<Rightarrow> string option \<Rightarrow> job \<Rightarrow> job result" where
  [op_defs]: "job_report_progress t current n message j =
     (if job_status j \<noteq> Running then Inl (status_mismatch Running j)
      else if bad_progress current n then Inl (ValueError ''Invalid job progress'')
      else Inr (j\<lparr>job_progress_current := current, job_progress_total := n,
        job_user_message := message, job_heartbeat_at := Some t, job_updated_at := t\<rparr>))"

definition job_record_diagnostics :: "datetime \<Rightarrow> details \<Rightarrow> job \<Rightarrow> job result" where
  [op_defs]: "job_record_diagnostics t d j =
     (if job_status j \<noteq> Running then Inl (status_mismatch Running j)
      else Inr (j\<lparr>job_error_details := Some d, job_heartbeat_at := Some t, job_updated_at := t\<rparr>))"

definition job_wait_for_human :: "datetime \<Rightarrow> string \<Rightarrow> job \<Rightarrow> job result" where
  [op_defs]: "job_wait_for_human t message j =
     (if job_status j \<noteq> Running then Inl (status_mismatch Running j)
      else Inr (j\<lparr>job_status := WaitingHuman, job_user_message := Some message,
        job_heartbeat_at := Some t, job_updated_at := t\<rparr>))"

definition job_succeed :: "datetime \<Rightarrow> string option \<Rightarrow> job \<Rightarrow> job result" where
  [op_defs]: "job_succeed t output_ref j =
     (if job_status j \<noteq> Running then Inl (status_mismatch Running j)
      else Inr (j\<lparr>job_status := Succeeded, job_output_reference := output_ref,
        job_finished_at := Some t, job_heartbeat_at := Some t, job_error_code := None,
        job_error_message := None, job_error_details := None, job_updated_at := t\<rparr>))"

definition job_fail :: "datetime \<Rightarrow> string \<Rightarrow> string \<Rightarrow> details option \<Rightarrow> job \<Rightarrow> job result" where
  [op_defs]: "job_fail t code message d j =
     (if job_status j \<noteq> Running then Inl (status_mismatch Running j)
      else Inr (j\<lparr>job_status := Failed, job_error_code := Some code,
        job_error_message := Some message, job_error_details := d, job_finished_at := Some t,
        job_heartbeat_at := Some t, job_next_retry_at := None, job_updated_at := t\<rparr>))"

definition job_schedule_retry :: "datetime \<Rightarrow> string \<Rightarrow> string \<Rightarrow> int \<Rightarrow> job \<Rightarrow> job result" where
  [op_defs]: "job_schedule_retry t code message delay j =
     (if job_status j \<noteq> Running then Inl (status_mismatch Running j)
      else if job_max_attempts j \<le> job_attempt j then Inl exhausted_attempts
      else Inr (j\<lparr>job_status := Queued, job_error_code := Some code,
        job_error_message := Some message, job_error_details := None,
        job_user_message := Some msg_retry_planned, job_next_retry_at := Some (dt_plus t delay),
        job_heartbeat_at := Some t, job_updated_at := t\<rparr>))"

definition job_retry_manually :: "datetime \<Rightarrow> job \<Rightarrow> job result" where
  [op_defs]: "job_retry_manually t j =
     (if job_status j \<notin> {Failed, WaitingHuman}
      then Inl (InvalidJobTransition
        (''Cannot retry a job in status '' @ job_status_value (job_status j)))
      else if job_max_attempts j \<le> job_attempt j then Inl exhausted_attempts
      else Inr (j\<lparr>job_status := Queued, job_next_retry_at := None, job_finished_at := None,
        job_cancellation_requested_at := None, job_error_code := None,
        job_error_message := None, job_error_details := None,
        job_user_message := Some msg_retry_requested, job_updated_at := t\<rparr>))"

definition job_resume_after_human :: "datetime \<Rightarrow> job \<Rightarrow> job result" where
  [op_defs]: "job_resume_after_human t j =
     (if job_status j \<noteq> WaitingHuman then Inl (status_mismatch WaitingHuman j)
      else Inr (j\<lparr>job_status := Queued, job_attempt := max 0 (job_attempt j - 1),
        job_next_retry_at := Some t, job_finished_at := None, job_error_code := None,
        job_error_message := None, job_user_message := Some msg_resumed, job_updated_at := t\<rparr>))"

definition job_mark_cancelled :: "datetime \<Rightarrow> job \<Rightarrow> job result" where
  [op_defs]: "job_mark_cancelled t j =
     (if job_status j \<notin> {Queued, Running, WaitingHuman}
      then Inl (InvalidJobTransition (''Cannot mark a job in status ''
        @ job_status_value (job_status j) @ '' as cancelled''))
      else Inr (j\<lparr>job_status := Cancelled,
        job_cancellation_requested_at := dt_or (job_cancellation_requested_at j) t,
        job_user_message := Some msg_cancelled, job_finished_at := Some t,
        job_heartbeat_at := Some t, job_next_retry_at := None, job_updated_at := t\<rparr>))"

definition job_request_cancellation :: "datetime \<Rightarrow> job \<Rightarrow> job result" where
  [op_defs]: "job_request_cancellation t j =
     (if job_is_terminal j then Inr j
      else
        (let j' = j\<lparr>job_cancellation_requested_at := Some t, job_updated_at := t\<rparr>
         in if job_status j' \<in> {Queued, WaitingHuman} then job_mark_cancelled t j'
            else Inr (j'\<lparr>job_user_message := Some msg_cancel_requested\<rparr>)))"

definition job_recover_abandoned :: "datetime \<Rightarrow> bool \<Rightarrow> job \<Rightarrow> job result" where
  [op_defs]: "job_recover_abandoned t resume_current_attempt j =
     (if job_status j \<noteq> Running then Inl (status_mismatch Running j)
      else if job_cancellation_requested j then job_mark_cancelled t j
      else if resume_current_attempt then
        Inr (j\<lparr>job_status := Queued, job_attempt := max 0 (job_attempt j - 1),
          job_next_retry_at := Some t, job_error_code := Some ''worker_interrupted'',
          job_error_message := Some msg_durable_wait, job_user_message := Some msg_wait_planned,
          job_updated_at := t\<rparr>)
      else if job_attempt j < job_max_attempts j then
        Inr (j\<lparr>job_status := Queued, job_next_retry_at := Some t,
          job_error_code := Some ''heartbeat_expired'', job_error_message := Some msg_recovered,
          job_user_message := Some msg_resume_planned, job_updated_at := t\<rparr>)
      else job_fail t ''heartbeat_expired'' msg_not_recoverable None j)"

text \<open>The public operations, as one machine.\<close>

datatype job_op =
    Start datetime
  | ReportProgress datetime int int "string option"
  | RecordDiagnostics datetime details
  | WaitForHuman datetime string
  | Succeed datetime "string option"
  | Fail datetime string string "details option"
  | ScheduleRetry datetime string string int
  | RetryManually datetime
  | ResumeAfterHuman datetime
  | RequestCancellation datetime
  | MarkCancelled datetime
  | RecoverAbandoned datetime bool

fun job_exec :: "job_op \<Rightarrow> job \<Rightarrow> job result" where
  "job_exec (Start t) j = job_start t j"
| "job_exec (ReportProgress t c n m) j = job_report_progress t c n m j"
| "job_exec (RecordDiagnostics t d) j = job_record_diagnostics t d j"
| "job_exec (WaitForHuman t m) j = job_wait_for_human t m j"
| "job_exec (Succeed t r) j = job_succeed t r j"
| "job_exec (Fail t c m d) j = job_fail t c m d j"
| "job_exec (ScheduleRetry t c m delay) j = job_schedule_retry t c m delay j"
| "job_exec (RetryManually t) j = job_retry_manually t j"
| "job_exec (ResumeAfterHuman t) j = job_resume_after_human t j"
| "job_exec (RequestCancellation t) j = job_request_cancellation t j"
| "job_exec (MarkCancelled t) j = job_mark_cancelled t j"
| "job_exec (RecoverAbandoned t r) j = job_recover_abandoned t r j"

subsection \<open>The invariant\<close>

text \<open>What holds in each status, and what holds in all of them.\<close>

definition job_phase :: "job \<Rightarrow> bool" where
  "job_phase j = (case job_status j of
     Queued \<Rightarrow> job_attempt j < job_max_attempts j \<and> job_finished_at j = None
   | Running \<Rightarrow> 1 \<le> job_attempt j \<and> job_started_at j \<noteq> None \<and> job_finished_at j = None
   | WaitingHuman \<Rightarrow> 1 \<le> job_attempt j \<and> job_started_at j \<noteq> None \<and> job_finished_at j = None
   | Succeeded \<Rightarrow> 1 \<le> job_attempt j \<and> job_started_at j \<noteq> None \<and> job_finished_at j \<noteq> None
       \<and> job_error_code j = None \<and> job_error_message j = None
   | Failed \<Rightarrow> 1 \<le> job_attempt j \<and> job_started_at j \<noteq> None \<and> job_finished_at j \<noteq> None
       \<and> job_error_code j \<noteq> None \<and> job_next_retry_at j = None
   | Cancelled \<Rightarrow> job_finished_at j \<noteq> None \<and> job_next_retry_at j = None
       \<and> job_cancellation_requested j)"

definition job_inv :: "job \<Rightarrow> bool" where
  "job_inv j \<longleftrightarrow>
     1 \<le> job_max_attempts j \<and> job_max_attempts j \<le> 20
   \<and> 0 \<le> job_attempt j \<and> job_attempt j \<le> job_max_attempts j
   \<and> \<not> bad_progress (job_progress_current j) (job_progress_total j)
   \<and> job_phase j"

lemmas job_simps = job_is_terminal_def job_cancellation_requested_def terminal_job_statuses_def

lemma new_job_inv: "new_job i t kind agg agg_id key corr params attempts msg = Inr j \<Longrightarrow> job_inv j"
  by (auto simp: new_job_def job_post_init_def validated_Inr job_inv_def job_phase_def)

lemma job_start_inv: "job_inv j \<Longrightarrow> job_start t j = Inr j' \<Longrightarrow> job_inv j'"
  by (auto simp: job_start_def job_inv_def job_phase_def split: if_splits)

lemma job_report_progress_inv: "job_inv j \<Longrightarrow> job_report_progress t c n m j = Inr j' \<Longrightarrow> job_inv j'"
  by (auto simp: job_report_progress_def job_inv_def job_phase_def split: if_splits)

lemma job_record_diagnostics_inv: "job_inv j \<Longrightarrow> job_record_diagnostics t d j = Inr j' \<Longrightarrow> job_inv j'"
  by (auto simp: job_record_diagnostics_def job_inv_def job_phase_def split: if_splits)

lemma job_wait_for_human_inv: "job_inv j \<Longrightarrow> job_wait_for_human t m j = Inr j' \<Longrightarrow> job_inv j'"
  by (auto simp: job_wait_for_human_def job_inv_def job_phase_def split: if_splits)

lemma job_succeed_inv: "job_inv j \<Longrightarrow> job_succeed t r j = Inr j' \<Longrightarrow> job_inv j'"
  by (auto simp: job_succeed_def job_inv_def job_phase_def split: if_splits)

lemma job_fail_inv: "job_inv j \<Longrightarrow> job_fail t c m d j = Inr j' \<Longrightarrow> job_inv j'"
  by (auto simp: job_fail_def job_inv_def job_phase_def split: if_splits)

lemma job_schedule_retry_inv: "job_inv j \<Longrightarrow> job_schedule_retry t c m delay j = Inr j' \<Longrightarrow> job_inv j'"
  by (auto simp: job_schedule_retry_def job_inv_def job_phase_def split: if_splits)

lemma job_retry_manually_inv: "job_inv j \<Longrightarrow> job_retry_manually t j = Inr j' \<Longrightarrow> job_inv j'"
  by (auto simp: job_retry_manually_def job_inv_def job_phase_def split: if_splits)

lemma job_resume_after_human_inv: "job_inv j \<Longrightarrow> job_resume_after_human t j = Inr j' \<Longrightarrow> job_inv j'"
  by (auto simp: job_resume_after_human_def job_inv_def job_phase_def split: if_splits)

lemma job_mark_cancelled_inv: "job_inv j \<Longrightarrow> job_mark_cancelled t j = Inr j' \<Longrightarrow> job_inv j'"
  by (auto simp: job_mark_cancelled_def job_inv_def job_phase_def job_cancellation_requested_def
    split: if_splits)

text \<open>Recording the request itself keeps the invariant in a status that is not terminal.\<close>

lemma job_request_mark_inv:
  "job_inv j \<Longrightarrow> \<not> job_is_terminal j \<Longrightarrow>
   job_inv (j\<lparr>job_cancellation_requested_at := Some t, job_updated_at := t\<rparr>)"
  by (cases "job_status j") (auto simp: job_inv_def job_phase_def job_simps)

lemma job_user_message_inv [simp]: "job_inv (j\<lparr>job_user_message := m\<rparr>) = job_inv j"
  by (simp add: job_inv_def job_phase_def job_cancellation_requested_def cong: job_status.case_cong)

lemma job_request_cancellation_inv: "job_inv j \<Longrightarrow> job_request_cancellation t j = Inr j' \<Longrightarrow> job_inv j'"
  by (auto simp: job_request_cancellation_def Let_def
    dest: job_request_mark_inv [of j t] job_mark_cancelled_inv split: if_splits)

lemma job_recover_abandoned_inv: "job_inv j \<Longrightarrow> job_recover_abandoned t r j = Inr j' \<Longrightarrow> job_inv j'"
proof (cases "job_cancellation_requested j \<or> \<not> r \<and> job_max_attempts j \<le> job_attempt j")
  case True
  moreover assume "job_inv j" "job_recover_abandoned t r j = Inr j'"
  ultimately show ?thesis
    by (auto simp: job_recover_abandoned_def dest: job_mark_cancelled_inv job_fail_inv split: if_splits)
next
  case False
  moreover assume "job_inv j" "job_recover_abandoned t r j = Inr j'"
  ultimately show ?thesis
    by (auto simp: job_recover_abandoned_def job_inv_def job_phase_def split: if_splits)
qed

lemmas job_op_invs = job_start_inv job_report_progress_inv job_record_diagnostics_inv
  job_wait_for_human_inv job_succeed_inv job_fail_inv job_schedule_retry_inv
  job_retry_manually_inv job_resume_after_human_inv job_mark_cancelled_inv
  job_request_cancellation_inv job_recover_abandoned_inv

lemma job_exec_inv: "job_inv j \<Longrightarrow> job_exec op j = Inr j' \<Longrightarrow> job_inv j'"
  by (cases op) (auto intro: job_op_invs)

interpretation job_machine: guarded_machine job_exec job_inv
  by unfold_locales (rule job_exec_inv)

subsection \<open>What sequences of operations keep\<close>

text \<open>A succeeded or cancelled job is frozen: every later call raises or leaves it as it is.\<close>

definition job_settled :: "job \<Rightarrow> bool" where
  "job_settled j = (job_status j \<in> {Succeeded, Cancelled})"

lemma job_settled_frozen: "job_settled j \<Longrightarrow> job_exec op j = Inr j' \<Longrightarrow> j' = j"
  by (cases op) (auto simp: op_defs job_settled_def job_simps split: if_splits)

interpretation job_settled_machine: absorbing_machine job_exec job_settled "\<lambda>j. j" "\<lambda>_. False"
  by unfold_locales (auto dest: job_settled_frozen)

text \<open>Attempts are spent by starts and given back by the two resumptions only.\<close>

fun op_starts :: "job_op \<Rightarrow> bool" where
  "op_starts (Start _) = True"
| "op_starts _ = False"

fun op_refunds :: "job_op \<Rightarrow> bool" where
  "op_refunds (ResumeAfterHuman _) = True"
| "op_refunds (RecoverAbandoned _ resume) = resume"
| "op_refunds _ = False"

definition attempt_allowance :: "job_op \<Rightarrow> int" where
  "attempt_allowance op = (if op_starts op then -1 else if op_refunds op then 1 else 0)"

lemma attempt_metered: "job_exec op j = Inr j' \<Longrightarrow> - job_attempt j' \<le> - job_attempt j + attempt_allowance op"
  by (cases op) (auto simp: op_defs attempt_allowance_def Let_def split: if_splits)

interpretation job_attempt_meter: metered_machine job_exec job_inv "\<lambda>j. - job_attempt j" attempt_allowance
  by unfold_locales (rule attempt_metered)

lemma sum_attempt_allowance:
  "sum_list (map attempt_allowance ops)
     = int (length (filter op_refunds ops)) - int (length (filter op_starts ops))"
proof (induction ops)
  case (Cons op ops)
  have "\<not> (op_starts op \<and> op_refunds op)" by (cases op) auto
  with Cons show ?case by (auto simp: attempt_allowance_def)
qed simp

lemma job_max_attempts_fixed: "job_exec op j = Inr j' \<Longrightarrow> job_max_attempts j' = job_max_attempts j"
  by (cases op) (auto simp: op_defs Let_def split: if_splits)

lemma job_identity_fixed: "job_exec op j = Inr j' \<Longrightarrow>
    job_id j' = job_id j \<and> job_idempotency_key j' = job_idempotency_key j \<and> job_kind j' = job_kind j
    \<and> job_input_parameters j' = job_input_parameters j"
  by (cases op) (auto simp: op_defs Let_def split: if_splits)

lemma drive_max_attempts [simp]: "job_max_attempts (drive job_exec ops j) = job_max_attempts j"
proof (induction ops arbitrary: j)
  case (Cons op ops)
  have "job_max_attempts (step job_exec op j) = job_max_attempts j"
    by (rule step_cases) (auto dest: job_max_attempts_fixed)
  with Cons show ?case by simp
qed simp

subsection \<open>Properties\<close>

definition demo_time :: datetime where "demo_time = utc 0"

definition demo_job :: job where
  "demo_job = \<lparr>job_kind = ''demo'', job_aggregate_type = ''subject'', job_aggregate_id = 7,
      job_idempotency_key = ''k'', job_correlation_id = ''c'', job_input_parameters = [],
      job_max_attempts = 3, job_id = 1, job_status = Queued, job_progress_current = 0,
      job_progress_total = 0, job_user_message = None, job_attempt = 0, job_next_retry_at = None,
      job_started_at = None, job_finished_at = None, job_heartbeat_at = None,
      job_error_code = None, job_error_message = None, job_error_details = None,
      job_output_reference = None, job_cancellation_requested_at = None,
      job_created_at = demo_time, job_updated_at = demo_time\<rparr>"

lemma demo_job_new: "new_job 1 demo_time ''demo'' ''subject'' 7 ''k'' ''c'' [] 3 None = Inr demo_job"
  by (simp add: new_job_def job_post_init_def validated_def bad_progress_def demo_job_def
      blank_iff py_space_def)

text \<open>
  C22. A job built by its constructor keeps its invariant under every sequence of method calls
  (calls that raise are rolled back): the attempt counter stays within its limit, a queued job can
  always still be started, a job has an end time exactly when it is terminal, a succeeded job
  carries no error and a cancelled one carries its cancellation request.
\<close>

theorem job_wellformed:
  assumes "new_job i t kind agg agg_id key corr params attempts msg = Inr j0"
    and "j = drive job_exec ops j0"
  shows "0 \<le> job_attempt j \<and> job_attempt j \<le> job_max_attempts j
    \<and> \<not> bad_progress (job_progress_current j) (job_progress_total j)
    \<and> (job_status j = Queued \<longrightarrow> job_attempt j < job_max_attempts j)
    \<and> (job_is_terminal j \<longleftrightarrow> job_finished_at j \<noteq> None)
    \<and> (job_status j = Succeeded \<longrightarrow> job_error_code j = None)
    \<and> (job_status j = Failed \<longrightarrow> job_error_code j \<noteq> None \<and> job_next_retry_at j = None)
    \<and> (job_status j = Cancelled \<longrightarrow> job_cancellation_requested j)"
proof -
  have "job_inv j" using assms job_machine.drive_inv new_job_inv by blast
  then show ?thesis
    by (cases "job_status j") (auto simp: job_inv_def job_phase_def job_simps)
qed

theorem job_wellformed_witness:
  "job_attempt (drive job_exec [Start demo_time, Fail demo_time ''x'' ''y'' None, Start demo_time] demo_job)
     \<le> job_max_attempts (drive job_exec [Start demo_time, Fail demo_time ''x'' ''y'' None, Start demo_time] demo_job)"
  using job_wellformed [OF demo_job_new refl] by blast

text \<open>
  C17. The exhaustion guard of \<open>start\<close> never fires for a job built by its constructor: whenever such
  a job is queued, \<open>start\<close> succeeds, the job runs and one attempt is consumed.
\<close>

theorem queued_job_starts:
  assumes "new_job i t kind agg agg_id key corr params attempts msg = Inr j0"
    and "j = drive job_exec ops j0" and "job_status j = Queued"
  shows "\<exists>j'. job_start u j = Inr j' \<and> job_status j' = Running \<and> job_attempt j' = job_attempt j + 1
    \<and> job_error_code j' = None \<and> job_finished_at j' = None"
proof -
  have "job_inv j" using assms(1,2) job_machine.drive_inv new_job_inv by blast
  with assms(3) show ?thesis by (simp add: job_start_def job_inv_def job_phase_def)
qed

theorem queued_job_starts_witness:
  "\<exists>j'. job_start demo_time (drive job_exec
       [Start demo_time, ScheduleRetry demo_time ''x'' ''y'' 5] demo_job) = Inr j' \<and> job_status j' = Running"
proof -
  have "job_status (drive job_exec [Start demo_time, ScheduleRetry demo_time ''x'' ''y'' 5] demo_job) = Queued"
    by (simp add: step_def job_start_def job_schedule_retry_def demo_job_def)
  from queued_job_starts [OF demo_job_new refl this, of demo_time] show ?thesis by blast
qed

text \<open>
  Once a job has succeeded or is cancelled, no sequence of calls changes any of its fields.
\<close>

theorem settled_job_frozen:
  assumes "job_status j = Succeeded \<or> job_status j = Cancelled"
  shows "drive job_exec ops j = j"
  using job_settled_machine.drive_absorb [of j ops] assms by (simp add: job_settled_def list_all_iff)

theorem settled_job_frozen_witness:
  "drive job_exec [RetryManually demo_time, RequestCancellation demo_time]
     (demo_job\<lparr>job_status := Cancelled\<rparr>) = demo_job\<lparr>job_status := Cancelled\<rparr>"
  by (rule settled_job_frozen) simp

text \<open>
  C23. The attempt limit bounds the work: in any sequence of calls on a new job, the number of
  accepted starts is at most \<open>max_attempts\<close> plus the number of accepted resumptions that refund the
  attempt (after a human answer, or a durable wait that survived its worker).
\<close>

theorem job_starts_bounded:
  assumes "new_job i t kind agg agg_id key corr params attempts msg = Inr j0"
    and "done = accepted job_exec ops j0"
  shows "int (length (filter op_starts done)) \<le> job_max_attempts j0 + int (length (filter op_refunds done))"
proof -
  have inv: "job_inv j0" by (rule new_job_inv [OF assms(1)])
  then have "job_inv (drive job_exec ops j0)" by (rule job_machine.drive_inv)
  then have "job_attempt (drive job_exec ops j0) \<le> job_max_attempts j0"
    by (simp add: job_inv_def)
  moreover have "0 \<le> job_attempt j0" using inv by (simp add: job_inv_def)
  ultimately show ?thesis
    using job_attempt_meter.drive_metered [OF inv, of ops] assms(2) by (simp add: sum_attempt_allowance)
qed

theorem job_starts_bounded_witness:
  "int (length (filter op_starts (accepted job_exec [Start demo_time, Start demo_time] demo_job))) \<le> 3 + 0"
proof -
  have "length (filter op_refunds (accepted job_exec [Start demo_time, Start demo_time] demo_job)) = 0"
    by (simp add: job_start_def demo_job_def)
  with job_starts_bounded [OF demo_job_new refl, of "[Start demo_time, Start demo_time]"]
  show ?thesis by (simp add: demo_job_def)
qed

end
