(* ===== verification/JobService.thy ===== *)
theory JobService
  imports Job
begin

text \<open>
  The job service, worker and inline dispatcher, \<open>backend/src/cti_app/application/jobs.py\<close>, over the
  job and job-event tables (\<open>infrastructure/database/repositories/jobs.py\<close>). Every unit of work
  that takes the row lock is one atomic transaction on \<open>job_store\<close>; the operation datatype
  \<open>store_op\<close> collects them, so a sequence of operations is any interleaving of API calls, workers and
  the recovery process. Parameter models (pydantic) and handlers are parameters of the model.
\<close>

subsection \<open>Tables\<close>

record job_event =
  ev_job_id :: uuid
  ev_type :: string
  ev_from :: "job_status option"
  ev_to :: job_status
  ev_actor :: string
  ev_correlation :: string
  ev_payload :: details

text \<open>
  The production batch tables are read only here: the batch of a production run, and whether
  a batch exists and is paused.
\<close>

record job_store =
  st_jobs :: "job list"
  st_events :: "job_event list"
  st_batch_of_run :: "uuid \<Rightarrow> uuid option"
  st_batch_paused :: "uuid \<Rightarrow> bool option"

definition jobs_get :: "job_store \<Rightarrow> uuid \<Rightarrow> job option" where
  "jobs_get st i = find (\<lambda>j. job_id j = i) (st_jobs st)"

definition jobs_by_key :: "job_store \<Rightarrow> string \<Rightarrow> job option" where
  "jobs_by_key st k = find (\<lambda>j. job_idempotency_key j = k) (st_jobs st)"

text \<open>\<open>INSERT ... ON CONFLICT (idempotency_key) DO NOTHING\<close>; another row with the same primary key
  is an integrity error of the database.\<close>

definition jobs_add_if_absent :: "job_store \<Rightarrow> job \<Rightarrow> (bool \<times> job_store) result" where
  "jobs_add_if_absent st j =
     (if jobs_by_key st (job_idempotency_key j) \<noteq> None then Inr (False, st)
      else if jobs_get st (job_id j) \<noteq> None then Inl (RuntimeErr ''IntegrityError'')
      else Inr (True, st\<lparr>st_jobs := st_jobs st @ [j]\<rparr>))"

definition jobs_save :: "job_store \<Rightarrow> job \<Rightarrow> job_store result" where
  "jobs_save st j =
     (if jobs_get st (job_id j) = None then Inl (KeyErr ''Job does not exist'')
      else Inr (st\<lparr>st_jobs := map (\<lambda>r. if job_id r = job_id j then j else r) (st_jobs st)\<rparr>))"

text \<open>Rows a recovery pass takes: running, and silent since before the cutoff, oldest first.\<close>

definition abandoned_row :: "datetime \<Rightarrow> job \<Rightarrow> bool" where
  "abandoned_row cutoff j =
     (job_status j = Running \<and>
      (case job_heartbeat_at j of None \<Rightarrow> False | Some h \<Rightarrow> dt_later cutoff h))"

definition jobs_list_abandoned :: "job_store \<Rightarrow> datetime \<Rightarrow> job list" where
  "jobs_list_abandoned st cutoff =
     sort_key (\<lambda>j. case job_heartbeat_at j of None \<Rightarrow> 0 | Some h \<Rightarrow> instant h)
       (sort_key job_id (filter (abandoned_row cutoff) (st_jobs st)))"

definition append_event :: "job \<Rightarrow> job_status option \<Rightarrow> string \<Rightarrow> string \<Rightarrow> job_store \<Rightarrow> job_store" where
  "append_event j from_status event_type actor st = st\<lparr>st_events := st_events st @
     [\<lparr>ev_job_id = job_id j, ev_type = event_type, ev_from = from_status, ev_to = job_status j,
       ev_actor = actor, ev_correlation = job_correlation_id j,
       ev_payload = [(''attempt'', JInt (job_attempt j)),
         (''progress_current'', JInt (job_progress_current j)),
         (''progress_total'', JInt (job_progress_total j))]\<rparr>]\<rparr>"

lemma append_event_jobs [simp]:
  "st_jobs (append_event j f ty a st) = st_jobs st"
  "st_batch_of_run (append_event j f ty a st) = st_batch_of_run st"
  "st_batch_paused (append_event j f ty a st) = st_batch_paused st"
  "jobs_get (append_event j f ty a st) i = jobs_get st i"
  by (simp_all add: append_event_def jobs_get_def)

definition production_prefix :: string where "production_prefix = ''production.''"

text \<open>\<open>_job_batch_is_paused\<close>; a run id is the JSON text of a UUID, any other text is not one.\<close>

definition job_batch_is_paused :: "job_store \<Rightarrow> job \<Rightarrow> bool" where
  "job_batch_is_paused st j =
     (if \<not> starts_with (job_kind j) production_prefix then False
      else case map_of (job_input_parameters j) ''run_id'' of
        Some (JUuid run) \<Rightarrow>
          (case st_batch_of_run st run of
             None \<Rightarrow> False
           | Some b \<Rightarrow> st_batch_paused st b = Some True)
      | _ \<Rightarrow> False)"

subsection \<open>JobService\<close>

text \<open>\<open>registry kind\<close> is the parameter model registered for the kind, if any.\<close>

definition registry_validate ::
  "(string \<Rightarrow> (details \<Rightarrow> details result) option) \<Rightarrow> string \<Rightarrow> details \<Rightarrow> details result" where
  "registry_validate registry kind params =
     (case registry kind of None \<Rightarrow> Inl (UnknownJobKind kind) | Some model \<Rightarrow> model params)"

definition submit ::
  "(string \<Rightarrow> (details \<Rightarrow> details result) option) \<Rightarrow> uuid \<Rightarrow> datetime \<Rightarrow> string \<Rightarrow> string \<Rightarrow> uuid \<Rightarrow>
   string \<Rightarrow> string \<Rightarrow> details \<Rightarrow> int \<Rightarrow> string \<Rightarrow> job_store \<Rightarrow> (job \<times> job_store) result" where
  "submit registry i t kind agg agg_id key corr params attempts actor st =
     and_then (registry_validate registry kind params) (\<lambda>ps.
     and_then (new_job i t kind agg agg_id key corr ps attempts
                (Some (''T'' @ [CHR 0xE2] @ ''che en attente''))) (\<lambda>j.
     and_then (jobs_add_if_absent st j) (\<lambda>(inserted, st').
       if \<not> inserted then
         (case jobs_by_key st' key of
            None \<Rightarrow> Inl (RuntimeErr ''Idempotency conflict without an existing job'')
          | Some existing \<Rightarrow> Inl (DuplicateJob (job_id existing)))
       else Inr (j, append_event j None ''job.submitted'' actor st'))))"

text \<open>Read the locked row, change it, save it, log the event.\<close>

definition change_job ::
  "uuid \<Rightarrow> (job \<Rightarrow> job result) \<Rightarrow> (job \<Rightarrow> string) \<Rightarrow> string \<Rightarrow> job_store \<Rightarrow> job_store result" where
  "change_job i f event_type actor st =
     (case jobs_get st i of
        None \<Rightarrow> Inl (JobNotFound i)
      | Some j \<Rightarrow> and_then (f j) (\<lambda>j'. and_then (jobs_save st j') (\<lambda>st'.
          Inr (append_event j' (Some (job_status j)) (event_type j') actor st'))))"

text \<open>The same without an event, as the progress and lease updates do.\<close>

definition touch_job :: "uuid \<Rightarrow> (job \<Rightarrow> job result) \<Rightarrow> job_store \<Rightarrow> job_store result" where
  "touch_job i f st = update_row jobs_get jobs_save JobNotFound i f st"

definition cancel :: "datetime \<Rightarrow> uuid \<Rightarrow> string \<Rightarrow> job_store \<Rightarrow> job_store result" where
  "cancel t i actor st =
     (case jobs_get st i of
        None \<Rightarrow> Inl (JobNotFound i)
      | Some j \<Rightarrow> if job_is_terminal j then Inr st
          else change_job i (job_request_cancellation t) (\<lambda>_. ''job.cancellation_requested'') actor st)"

definition retry :: "datetime \<Rightarrow> uuid \<Rightarrow> string \<Rightarrow> job_store \<Rightarrow> job_store result" where
  "retry t i actor st =
     (case jobs_get st i of
        None \<Rightarrow> Inl (JobNotFound i)
      | Some j \<Rightarrow> if job_batch_is_paused st j then Inl JobPausedBatch
          else change_job i (job_retry_manually t) (\<lambda>_. ''job.retry_requested'') actor st)"

definition resume_waiting_human :: "datetime \<Rightarrow> uuid \<Rightarrow> string \<Rightarrow> job_store \<Rightarrow> job_store result" where
  "resume_waiting_human t i actor st =
     change_job i (job_resume_after_human t) (\<lambda>_. ''job.human_resumed'') actor st"

text \<open>\<open>recover_abandoned\<close>: the rows listed at the start of the pass, one after the other, in one
  transaction; \<open>resumes kind\<close> is the durable-wait policy of the kind.\<close>

fun recover_rows :: "datetime \<Rightarrow> (string \<Rightarrow> bool) \<Rightarrow> job list \<Rightarrow> job_store \<Rightarrow> job_store result" where
  "recover_rows t resumes [] st = Inr st"
| "recover_rows t resumes (j # js) st =
     (if job_batch_is_paused st j then recover_rows t resumes js st
      else and_then (job_recover_abandoned t (resumes (job_kind j)) j) (\<lambda>j'.
        and_then (jobs_save st j') (\<lambda>st'.
          recover_rows t resumes js
            (append_event j' (Some (job_status j)) ''job.heartbeat_recovered'' ''system:recovery'' st'))))"

definition recover_abandoned ::
  "datetime \<Rightarrow> int \<Rightarrow> (string \<Rightarrow> bool) \<Rightarrow> job_store \<Rightarrow> job_store result" where
  "recover_abandoned t heartbeat_timeout resumes st =
     recover_rows t resumes (jobs_list_abandoned st (dt_plus t (- heartbeat_timeout))) st"

subsection \<open>The execution context a handler sees\<close>

text \<open>
  A context call commits its transaction and may then raise: the result is the exception raised
  after the commit, if any, with the store. \<open>Inl\<close> is an exception before the commit.
\<close>

type_synonym ctx_result = "(error option \<times> job_store) result"

definition cancel_in_context :: "datetime \<Rightarrow> uuid \<Rightarrow> job_store \<Rightarrow> ctx_result" where
  "cancel_in_context t i st =
     and_then (change_job i (job_mark_cancelled t) (\<lambda>_. ''job.cancelled'') ''system:worker'' st)
       (\<lambda>st'. Inr (Some JobCancelled, st'))"

definition ctx_guarded :: "datetime \<Rightarrow> uuid \<Rightarrow> (job \<Rightarrow> job result) \<Rightarrow> job_store \<Rightarrow> ctx_result" where
  "ctx_guarded t i f st =
     (case jobs_get st i of
        None \<Rightarrow> Inl (JobNotFound i)
      | Some j \<Rightarrow> if job_cancellation_requested j then cancel_in_context t i st
          else and_then (touch_job i f st) (\<lambda>st'. Inr (None, st')))"

definition ctx_report_progress ::
  "datetime \<Rightarrow> uuid \<Rightarrow> int \<Rightarrow> int \<Rightarrow> string option \<Rightarrow> job_store \<Rightarrow> ctx_result" where
  "ctx_report_progress t i c n m st = ctx_guarded t i (job_report_progress t c n m) st"

definition ctx_check_cancelled :: "datetime \<Rightarrow> uuid \<Rightarrow> job_store \<Rightarrow> ctx_result" where
  "ctx_check_cancelled t i st =
     (case jobs_get st i of
        None \<Rightarrow> Inl (JobNotFound i)
      | Some j \<Rightarrow> if \<not> job_cancellation_requested j then Inr (None, st) else cancel_in_context t i st)"

definition ctx_heartbeat :: "datetime \<Rightarrow> uuid \<Rightarrow> job_store \<Rightarrow> ctx_result" where
  "ctx_heartbeat t i st = ctx_guarded t i (\<lambda>j. job_report_progress t
     (job_progress_current j) (job_progress_total j) (job_user_message j) j) st"

definition ctx_record_diagnostics :: "datetime \<Rightarrow> uuid \<Rightarrow> details \<Rightarrow> job_store \<Rightarrow> ctx_result" where
  "ctx_record_diagnostics t i d st = ctx_guarded t i (job_record_diagnostics t d) st"

definition ctx_wait_for_human :: "datetime \<Rightarrow> uuid \<Rightarrow> string \<Rightarrow> details \<Rightarrow> job_store \<Rightarrow> ctx_result" where
  "ctx_wait_for_human t i m d st =
     and_then (touch_job i (\<lambda>j. and_then (job_record_diagnostics t d j) (job_wait_for_human t m)) st)
       (\<lambda>st'. Inr (Some JobWaitingHuman, st'))"

subsection \<open>The worker: JobExecutor\<close>

text \<open>Retry delays in microseconds; doubling an integer number of seconds is exact in the floats of
  the source.\<close>

record retry_policy =
  rp_base :: int
  rp_max :: int
  rp_bridge_base :: int
  rp_bridge_max :: int

definition default_retry_policy :: retry_policy where
  "default_retry_policy = \<lparr>rp_base = 1000000, rp_max = 300000000,
     rp_bridge_base = 300000000, rp_bridge_max = 1800000000\<rparr>"

definition retry_delay :: "retry_policy \<Rightarrow> string \<Rightarrow> int \<Rightarrow> int" where
  "retry_delay p code attempt =
     (let base = (if code = ''bridge_ui_timeout'' then rp_bridge_base p else rp_base p);
          cap = (if code = ''bridge_ui_timeout'' then rp_bridge_max p else rp_max p)
      in min cap (base * 2 ^ nat (attempt - 1)))"

definition clean_public_message :: "string \<Rightarrow> string" where
  "clean_public_message m =
     (let cleaned = take 500 (clean_message m)
      in if cleaned = [] then ''Le traitement a '' @ [CHR 0xE9] @ ''chou'' @ [CHR 0xE9] @ ''.''
         else cleaned)"

definition internal_error_message :: string where
  "internal_error_message = ''Une erreur interne est survenue pendant le traitement.''"

text \<open>\<open>_start\<close>: the job as saved or read, whether this worker claimed it, and the store.\<close>

definition claim :: "datetime \<Rightarrow> bool \<Rightarrow> uuid \<Rightarrow> job_store \<Rightarrow> (job \<times> bool \<times> job_store) result" where
  "claim t allow_early_retry i st =
     (case jobs_get st i of
        None \<Rightarrow> Inl (JobNotFound i)
      | Some j \<Rightarrow>
          if job_is_terminal j \<or> job_status j \<noteq> Queued then Inr (j, False, st)
          else if job_batch_is_paused st j then
            (if job_next_retry_at j \<noteq> None then
               (let j' = j\<lparr>job_next_retry_at := None, job_updated_at := t\<rparr>
                in and_then (jobs_save st j') (\<lambda>st'. Inr (j', False, st')))
             else Inr (j, False, st))
          else if (case job_next_retry_at j of None \<Rightarrow> False | Some r \<Rightarrow> dt_later r t)
                  \<and> \<not> allow_early_retry
          then Inr (j, False, st)
          else
            (let claimed = (\<not> job_cancellation_requested j)
             in and_then (if claimed then job_start t j else job_mark_cancelled t j) (\<lambda>j'.
                and_then (jobs_save st j') (\<lambda>st'.
                  Inr (j', claimed, append_event j' (Some (job_status j))
                    (if claimed then ''job.started'' else ''job.cancelled'') ''system:worker'' st')))))"

definition finish_succeeded :: "datetime \<Rightarrow> uuid \<Rightarrow> string option \<Rightarrow> job_store \<Rightarrow> job_store result" where
  "finish_succeeded t i output_ref st =
     change_job i
       (\<lambda>j. if job_cancellation_requested j then job_mark_cancelled t j else job_succeed t output_ref j)
       (\<lambda>j'. if job_status j' = Cancelled then ''job.cancelled'' else ''job.succeeded'')
       ''system:worker'' st"

record handler_error =
  he_code :: string
  he_public_message :: string
  he_transient :: bool
  he_details :: "details option"

definition msg_batch_paused :: string where
  "msg_batch_paused = ''Le lot de production est en pause.''"

definition finish_controlled_failure ::
  "retry_policy \<Rightarrow> datetime \<Rightarrow> uuid \<Rightarrow> handler_error \<Rightarrow> job_store \<Rightarrow> job_store result" where
  "finish_controlled_failure p t i err st =
     (case jobs_get st i of
        None \<Rightarrow> Inl (JobNotFound i)
      | Some j \<Rightarrow>
          if he_transient err \<and> job_batch_is_paused st j then
            change_job i (job_wait_for_human t msg_batch_paused) (\<lambda>_. ''job.waiting_human'')
              ''system:worker'' st
          else
            change_job i
              (\<lambda>j. if job_cancellation_requested j then job_mark_cancelled t j
                 else if he_transient err \<and> job_attempt j < job_max_attempts j then
                   job_schedule_retry t (he_code err) (clean_public_message (he_public_message err))
                     (retry_delay p (he_code err) (job_attempt j)) j
                 else job_fail t (he_code err) (clean_public_message (he_public_message err))
                   (he_details err) j)
              (\<lambda>j'. if job_status j' = Cancelled then ''job.cancelled''
                 else if job_status j' = Queued then ''job.retry_scheduled'' else ''job.failed'')
              ''system:worker'' st)"

definition finish_failed :: "datetime \<Rightarrow> uuid \<Rightarrow> string \<Rightarrow> string \<Rightarrow> job_store \<Rightarrow> job_store result" where
  "finish_failed t i code message st =
     change_job i
       (\<lambda>j. if job_cancellation_requested j then job_mark_cancelled t j else job_fail t code message None j)
       (\<lambda>j'. if job_status j' = Cancelled then ''job.cancelled'' else ''job.failed'')
       ''system:worker'' st"

text \<open>
  One execution. A handler is the list of context calls it makes (the lease heartbeats among
  them), unless one of them raises, and the way it then ends.
\<close>

datatype ctx_call =
    CallProgress datetime int int "string option"
  | CallCheckCancelled datetime
  | CallHeartbeat datetime
  | CallDiagnostics datetime details
  | CallWaitForHuman datetime string details

datatype outcome = Returned "string option" | Refused handler_error | Crashed

fun ctx_run :: "uuid \<Rightarrow> ctx_call \<Rightarrow> job_store \<Rightarrow> ctx_result" where
  "ctx_run i (CallProgress t c n m) st = ctx_report_progress t i c n m st"
| "ctx_run i (CallCheckCancelled t) st = ctx_check_cancelled t i st"
| "ctx_run i (CallHeartbeat t) st = ctx_heartbeat t i st"
| "ctx_run i (CallDiagnostics t d) st = ctx_record_diagnostics t i d st"
| "ctx_run i (CallWaitForHuman t m d) st = ctx_wait_for_human t i m d st"

fun run_handler :: "uuid \<Rightarrow> ctx_call list \<Rightarrow> job_store \<Rightarrow> error option \<times> job_store" where
  "run_handler i [] st = (None, st)"
| "run_handler i (c # cs) st =
     (case ctx_run i c st of
        Inl e \<Rightarrow> (Some e, st)
      | Inr (Some e, st') \<Rightarrow> (Some e, st')
      | Inr (None, st') \<Rightarrow> run_handler i cs st')"

definition read_back :: "uuid \<Rightarrow> job_store result \<Rightarrow> job_store \<Rightarrow> job result \<times> job_store" where
  "read_back i r st =
     (case r of
        Inl e \<Rightarrow> (Inl e, st)
      | Inr st' \<Rightarrow> (case jobs_get st' i of None \<Rightarrow> Inl (JobNotFound i) | Some j \<Rightarrow> Inr j, st'))"

definition crash :: "datetime \<Rightarrow> uuid \<Rightarrow> job_store \<Rightarrow> job result \<times> job_store" where
  "crash t i st = read_back i (finish_failed t i ''internal_error'' internal_error_message st) st"

definition conclude_run ::
  "retry_policy \<Rightarrow> datetime \<Rightarrow> uuid \<Rightarrow> outcome \<Rightarrow> error option \<times> job_store \<Rightarrow> job result \<times> job_store" where
  "conclude_run p t i out r =
     (case r of
        (Some e, st) \<Rightarrow>
          if e = JobCancelled \<or> e = JobWaitingHuman then read_back i (Inr st) st else crash t i st
      | (None, st) \<Rightarrow>
          (case out of
             Returned output_ref \<Rightarrow>
               (case finish_succeeded t i output_ref st of
                  Inl _ \<Rightarrow> crash t i st
                | Inr st' \<Rightarrow> read_back i (Inr st') st)
           | Refused err \<Rightarrow> read_back i (finish_controlled_failure p t i err st) st
           | Crashed \<Rightarrow> crash t i st))"

definition execute ::
  "(string \<Rightarrow> (details \<Rightarrow> details result) option) \<Rightarrow> retry_policy \<Rightarrow>
   (job \<Rightarrow> ctx_call list \<times> outcome \<times> datetime) \<Rightarrow> datetime \<Rightarrow> bool \<Rightarrow> uuid \<Rightarrow> job_store \<Rightarrow>
   job result \<times> job_store" where
  "execute registry p handler t early i st =
     (case claim t early i st of
        Inl e \<Rightarrow> (Inl e, st)
      | Inr (j, claimed, st') \<Rightarrow>
          if \<not> claimed then (Inr j, st')
          else
            (case handler j of (calls, out, t_end) \<Rightarrow>
               (case registry_validate registry (job_kind j) (job_input_parameters j) of
                  Inl _ \<Rightarrow> crash t_end i st'
                | Inr _ \<Rightarrow> conclude_run p t_end i out (run_handler i calls st'))))"

text \<open>
  The inline dispatcher executes until the job no longer waits for a retry. The fuel bounds the
  number of executions; \<open>dispatch_returns\<close> below shows how much is enough.
\<close>

fun dispatch ::
  "nat \<Rightarrow> (string \<Rightarrow> (details \<Rightarrow> details result) option) \<Rightarrow> retry_policy \<Rightarrow>
   (job \<Rightarrow> ctx_call list \<times> outcome \<times> datetime) \<Rightarrow> (nat \<Rightarrow> datetime) \<Rightarrow> uuid \<Rightarrow> job_store \<Rightarrow>
   (error option \<times> job_store) option" where
  "dispatch 0 registry p handler clock i st = None"
| "dispatch (Suc fuel) registry p handler clock i st =
     (case execute registry p handler (clock fuel) True i st of
        (Inl e, st') \<Rightarrow> Some (Some e, st')
      | (Inr j, st') \<Rightarrow>
          if job_status j \<noteq> Queued \<or> job_next_retry_at j = None then Some (None, st')
          else dispatch fuel registry p handler clock i st')"

subsection \<open>The service as a machine\<close>

datatype store_op =
    OSubmit uuid datetime string string uuid string string details int string
  | OCancel datetime uuid string
  | ORetry datetime uuid string
  | OResume datetime uuid string
  | ORecover datetime int
  | OClaim datetime bool uuid
  | OContext uuid ctx_call
  | OSucceeded datetime uuid "string option"
  | ORefused datetime uuid handler_error
  | OCrashed datetime uuid string string

fun store_exec ::
  "(string \<Rightarrow> (details \<Rightarrow> details result) option) \<Rightarrow> retry_policy \<Rightarrow> (string \<Rightarrow> bool) \<Rightarrow>
   store_op \<Rightarrow> job_store \<Rightarrow> job_store result" where
  "store_exec registry p resumes (OSubmit i t kind agg agg_id key corr params attempts actor) st =
     map_sum id snd (submit registry i t kind agg agg_id key corr params attempts actor st)"
| "store_exec registry p resumes (OCancel t i actor) st = cancel t i actor st"
| "store_exec registry p resumes (ORetry t i actor) st = retry t i actor st"
| "store_exec registry p resumes (OResume t i actor) st = resume_waiting_human t i actor st"
| "store_exec registry p resumes (ORecover t timeout) st = recover_abandoned t timeout resumes st"
| "store_exec registry p resumes (OClaim t early i) st =
     map_sum id (\<lambda>r. snd (snd r)) (claim t early i st)"
| "store_exec registry p resumes (OContext i c) st = map_sum id snd (ctx_run i c st)"
| "store_exec registry p resumes (OSucceeded t i r) st = finish_succeeded t i r st"
| "store_exec registry p resumes (ORefused t i err) st = finish_controlled_failure p t i err st"
| "store_exec registry p resumes (OCrashed t i code m) st = finish_failed t i code m st"

subsection \<open>The job table as a keyed table\<close>

lemma find_replaced:
  "find (\<lambda>r. job_id r = k) (map (\<lambda>r. if job_id r = job_id j then j else r) rows)
     = (if k = job_id j then (if find (\<lambda>r. job_id r = k) rows = None then None else Some j)
        else find (\<lambda>r. job_id r = k) rows)"
  by (induction rows) auto

lemma jobs_get_key: "jobs_get st i = Some j \<Longrightarrow> job_id j = i"
  by (auto simp: jobs_get_def find_Some_iff)

lemma jobs_get_mem: "jobs_get st i = Some j \<Longrightarrow> j \<in> set (st_jobs st)"
  by (auto simp: jobs_get_def find_Some_iff)

interpretation job_table: keyed_table job_id jobs_get jobs_save
proof
  show "jobs_get tbl k = Some r \<Longrightarrow> job_id r = k" for tbl k r
    by (rule jobs_get_key)
  show "jobs_get tbl (job_id r) \<noteq> None \<Longrightarrow> \<exists>tbl'. jobs_save tbl r = Inr tbl'" for tbl r
    by (simp add: jobs_save_def)
  show "jobs_save tbl r = Inr tbl' \<Longrightarrow> jobs_get tbl' k = (if k = job_id r then Some r else jobs_get tbl k)"
    for tbl r tbl' k
    by (auto simp: jobs_save_def jobs_get_def find_replaced split: if_splits)
qed

lemma jobs_save_frame: "jobs_save st j = Inr st' \<Longrightarrow>
    st_events st' = st_events st \<and> st_batch_of_run st' = st_batch_of_run st
    \<and> st_batch_paused st' = st_batch_paused st"
  by (auto simp: jobs_save_def split: if_splits)

lemma change_job_row:
  assumes "change_job k f ty actor st = Inr st'"
    and "\<And>j j'. f j = Inr j' \<Longrightarrow> job_id j' = job_id j"
  obtains j j' where "jobs_get st k = Some j" "f j = Inr j'"
    "\<And>i. jobs_get st' i = (if i = k then Some j' else jobs_get st i)"
proof -
  from assms(1) obtain j j' st1 where j: "jobs_get st k = Some j" "f j = Inr j'" "jobs_save st j' = Inr st1"
    and st': "st' = append_event j' (Some (job_status j)) (ty j') actor st1"
    by (auto simp: change_job_def and_then_Inr split: option.splits)
  have "job_id j' = k" using assms(2) [OF j(2)] jobs_get_key [OF j(1)] by simp
  with j(1,2) show thesis
    using that job_table.get_save [OF j(3)] st' by simp
qed

subsection \<open>Operations that respect the rows\<close>

text \<open>A job change that keeps the invariant and the row's identity.\<close>

definition job_safe :: "(job \<Rightarrow> job result) \<Rightarrow> bool" where
  "job_safe f \<longleftrightarrow> (\<forall>j j'. f j = Inr j' \<longrightarrow>
     job_id j' = job_id j \<and> job_idempotency_key j' = job_idempotency_key j
     \<and> job_max_attempts j' = job_max_attempts j \<and> (job_inv j \<longrightarrow> job_inv j'))"

lemma job_safe_exec: "job_safe (job_exec op)"
  by (auto simp: job_safe_def dest: job_identity_fixed job_max_attempts_fixed job_exec_inv)

lemma job_exec_eqs:
  "job_exec (Start t) = job_start t" "job_exec (ReportProgress t c n m) = job_report_progress t c n m"
  "job_exec (RecordDiagnostics t d) = job_record_diagnostics t d"
  "job_exec (WaitForHuman t w) = job_wait_for_human t w" "job_exec (Succeed t r) = job_succeed t r"
  "job_exec (Fail t code w d') = job_fail t code w d'"
  "job_exec (ScheduleRetry t code w delay) = job_schedule_retry t code w delay"
  "job_exec (RetryManually t) = job_retry_manually t"
  "job_exec (ResumeAfterHuman t) = job_resume_after_human t"
  "job_exec (RequestCancellation t) = job_request_cancellation t"
  "job_exec (MarkCancelled t) = job_mark_cancelled t"
  "job_exec (RecoverAbandoned t b) = job_recover_abandoned t b"
  by (rule ext, simp)+

lemma job_safe_ops [intro, simp]:
  "job_safe (job_start t)" "job_safe (job_report_progress t c n m)"
  "job_safe (job_record_diagnostics t d)" "job_safe (job_wait_for_human t w)"
  "job_safe (job_succeed t r)" "job_safe (job_fail t code w d')"
  "job_safe (job_schedule_retry t code w delay)" "job_safe (job_retry_manually t)"
  "job_safe (job_resume_after_human t)" "job_safe (job_request_cancellation t)"
  "job_safe (job_mark_cancelled t)" "job_safe (job_recover_abandoned t b)"
  unfolding job_exec_eqs [symmetric] by (rule job_safe_exec)+

lemma job_safe_if [intro]: "job_safe f \<Longrightarrow> job_safe g \<Longrightarrow> job_safe (\<lambda>j. if P j then f j else g j)"
  by (simp add: job_safe_def)

lemma job_safe_pick: "(\<And>x. job_safe (f x)) \<Longrightarrow> job_safe (\<lambda>j. f (g j) j)"
  by (simp add: job_safe_def)

lemma job_safe_then [intro]: "job_safe f \<Longrightarrow> job_safe g \<Longrightarrow> job_safe (\<lambda>j. and_then (f j) g)"
  by (fastforce simp: job_safe_def and_then_Inr)

lemma job_safe_id: "job_safe f \<Longrightarrow> f j = Inr j' \<Longrightarrow> job_id j' = job_id j"
  by (simp add: job_safe_def)

text \<open>The changes the worker makes when it ends a run.\<close>

lemma job_safe_finish [intro]:
  "job_safe (\<lambda>j. if job_cancellation_requested j then job_mark_cancelled t j else job_succeed t r j)"
  "job_safe (\<lambda>j. if job_cancellation_requested j then job_mark_cancelled t j else job_fail t c m d j)"
  "job_safe (\<lambda>j. if job_cancellation_requested j then job_mark_cancelled t j
     else if he_transient err \<and> job_attempt j < job_max_attempts j then
       job_schedule_retry t (he_code err) w (retry_delay p (he_code err) (job_attempt j)) j
     else job_fail t (he_code err) w (he_details err) j)"
  by (intro job_safe_if job_safe_ops job_safe_pick [where f = "job_schedule_retry t (he_code err) w"])+

lemma job_safe_heartbeat [intro]:
  "job_safe (\<lambda>j. job_report_progress t (job_progress_current j) (job_progress_total j) (job_user_message j) j)"
  using job_safe_ops(2) by (simp add: job_safe_def)

subsection \<open>The store invariant\<close>

definition store_inv :: "job_store \<Rightarrow> bool" where
  "store_inv st \<longleftrightarrow> (\<forall>j \<in> set (st_jobs st). job_inv j)
     \<and> distinct (map job_id (st_jobs st)) \<and> distinct (map job_idempotency_key (st_jobs st))"

lemma store_inv_event [simp]: "store_inv (append_event j f ty a st) = store_inv st"
  by (simp add: store_inv_def)

lemma store_inv_get: "store_inv st \<Longrightarrow> jobs_get st i = Some j \<Longrightarrow> job_inv j"
  using jobs_get_mem by (auto simp: store_inv_def)

lemma distinct_row: "distinct (map f xs) \<Longrightarrow> x \<in> set xs \<Longrightarrow> y \<in> set xs \<Longrightarrow> f x = f y \<Longrightarrow> x = y"
  by (auto simp: distinct_map dest: inj_onD)

lemma jobs_save_inv:
  assumes inv: "store_inv st" and save: "jobs_save st j' = Inr st'"
    and old: "jobs_get st (job_id j') = Some j" "job_idempotency_key j' = job_idempotency_key j"
    and new: "job_inv j'"
  shows "store_inv st'"
proof -
  have rows: "st_jobs st' = map (\<lambda>r. if job_id r = job_id j' then j' else r) (st_jobs st)"
    using save by (auto simp: jobs_save_def split: if_splits)
  have mem: "j \<in> set (st_jobs st)" "job_id j = job_id j'"
    using old(1) jobs_get_mem jobs_get_key by auto
  then have same: "r = j" if "r \<in> set (st_jobs st)" "job_id r = job_id j'" for r
    using that inv distinct_row [of job_id "st_jobs st" r j] by (simp add: store_inv_def)
  have "map job_id (st_jobs st') = map job_id (st_jobs st)"
    by (simp add: rows)
  moreover have "map job_idempotency_key (st_jobs st') = map job_idempotency_key (st_jobs st)"
    using same old(2) by (auto simp: rows)
  moreover have "\<forall>r \<in> set (st_jobs st'). job_inv r"
    using inv new by (auto simp: store_inv_def rows)
  ultimately show ?thesis
    using inv by (simp only: store_inv_def)
qed

lemma change_job_inv:
  assumes "store_inv st" and "job_safe f" and "change_job k f ty actor st = Inr st'"
  shows "store_inv st'"
proof -
  from assms(3) obtain j j' st1 where j: "jobs_get st k = Some j" "f j = Inr j'" "jobs_save st j' = Inr st1"
    and st': "st' = append_event j' (Some (job_status j)) (ty j') actor st1"
    by (auto simp: change_job_def and_then_Inr split: option.splits)
  have id: "job_id j' = k" using job_safe_id [OF assms(2) j(2)] jobs_get_key [OF j(1)] by simp
  have "job_inv j'" and "job_idempotency_key j' = job_idempotency_key j"
    using assms(2) j(2) store_inv_get [OF assms(1) j(1)] by (auto simp: job_safe_def)
  then have "store_inv st1" using jobs_save_inv [OF assms(1) j(3)] j(1) id by simp
  with st' show ?thesis by simp
qed

lemma touch_job_row:
  assumes "touch_job k f st = Inr st'" and "job_safe f"
  obtains j j' where "jobs_get st k = Some j" "f j = Inr j'"
    "\<And>i. jobs_get st' i = (if i = k then Some j' else jobs_get st i)"
  using assms(1) unfolding touch_job_def
  by (rule job_table.update_row_get) (auto intro: job_safe_id [OF assms(2)])

lemma touch_job_inv:
  assumes "store_inv st" and "job_safe f" and "touch_job k f st = Inr st'"
  shows "store_inv st'"
proof -
  from assms(3) obtain j j' where j: "jobs_get st k = Some j" "f j = Inr j'" "jobs_save st j' = Inr st'"
    by (auto simp: touch_job_def update_row_def and_then_Inr split: option.splits)
  have id: "job_id j' = k" using job_safe_id [OF assms(2) j(2)] jobs_get_key [OF j(1)] by simp
  have "job_inv j'" and "job_idempotency_key j' = job_idempotency_key j"
    using assms(2) j(2) store_inv_get [OF assms(1) j(1)] by (auto simp: job_safe_def)
  then show ?thesis using jobs_save_inv [OF assms(1) j(3)] j(1) id by simp
qed

lemma recover_rows_inv:
  assumes "store_inv st" and "distinct (map job_id js)"
    and "\<And>j. j \<in> set js \<Longrightarrow> jobs_get st (job_id j) = Some j"
  shows "recover_rows t resumes js st = Inr st' \<Longrightarrow> store_inv st'"
  using assms
proof (induction js arbitrary: st)
  case (Cons j js)
  show ?case
  proof (cases "job_batch_is_paused st j")
    case True
    then have "recover_rows t resumes js st = Inr st'" using Cons.prems(1) by simp
    then show ?thesis by (rule Cons.IH) (use Cons.prems in simp_all)
  next
    case False
    with Cons.prems(1) obtain j' st1 where
      j': "job_recover_abandoned t (resumes (job_kind j)) j = Inr j'" "jobs_save st j' = Inr st1"
      and rest: "recover_rows t resumes js
        (append_event j' (Some (job_status j)) ''job.heartbeat_recovered'' ''system:recovery'' st1) = Inr st'"
      by (auto simp: and_then_Inr)
    have get: "jobs_get st (job_id j) = Some j" using Cons.prems by simp
    have safe: "job_id j' = job_id j \<and> job_idempotency_key j' = job_idempotency_key j \<and> job_inv j'"
      using job_safe_ops(12) [of t "resumes (job_kind j)"] j'(1) store_inv_get [OF Cons.prems(2) get]
      by (simp add: job_safe_def)
    then have inv1: "store_inv st1" using jobs_save_inv [OF Cons.prems(2) j'(2)] get by simp
    have rows1: "jobs_get st1 (job_id r) = Some r" if "r \<in> set js" for r
    proof -
      have "job_id r \<noteq> job_id j" using that Cons.prems(3) by (metis distinct.simps(2) image_eqI list.simps(9) list.set_map)
      then show ?thesis using job_table.get_save [OF j'(2)] safe Cons.prems(4) that by simp
    qed
    show ?thesis
      by (rule Cons.IH [OF rest]) (use inv1 rows1 Cons.prems(3) in \<open>auto\<close>)
  qed
qed simp

lemma listed_rows:
  assumes "store_inv st"
  shows "distinct (map job_id (jobs_list_abandoned st cutoff))"
    and "j \<in> set (jobs_list_abandoned st cutoff) \<Longrightarrow>
      jobs_get st (job_id j) = Some j \<and> abandoned_row cutoff j"
proof -
  have "distinct (map job_id (st_jobs st))" using assms by (simp add: store_inv_def)
  then have "distinct (filter (abandoned_row cutoff) (st_jobs st)) \<and> inj_on job_id (set (st_jobs st))"
    by (simp add: distinct_map)
  then show "distinct (map job_id (jobs_list_abandoned st cutoff))"
    by (auto simp: jobs_list_abandoned_def distinct_map inj_on_def)
  assume j: "j \<in> set (jobs_list_abandoned st cutoff)"
  then have mem: "j \<in> set (st_jobs st)" and row: "abandoned_row cutoff j"
    by (auto simp: jobs_list_abandoned_def)
  then have "jobs_get st (job_id j) \<noteq> None"
    by (auto simp: jobs_get_def find_None_iff)
  then obtain r where r: "jobs_get st (job_id j) = Some r" by blast
  then have "r \<in> set (st_jobs st)" "job_id r = job_id j"
    using jobs_get_mem jobs_get_key by auto
  with mem assms distinct_row [of job_id "st_jobs st" r j] have "r = j"
    by (simp add: store_inv_def)
  with r row show "jobs_get st (job_id j) = Some j \<and> abandoned_row cutoff j" by simp
qed

lemma submit_inv:
  assumes "store_inv st" and "submit registry i t kind agg agg_id key corr params attempts actor st = Inr (j, st')"
  shows "store_inv st'"
proof -
  from assms(2) obtain ps st1 where
    new: "new_job i t kind agg agg_id key corr ps attempts
            (Some (''T'' @ [CHR 0xE2] @ ''che en attente'')) = Inr j"
    and add: "jobs_add_if_absent st j = Inr (True, st1)"
    and st': "st' = append_event j None ''job.submitted'' actor st1"
    by (auto simp: submit_def and_then_Inr jobs_add_if_absent_def split: if_splits option.splits)
  from add have "jobs_by_key st (job_idempotency_key j) = None" "jobs_get st (job_id j) = None"
    and rows: "st_jobs st1 = st_jobs st @ [j]"
    by (auto simp: jobs_add_if_absent_def split: if_splits)
  then have "\<forall>r \<in> set (st_jobs st). job_id r \<noteq> job_id j \<and> job_idempotency_key r \<noteq> job_idempotency_key j"
    by (auto simp: jobs_by_key_def jobs_get_def find_None_iff)
  with assms(1) new_job_inv [OF new] have "store_inv st1"
    by (auto simp: store_inv_def rows)
  with st' show ?thesis by simp
qed

lemma ctx_guarded_inv:
  assumes "store_inv st" and "job_safe f" and "ctx_guarded t i f st = Inr r"
  shows "store_inv (snd r)"
  using assms(3) change_job_inv [OF assms(1) job_safe_ops(11)] touch_job_inv [OF assms(1,2)]
  by (auto simp: ctx_guarded_def cancel_in_context_def and_then_Inr split: option.splits if_splits)

lemma ctx_run_inv:
  assumes "store_inv st" and "ctx_run i c st = Inr r"
  shows "store_inv (snd r)"
proof (cases c)
  case (CallCheckCancelled t)
  with assms change_job_inv [OF assms(1) job_safe_ops(11)] show ?thesis
    by (auto simp: ctx_check_cancelled_def cancel_in_context_def and_then_Inr
        split: option.splits if_splits)
next
  case (CallWaitForHuman t m d)
  have "job_safe (\<lambda>j. and_then (job_record_diagnostics t d j) (job_wait_for_human t m))"
    by (intro job_safe_then job_safe_ops)
  from touch_job_inv [OF assms(1) this] CallWaitForHuman assms(2) show ?thesis
    by (auto simp: ctx_wait_for_human_def and_then_Inr)
next
  case (CallProgress t c n m)
  with assms(2) ctx_guarded_inv [OF assms(1) job_safe_ops(2)] show ?thesis
    by (simp add: ctx_report_progress_def)
next
  case (CallHeartbeat t)
  with assms(2) ctx_guarded_inv [OF assms(1) job_safe_heartbeat] show ?thesis
    by (simp add: ctx_heartbeat_def)
next
  case (CallDiagnostics t d)
  with assms(2) ctx_guarded_inv [OF assms(1) job_safe_ops(3)] show ?thesis
    by (simp add: ctx_record_diagnostics_def)
qed

text \<open>The four ways \<open>_start\<close> can end.\<close>

lemma claim_cases:
  assumes "claim t early k st = Inr (j, claimed, st')"
  obtains (idle) "jobs_get st k = Some j" "\<not> claimed" "st' = st"
      "job_status j = Queued \<Longrightarrow> job_next_retry_at j = None \<or> \<not> early"
    | (held) j0 where "jobs_get st k = Some j0" "\<not> claimed" "job_batch_is_paused st j0"
      "j = j0\<lparr>job_next_retry_at := None, job_updated_at := t\<rparr>" "jobs_save st j = Inr st'"
    | (started) j0 st1 where "jobs_get st k = Some j0" claimed "\<not> job_cancellation_requested j0"
      "job_start t j0 = Inr j" "jobs_save st j = Inr st1"
      "st' = append_event j (Some (job_status j0)) ''job.started'' ''system:worker'' st1"
    | (cancelled) j0 st1 where "jobs_get st k = Some j0" "\<not> claimed" "job_cancellation_requested j0"
      "job_mark_cancelled t j0 = Inr j" "jobs_save st j = Inr st1"
      "st' = append_event j (Some (job_status j0)) ''job.cancelled'' ''system:worker'' st1"
proof -
  from assms obtain j0 where get: "jobs_get st k = Some j0"
    by (auto simp: claim_def split: option.splits)
  show thesis
  proof (cases "job_is_terminal j0 \<or> job_status j0 \<noteq> Queued")
    case True
    with assms get show ?thesis by (intro idle) (auto simp: claim_def job_simps)
  next
    case active: False
    show ?thesis
    proof (cases "job_batch_is_paused st j0")
      case True
      with active assms get show ?thesis
        by (cases "job_next_retry_at j0 = None") (auto simp: claim_def and_then_Inr Let_def intro: idle held)
    next
      case unpaused: False
      show ?thesis
      proof (cases "(case job_next_retry_at j0 of None \<Rightarrow> False | Some r \<Rightarrow> dt_later r t) \<and> \<not> early")
        case True
        with active unpaused assms get show ?thesis by (intro idle) (simp_all add: claim_def)
      next
        case due: False
        with active unpaused assms get obtain st1 where
          fin: "(if \<not> job_cancellation_requested j0 then job_start t j0 else job_mark_cancelled t j0) = Inr j"
            "jobs_save st j = Inr st1" "claimed = (\<not> job_cancellation_requested j0)"
            "st' = append_event j (Some (job_status j0))
               (if claimed then ''job.started'' else ''job.cancelled'') ''system:worker'' st1"
          by (auto simp: claim_def and_then_Inr Let_def)
        show ?thesis
        proof (cases "job_cancellation_requested j0")
          case True
          with fin show ?thesis by (intro cancelled [OF get]) simp_all
        next
          case False
          with fin show ?thesis by (intro started [OF get]) simp_all
        qed
      qed
    qed
  qed
qed

lemma claim_inv:
  assumes "store_inv st" and "claim t early i st = Inr (j, claimed, st')"
  shows "store_inv st'"
  using assms(2)
proof (cases rule: claim_cases)
  case idle
  with assms(1) show ?thesis by simp
next
  case (held j0)
  have "job_inv j0" using store_inv_get assms(1) held(1) by blast
  then have "job_inv j"
    using held by (cases "job_status j0") (auto simp: job_inv_def job_phase_def job_cancellation_requested_def)
  with held jobs_save_inv [OF assms(1) held(5), of j0] jobs_get_key [OF held(1)] show ?thesis by simp
next
  case (started j0 st1)
  with jobs_save_inv [OF assms(1) started(5), of j0] jobs_get_key [OF started(1)]
    job_safe_ops(1) [of t] store_inv_get [OF assms(1) started(1)]
  show ?thesis by (simp add: job_safe_def)
next
  case (cancelled j0 st1)
  with jobs_save_inv [OF assms(1) cancelled(5), of j0] jobs_get_key [OF cancelled(1)]
    job_safe_ops(11) [of t] store_inv_get [OF assms(1) cancelled(1)]
  show ?thesis by (simp add: job_safe_def)
qed

lemma store_exec_inv:
  assumes "store_inv st" and "store_exec registry p resumes op st = Inr st'"
  shows "store_inv st'"
proof (cases op)
  case (OSubmit i t kind agg agg_id key corr params attempts actor)
  with assms show ?thesis by (auto simp: map_sum_def split: sum.splits dest: submit_inv)
next
  case (OCancel t i actor)
  with assms change_job_inv [OF assms(1) job_safe_ops(10)] show ?thesis
    by (auto simp: cancel_def split: option.splits if_splits)
next
  case (ORetry t i actor)
  with assms change_job_inv [OF assms(1) job_safe_ops(8)] show ?thesis
    by (auto simp: retry_def split: option.splits if_splits)
next
  case (OResume t i actor)
  with assms change_job_inv [OF assms(1) job_safe_ops(9)] show ?thesis
    by (auto simp: resume_waiting_human_def)
next
  case (ORecover t timeout)
  with assms recover_rows_inv [OF assms(1) listed_rows(1) [OF assms(1)]] listed_rows(2) [OF assms(1)]
  show ?thesis by (auto simp: recover_abandoned_def)
next
  case (OClaim t early i)
  with assms show ?thesis by (auto simp: map_sum_def split: sum.splits dest: claim_inv)
next
  case (OContext i c)
  with assms show ?thesis by (auto simp: map_sum_def split: sum.splits dest: ctx_run_inv)
next
  case (OSucceeded t i r)
  with assms change_job_inv [OF assms(1) job_safe_finish(1)] show ?thesis
    by (simp add: finish_succeeded_def)
next
  case (ORefused t i err)
  with assms change_job_inv [OF assms(1) job_safe_finish(3)] change_job_inv [OF assms(1) job_safe_ops(4)]
  show ?thesis by (simp add: finish_controlled_failure_def split: option.splits if_splits)
next
  case (OCrashed t i code m)
  with assms change_job_inv [OF assms(1) job_safe_finish(2)] show ?thesis
    by (simp add: finish_failed_def)
qed

interpretation store_machine: guarded_machine "store_exec registry p resumes" store_inv
  by unfold_locales (rule store_exec_inv)

subsection \<open>Following one row\<close>

definition row_sat :: "(job \<Rightarrow> bool) \<Rightarrow> uuid \<Rightarrow> job_store \<Rightarrow> bool" where
  "row_sat Q i st = (case jobs_get st i of None \<Rightarrow> False | Some j \<Rightarrow> Q j)"

text \<open>A change keeps \<open>Q\<close>.\<close>

definition keeps :: "(job \<Rightarrow> bool) \<Rightarrow> (job \<Rightarrow> job result) \<Rightarrow> bool" where
  "keeps Q f \<longleftrightarrow> (\<forall>j j'. Q j \<longrightarrow> f j = Inr j' \<longrightarrow> Q j')"

lemma row_sat_event [simp]: "row_sat Q i (append_event j f ty a st) = row_sat Q i st"
  by (simp add: row_sat_def)

lemma change_job_keeps:
  assumes "row_sat Q i st" and "job_safe f" and "change_job k f ty actor st = Inr st'"
    and "k = i \<Longrightarrow> keeps Q f"
  shows "row_sat Q i st'"
  using assms(3) job_safe_id [OF assms(2)]
proof (rule change_job_row)
  fix j j' assume "jobs_get st k = Some j" "f j = Inr j'"
    "\<And>i. jobs_get st' i = (if i = k then Some j' else jobs_get st i)"
  with assms(1,4) show ?thesis by (auto simp: row_sat_def keeps_def)
qed

lemma touch_job_keeps:
  assumes "row_sat Q i st" and "job_safe f" and "touch_job k f st = Inr st'"
    and "k = i \<Longrightarrow> keeps Q f"
  shows "row_sat Q i st'"
  using assms(3,2)
proof (rule touch_job_row)
  fix j j' assume "jobs_get st k = Some j" "f j = Inr j'"
    "\<And>i. jobs_get st' i = (if i = k then Some j' else jobs_get st i)"
  with assms(1,4) show ?thesis by (auto simp: row_sat_def keeps_def)
qed

lemma submit_keeps:
  assumes "row_sat Q i st" and "submit registry k t kind agg agg_id key corr params attempts actor st = Inr (j, st')"
  shows "row_sat Q i st'"
proof -
  from assms(2) obtain st1 where add: "jobs_add_if_absent st j = Inr (True, st1)"
    and st': "st' = append_event j None ''job.submitted'' actor st1"
    by (auto simp: submit_def and_then_Inr jobs_add_if_absent_def split: if_splits option.splits)
  then have "st_jobs st1 = st_jobs st @ [j]"
    by (auto simp: jobs_add_if_absent_def split: if_splits)
  with assms(1) st' show ?thesis
    by (auto simp: row_sat_def jobs_get_def find_append split: option.splits)
qed

lemma ctx_guarded_keeps:
  assumes "row_sat Q i st" and "job_safe f" and "ctx_guarded t k f st = Inr r"
    and "k = i \<Longrightarrow> keeps Q f" and "k = i \<Longrightarrow> keeps Q (job_mark_cancelled t)"
  shows "row_sat Q i (snd r)"
  using assms(3) change_job_keeps [OF assms(1) job_safe_ops(11) _ assms(5)]
    touch_job_keeps [OF assms(1,2) _ assms(4)]
  by (auto simp: ctx_guarded_def cancel_in_context_def and_then_Inr split: option.splits if_splits)

text \<open>The changes a context call can make to its row.\<close>

fun ctx_changes :: "ctx_call \<Rightarrow> (job \<Rightarrow> job result) list" where
  "ctx_changes (CallProgress t c n m) = [job_report_progress t c n m, job_mark_cancelled t]"
| "ctx_changes (CallCheckCancelled t) = [job_mark_cancelled t]"
| "ctx_changes (CallHeartbeat t) = [\<lambda>j. job_report_progress t
     (job_progress_current j) (job_progress_total j) (job_user_message j) j, job_mark_cancelled t]"
| "ctx_changes (CallDiagnostics t d) = [job_record_diagnostics t d, job_mark_cancelled t]"
| "ctx_changes (CallWaitForHuman t m d) =
     [\<lambda>j. and_then (job_record_diagnostics t d j) (job_wait_for_human t m)]"

lemma ctx_run_keeps:
  assumes "row_sat Q i st" and "ctx_run k c st = Inr r"
    and "k = i \<Longrightarrow> \<forall>f \<in> set (ctx_changes c). keeps Q f"
  shows "row_sat Q i (snd r)"
proof (cases c)
  case (CallCheckCancelled t)
  with assms change_job_keeps [OF assms(1) job_safe_ops(11), of k t] show ?thesis
    by (auto simp: ctx_check_cancelled_def cancel_in_context_def and_then_Inr
        split: option.splits if_splits)
next
  case (CallWaitForHuman t m d)
  have "job_safe (\<lambda>j. and_then (job_record_diagnostics t d j) (job_wait_for_human t m))"
    by (intro job_safe_then job_safe_ops)
  from touch_job_keeps [OF assms(1) this, of k] CallWaitForHuman assms(2,3) show ?thesis
    by (auto simp: ctx_wait_for_human_def and_then_Inr)
next
  case (CallProgress t c n m)
  with assms(2,3) ctx_guarded_keeps [OF assms(1) job_safe_ops(2)] show ?thesis
    by (simp add: ctx_report_progress_def)
next
  case (CallHeartbeat t)
  with assms(2,3) ctx_guarded_keeps [OF assms(1) job_safe_heartbeat] show ?thesis
    by (simp add: ctx_heartbeat_def)
next
  case (CallDiagnostics t d)
  with assms(2,3) ctx_guarded_keeps [OF assms(1) job_safe_ops(3)] show ?thesis
    by (simp add: ctx_record_diagnostics_def)
qed

lemma claim_keeps:
  assumes "row_sat Q i st" and "claim t early k st = Inr (j, claimed, st')"
    and "k = i \<Longrightarrow> keeps Q (job_mark_cancelled t)"
    and "k = i \<Longrightarrow> keeps Q (\<lambda>j. if job_cancellation_requested j then Inl JobCancelled else job_start t j)"
    and "k = i \<Longrightarrow> keeps Q (\<lambda>j. Inr (j\<lparr>job_next_retry_at := None, job_updated_at := t\<rparr>))"
  shows "row_sat Q i st'"
proof -
  have saved: "row_sat Q i st1"
    if "jobs_get st k = Some j0" "jobs_save st j = Inr st1" "job_id j = job_id j0" "k = i \<Longrightarrow> Q j0 \<longrightarrow> Q j"
    for j0 st1
    using that(1,3,4) assms(1) jobs_get_key [OF that(1)] job_table.get_save [OF that(2)]
    by (auto simp: row_sat_def)
  from assms(2) show ?thesis
  proof (cases rule: claim_cases)
    case idle
    with assms(1) show ?thesis by simp
  next
    case (held j0)
    show ?thesis by (rule saved [OF held(1,5)]) (use held(4) assms(5) in \<open>auto simp: keeps_def\<close>)
  next
    case (started j0 st1)
    have "row_sat Q i st1"
      by (rule saved [OF started(1,5)])
        (use started(3,4) assms(4) job_safe_id [OF job_safe_ops(1) started(4)] in \<open>auto simp: keeps_def\<close>)
    with started show ?thesis by simp
  next
    case (cancelled j0 st1)
    have "row_sat Q i st1"
      by (rule saved [OF cancelled(1,5)])
        (use cancelled(4) assms(3) job_safe_id [OF job_safe_ops(11) cancelled(4)] in \<open>auto simp: keeps_def\<close>)
    with cancelled show ?thesis by simp
  qed
qed

lemma recover_rows_keeps:
  assumes "row_sat Q i st" and "distinct (map job_id js)"
    and "\<And>j. j \<in> set js \<Longrightarrow> jobs_get st (job_id j) = Some j"
    and "keeps Q (\<lambda>j. job_recover_abandoned t (resumes (job_kind j)) j)"
  shows "recover_rows t resumes js st = Inr st' \<Longrightarrow> row_sat Q i st'"
  using assms
proof (induction js arbitrary: st)
  case (Cons j js)
  show ?case
  proof (cases "job_batch_is_paused st j")
    case True
    then have "recover_rows t resumes js st = Inr st'" using Cons.prems(1) by simp
    then show ?thesis by (rule Cons.IH) (use Cons.prems in simp_all)
  next
    case False
    with Cons.prems(1) obtain j' st1 where
      j': "job_recover_abandoned t (resumes (job_kind j)) j = Inr j'" "jobs_save st j' = Inr st1"
      and rest: "recover_rows t resumes js
        (append_event j' (Some (job_status j)) ''job.heartbeat_recovered'' ''system:recovery'' st1) = Inr st'"
      by (auto simp: and_then_Inr)
    have get: "jobs_get st (job_id j) = Some j" using Cons.prems by simp
    have id: "job_id j' = job_id j" using job_safe_id [OF job_safe_ops(12) j'(1)] .
    have "Q j \<longrightarrow> Q j'" using Cons.prems(5) j'(1) by (simp add: keeps_def)
    then have sat1: "row_sat Q i st1"
      using Cons.prems(2) get by (auto simp: row_sat_def job_table.get_save [OF j'(2)] id)
    have rows1: "jobs_get st1 (job_id r) = Some r" if "r \<in> set js" for r
    proof -
      have "job_id r \<noteq> job_id j" using that Cons.prems(3) by (metis distinct.simps(2) image_eqI list.simps(9) list.set_map)
      then show ?thesis using job_table.get_save [OF j'(2)] id Cons.prems(4) that by simp
    qed
    show ?thesis
      by (rule Cons.IH [OF rest]) (use sat1 rows1 Cons.prems(3,5) in \<open>auto\<close>)
  qed
qed simp

text \<open>Which rows an operation can touch, and the changes it can make there.\<close>

fun op_touches :: "store_op \<Rightarrow> uuid \<Rightarrow> bool" where
  "op_touches (OSubmit k t kind agg agg_id key corr params attempts actor) i = False"
| "op_touches (OCancel t k actor) i = (k = i)"
| "op_touches (ORetry t k actor) i = (k = i)"
| "op_touches (OResume t k actor) i = (k = i)"
| "op_touches (ORecover t timeout) i = True"
| "op_touches (OClaim t early k) i = (k = i)"
| "op_touches (OContext k c) i = (k = i)"
| "op_touches (OSucceeded t k r) i = (k = i)"
| "op_touches (ORefused t k err) i = (k = i)"
| "op_touches (OCrashed t k code m) i = (k = i)"

definition refused_change :: "retry_policy \<Rightarrow> datetime \<Rightarrow> handler_error \<Rightarrow> job \<Rightarrow> job result" where
  "refused_change p t err j =
     (if job_cancellation_requested j then job_mark_cancelled t j
      else if he_transient err \<and> job_attempt j < job_max_attempts j then
        job_schedule_retry t (he_code err) (clean_public_message (he_public_message err))
          (retry_delay p (he_code err) (job_attempt j)) j
      else job_fail t (he_code err) (clean_public_message (he_public_message err)) (he_details err) j)"

fun op_changes :: "retry_policy \<Rightarrow> (string \<Rightarrow> bool) \<Rightarrow> store_op \<Rightarrow> (job \<Rightarrow> job result) list" where
  "op_changes p resumes (OSubmit k t kind agg agg_id key corr params attempts actor) = []"
| "op_changes p resumes (OCancel t k actor) = [job_request_cancellation t]"
| "op_changes p resumes (ORetry t k actor) = [job_retry_manually t]"
| "op_changes p resumes (OResume t k actor) = [job_resume_after_human t]"
| "op_changes p resumes (ORecover t timeout) = [\<lambda>j. job_recover_abandoned t (resumes (job_kind j)) j]"
| "op_changes p resumes (OClaim t early k) = [job_mark_cancelled t,
     \<lambda>j. if job_cancellation_requested j then Inl JobCancelled else job_start t j,
     \<lambda>j. Inr (j\<lparr>job_next_retry_at := None, job_updated_at := t\<rparr>)]"
| "op_changes p resumes (OContext k c) = ctx_changes c"
| "op_changes p resumes (OSucceeded t k r) =
     [\<lambda>j. if job_cancellation_requested j then job_mark_cancelled t j else job_succeed t r j]"
| "op_changes p resumes (ORefused t k err) = [refused_change p t err, job_wait_for_human t msg_batch_paused]"
| "op_changes p resumes (OCrashed t k code m) =
     [\<lambda>j. if job_cancellation_requested j then job_mark_cancelled t j else job_fail t code m None j]"

lemma finish_controlled_failure_alt:
  "finish_controlled_failure p t i err st =
     (case jobs_get st i of
        None \<Rightarrow> Inl (JobNotFound i)
      | Some j \<Rightarrow>
          if he_transient err \<and> job_batch_is_paused st j then
            change_job i (job_wait_for_human t msg_batch_paused) (\<lambda>_. ''job.waiting_human'')
              ''system:worker'' st
          else change_job i (refused_change p t err)
              (\<lambda>j'. if job_status j' = Cancelled then ''job.cancelled''
                 else if job_status j' = Queued then ''job.retry_scheduled'' else ''job.failed'')
              ''system:worker'' st)"
  unfolding finish_controlled_failure_def refused_change_def [abs_def] by (rule refl)

lemma refused_change_safe [intro, simp]: "job_safe (refused_change p t err)"
  using job_safe_finish(3) by (simp add: refused_change_def [abs_def])

lemma store_exec_keeps:
  assumes "store_inv st" and "row_sat Q i st" and "store_exec registry p resumes op st = Inr st'"
    and kept: "op_touches op i \<Longrightarrow> \<forall>f \<in> set (op_changes p resumes op). keeps Q f"
  shows "row_sat Q i st'"
proof (cases op)
  case (OSubmit k t kind agg agg_id key corr params attempts actor)
  with assms(2,3) show ?thesis by (auto simp: map_sum_def split: sum.splits dest: submit_keeps)
next
  case (OCancel t k actor)
  with assms(2,3) kept change_job_keeps [OF assms(2) job_safe_ops(10)] show ?thesis
    by (auto simp: cancel_def split: option.splits if_splits)
next
  case (ORetry t k actor)
  with assms(2,3) kept change_job_keeps [OF assms(2) job_safe_ops(8)] show ?thesis
    by (auto simp: retry_def split: option.splits if_splits)
next
  case (OResume t k actor)
  with assms(3) kept change_job_keeps [OF assms(2) job_safe_ops(9)] show ?thesis
    by (auto simp: resume_waiting_human_def)
next
  case (ORecover t timeout)
  with assms(3) kept recover_rows_keeps [OF assms(2) listed_rows(1) [OF assms(1)]] listed_rows(2) [OF assms(1)]
  show ?thesis by (auto simp: recover_abandoned_def)
next
  case (OClaim t early k)
  with assms(3) obtain j claimed where c: "claim t early k st = Inr (j, claimed, st')"
    by (auto simp: map_sum_def split: sum.splits)
  show ?thesis by (rule claim_keeps [OF assms(2) c]) (use OClaim kept in auto)
next
  case (OContext k c)
  with assms(3) obtain r where r: "ctx_run k c st = Inr r" "st' = snd r"
    by (auto simp: map_sum_def split: sum.splits)
  with ctx_run_keeps [OF assms(2) r(1)] OContext kept show ?thesis by simp
next
  case (OSucceeded t k r)
  with assms(3) kept change_job_keeps [OF assms(2) job_safe_finish(1)] show ?thesis
    by (simp add: finish_succeeded_def)
next
  case (ORefused t k err)
  with assms(3) kept change_job_keeps [OF assms(2) refused_change_safe]
    change_job_keeps [OF assms(2) job_safe_ops(4)]
  show ?thesis by (simp add: finish_controlled_failure_alt split: option.splits if_splits)
next
  case (OCrashed t k code m)
  with assms(3) kept change_job_keeps [OF assms(2) job_safe_finish(2)] show ?thesis
    by (simp add: finish_failed_def)
qed

subsection \<open>Cancellation\<close>

text \<open>A job whose cancellation is requested and that has not ended otherwise.\<close>

definition dying :: "job \<Rightarrow> bool" where
  "dying j = (job_cancellation_requested j \<and> job_status j \<notin> {Succeeded, Failed})"

lemma dying_kept [simp]:
  "keeps dying (job_mark_cancelled t)" "keeps dying (job_request_cancellation t)"
  "keeps dying (job_resume_after_human t)"
  "keeps dying (\<lambda>j. job_recover_abandoned t (resumes (job_kind j)) j)"
  "keeps dying (\<lambda>j. if job_cancellation_requested j then Inl JobCancelled else job_start t j)"
  "keeps dying (\<lambda>j. Inr (j\<lparr>job_next_retry_at := None, job_updated_at := t\<rparr>))"
  "keeps dying (\<lambda>j. if job_cancellation_requested j then job_mark_cancelled t j else job_succeed t r j)"
  "keeps dying (\<lambda>j. if job_cancellation_requested j then job_mark_cancelled t j else job_fail t c m None j)"
  "keeps dying (refused_change p t err)" "keeps dying (job_wait_for_human t w)"
  by (auto simp: keeps_def dying_def op_defs refused_change_def job_cancellation_requested_def
      dt_or_def Let_def split: if_splits)

lemma dying_kept_ctx [simp]: "f \<in> set (ctx_changes c) \<Longrightarrow> keeps dying f"
  by (cases c) (auto simp: keeps_def dying_def op_defs job_cancellation_requested_def
      and_then_Inr dt_or_def Let_def split: if_splits)

fun retries_row :: "uuid \<Rightarrow> store_op \<Rightarrow> bool" where
  "retries_row i (ORetry t k actor) = (k = i)"
| "retries_row i _ = False"

lemma dying_absorbs:
  assumes "store_inv st \<and> row_sat dying i st" and "\<not> retries_row i op"
    and "store_exec registry p resumes op st = Inr st'"
  shows "store_inv st' \<and> row_sat dying i st'"
proof -
  have "\<forall>f \<in> set (op_changes p resumes op). keeps dying f" if "op_touches op i"
    using that assms(2) by (cases op) auto
  then show ?thesis
    using assms store_exec_keeps [OF _ _ assms(3)] store_exec_inv [OF _ assms(3)] by blast
qed

interpretation dying_machine: absorbing_machine
  "store_exec registry p resumes" "\<lambda>st. store_inv st \<and> row_sat dying i st" "\<lambda>_. ()" "retries_row i"
  by (unfold_locales, rule conjI, erule (2) dying_absorbs, rule refl)

lemma dying_unclaimed:
  assumes "row_sat dying i st" and "claim t early i st = Inr (j, claimed, st')"
  shows "\<not> claimed"
  using assms(2) by (rule claim_cases) (use assms(1) in \<open>auto simp: row_sat_def dying_def\<close>)

subsection \<open>Idempotency keys\<close>

lemma safe_keeps_key: "job_safe f \<Longrightarrow> keeps (\<lambda>j. job_idempotency_key j = key) f"
  by (simp add: job_safe_def keeps_def)

lemma ctx_changes_safe: "f \<in> set (ctx_changes c) \<Longrightarrow> job_safe f"
proof -
  have "list_all job_safe (ctx_changes c)"
  proof (cases c)
    case (CallWaitForHuman t m d)
    have "job_safe (\<lambda>j. and_then (job_record_diagnostics t d j) (job_wait_for_human t m))"
      by (intro job_safe_then job_safe_ops)
    with CallWaitForHuman show ?thesis by simp
  next
    case (CallHeartbeat t)
    with job_safe_heartbeat [of t] show ?thesis by simp
  qed simp_all
  then show "f \<in> set (ctx_changes c) \<Longrightarrow> job_safe f" by (simp add: list_all_iff)
qed

lemma key_kept_claim:
  "keeps (\<lambda>j. job_idempotency_key j = key) (\<lambda>j. if job_cancellation_requested j then Inl JobCancelled else job_start t j)"
  "keeps (\<lambda>j. job_idempotency_key j = key) (\<lambda>j. Inr (j\<lparr>job_next_retry_at := None, job_updated_at := t\<rparr>))"
  by (auto simp: keeps_def job_start_def split: if_splits)

lemma recover_safe: "job_safe (\<lambda>j. job_recover_abandoned t (resumes (job_kind j)) j)"
  using job_safe_ops(12) by (simp add: job_safe_def)

lemma key_kept: "f \<in> set (op_changes p resumes op) \<Longrightarrow> keeps (\<lambda>j. job_idempotency_key j = key) f"
proof (cases op)
  case (OContext k c)
  then show "f \<in> set (op_changes p resumes op) \<Longrightarrow> ?thesis"
    by (simp add: safe_keeps_key ctx_changes_safe)
qed (auto simp only: op_changes.simps set_simps key_kept_claim recover_safe insert_iff empty_iff
    safe_keeps_key job_safe_ops job_safe_finish refused_change_safe)

lemma row_key_lookup:
  assumes "store_inv st" and "row_sat (\<lambda>j. job_idempotency_key j = key) i st"
  shows "\<exists>j. jobs_by_key st key = Some j \<and> job_id j = i"
proof -
  from assms(2) obtain j where j: "jobs_get st i = Some j" "job_idempotency_key j = key"
    by (auto simp: row_sat_def split: option.splits)
  then have mem: "j \<in> set (st_jobs st)" and "job_id j = i"
    using jobs_get_mem jobs_get_key by auto
  then have "jobs_by_key st key \<noteq> None"
    using j(2) by (auto simp: jobs_by_key_def find_None_iff)
  then obtain r where r: "jobs_by_key st key = Some r" by blast
  then have "r \<in> set (st_jobs st)" "job_idempotency_key r = key"
    by (auto simp: jobs_by_key_def find_Some_iff)
  with mem j(2) assms(1) distinct_row [of job_idempotency_key "st_jobs st" r j] have "r = j"
    by (simp add: store_inv_def)
  with r \<open>job_id j = i\<close> show ?thesis by simp
qed

lemma key_row_stays:
  "store_inv st \<Longrightarrow> row_sat (\<lambda>j. job_idempotency_key j = key) i st \<Longrightarrow>
   store_inv (drive (store_exec registry p resumes) ops st)
   \<and> row_sat (\<lambda>j. job_idempotency_key j = key) i (drive (store_exec registry p resumes) ops st)"
proof (induction ops arbitrary: st)
  case (Cons op ops)
  let ?st = "step (store_exec registry p resumes) op st"
  have "row_sat (\<lambda>j. job_idempotency_key j = key) i ?st"
    by (rule step_cases) (auto intro: store_exec_keeps [OF Cons.prems] key_kept Cons.prems)
  moreover have "store_inv ?st" by (rule store_machine.step_inv [OF Cons.prems(1)])
  ultimately show ?case using Cons.IH by simp
qed simp

lemma submit_row:
  assumes "submit registry i t kind agg agg_id key corr params attempts actor st = Inr (j, st')"
  shows "job_id j = i \<and> jobs_get st' i = Some j \<and> job_idempotency_key j = key \<and> job_status j = Queued
    \<and> jobs_by_key st key = None"
proof -
  from assms obtain ps st1 where
    new: "new_job i t kind agg agg_id key corr ps attempts
            (Some (''T'' @ [CHR 0xE2] @ ''che en attente'')) = Inr j"
    and add: "jobs_add_if_absent st j = Inr (True, st1)"
    and st': "st' = append_event j None ''job.submitted'' actor st1"
    by (auto simp: submit_def and_then_Inr jobs_add_if_absent_def split: if_splits option.splits)
  from new have j: "job_id j = i" "job_idempotency_key j = key" "job_status j = Queued"
    by (auto simp: new_job_def job_post_init_def validated_Inr)
  from add have "jobs_get st (job_id j) = None" "st_jobs st1 = st_jobs st @ [j]"
    "jobs_by_key st (job_idempotency_key j) = None"
    by (auto simp: jobs_add_if_absent_def split: if_splits)
  with st' j show ?thesis by (auto simp: jobs_get_def find_append)
qed

lemma resubmit_refused:
  assumes "jobs_by_key st key = Some r"
  shows "is_error (submit registry i t kind agg agg_id key corr params attempts actor st)"
    and "registry_validate registry kind params = Inr ps \<Longrightarrow>
      new_job i t kind agg agg_id key corr ps attempts
        (Some (''T'' @ [CHR 0xE2] @ ''che en attente'')) = Inr j \<Longrightarrow>
      submit registry i t kind agg agg_id key corr params attempts actor st = Inl (DuplicateJob (job_id r))"
proof -
  have key: "job_idempotency_key j = key"
    if "new_job i t kind agg agg_id key corr ps attempts
        (Some (''T'' @ [CHR 0xE2] @ ''che en attente'')) = Inr j" for ps j
    using that by (auto simp: new_job_def job_post_init_def validated_Inr)
  show dup: "submit registry i t kind agg agg_id key corr params attempts actor st = Inl (DuplicateJob (job_id r))"
    if "registry_validate registry kind params = Inr ps"
      "new_job i t kind agg agg_id key corr ps attempts
        (Some (''T'' @ [CHR 0xE2] @ ''che en attente'')) = Inr j" for ps j
    using that assms key [OF that(2)] by (simp add: submit_def jobs_add_if_absent_def)
  show "is_error (submit registry i t kind agg agg_id key corr params attempts actor st)"
  proof (cases "registry_validate registry kind params")
    case (Inr ps)
    then show ?thesis
    proof (cases "new_job i t kind agg agg_id key corr ps attempts
        (Some (''T'' @ [CHR 0xE2] @ ''che en attente''))")
      case (Inr j)
      with dup \<open>registry_validate registry kind params = Inr ps\<close> show ?thesis by simp
    qed (simp add: submit_def)
  qed (simp add: submit_def)
qed

subsection \<open>The dispatch loop\<close>

text \<open>A job claimed at attempt \<open>a\<close>, until its run is over.\<close>

definition underway :: "int \<Rightarrow> int \<Rightarrow> job \<Rightarrow> bool" where
  "underway a m j = (job_attempt j = a \<and> job_max_attempts j = m \<and> job_status j \<noteq> Queued)"

definition at_attempt :: "int \<Rightarrow> int \<Rightarrow> job \<Rightarrow> bool" where
  "at_attempt a m j = (job_attempt j = a \<and> job_max_attempts j = m)"

lemma underway_at_attempt: "row_sat (underway a m) i st \<Longrightarrow> row_sat (at_attempt a m) i st"
  by (auto simp: row_sat_def underway_def at_attempt_def split: option.splits)

lemma underway_kept [simp]: "f \<in> set (ctx_changes c) \<Longrightarrow> keeps (underway a m) f"
  by (cases c) (auto simp: keeps_def underway_def op_defs and_then_Inr split: if_splits)

lemma at_attempt_kept [simp]:
  "keeps (at_attempt a m) (\<lambda>j. if job_cancellation_requested j then job_mark_cancelled t j else job_succeed t r j)"
  "keeps (at_attempt a m) (\<lambda>j. if job_cancellation_requested j then job_mark_cancelled t j else job_fail t c w None j)"
  "keeps (at_attempt a m) (refused_change p t err)" "keeps (at_attempt a m) (job_wait_for_human t w)"
  by (auto simp: keeps_def at_attempt_def op_defs refused_change_def split: if_splits)

lemma run_handler_keeps:
  assumes "store_inv st" and "row_sat (underway a m) i st"
  shows "store_inv (snd (run_handler i cs st)) \<and> row_sat (underway a m) i (snd (run_handler i cs st))"
  using assms
proof (induction i cs st rule: run_handler.induct)
  case (2 i c cs st)
  have step: "store_inv (snd r)" "row_sat (underway a m) i (snd r)" if "ctx_run i c st = Inr r" for r
    using ctx_run_inv [OF 2(2) that] ctx_run_keeps [OF 2(3) that] by simp_all
  show ?case
  proof (cases "ctx_run i c st")
    case (Inr r)
    obtain e st' where r: "r = (e, st')" by (cases r)
    with step [OF Inr] 2(1) [OF Inr r [symmetric]] Inr show ?thesis by (cases e) auto
  qed (use 2 in simp)
qed simp

definition settled_read :: "uuid \<Rightarrow> int \<Rightarrow> int \<Rightarrow> job result \<times> job_store \<Rightarrow> bool" where
  "settled_read i a m r = (store_inv (snd r) \<and>
     (case fst r of Inl _ \<Rightarrow> True
      | Inr j \<Rightarrow> at_attempt a m j \<and> jobs_get (snd r) i = Some j))"

lemma read_back_settled:
  assumes "store_inv st" and "\<And>st'. x = Inr st' \<Longrightarrow> store_inv st' \<and> row_sat (at_attempt a m) i st'"
  shows "settled_read i a m (read_back i x st)"
proof (cases x)
  case (Inr st')
  with assms(2) show ?thesis
    by (auto simp: settled_read_def read_back_def row_sat_def split: option.splits)
qed (use assms(1) in \<open>simp add: settled_read_def read_back_def\<close>)

lemma finishes_settled:
  assumes "store_inv st" and "row_sat (at_attempt a m) i st"
  shows "finish_succeeded t i r st = Inr st' \<Longrightarrow> store_inv st' \<and> row_sat (at_attempt a m) i st'"
    and "finish_failed t i c w st = Inr st' \<Longrightarrow> store_inv st' \<and> row_sat (at_attempt a m) i st'"
    and "finish_controlled_failure p t i err st = Inr st' \<Longrightarrow> store_inv st' \<and> row_sat (at_attempt a m) i st'"
proof -
  note keep = store_exec_inv [OF assms(1), of "\<lambda>_. None" p "\<lambda>_. False"]
    store_exec_keeps [OF assms, of "\<lambda>_. None" p "\<lambda>_. False"]
  show "finish_succeeded t i r st = Inr st' \<Longrightarrow> store_inv st' \<and> row_sat (at_attempt a m) i st'"
    using keep [of "OSucceeded t i r" st'] by simp
  show "finish_failed t i c w st = Inr st' \<Longrightarrow> store_inv st' \<and> row_sat (at_attempt a m) i st'"
    using keep [of "OCrashed t i c w" st'] by simp
  show "finish_controlled_failure p t i err st = Inr st' \<Longrightarrow> store_inv st' \<and> row_sat (at_attempt a m) i st'"
    using keep [of "ORefused t i err" st'] by simp
qed

lemma conclude_run_settled:
  assumes "store_inv (snd r)" and "row_sat (at_attempt a m) i (snd r)"
  shows "settled_read i a m (conclude_run p t i out r)"
proof -
  obtain e st where r: "r = (e, st)" by (cases r)
  note fin = finishes_settled [OF assms [unfolded r, simplified]]
  have rb: "settled_read i a m (read_back i (Inr st') st0)"
    if "store_inv st' \<and> row_sat (at_attempt a m) i st'" for st' st0
    using that read_back_settled [of st' "Inr st'" a m i] by (simp add: read_back_def)
  have crash: "settled_read i a m (crash t i st)"
    unfolding crash_def using assms(1) fin(2) by (intro read_back_settled) (auto simp: r)
  show ?thesis
  proof (cases e)
    case (Some e')
    with r crash rb assms show ?thesis by (auto simp: conclude_run_def)
  next
    case None
    have "settled_read i a m (read_back i (finish_controlled_failure p t i err st) st)" for err
      using assms(1) fin(3) by (intro read_back_settled) (auto simp: r)
    moreover have "settled_read i a m (case finish_succeeded t i ref st of Inl _ \<Rightarrow> crash t i st
        | Inr st' \<Rightarrow> read_back i (Inr st') st)" for ref
      using crash rb fin(1) by (auto split: sum.splits)
    ultimately show ?thesis using None r crash by (simp add: conclude_run_def split: outcome.splits)
  qed
qed

text \<open>
  One execution: either it leaves nothing to retry early, or it consumed one attempt of the row and
  its result is the row.
\<close>

lemma execute_result:
  assumes "store_inv st" and "execute registry p handler t True i st = (Inr j, st')"
    and "job_status j = Queued" and "job_next_retry_at j \<noteq> None"
  obtains j0 where "jobs_get st i = Some j0" "jobs_get st' i = Some j" "store_inv st'"
    "job_attempt j = job_attempt j0 + 1" "job_max_attempts j = job_max_attempts j0"
proof -
  from assms(2) obtain j1 claimed st1 where c: "claim t True i st = Inr (j1, claimed, st1)"
    by (auto simp: execute_def split: sum.splits)
  from c show thesis
  proof (cases rule: claim_cases)
    case (started j0 st0)
    have key: "jobs_get st1 i = Some j1"
      using started job_table.get_save [OF started(5)] jobs_get_key [OF started(1)]
        job_safe_id [OF job_safe_ops(1) started(4)] by simp
    have up: "row_sat (underway (job_attempt j0 + 1) (job_max_attempts j0)) i st1"
      using key started(4) by (auto simp: row_sat_def underway_def job_start_def split: if_splits)
    have inv: "store_inv st1" by (rule claim_inv [OF assms(1) c])
    obtain cs out te where h: "handler j1 = (cs, out, te)" by (cases "handler j1")
    have "settled_read i (job_attempt j0 + 1) (job_max_attempts j0) (Inr j, st')"
    proof (cases "registry_validate registry (job_kind j1) (job_input_parameters j1)")
      case (Inl e)
      have "settled_read i (job_attempt j0 + 1) (job_max_attempts j0) (crash te i st1)"
        unfolding crash_def using inv finishes_settled(2) [OF inv underway_at_attempt [OF up]]
        by (intro read_back_settled) auto
      with Inl assms(2) c started(2) h show ?thesis by (simp add: execute_def)
    next
      case (Inr ps)
      have "settled_read i (job_attempt j0 + 1) (job_max_attempts j0)
          (conclude_run p te i out (run_handler i cs st1))"
        using run_handler_keeps [OF inv up] by (intro conclude_run_settled underway_at_attempt) auto
      with Inr assms(2) c started(2) h show ?thesis by (simp add: execute_def)
    qed
    with that started(1) show ?thesis by (auto simp: settled_read_def at_attempt_def)
  next
    case (cancelled j0 st0)
    with c assms(2,3) show ?thesis by (auto simp: execute_def job_mark_cancelled_def split: if_splits)
  qed (use c assms(2-4) in \<open>auto simp: execute_def\<close>)
qed

lemma dispatch_enough_fuel:
  assumes "store_inv st" and "0 < fuel"
    and "\<And>j. jobs_get st i = Some j \<Longrightarrow> nat (job_max_attempts j - job_attempt j) < fuel"
  shows "\<exists>r. dispatch fuel registry p handler clock i st = Some r"
  using assms
proof (induction fuel arbitrary: st)
  case (Suc fuel)
  obtain x st' where e: "execute registry p handler (clock fuel) True i st = (x, st')"
    by (cases "execute registry p handler (clock fuel) True i st")
  show ?case
  proof (cases "\<exists>j. x = Inr j \<and> job_status j = Queued \<and> job_next_retry_at j \<noteq> None")
    case True
    then obtain j where j: "x = Inr j" "job_status j = Queued" "job_next_retry_at j \<noteq> None" by blast
    from execute_result [OF Suc.prems(1) e [unfolded j(1)] j(2,3)] obtain j0 where
      r: "jobs_get st i = Some j0" "jobs_get st' i = Some j" "store_inv st'"
        "job_attempt j = job_attempt j0 + 1" "job_max_attempts j = job_max_attempts j0" by metis
    have "job_inv j" using store_inv_get r by blast
    then have "job_attempt j < job_max_attempts j" using j(2) by (simp add: job_inv_def job_phase_def)
    moreover have "nat (job_max_attempts j0 - job_attempt j0) < Suc fuel" using Suc.prems(3) r(1) by blast
    ultimately have "nat (job_max_attempts j - job_attempt j) < fuel" "0 < fuel" using r(4,5) by auto
    with Suc.IH [OF r(3)] r(2) have "\<exists>r. dispatch fuel registry p handler clock i st' = Some r" by simp
    with e j show ?thesis by simp
  next
    case False
    with e show ?thesis by (cases x) auto
  qed
qed simp

subsection \<open>Properties\<close>

definition empty_store :: job_store where
  "empty_store = \<lparr>st_jobs = [], st_events = [], st_batch_of_run = (\<lambda>_. None), st_batch_paused = (\<lambda>_. None)\<rparr>"

lemma empty_store_inv [simp]: "store_inv (empty_store\<lparr>st_batch_of_run := b, st_batch_paused := pz\<rparr>)"
  by (simp add: store_inv_def empty_store_def)

definition demo_registry :: "string \<Rightarrow> (details \<Rightarrow> details result) option" where
  "demo_registry kind = (if kind = ''demo'' then Some Inr else None)"

definition demo_row :: job where
  "demo_row = demo_job\<lparr>job_user_message := Some (''T'' @ [CHR 0xE2] @ ''che en attente'')\<rparr>"

definition demo_store :: job_store where
  "demo_store = append_event demo_row None ''job.submitted'' ''u'' (empty_store\<lparr>st_jobs := [demo_row]\<rparr>)"

lemma demo_submit:
  "submit demo_registry 1 demo_time ''demo'' ''subject'' 7 ''k'' ''c'' [] 3 ''u'' empty_store = Inr (demo_row, demo_store)"
  by (simp add: submit_def registry_validate_def demo_registry_def new_job_def job_post_init_def
      validated_def bad_progress_def blank_iff py_space_def jobs_add_if_absent_def jobs_by_key_def
      jobs_get_def empty_store_def demo_store_def demo_row_def demo_job_def)

lemma demo_store_inv: "store_inv demo_store"
  using submit_inv [OF _ demo_submit] by (simp add: store_inv_def empty_store_def)

lemma demo_store_get: "jobs_get demo_store 1 = Some demo_row"
  using submit_row [OF demo_submit] by simp

lemmas demo_store_row [simp] = demo_store_get demo_store_get [simplified]

text \<open>
  C24. Whatever API calls, workers, handlers and recovery passes are interleaved on an initially
  empty job table, every stored job satisfies the job invariant and no two rows share an id or an
  idempotency key.
\<close>

theorem store_wellformed:
  assumes "st_jobs st0 = []" and "st = drive (store_exec registry p resumes) ops st0"
  shows "(\<forall>j \<in> set (st_jobs st). 0 \<le> job_attempt j \<and> job_attempt j \<le> job_max_attempts j
      \<and> (job_status j = Queued \<longrightarrow> job_attempt j < job_max_attempts j)
      \<and> (job_is_terminal j \<longleftrightarrow> job_finished_at j \<noteq> None))
    \<and> distinct (map job_id (st_jobs st)) \<and> distinct (map job_idempotency_key (st_jobs st))"
proof -
  have "store_inv st0" using assms(1) by (simp add: store_inv_def)
  then have inv: "store_inv st" using assms(2) store_machine.drive_inv by blast
  have "0 \<le> job_attempt j \<and> job_attempt j \<le> job_max_attempts j
      \<and> (job_status j = Queued \<longrightarrow> job_attempt j < job_max_attempts j)
      \<and> (job_is_terminal j \<longleftrightarrow> job_finished_at j \<noteq> None)" if "job_inv j" for j
    using that by (cases "job_status j") (auto simp: job_inv_def job_phase_def job_simps)
  with inv show ?thesis by (simp add: store_inv_def)
qed

theorem store_wellformed_witness:
  "distinct (map job_id (st_jobs (drive (store_exec demo_registry default_retry_policy (\<lambda>_. False))
     [OSubmit 1 demo_time ''demo'' ''subject'' 7 ''k'' ''c'' [] 3 ''u'', OClaim demo_time False 1] empty_store)))"
proof -
  have "st_jobs empty_store = []" by (simp add: empty_store_def)
  from store_wellformed [OF this refl] show ?thesis by blast
qed

text \<open>
  C25. Submission is idempotent: once a key is accepted, after any further operations a submission
  with the same key stores nothing, and when its parameters are valid it reports the first job as
  the duplicate, whatever status that job has reached.
\<close>

theorem submit_once:
  assumes "store_inv st"
    and "submit registry i t kind agg agg_id key corr params attempts actor st = Inr (j, st1)"
    and "st2 = drive (store_exec registry p resumes) ops st1"
  shows "is_error (submit registry i' t' kind' agg' agg_id' key corr' params' attempts' actor' st2)
    \<and> (\<forall>ps x. registry_validate registry kind' params' = Inr ps \<longrightarrow>
        new_job i' t' kind' agg' agg_id' key corr' ps attempts'
          (Some (''T'' @ [CHR 0xE2] @ ''che en attente'')) = Inr x \<longrightarrow>
        submit registry i' t' kind' agg' agg_id' key corr' params' attempts' actor' st2
          = Inl (DuplicateJob i))"
proof -
  have "store_inv st1" "row_sat (\<lambda>j. job_idempotency_key j = key) i st1"
    using submit_inv [OF assms(1,2)] submit_row [OF assms(2)] by (auto simp: row_sat_def)
  with key_row_stays assms(3) have "store_inv st2" "row_sat (\<lambda>j. job_idempotency_key j = key) i st2"
    by blast+
  then obtain r where "jobs_by_key st2 key = Some r" "job_id r = i" using row_key_lookup by blast
  with resubmit_refused [OF this(1)] show ?thesis by simp
qed

theorem submit_once_witness:
  "submit demo_registry 2 demo_time ''demo'' ''subject'' 7 ''k'' ''c'' [] 3 ''u''
     (drive (store_exec demo_registry default_retry_policy (\<lambda>_. False))
       [OClaim demo_time False 1, OSucceeded demo_time 1 None] demo_store) = Inl (DuplicateJob 1)"
proof -
  have "store_inv empty_store" by (simp add: store_inv_def empty_store_def)
  from submit_once [OF this demo_submit refl, of 2 demo_time "''demo''" "''subject''" 7 "''c''" "[]" 3 "''u''"]
  show ?thesis
    by (simp del: drive.simps add: registry_validate_def demo_registry_def new_job_def job_post_init_def
      validated_def bad_progress_def blank_iff py_space_def)
qed

text \<open>
  C26. A requested cancellation sticks. From the moment the request is recorded on a job that has not
  ended, no interleaving of operations (a manual retry of that job apart) ends it as succeeded or
  failed, and no worker ever claims it: a claim cancels it or leaves it alone.
\<close>

theorem cancellation_sticks:
  assumes "store_inv st" and "jobs_get st i = Some j" and "job_cancellation_requested j"
    and "job_status j \<notin> {Succeeded, Failed}" and "list_all (\<lambda>op. \<not> retries_row i op) ops"
    and "st' = drive (store_exec registry p resumes) ops st"
  shows "\<exists>j'. jobs_get st' i = Some j' \<and> job_cancellation_requested j'
      \<and> job_status j' \<notin> {Succeeded, Failed}
      \<and> (\<forall>t early k claimed st''. claim t early i st' = Inr (k, claimed, st'') \<longrightarrow> \<not> claimed)"
proof -
  have "store_inv st \<and> row_sat dying i st"
    using assms(1-4) by (simp add: row_sat_def dying_def)
  with assms(5,6) have dying: "row_sat dying i st'"
    using dying_machine.drive_absorb by blast
  then obtain j' where "jobs_get st' i = Some j'" "dying j'"
    by (auto simp: row_sat_def split: option.splits)
  with dying_unclaimed [OF dying] show ?thesis unfolding dying_def by blast
qed

theorem cancellation_sticks_witness:
  "\<exists>j'. jobs_get (drive (store_exec demo_registry default_retry_policy (\<lambda>_. False))
      [OSucceeded demo_time 1 None]
      (demo_store\<lparr>st_jobs := [demo_row\<lparr>job_status := Running, job_attempt := 1,
         job_started_at := Some demo_time, job_cancellation_requested_at := Some demo_time\<rparr>]\<rparr>)) 1 = Some j'
     \<and> job_status j' \<notin> {Succeeded, Failed}"
proof -
  let ?j = "demo_row\<lparr>job_status := Running, job_attempt := 1,
         job_started_at := Some demo_time, job_cancellation_requested_at := Some demo_time\<rparr>"
  have "store_inv (demo_store\<lparr>st_jobs := [?j]\<rparr>)"
    by (simp add: store_inv_def demo_row_def demo_job_def job_inv_def job_phase_def bad_progress_def)
  moreover have "jobs_get (demo_store\<lparr>st_jobs := [?j]\<rparr>) 1 = Some ?j"
    by (simp add: jobs_get_def demo_row_def demo_job_def)
  ultimately show ?thesis
    using cancellation_sticks [of "demo_store\<lparr>st_jobs := [?j]\<rparr>" 1 ?j "[OSucceeded demo_time 1 None]"
      _ demo_registry default_retry_policy "\<lambda>_. False", OF _ _ _ _ _ refl]
    by (auto simp: job_cancellation_requested_def)
qed

text \<open>
  C19. A claim is exclusive and counted: the worker that claims a queued job sees it running with one
  more attempt, the store agrees, one \<open>job.started\<close> event is logged, and no other worker claims it
  afterwards, early retries included.
\<close>

theorem claim_exclusive:
  assumes "claim t early i st = Inr (j, True, st')"
  shows "jobs_get st' i = Some j \<and> job_status j = Running
    \<and> (\<exists>j0. jobs_get st i = Some j0 \<and> job_status j0 = Queued \<and> job_attempt j = job_attempt j0 + 1
        \<and> \<not> job_cancellation_requested j0)
    \<and> map ev_type (st_events st') = map ev_type (st_events st) @ [''job.started'']
    \<and> claim u early' i st' = Inr (j, False, st')"
  using assms
proof (rule claim_cases)
  fix j0 st1
  assume h: "jobs_get st i = Some j0" "True" "\<not> job_cancellation_requested j0" "job_start t j0 = Inr j"
    "jobs_save st j = Inr st1"
    "st' = append_event j (Some (job_status j0)) ''job.started'' ''system:worker'' st1"
  have row: "jobs_get st' i = Some j"
    using h(6) job_table.get_save [OF h(5)] jobs_get_key [OF h(1)] job_safe_id [OF job_safe_ops(1) h(4)] by simp
  have j: "job_status j = Running" "job_status j0 = Queued" "job_attempt j = job_attempt j0 + 1"
    using h(4) by (auto simp: job_start_def split: if_splits)
  then have "claim u early' i st' = Inr (j, False, st')" using row by (simp add: claim_def)
  moreover have "map ev_type (st_events st') = map ev_type (st_events st) @ [''job.started'']"
    using h(6) jobs_save_frame [OF h(5)] by (simp add: append_event_def)
  ultimately show ?thesis using row j h(1,3) by simp
qed simp_all

theorem claim_exclusive_witness:
  "\<exists>j st'. claim demo_time False 1 demo_store = Inr (j, True, st') \<and> job_status j = Running
     \<and> claim demo_time True 1 st' = Inr (j, False, st')"
proof -
  obtain j st' where c: "claim demo_time False 1 demo_store = Inr (j, True, st')"
    by (simp add: claim_def demo_row_def demo_job_def job_simps job_batch_is_paused_def starts_with_def
        production_prefix_def job_start_def jobs_save_def Let_def)
  from claim_exclusive [OF this, of demo_time True] c show ?thesis by blast
qed

text \<open>
  C27. The inline dispatcher returns: on any table reachable by the service, whatever the handler
  does and whatever the retry policy, 21 executions are always enough, because a job is limited to
  20 attempts and every execution that asks for another one has consumed an attempt.
\<close>

theorem dispatch_returns:
  assumes "store_inv st" and "21 \<le> fuel"
  shows "\<exists>r. dispatch fuel registry p handler clock i st = Some r"
proof (rule dispatch_enough_fuel [OF assms(1)])
  show "0 < fuel" using assms(2) by simp
  fix j assume "jobs_get st i = Some j"
  then have "job_inv j" by (rule store_inv_get [OF assms(1)])
  with assms(2) show "nat (job_max_attempts j - job_attempt j) < fuel" by (auto simp: job_inv_def)
qed

theorem dispatch_returns_witness:
  "\<exists>r. dispatch 21 demo_registry default_retry_policy
     (\<lambda>j. ([], Refused \<lparr>he_code = ''x'', he_public_message = ''y'', he_transient = True, he_details = None\<rparr>,
        demo_time)) (\<lambda>_. demo_time) 1 demo_store = Some r"
  by (rule dispatch_returns [OF demo_store_inv]) simp

lemma retry_delay_range:
  assumes "0 < base" and "base \<le> cap" and "1 \<le> (a :: int)"
  shows "base \<le> min cap (base * 2 ^ nat (a - 1)) \<and> min cap (base * 2 ^ nat (a - 1)) \<le> (cap :: int)"
  using assms mult_left_mono [of 1 "2 ^ nat (a - 1)" base] by auto

text \<open>
  A transient failure with attempts left is retried later: outside a paused batch and without a
  cancellation request, the running job goes back to the queue with its attempt counter unchanged,
  it is not due before the policy's base delay nor after its cap, and the event is logged.
\<close>

theorem transient_failure_retried:
  assumes "jobs_get st i = Some j" and "job_inv j" and "job_status j = Running"
    and "he_transient err" and "\<not> job_batch_is_paused st j" and "\<not> job_cancellation_requested j"
    and "job_attempt j < job_max_attempts j" and "he_code err \<noteq> ''bridge_ui_timeout''"
    and "0 < rp_base p" and "rp_base p \<le> rp_max p"
  shows "\<exists>st' j' due. finish_controlled_failure p t i err st = Inr st' \<and> jobs_get st' i = Some j'
    \<and> job_status j' = Queued \<and> job_attempt j' = job_attempt j \<and> job_next_retry_at j' = Some due
    \<and> instant t + rp_base p \<le> instant due \<and> instant due \<le> instant t + rp_max p
    \<and> job_error_code j' = Some (he_code err)
    \<and> map ev_type (st_events st') = map ev_type (st_events st) @ [''job.retry_scheduled'']"
proof -
  let ?d = "min (rp_max p) (rp_base p * 2 ^ nat (job_attempt j - 1))"
  have "1 \<le> job_attempt j" using assms(2,3) by (simp add: job_inv_def job_phase_def)
  then have d: "rp_base p \<le> ?d \<and> ?d \<le> rp_max p" by (rule retry_delay_range [OF assms(9,10)])
  obtain j' where j': "refused_change p t err j = Inr j'" "job_id j' = job_id j" "job_status j' = Queued"
      "job_attempt j' = job_attempt j" "job_next_retry_at j' = Some (dt_plus t ?d)"
      "job_error_code j' = Some (he_code err)"
    using assms(3-8) by (simp add: refused_change_def job_schedule_retry_def retry_delay_def)
  have key: "job_id j' = i" using j'(2) jobs_get_key [OF assms(1)] by simp
  then obtain st1 where st1: "jobs_save st j' = Inr st1"
    using assms(1) job_table.save_defined [of st j'] by auto
  have "jobs_get st1 i = Some j'" using job_table.get_save [OF st1] key by simp
  moreover have "instant (dt_plus t ?d) = instant t + ?d" by (simp add: instant_def dt_plus_def)
  ultimately show ?thesis
    using assms(1,4,5) j' st1 d jobs_save_frame [OF st1]
    by (simp add: finish_controlled_failure_alt change_job_def append_event_def jobs_get_def)
qed

theorem transient_failure_retried_witness:
  "\<exists>st'. finish_controlled_failure default_retry_policy demo_time 1
     \<lparr>he_code = ''x'', he_public_message = ''y'', he_transient = True, he_details = None\<rparr>
     (demo_store\<lparr>st_jobs := [demo_row\<lparr>job_status := Running, job_attempt := 1,
        job_started_at := Some demo_time\<rparr>]\<rparr>) = Inr st'"
proof -
  let ?j = "demo_row\<lparr>job_status := Running, job_attempt := 1, job_started_at := Some demo_time\<rparr>"
  have "jobs_get (demo_store\<lparr>st_jobs := [?j]\<rparr>) 1 = Some ?j"
    by (simp add: jobs_get_def demo_row_def demo_job_def)
  moreover have "job_inv ?j"
    by (simp add: demo_row_def demo_job_def job_inv_def job_phase_def bad_progress_def)
  moreover have "\<not> job_batch_is_paused (demo_store\<lparr>st_jobs := [?j]\<rparr>) ?j"
    by (simp add: job_batch_is_paused_def demo_row_def demo_job_def starts_with_def production_prefix_def)
  moreover have "\<not> job_cancellation_requested ?j" "job_attempt ?j < job_max_attempts ?j"
    by (simp_all add: job_simps demo_row_def demo_job_def)
  ultimately show ?thesis
    using transient_failure_retried [of "demo_store\<lparr>st_jobs := [?j]\<rparr>" 1 ?j
      "\<lparr>he_code = ''x'', he_public_message = ''y'', he_transient = True, he_details = None\<rparr>"
      default_retry_policy demo_time]
    by (auto simp: default_retry_policy_def)
qed

text \<open>
  A paused batch holds its jobs: no worker claims a job of a paused production batch, none of
  them consumes an attempt, a held job is no longer due by itself, and a manual retry is refused.
\<close>

theorem paused_batch_holds:
  assumes "jobs_get st i = Some j" and "job_batch_is_paused st j"
  shows "retry t i actor st = Inl JobPausedBatch
    \<and> (\<exists>j' st'. claim t early i st = Inr (j', False, st') \<and> jobs_get st' i = Some j'
        \<and> job_status j' = job_status j \<and> job_attempt j' = job_attempt j
        \<and> (job_status j = Queued \<longrightarrow> job_next_retry_at j' = None)
        \<and> st_events st' = st_events st)"
proof -
  let ?h = "j\<lparr>job_next_retry_at := None, job_updated_at := t\<rparr>"
  have "jobs_get st (job_id ?h) \<noteq> None" using assms(1) jobs_get_key [OF assms(1)] by simp
  then obtain st1 where st1: "jobs_save st ?h = Inr st1" using job_table.save_defined by blast
  have "jobs_get st1 i = Some ?h" "st_events st1 = st_events st"
    using job_table.get_save [OF st1] jobs_get_key [OF assms(1)] jobs_save_frame [OF st1] by simp_all
  with assms st1 show ?thesis
    by (cases "job_next_retry_at j") (auto simp: retry_def claim_def Let_def job_simps)
qed

theorem paused_batch_holds_witness:
  "retry demo_time 1 ''u'' (demo_store\<lparr>st_jobs := [demo_row\<lparr>job_kind := ''production.run'',
       job_input_parameters := [(''run_id'', JUuid 5)]\<rparr>],
     st_batch_of_run := \<lambda>_. Some 9, st_batch_paused := \<lambda>_. Some True\<rparr>) = Inl JobPausedBatch"
proof -
  let ?j = "demo_row\<lparr>job_kind := ''production.run'', job_input_parameters := [(''run_id'', JUuid 5)]\<rparr>"
  let ?st = "demo_store\<lparr>st_jobs := [?j], st_batch_of_run := \<lambda>_. Some 9, st_batch_paused := \<lambda>_. Some True\<rparr>"
  have "jobs_get ?st 1 = Some ?j" by (simp add: jobs_get_def demo_row_def demo_job_def)
  moreover have "job_batch_is_paused ?st ?j"
    by (simp add: job_batch_is_paused_def starts_with_def production_prefix_def)
  ultimately show ?thesis using paused_batch_holds by blast
qed

text \<open>
  The wait for a human is the one transition of the worker that is not in the event log: the
  row moves from running to waiting while the log stays as it was.
\<close>

theorem waiting_human_unlogged:
  assumes "ctx_wait_for_human t i m d st = Inr (Some e, st')"
  shows "e = JobWaitingHuman \<and> st_events st' = st_events st
    \<and> (\<exists>j j'. jobs_get st i = Some j \<and> job_status j = Running
         \<and> jobs_get st' i = Some j' \<and> job_status j' = WaitingHuman)"
proof -
  from assms obtain j j' where r: "e = JobWaitingHuman" "jobs_get st i = Some j"
      "and_then (job_record_diagnostics t d j) (job_wait_for_human t m) = Inr j'" "jobs_save st j' = Inr st'"
    by (auto simp: ctx_wait_for_human_def touch_job_def update_row_def and_then_Inr split: option.splits)
  then have "job_status j = Running" "job_status j' = WaitingHuman" "job_id j' = job_id j"
    by (auto simp: and_then_Inr job_record_diagnostics_def job_wait_for_human_def split: if_splits)
  with r job_table.get_save [OF r(4)] jobs_get_key [OF r(2)] jobs_save_frame [OF r(4)]
  show ?thesis by auto
qed

theorem waiting_human_unlogged_witness:
  "\<exists>st'. ctx_wait_for_human demo_time 1 ''m'' [] (demo_store\<lparr>st_jobs := [demo_row\<lparr>job_status := Running\<rparr>]\<rparr>)
     = Inr (Some JobWaitingHuman, st') \<and> st_events st' = st_events demo_store"
proof -
  obtain st' where s: "ctx_wait_for_human demo_time 1 ''m'' [] (demo_store\<lparr>st_jobs := [demo_row\<lparr>job_status := Running\<rparr>]\<rparr>)
     = Inr (Some JobWaitingHuman, st')"
    by (simp add: ctx_wait_for_human_def touch_job_def update_row_def jobs_get_def jobs_save_def
        demo_row_def demo_job_def job_record_diagnostics_def job_wait_for_human_def)
  from waiting_human_unlogged [OF this] s show ?thesis by simp
qed

end
