(* ===== verification/Pipeline.thy ===== *)
theory Pipeline
  imports Machines
begin

text \<open>
  The canonical production pipeline, \<open>backend/src/cti_app/domain/production_pipeline.py\<close>: the
  stages, the artifact each produces, and the graph functions the run, the retry and the resume
  services are built on.
\<close>

subsection \<open>Stages, artifacts and routes\<close>

datatype production_stage =
    Sources | References | Extraction | Relevance_Projection | Synthesis | Editorial_Enrichment | Assembly

fun stage_value :: "production_stage \<Rightarrow> string" where
  "stage_value Sources = ''sources''"
| "stage_value References = ''references''"
| "stage_value Extraction = ''extraction''"
| "stage_value Relevance_Projection = ''relevance_projection''"
| "stage_value Synthesis = ''synthesis''"
| "stage_value Editorial_Enrichment = ''editorial_enrichment''"
| "stage_value Assembly = ''assembly''"

datatype artifact_stage =
    A_References | A_Extraction | A_Relevance_Projection | A_Synthesis | A_Editorial_Enrichment
  | A_Publication

fun artifact_value :: "artifact_stage \<Rightarrow> string" where
  "artifact_value A_References = ''references''"
| "artifact_value A_Extraction = ''extraction''"
| "artifact_value A_Relevance_Projection = ''relevance_projection''"
| "artifact_value A_Synthesis = ''synthesis''"
| "artifact_value A_Editorial_Enrichment = ''editorial_enrichment''"
| "artifact_value A_Publication = ''publication''"

datatype publication_kind = Article | Brief

record stage_spec =
  spec_stage :: production_stage
  spec_artifact :: "artifact_stage option"

definition production_pipeline :: "stage_spec list" where
  [enum_defs]: "production_pipeline =
     [\<lparr>spec_stage = Sources, spec_artifact = None\<rparr>,
      \<lparr>spec_stage = References, spec_artifact = Some A_References\<rparr>,
      \<lparr>spec_stage = Extraction, spec_artifact = Some A_Extraction\<rparr>,
      \<lparr>spec_stage = Relevance_Projection, spec_artifact = Some A_Relevance_Projection\<rparr>,
      \<lparr>spec_stage = Synthesis, spec_artifact = Some A_Synthesis\<rparr>,
      \<lparr>spec_stage = Editorial_Enrichment, spec_artifact = Some A_Editorial_Enrichment\<rparr>,
      \<lparr>spec_stage = Assembly, spec_artifact = Some A_Publication\<rparr>]"

definition artifacts_of :: "stage_spec list \<Rightarrow> artifact_stage list" where
  "artifacts_of specs = List.map_filter spec_artifact specs"

text \<open>The check the module runs when it is imported.\<close>

definition all_stages :: "production_stage list" where
  [enum_defs]: "all_stages = [Sources, References, Extraction, Relevance_Projection, Synthesis,
     Editorial_Enrichment, Assembly]"

definition all_artifact_stages :: "artifact_stage list" where
  [enum_defs]: "all_artifact_stages = [A_References, A_Extraction, A_Relevance_Projection, A_Synthesis,
     A_Editorial_Enrichment, A_Publication]"

definition validate_pipeline :: "stage_spec list \<Rightarrow> unit result" where
  "validate_pipeline specs =
     (let stages = map spec_stage specs; artifacts = artifacts_of specs in
      if \<not> distinct stages then Inl (RuntimeErr ''Production pipeline stages must be unique'')
      else if set stages \<noteq> set all_stages then
        Inl (RuntimeErr ''Every production stage must appear exactly once in the pipeline'')
      else if \<not> distinct artifacts then
        Inl (RuntimeErr ''Production pipeline artifact stages must be unique'')
      else if set artifacts \<noteq> set all_artifact_stages then
        Inl (RuntimeErr ''Every production artifact stage must map to one pipeline stage'')
      else if map spec_stage (filter (\<lambda>s. spec_artifact s = None) specs) \<noteq> [Sources] then
        Inl (RuntimeErr ''SOURCES must be the only production stage without an artifact'')
      else if specs = [] \<or> spec_stage (last specs) \<noteq> Assembly then
        Inl (RuntimeErr ''ASSEMBLY must be the final production stage'')
      else if spec_artifact (last specs) \<noteq> Some A_Publication then
        Inl (RuntimeErr ''ASSEMBLY must produce the PUBLICATION artifact'')
      else Inr ())"

subsection \<open>The graph functions\<close>

definition production_stages :: "publication_kind option \<Rightarrow> production_stage list" where
  "production_stages k =
     (let stages = map spec_stage production_pipeline
      in if k = Some Brief then filter (\<lambda>s. s \<noteq> Editorial_Enrichment) stages else stages)"

definition production_artifact_stages :: "publication_kind option \<Rightarrow> artifact_stage list" where
  "production_artifact_stages k =
     artifacts_of (filter (\<lambda>s. spec_stage s \<in> set (production_stages k)) production_pipeline)"

definition not_in_pipeline :: "production_stage \<Rightarrow> error" where
  "not_in_pipeline s =
     ValueError (''Stage '' @ stage_value s @ '' is not valid for the production pipeline'')"

definition stage_spec_of :: "production_stage \<Rightarrow> stage_spec result" where
  "stage_spec_of s =
     (case find (\<lambda>spec. spec_stage spec = s) production_pipeline of
        None \<Rightarrow> Inl (not_in_pipeline s) | Some spec \<Rightarrow> Inr spec)"

definition artifact_stage_for :: "production_stage \<Rightarrow> artifact_stage option result" where
  "artifact_stage_for s = and_then (stage_spec_of s) (\<lambda>spec. Inr (spec_artifact spec))"

fun first_artifact :: "production_stage list \<Rightarrow> artifact_stage option result" where
  "first_artifact [] = Inr None"
| "first_artifact (s # ss) =
     and_then (stage_spec_of s) (\<lambda>spec.
       case spec_artifact spec of None \<Rightarrow> first_artifact ss | Some a \<Rightarrow> Inr (Some a))"

definition prerequisite_artifact_for ::
  "production_stage \<Rightarrow> publication_kind option \<Rightarrow> artifact_stage option result" where
  "prerequisite_artifact_for s k =
     (case index_of s (production_stages k) of
        None \<Rightarrow> Inl (ValueError (''Stage '' @ stage_value s @ '' is not in the selected production route''))
      | Some i \<Rightarrow> first_artifact (rev (take i (production_stages k))))"

definition pipeline_stage_for_artifact :: "artifact_stage \<Rightarrow> production_stage result" where
  "pipeline_stage_for_artifact a =
     (case find (\<lambda>spec. spec_artifact spec = Some a) production_pipeline of
        None \<Rightarrow> Inl (ValueError
          (''Artifact stage '' @ artifact_value a @ '' is not in the production pipeline''))
      | Some spec \<Rightarrow> Inr (spec_stage spec))"

definition next_stage :: "production_stage \<Rightarrow> publication_kind option \<Rightarrow> production_stage option result" where
  "next_stage s k =
     (let stages = production_stages k in
      case index_of s stages of
        None \<Rightarrow> Inl (not_in_pipeline s)
      | Some i \<Rightarrow> Inr (if i + 1 < length stages then Some (stages ! (i + 1)) else None))"

definition downstream_artifacts_from_pipeline_stage ::
  "production_stage \<Rightarrow> bool \<Rightarrow> publication_kind option \<Rightarrow> artifact_stage list result" where
  "downstream_artifacts_from_pipeline_stage s inclusive k =
     (let stages = production_stages k in
      case index_of s stages of
        None \<Rightarrow> Inl (not_in_pipeline s)
      | Some i \<Rightarrow> Inr (artifacts_of (filter
          (\<lambda>spec. spec_stage spec \<in> set (drop (i + (if inclusive then 0 else 1)) stages))
          production_pipeline)))"

definition downstream_artifacts_from_artifact_stage ::
  "artifact_stage \<Rightarrow> bool \<Rightarrow> publication_kind option \<Rightarrow> artifact_stage list result" where
  "downstream_artifacts_from_artifact_stage a inclusive k =
     (let stages = production_artifact_stages k in
      case index_of a stages of
        None \<Rightarrow> Inl (ValueError
          (''Artifact stage '' @ artifact_value a @ '' is not in the production pipeline''))
      | Some i \<Rightarrow> Inr (drop (i + (if inclusive then 0 else 1)) stages))"

subsection \<open>Computed facts\<close>

lemma production_stages_simps:
  "production_stages None = all_stages"
  "production_stages (Some Article) = all_stages"
  "production_stages (Some Brief) =
     [Sources, References, Extraction, Relevance_Projection, Synthesis, Assembly]"
  by (simp_all add: production_stages_def production_pipeline_def all_stages_def Let_def)

lemma route_cases: "production_stages k = all_stages \<or>
    production_stages k = [Sources, References, Extraction, Relevance_Projection, Synthesis, Assembly]"
  by (cases k; cases "the k") (auto simp: production_stages_simps)

lemma production_stages_distinct: "distinct (production_stages k)"
  using route_cases [of k] by (auto simp: all_stages_def)

lemma artifact_stage_for_simps [simp]:
  "artifact_stage_for Sources = Inr None"
  "artifact_stage_for References = Inr (Some A_References)"
  "artifact_stage_for Extraction = Inr (Some A_Extraction)"
  "artifact_stage_for Relevance_Projection = Inr (Some A_Relevance_Projection)"
  "artifact_stage_for Synthesis = Inr (Some A_Synthesis)"
  "artifact_stage_for Editorial_Enrichment = Inr (Some A_Editorial_Enrichment)"
  "artifact_stage_for Assembly = Inr (Some A_Publication)"
  by (simp_all add: artifact_stage_for_def stage_spec_of_def production_pipeline_def)

lemma artifact_stage_for_total: "\<exists>a. artifact_stage_for s = Inr a"
  by (cases s) simp_all

lemma first_artifact_eq:
  "first_artifact (s # ss) = and_then (artifact_stage_for s)
     (\<lambda>a. case a of None \<Rightarrow> first_artifact ss | Some x \<Rightarrow> Inr (Some x))"
  by (simp add: artifact_stage_for_def stage_spec_of_def and_then_def split: option.splits)

text \<open>The stages reached from a stage by \<open>next_stage\<close>; the pipeline has seven stages.\<close>

fun stage_walk :: "nat \<Rightarrow> publication_kind option \<Rightarrow> production_stage \<Rightarrow> production_stage list" where
  "stage_walk 0 k s = []"
| "stage_walk (Suc n) k s =
     s # (case next_stage s k of Inr (Some s') \<Rightarrow> stage_walk n k s' | _ \<Rightarrow> [])"

lemma next_stage_nth:
  "i < length (production_stages k) \<Longrightarrow> next_stage (production_stages k ! i) k =
     Inr (if i + 1 < length (production_stages k) then Some (production_stages k ! (i + 1)) else None)"
  by (simp add: next_stage_def index_of_nth [OF production_stages_distinct])

lemma stage_walk_drop:
  "i < length (production_stages k) \<Longrightarrow>
     stage_walk n k (production_stages k ! i) = take n (drop i (production_stages k))"
proof (induction n arbitrary: i)
  case (Suc n)
  then have step: "drop i (production_stages k) = production_stages k ! i # drop (Suc i) (production_stages k)"
    by (simp add: Cons_nth_drop_Suc)
  show ?case
    using Suc.IH [of "Suc i"] Suc.prems by (simp add: next_stage_nth step)
qed simp

subsection \<open>Properties\<close>

text \<open>
  C23. The pipeline is a chain: the module's own consistency check passes, and following
  \<open>next_stage\<close> from SOURCES visits the stages of the selected route, each once, in order, and ends
  with ASSEMBLY; seven steps are enough for every route.
\<close>

theorem pipeline_is_chain:
  "validate_pipeline production_pipeline = Inr ()
   \<and> stage_walk 7 k Sources = production_stages k
   \<and> last (production_stages k) = Assembly
   \<and> (\<forall>s. s \<in> set (production_stages k) \<longleftrightarrow> k \<noteq> Some Brief \<or> s \<noteq> Editorial_Enrichment)"
proof -
  have len: "0 < length (production_stages k)" "length (production_stages k) \<le> 7"
    and first: "production_stages k ! 0 = Sources"
    using route_cases [of k] by (auto simp: all_stages_def)
  have "validate_pipeline production_pipeline = Inr ()"
    by (auto simp: validate_pipeline_def enum_defs artifacts_of_def map_filter_simps Let_def)
  moreover have "stage_walk 7 k Sources = production_stages k"
    using stage_walk_drop [OF len(1), of 7] len(2) first by simp
  moreover have "last (production_stages k) = Assembly"
    using route_cases [of k] by (auto simp: all_stages_def)
  moreover have "s \<in> set (production_stages k) \<longleftrightarrow> k \<noteq> Some Brief \<or> s \<noteq> Editorial_Enrichment" for s
    by (cases s) (auto simp: production_stages_def production_pipeline_def Let_def)
  ultimately show ?thesis by blast
qed

theorem pipeline_is_chain_witness:
  "stage_walk 7 (Some Brief) Sources = [Sources, References, Extraction, Relevance_Projection, Synthesis, Assembly]"
  using pipeline_is_chain [of "Some Brief"] by (simp add: production_stages_simps)

lemma pipeline_stage_for_artifact_simps [simp]:
  "pipeline_stage_for_artifact A_References = Inr References"
  "pipeline_stage_for_artifact A_Extraction = Inr Extraction"
  "pipeline_stage_for_artifact A_Relevance_Projection = Inr Relevance_Projection"
  "pipeline_stage_for_artifact A_Synthesis = Inr Synthesis"
  "pipeline_stage_for_artifact A_Editorial_Enrichment = Inr Editorial_Enrichment"
  "pipeline_stage_for_artifact A_Publication = Inr Assembly"
  by (simp_all add: pipeline_stage_for_artifact_def production_pipeline_def)

lemma prerequisite_full_route:
  assumes "production_stages k = all_stages"
  shows "prerequisite_artifact_for s k = (case s of Sources \<Rightarrow> Inr None | References \<Rightarrow> Inr None
    | Extraction \<Rightarrow> Inr (Some A_References) | Relevance_Projection \<Rightarrow> Inr (Some A_Extraction)
    | Synthesis \<Rightarrow> Inr (Some A_Relevance_Projection) | Editorial_Enrichment \<Rightarrow> Inr (Some A_Synthesis)
    | Assembly \<Rightarrow> Inr (Some A_Editorial_Enrichment))"
  by (cases s) (simp_all add: prerequisite_artifact_for_def assms all_stages_def first_artifact_eq
      del: first_artifact.simps(2))

lemma prerequisite_brief_route:
  assumes "s \<noteq> Editorial_Enrichment"
  shows "prerequisite_artifact_for s (Some Brief) = (case s of Sources \<Rightarrow> Inr None | References \<Rightarrow> Inr None
    | Extraction \<Rightarrow> Inr (Some A_References) | Relevance_Projection \<Rightarrow> Inr (Some A_Extraction)
    | Synthesis \<Rightarrow> Inr (Some A_Relevance_Projection) | _ \<Rightarrow> Inr (Some A_Synthesis))"
  using assms by (cases s) (simp_all add: prerequisite_artifact_for_def production_stages_simps
      first_artifact_eq del: first_artifact.simps(2))

lemma next_stage_brief_route:
  "s \<noteq> Editorial_Enrichment \<Longrightarrow> next_stage s (Some Brief) = Inr (case s of Sources \<Rightarrow> Some References
    | References \<Rightarrow> Some Extraction | Extraction \<Rightarrow> Some Relevance_Projection
    | Relevance_Projection \<Rightarrow> Some Synthesis | Synthesis \<Rightarrow> Some Assembly | _ \<Rightarrow> None)"
  by (cases s) (simp_all add: next_stage_def production_stages_simps)

lemma next_stage_full_route:
  "production_stages k = all_stages \<Longrightarrow> next_stage s k = Inr (case s of Sources \<Rightarrow> Some References
    | References \<Rightarrow> Some Extraction | Extraction \<Rightarrow> Some Relevance_Projection
    | Relevance_Projection \<Rightarrow> Some Synthesis | Synthesis \<Rightarrow> Some Editorial_Enrichment
    | Editorial_Enrichment \<Rightarrow> Some Assembly | Assembly \<Rightarrow> None)"
  by (cases s) (simp_all add: next_stage_def all_stages_def)

definition artifact_or_none :: "production_stage \<Rightarrow> artifact_stage option" where
  "artifact_or_none s = (case artifact_stage_for s of Inl _ \<Rightarrow> None | Inr a \<Rightarrow> a)"

lemma route_kinds: "k = Some Brief \<or> production_stages k = all_stages"
  by (cases k; cases "the k") (auto simp: production_stages_simps)

text \<open>
  C28. The artifact of a stage is what its successor needs: a stage of the selected route has as its
  prerequisite the artifact of the stage just before it in that route (for a brief ASSEMBLY needs
  SYNTHESIS), and only SOURCES and REFERENCES have none.
\<close>

theorem prerequisite_is_predecessor:
  assumes "s \<in> set (production_stages k)"
  shows "(prerequisite_artifact_for s k = Inr None \<longleftrightarrow> s \<in> {Sources, References})
    \<and> (\<forall>a. prerequisite_artifact_for s k = Inr (Some a) \<longleftrightarrow>
         (\<exists>s'. pipeline_stage_for_artifact a = Inr s' \<and> artifact_stage_for s' = Inr (Some a)
            \<and> next_stage s' k = Inr (Some s)))"
proof -
  have "(prerequisite_artifact_for s k = Inr None \<longleftrightarrow> s \<in> {Sources, References})
    \<and> (prerequisite_artifact_for s k = Inr (Some a) \<longleftrightarrow>
         (\<exists>s'. pipeline_stage_for_artifact a = Inr s' \<and> artifact_stage_for s' = Inr (Some a)
            \<and> next_stage s' k = Inr (Some s)))" for a
    using route_kinds [of k]
  proof
    assume k: "k = Some Brief"
    with assms have "s \<noteq> Editorial_Enrichment" by (auto simp: production_stages_simps)
    then show ?thesis
      by (cases s; cases a) (simp_all add: k prerequisite_brief_route next_stage_brief_route,
        simp_all add: next_stage_def production_stages_simps)
  next
    assume "production_stages k = all_stages"
    then show ?thesis
      by (cases s; cases a) (simp_all add: prerequisite_full_route next_stage_full_route)
  qed
  then show ?thesis by blast
qed

theorem prerequisite_is_predecessor_witness:
  "prerequisite_artifact_for Assembly (Some Brief) = Inr (Some A_Synthesis)"
proof -
  have "Assembly \<in> set (production_stages (Some Brief))" by (simp add: production_stages_simps)
  from prerequisite_is_predecessor [OF this] show ?thesis by (simp add: next_stage_brief_route)
qed

lemmas downstream_compute = downstream_artifacts_from_pipeline_stage_def
  downstream_artifacts_from_artifact_stage_def production_artifact_stages_def artifacts_of_def
  production_pipeline_def map_filter_simps artifact_or_none_def Let_def

lemma downstream_full_1:
  assumes "production_stages k = all_stages"
  shows "downstream_artifacts_from_pipeline_stage s True k
      = Inr (List.map_filter artifact_or_none (stage_walk 7 k s))"
  by (cases s; simp add: eval_nat_numeral next_stage_full_route downstream_compute assms all_stages_def)

lemma downstream_full_2:
  assumes "production_stages k = all_stages"
  shows "downstream_artifacts_from_pipeline_stage s False k
      = Inr (List.map_filter artifact_or_none (tl (stage_walk 7 k s)))"
  by (cases s; simp add: eval_nat_numeral next_stage_full_route downstream_compute assms all_stages_def)

lemma downstream_full_3:
  assumes "production_stages k = all_stages"
  shows "artifact_stage_for s = Inr (Some a) \<Longrightarrow>
      downstream_artifacts_from_artifact_stage a b k = downstream_artifacts_from_pipeline_stage s b k"
  by (cases s; cases b) (auto simp: downstream_compute assms all_stages_def)

lemma downstream_brief_1:
  assumes "s \<noteq> Editorial_Enrichment"
  shows "downstream_artifacts_from_pipeline_stage s True (Some Brief)
      = Inr (List.map_filter artifact_or_none (stage_walk 7 (Some Brief) s))"
  using assms by (cases s; simp add: eval_nat_numeral next_stage_brief_route downstream_compute production_stages_simps)

lemma downstream_brief_2:
  assumes "s \<noteq> Editorial_Enrichment"
  shows "downstream_artifacts_from_pipeline_stage s False (Some Brief)
      = Inr (List.map_filter artifact_or_none (tl (stage_walk 7 (Some Brief) s)))"
  using assms by (cases s; simp add: eval_nat_numeral next_stage_brief_route downstream_compute production_stages_simps)

lemma downstream_brief_3:
  assumes "s \<noteq> Editorial_Enrichment"
  shows "artifact_stage_for s = Inr (Some a) \<Longrightarrow>
      downstream_artifacts_from_artifact_stage a b (Some Brief) = downstream_artifacts_from_pipeline_stage s b (Some Brief)"
  using assms by (cases s; cases b) (auto simp: downstream_compute production_stages_simps)

lemmas downstream_full = downstream_full_1 downstream_full_2 downstream_full_3
lemmas downstream_brief = downstream_brief_1 downstream_brief_2 downstream_brief_3

text \<open>
  C31. Invalidation is exact: from a stage of the route, the artifacts to invalidate are those of the
  stages \<open>next_stage\<close> still reaches (that stage's own included or not, as asked), in pipeline order,
  and asking by artifact instead of by stage gives the same list.
\<close>

theorem downstream_is_reachable:
  assumes "s \<in> set (production_stages k)"
  shows "downstream_artifacts_from_pipeline_stage s True k
      = Inr (List.map_filter artifact_or_none (stage_walk 7 k s))
    \<and> downstream_artifacts_from_pipeline_stage s False k
      = Inr (List.map_filter artifact_or_none (tl (stage_walk 7 k s)))
    \<and> (\<forall>a b. artifact_stage_for s = Inr (Some a) \<longrightarrow>
        downstream_artifacts_from_artifact_stage a b k = downstream_artifacts_from_pipeline_stage s b k)"
  using route_kinds [of k]
proof
  assume k: "k = Some Brief"
  with assms have "s \<noteq> Editorial_Enrichment" by (auto simp: production_stages_simps)
  with k downstream_brief show ?thesis by blast
next
  assume "production_stages k = all_stages"
  with downstream_full show ?thesis by blast
qed

theorem downstream_is_reachable_witness:
  "downstream_artifacts_from_pipeline_stage Extraction False (Some Brief)
     = Inr [A_Relevance_Projection, A_Synthesis, A_Publication]"
proof -
  have "Extraction \<in> set (production_stages (Some Brief))" by (simp add: production_stages_simps)
  from downstream_is_reachable [OF this] show ?thesis
    by (simp add: next_stage_brief_route eval_nat_numeral map_filter_simps artifact_or_none_def)
qed

end
