(* ===== verification/ProductionRun.thy ===== *)
theory ProductionRun
  imports Pipeline
begin

text \<open>
  The production run of a subject, \<open>backend/src/cti_app/domain/production.py\<close>: its record, the
  fence around an unresolved provider submission, and one definition per method.
\<close>

subsection \<open>State\<close>

datatype run_status = RQueued | RRunning | RReady | RNeedsReview | RFailed | RCancelled

datatype submission_state = NotSubmitted | ExternalStateUnknown | SubmissionInProgress
  | ResultObtained | VerifiedTerminalFailure

definition reconciliation_error_code :: string where
  "reconciliation_error_code = ''model_submission_reconciliation_required''"

definition bridge_post_submission_review_codes :: "string list" where
  "bridge_post_submission_review_codes =
     [''active_signal_stalled'', ''external_turn_identity_unavailable'', ''finalization_stalled'',
      ''no_final_answer'']"

definition model_run_awaits_reconciliation :: "string option \<Rightarrow> bool" where
  "model_run_awaits_reconciliation code =
     (code = Some reconciliation_error_code
      \<or> (case code of None \<Rightarrow> False | Some c \<Rightarrow> c \<in> set bridge_post_submission_review_codes))"

record reconciliation =
  rec_production_run_id :: uuid
  rec_model_run_id :: uuid
  rec_stage :: production_stage
  rec_bridge_response_id :: "string option"
  rec_bridge_request_id :: "string option"
  rec_submission_state :: submission_state
  rec_phase :: string
  rec_output_sha256 :: "string option"
  rec_provenance :: "string option"

definition reconciliation_post_init :: "reconciliation \<Rightarrow> reconciliation result" where
  "reconciliation_post_init r = validated
     [(blank (rec_phase r), ValueError ''reconciliation phase is required''),
      ((case rec_output_sha256 r of None \<Rightarrow> False | Some h \<Rightarrow> \<not> is_sha256 h),
        ValueError ''output_sha256 must be lowercase SHA-256'')] r"

record production_run =
  run_subject_id :: uuid
  run_edition_id :: uuid
  run_status :: run_status
  run_current_stage :: production_stage
  run_number :: int
  run_pipeline_generation :: int
  run_routing_decision_id :: "uuid option"
  run_research_date :: "int option"
  run_force_recompute_from_stage :: "production_stage option"
  run_error_code :: "string option"
  run_error_message :: "string option"
  run_error_details :: "details option"
  run_reconciliation :: "reconciliation option"
  run_extraction_progress :: "details option"
  run_started_at :: "datetime option"
  run_finished_at :: "datetime option"
  run_id :: uuid
  run_created_at :: datetime
  run_updated_at :: datetime
  run_version :: int

definition naive_opt :: "datetime option \<Rightarrow> bool" where
  "naive_opt d = (case d of None \<Rightarrow> False | Some x \<Rightarrow> \<not> aware x)"

definition run_post_init :: "production_run \<Rightarrow> production_run result" where
  "run_post_init r = validated
     [(run_number r < 1 \<or> run_version r < 1, ValueError ''run_number and version must be >= 1''),
      (run_pipeline_generation r < 0, ValueError ''pipeline_generation must be >= 0''),
      (\<not> aware (run_created_at r), ValueError ''created_at must be timezone-aware''),
      (\<not> aware (run_updated_at r), ValueError ''updated_at must be timezone-aware''),
      (naive_opt (run_started_at r), ValueError ''started_at must be timezone-aware''),
      (naive_opt (run_finished_at r), ValueError ''finished_at must be timezone-aware'')]
     (if run_research_date r = None
      then r\<lparr>run_research_date := Some (dt_day (run_created_at r))\<rparr> else r)"

text \<open>\<open>ProductionRun(subject_id=..., edition_id=..., run_number=...)\<close> with the other defaults.\<close>

definition new_run :: "uuid \<Rightarrow> datetime \<Rightarrow> uuid \<Rightarrow> uuid \<Rightarrow> int \<Rightarrow> production_run result" where
  "new_run i t subject edition n = run_post_init
     \<lparr>run_subject_id = subject, run_edition_id = edition, run_status = RQueued,
      run_current_stage = Sources, run_number = n, run_pipeline_generation = 0,
      run_routing_decision_id = None, run_research_date = None,
      run_force_recompute_from_stage = None, run_error_code = None, run_error_message = None,
      run_error_details = None, run_reconciliation = None, run_extraction_progress = None,
      run_started_at = None, run_finished_at = None, run_id = i, run_created_at = t,
      run_updated_at = t, run_version = 1\<rparr>"

subsection \<open>Methods\<close>

definition requires_submission_reconciliation ::
  "run_status \<Rightarrow> string option \<Rightarrow> reconciliation option \<Rightarrow> bool" where
  "requires_submission_reconciliation status code recon =
     (status = RNeedsReview \<and> code = Some reconciliation_error_code \<and> recon \<noteq> None)"

definition run_requires_reconciliation :: "production_run \<Rightarrow> bool" where
  "run_requires_reconciliation r =
     requires_submission_reconciliation (run_status r) (run_error_code r) (run_reconciliation r)"

definition run_timestamp :: "datetime \<Rightarrow> string \<Rightarrow> datetime result" where
  "run_timestamp t field =
     (if aware t then Inr t else Inl (ValueError (field @ '' must be timezone-aware'')))"

lemma run_timestamp_Inr [simp]: "run_timestamp t field = Inr u \<longleftrightarrow> u = t \<and> aware t"
  by (auto simp: run_timestamp_def)

definition run_cancelled_error :: error where
  "run_cancelled_error = ValueError ''production_run_cancelled''"

definition public_text :: "string \<Rightarrow> string" where
  "public_text m = take 500 (clean_message m)"

definition run_start :: "datetime \<Rightarrow> production_run \<Rightarrow> production_run result" where
  [op_defs]: "run_start t r =
     (if run_status r \<noteq> RQueued then Inl (ValueError ''Can only start from QUEUED status'')
      else and_then (run_timestamp t ''started_at'') (\<lambda>ts.
        if run_research_date r = None
        then Inl (ValueError ''research_date must be frozen before a run starts'')
        else Inr (r\<lparr>run_status := RRunning, run_started_at := Some ts, run_updated_at := ts,
          run_version := run_version r + 1\<rparr>)))"

definition run_advance_stage ::
  "publication_kind option \<Rightarrow> datetime \<Rightarrow> production_run \<Rightarrow> production_run result" where
  [op_defs]: "run_advance_stage k t r =
     (if run_status r = RCancelled then Inl run_cancelled_error
      else and_then (next_stage (run_current_stage r) k) (\<lambda>successor.
        and_then (run_timestamp t ''updated_at'') (\<lambda>ts.
          Inr (r\<lparr>run_current_stage := (case successor of None \<Rightarrow> run_current_stage r | Some s \<Rightarrow> s),
            run_updated_at := ts, run_version := run_version r + 1\<rparr>))))"

definition run_set_extraction_progress ::
  "details \<Rightarrow> datetime \<Rightarrow> production_run \<Rightarrow> production_run result" where
  [op_defs]: "run_set_extraction_progress d t r =
     and_then (run_timestamp t ''updated_at'') (\<lambda>ts.
       Inr (r\<lparr>run_extraction_progress := Some d, run_updated_at := ts,
         run_version := run_version r + 1\<rparr>))"

definition run_mark_ready :: "datetime \<Rightarrow> production_run \<Rightarrow> production_run result" where
  [op_defs]: "run_mark_ready t r =
     (if run_status r = RReady then Inr r
      else if run_status r = RCancelled then Inl run_cancelled_error
      else and_then (run_timestamp t ''finished_at'') (\<lambda>ts.
        Inr (r\<lparr>run_status := RReady, run_finished_at := Some ts, run_updated_at := ts,
          run_version := run_version r + 1\<rparr>)))"

definition run_mark_needs_review ::
  "string \<Rightarrow> string \<Rightarrow> details option \<Rightarrow> reconciliation option \<Rightarrow> datetime \<Rightarrow> production_run \<Rightarrow>
   production_run result" where
  [op_defs]: "run_mark_needs_review code message d recon t r =
     (if run_status r = RCancelled then Inl run_cancelled_error
      else and_then (run_timestamp t ''finished_at'') (\<lambda>ts.
        Inr (r\<lparr>run_status := RNeedsReview, run_error_code := Some (take 64 code),
          run_error_message := Some (public_text message), run_error_details := d,
          run_reconciliation := (if code = reconciliation_error_code then recon else None),
          run_finished_at := Some ts, run_updated_at := ts, run_version := run_version r + 1\<rparr>)))"

definition run_mark_failed ::
  "string \<Rightarrow> string \<Rightarrow> details option \<Rightarrow> datetime \<Rightarrow> production_run \<Rightarrow> production_run result" where
  [op_defs]: "run_mark_failed code message d t r =
     (if run_status r = RCancelled then Inl run_cancelled_error
      else and_then (run_timestamp t ''finished_at'') (\<lambda>ts.
        Inr (r\<lparr>run_status := RFailed, run_error_code := Some (take 64 code),
          run_error_message := Some (public_text message), run_error_details := d,
          run_finished_at := Some ts, run_updated_at := ts, run_version := run_version r + 1\<rparr>)))"

definition run_mark_cancelled :: "datetime \<Rightarrow> production_run \<Rightarrow> production_run result" where
  [op_defs]: "run_mark_cancelled t r =
     (if run_status r = RCancelled then Inr r
      else if run_status r \<notin> {RQueued, RRunning} then Inl (ValueError ''production_run_not_cancellable'')
      else and_then (run_timestamp t ''finished_at'') (\<lambda>ts.
        Inr (r\<lparr>run_status := RCancelled, run_finished_at := Some ts, run_updated_at := ts,
          run_version := run_version r + 1\<rparr>)))"

fun forced_from :: "production_stage \<Rightarrow> production_stage option" where
  "forced_from Sources = Some References"
| "forced_from Assembly = None"
| "forced_from s = Some s"

definition run_retry_from_stage ::
  "production_stage \<Rightarrow> bool \<Rightarrow> datetime \<Rightarrow> production_run \<Rightarrow> production_run result" where
  [op_defs]: "run_retry_from_stage stage force_recompute t r =
     (if run_status r = RCancelled then Inl run_cancelled_error
      else if run_requires_reconciliation r then Inl ReconciliationRequired
      else if run_status r \<in> {RQueued, RRunning}
      then Inl (ValueError ''Cannot retry a queued or running production'')
      else and_then (run_timestamp t ''updated_at'') (\<lambda>ts.
        Inr (r\<lparr>run_status := RRunning, run_current_stage := stage,
          run_pipeline_generation := run_pipeline_generation r + 1,
          run_routing_decision_id := None,
          run_force_recompute_from_stage := (if force_recompute then forced_from stage else None),
          run_error_code := None, run_error_message := None, run_error_details := None,
          run_reconciliation := None, run_finished_at := None, run_updated_at := ts,
          run_version := run_version r + 1\<rparr>)))"

definition run_resume_after_cancellation ::
  "production_stage \<Rightarrow> datetime \<Rightarrow> production_run \<Rightarrow> production_run result" where
  [op_defs]: "run_resume_after_cancellation stage t r =
     (if run_status r \<noteq> RCancelled then Inl (ValueError ''production_run_not_resumable'')
      else if (case run_reconciliation r of None \<Rightarrow> False | Some c \<Rightarrow> rec_output_sha256 c = None)
      then Inl ReconciliationRequired
      else and_then (run_timestamp t ''updated_at'') (\<lambda>ts.
        Inr (r\<lparr>run_status := RRunning, run_current_stage := stage,
          run_pipeline_generation := run_pipeline_generation r + 1,
          run_routing_decision_id := None, run_force_recompute_from_stage := None,
          run_error_code := None, run_error_message := None, run_error_details := None,
          run_reconciliation := None, run_finished_at := None, run_updated_at := ts,
          run_version := run_version r + 1\<rparr>)))"

definition run_adopt_reconciliation_output ::
  "string \<Rightarrow> string \<Rightarrow> string option \<Rightarrow> production_run \<Rightarrow> production_run result" where
  [op_defs]: "run_adopt_reconciliation_output output_sha256 provenance response r =
     (case run_reconciliation r of
        None \<Rightarrow> Inl (ValueError ''production_reconciliation_missing'')
      | Some c \<Rightarrow> and_then (reconciliation_post_init
          (c\<lparr>rec_bridge_response_id := str_or response (rec_bridge_response_id c),
            rec_output_sha256 := Some output_sha256, rec_provenance := Some provenance\<rparr>))
          (\<lambda>c'. Inr (r\<lparr>run_reconciliation := Some c'\<rparr>)))"

definition run_resume_reconciled ::
  "production_stage \<Rightarrow> datetime \<Rightarrow> production_run \<Rightarrow> production_run result" where
  [op_defs]: "run_resume_reconciled expected_stage t r =
     (if run_status r = RCancelled then Inl run_cancelled_error
      else if run_current_stage r \<noteq> expected_stage
      then Inl (ValueError ''production_reconciliation_stage_changed'')
      else case run_reconciliation r of
        None \<Rightarrow> Inl (ValueError ''production_reconciliation_identity_mismatch'')
      | Some c \<Rightarrow>
          if rec_stage c \<noteq> expected_stage
          then Inl (ValueError ''production_reconciliation_identity_mismatch'')
          else if rec_output_sha256 c = None
          then Inl (ValueError ''production_reconciliation_output_missing'')
          else if run_status r = RRunning \<and> run_error_code r = None then Inr r
          else if run_status r \<noteq> RNeedsReview
          then Inl (ValueError ''production_reconciliation_run_not_reviewable'')
          else if run_error_code r \<noteq> Some reconciliation_error_code
          then Inl (ValueError ''production_reconciliation_error_changed'')
          else Inr (r\<lparr>run_status := RRunning, run_error_code := None, run_error_message := None,
            run_error_details := None, run_finished_at := None, run_updated_at := t,
            run_version := run_version r + 1\<rparr>))"

definition run_release_reconciliation ::
  "production_stage \<Rightarrow> string \<Rightarrow> string \<Rightarrow> datetime \<Rightarrow> production_run \<Rightarrow> production_run result" where
  [op_defs]: "run_release_reconciliation expected_stage reason message t r =
     (if run_status r = RCancelled then Inl run_cancelled_error
      else if run_current_stage r \<noteq> expected_stage
      then Inl (ValueError ''production_reconciliation_stage_changed'')
      else if \<not> run_requires_reconciliation r then Inr r
      else and_then (run_timestamp t ''finished_at'') (\<lambda>ts.
        Inr (r\<lparr>run_status := RNeedsReview, run_error_code := Some (take 64 reason),
          run_error_message := Some (public_text message), run_error_details := None,
          run_reconciliation := None, run_finished_at := Some ts, run_updated_at := ts,
          run_version := run_version r + 1\<rparr>)))"

subsection \<open>The run as a machine\<close>

datatype run_op =
    RunStart datetime
  | RunAdvance "publication_kind option" datetime
  | RunProgress details datetime
  | RunReady datetime
  | RunReview string string "details option" "reconciliation option" datetime
  | RunFail string string "details option" datetime
  | RunCancel datetime
  | RunRetry production_stage bool datetime
  | RunResumeCancelled production_stage datetime
  | RunAdopt string string "string option"
  | RunResumeReconciled production_stage datetime
  | RunRelease production_stage string string datetime

fun run_exec :: "run_op \<Rightarrow> production_run \<Rightarrow> production_run result" where
  "run_exec (RunStart t) r = run_start t r"
| "run_exec (RunAdvance k t) r = run_advance_stage k t r"
| "run_exec (RunProgress d t) r = run_set_extraction_progress d t r"
| "run_exec (RunReady t) r = run_mark_ready t r"
| "run_exec (RunReview c m d x t) r = run_mark_needs_review c m d x t r"
| "run_exec (RunFail c m d t) r = run_mark_failed c m d t r"
| "run_exec (RunCancel t) r = run_mark_cancelled t r"
| "run_exec (RunRetry s f t) r = run_retry_from_stage s f t r"
| "run_exec (RunResumeCancelled s t) r = run_resume_after_cancellation s t r"
| "run_exec (RunAdopt h p b) r = run_adopt_reconciliation_output h p b r"
| "run_exec (RunResumeReconciled s t) r = run_resume_reconciled s t r"
| "run_exec (RunRelease s c m t) r = run_release_reconciliation s c m t r"

text \<open>
  An unresolved submission: the provider may hold an answer nobody has adopted. No run that a
  worker could execute, or that could be resumed, carries one.
\<close>

definition unresolved :: "production_run \<Rightarrow> bool" where
  "unresolved r = (case run_reconciliation r of None \<Rightarrow> False | Some c \<Rightarrow> rec_output_sha256 c = None)"

definition run_inv :: "production_run \<Rightarrow> bool" where
  "run_inv r \<longleftrightarrow> 1 \<le> run_number r \<and> 1 \<le> run_version r \<and> 0 \<le> run_pipeline_generation r
     \<and> run_research_date r \<noteq> None
     \<and> (run_status r \<in> {RQueued, RRunning} \<longleftrightarrow> run_finished_at r = None)
     \<and> (unresolved r \<longrightarrow> run_status r \<in> {RNeedsReview, RFailed, RReady})
     \<and> run_version r \<ge> run_pipeline_generation r + 1"

lemma new_run_inv: "new_run i t subject edition n = Inr r \<Longrightarrow> run_inv r"
  by (auto simp: new_run_def run_post_init_def validated_Inr run_inv_def unresolved_def naive_opt_def)

lemma run_start_inv: "run_inv r \<Longrightarrow> run_start t r = Inr r' \<Longrightarrow> run_inv r'"
  by (clarsimp simp: run_start_def run_inv_def unresolved_def and_then_Inr split: if_splits)

lemma run_advance_inv: "run_inv r \<Longrightarrow> run_advance_stage k t r = Inr r' \<Longrightarrow> run_inv r'"
  by (clarsimp simp: run_advance_stage_def run_inv_def unresolved_def and_then_Inr split: if_splits)

lemma run_progress_inv: "run_inv r \<Longrightarrow> run_set_extraction_progress d t r = Inr r' \<Longrightarrow> run_inv r'"
  by (clarsimp simp: run_set_extraction_progress_def run_inv_def unresolved_def and_then_Inr)

lemma run_outcome_inv:
  "run_inv r \<Longrightarrow> run_mark_ready t r = Inr r' \<Longrightarrow> run_inv r'"
  "run_inv r \<Longrightarrow> run_mark_needs_review c m d x t r = Inr r' \<Longrightarrow> run_inv r'"
  "run_inv r \<Longrightarrow> run_mark_failed c m d t r = Inr r' \<Longrightarrow> run_inv r'"
  by ((clarsimp simp: run_mark_ready_def run_mark_needs_review_def run_mark_failed_def
      run_inv_def unresolved_def and_then_Inr split: if_splits)+)

lemma run_cancel_inv: "run_inv r \<Longrightarrow> run_mark_cancelled t r = Inr r' \<Longrightarrow> run_inv r'"
  by (cases "run_status r")
    (clarsimp simp: run_mark_cancelled_def run_inv_def unresolved_def and_then_Inr split: if_splits)+

lemma run_retry_inv: "run_inv r \<Longrightarrow> run_retry_from_stage s f t r = Inr r' \<Longrightarrow> run_inv r'"
  by (clarsimp simp: run_retry_from_stage_def run_inv_def unresolved_def and_then_Inr split: if_splits)

lemma run_resume_cancelled_inv: "run_inv r \<Longrightarrow> run_resume_after_cancellation s t r = Inr r' \<Longrightarrow> run_inv r'"
  by (clarsimp simp: run_resume_after_cancellation_def run_inv_def unresolved_def and_then_Inr split: if_splits)

lemma run_adopt_inv: "run_inv r \<Longrightarrow> run_adopt_reconciliation_output h p b r = Inr r' \<Longrightarrow> run_inv r'"
  by (clarsimp simp: run_adopt_reconciliation_output_def reconciliation_post_init_def validated_Inr
      run_inv_def unresolved_def and_then_Inr split: option.splits)

lemma run_resume_reconciled_inv: "run_inv r \<Longrightarrow> run_resume_reconciled s t r = Inr r' \<Longrightarrow> run_inv r'"
  by (clarsimp simp: run_resume_reconciled_def run_inv_def unresolved_def split: if_splits option.splits)

lemma run_release_inv: "run_inv r \<Longrightarrow> run_release_reconciliation s c m t r = Inr r' \<Longrightarrow> run_inv r'"
  by (clarsimp simp: run_release_reconciliation_def run_inv_def unresolved_def and_then_Inr split: if_splits)

lemmas run_op_invs = run_start_inv run_advance_inv run_progress_inv run_outcome_inv run_cancel_inv
  run_retry_inv   run_resume_cancelled_inv run_adopt_inv run_resume_reconciled_inv run_release_inv

lemma run_exec_inv: "run_inv r \<Longrightarrow> run_exec op r = Inr r' \<Longrightarrow> run_inv r'"
  by (cases op) (auto intro: run_op_invs)

lemma run_version_step: "run_exec op r = Inr r' \<Longrightarrow>
    run_version r \<le> run_version r' \<and> run_version r' \<le> run_version r + 1"
  by (cases op) (auto simp: op_defs and_then_Inr split: if_splits option.splits)

interpretation run_machine: versioned_machine run_exec run_inv run_version
  by unfold_locales (auto intro: run_exec_inv dest: run_version_step)

text \<open>Generations: only a retry and the resume of a cancelled run open one.\<close>

fun opens_generation :: "run_op \<Rightarrow> bool" where
  "opens_generation (RunRetry s f t) = True"
| "opens_generation (RunResumeCancelled s t) = True"
| "opens_generation _ = False"

lemma run_generation_step: "run_exec op r = Inr r' \<Longrightarrow>
    run_pipeline_generation r' = run_pipeline_generation r + (if opens_generation op then 1 else 0)"
  by (cases op) (auto simp: op_defs and_then_Inr split: if_splits option.splits)

lemma drive_generation: "run_pipeline_generation (drive run_exec ops r) =
    run_pipeline_generation r + int (length (filter opens_generation (accepted run_exec ops r)))"
proof (induction ops arbitrary: r)
  case (Cons op ops)
  show ?case
  proof (cases "run_exec op r")
    case (Inr r')
    with Cons run_generation_step [OF Inr] show ?thesis by (simp add: step_def)
  qed (use Cons in \<open>simp add: step_def\<close>)
qed simp

text \<open>The fence: a run that waits for the exact provider answer.\<close>

fun lifts_fence :: "run_op \<Rightarrow> bool" where
  "lifts_fence (RunReady t) = True"
| "lifts_fence (RunReview c m d x t) = True"
| "lifts_fence (RunFail c m d t) = True"
| "lifts_fence (RunAdopt h p b) = True"
| "lifts_fence (RunRelease s c m t) = True"
| "lifts_fence _ = False"

definition fenced :: "production_run \<Rightarrow> bool" where
  "fenced r = (run_requires_reconciliation r \<and> unresolved r)"

lemma fenced_kept:
  "fenced r \<Longrightarrow> \<not> lifts_fence op \<Longrightarrow> run_exec op r = Inr r' \<Longrightarrow>
   fenced r' \<and> (run_pipeline_generation r', run_reconciliation r', run_status r')
     = (run_pipeline_generation r, run_reconciliation r, run_status r)"
  by (cases op) (auto simp: op_defs fenced_def run_requires_reconciliation_def
      requires_submission_reconciliation_def unresolved_def and_then_Inr split: if_splits option.splits)

interpretation run_fence: absorbing_machine run_exec fenced
  "\<lambda>r. (run_pipeline_generation r, run_reconciliation r, run_status r)" lifts_fence
  by (unfold_locales, erule (2) fenced_kept)

subsection \<open>Properties\<close>

definition demo_run :: production_run where
  "demo_run = \<lparr>run_subject_id = 1, run_edition_id = 2, run_status = RQueued,
      run_current_stage = Sources, run_number = 1, run_pipeline_generation = 0,
      run_routing_decision_id = None, run_research_date = Some 0,
      run_force_recompute_from_stage = None, run_error_code = None, run_error_message = None,
      run_error_details = None, run_reconciliation = None, run_extraction_progress = None,
      run_started_at = None, run_finished_at = None, run_id = 3, run_created_at = utc 0,
      run_updated_at = utc 0, run_version = 1\<rparr>"

lemma demo_run_new: "new_run 3 (utc 0) 1 2 1 = Inr demo_run"
  by (simp add: new_run_def run_post_init_def validated_def naive_opt_def demo_run_def)
    (simp add: dt_day_def utc_def)

definition demo_recon :: reconciliation where
  "demo_recon = \<lparr>rec_production_run_id = 3, rec_model_run_id = 4, rec_stage = Synthesis,
     rec_bridge_response_id = None, rec_bridge_request_id = None,
     rec_submission_state = ExternalStateUnknown, rec_phase = ''wait'', rec_output_sha256 = None,
     rec_provenance = None\<rparr>"

text \<open>
  C34. Under every sequence of transitions (refused ones rolled back) a run built by its constructor
  keeps its invariant: it has an end time exactly when it is neither queued nor running, its
  research date stays frozen, the lock version exceeds the generation counter, and neither a
  queued, running nor cancelled run carries a provider submission whose answer is not archived.
\<close>

theorem run_wellformed:
  assumes "new_run i t subject edition n = Inr r0" and "r = drive run_exec ops r0"
  shows "(run_status r \<in> {RQueued, RRunning} \<longleftrightarrow> run_finished_at r = None)
    \<and> run_research_date r \<noteq> None \<and> run_pipeline_generation r < run_version r
    \<and> (run_status r \<in> {RQueued, RRunning, RCancelled} \<longrightarrow>
        (\<forall>c. run_reconciliation r = Some c \<longrightarrow> rec_output_sha256 c \<noteq> None))"
proof -
  have "run_inv r" using assms run_machine.drive_inv new_run_inv by blast
  then show ?thesis by (auto simp: run_inv_def unresolved_def)
qed

theorem run_wellformed_witness:
  "run_research_date (drive run_exec [RunStart (utc 1), RunCancel (utc 2), RunResumeCancelled Extraction (utc 3)] demo_run) \<noteq> None"
  using run_wellformed [OF demo_run_new refl] by blast

text \<open>
  Cancelling is never a dead end: a cancelled run can always be resumed, at any stage, without a
  reconciliation, and the resume opens exactly one new generation, invalidates nothing and drops
  the spent submission identity.
\<close>

theorem cancelled_run_resumes:
  assumes "new_run i t subject edition n = Inr r0" and "r = drive run_exec ops r0"
    and "run_status r = RCancelled" and "aware u"
  shows "\<exists>r'. run_resume_after_cancellation s u r = Inr r' \<and> run_status r' = RRunning
    \<and> run_current_stage r' = s \<and> run_pipeline_generation r' = run_pipeline_generation r + 1
    \<and> run_force_recompute_from_stage r' = None \<and> run_reconciliation r' = None
    \<and> run_extraction_progress r' = run_extraction_progress r"
proof -
  have "run_inv r" using assms(1,2) run_machine.drive_inv new_run_inv by blast
  with assms(3,4) show ?thesis
    by (auto simp: run_resume_after_cancellation_def run_inv_def unresolved_def run_timestamp_def
        split: option.splits)
qed

theorem cancelled_run_resumes_witness:
  "\<exists>r'. run_resume_after_cancellation Extraction (utc 9)
      (drive run_exec [RunStart (utc 1), RunCancel (utc 2)] demo_run) = Inr r' \<and> run_status r' = RRunning"
proof -
  have "run_status (drive run_exec [RunStart (utc 1), RunCancel (utc 2)] demo_run) = RCancelled"
    by (simp add: step_def run_start_def run_mark_cancelled_def demo_run_def run_timestamp_def)
  from cancelled_run_resumes [OF demo_run_new refl this, of "utc 9" Extraction] show ?thesis by auto
qed

text \<open>
  The lock version and the generation count transitions: after any sequence, the version has
  grown by at most the number of accepted transitions and the generation by exactly the number of
  accepted retries and resumptions, so no side-effect identity of an old generation comes back.
\<close>

theorem run_counters:
  assumes "run_inv r" and "done = accepted run_exec ops r" and "r' = drive run_exec ops r"
  shows "run_version r \<le> run_version r' \<and> run_version r' \<le> run_version r + int (length done)
    \<and> run_pipeline_generation r' = run_pipeline_generation r + int (length (filter opens_generation done))"
  using run_machine.drive_version [OF assms(1), of ops] drive_generation [of ops r] assms(2,3) by simp

theorem run_counters_witness:
  "run_pipeline_generation (drive run_exec [RunStart (utc 1), RunCancel (utc 2), RunResumeCancelled Extraction (utc 3)] demo_run) = 1"
proof -
  let ?ops = "[RunStart (utc 1), RunCancel (utc 2), RunResumeCancelled Extraction (utc 3)]"
  have "accepted run_exec ?ops demo_run = ?ops"
    by (simp add: run_start_def run_mark_cancelled_def run_resume_after_cancellation_def demo_run_def
        run_timestamp_def)
  moreover have "run_pipeline_generation demo_run = 0" by (simp add: demo_run_def)
  ultimately show ?thesis
    using run_counters [OF new_run_inv [OF demo_run_new] refl refl, of ?ops]
    by (simp del: drive.simps accepted.simps)
qed

text \<open>
  C35. The reconciliation fence: while a run waits for an answer that was never adopted, every
  sequence of transitions other than an outcome written over it, the adoption of the exact answer or
  the release of the submission leaves it waiting in the same generation with the same submission
  identity, and every retry, from any stage, is refused.
\<close>

theorem reconciliation_fence:
  assumes "run_requires_reconciliation r" and "run_reconciliation r = Some c"
    and "rec_output_sha256 c = None" and "list_all (\<lambda>op. \<not> lifts_fence op) ops"
    and "r' = drive run_exec ops r"
  shows "run_status r' = RNeedsReview \<and> run_reconciliation r' = Some c
    \<and> run_pipeline_generation r' = run_pipeline_generation r
    \<and> run_retry_from_stage s f u r' = Inl ReconciliationRequired
    \<and> is_error (run_resume_reconciled s u r')"
proof -
  have "fenced r" using assms(1-3) by (simp add: fenced_def unresolved_def)
  with run_fence.drive_absorb [of r ops] assms(4,5)
  have f: "fenced r'" and same: "run_pipeline_generation r' = run_pipeline_generation r"
    "run_reconciliation r' = run_reconciliation r" by auto
  from f have s: "run_status r' = RNeedsReview"
    by (simp add: fenced_def run_requires_reconciliation_def requires_submission_reconciliation_def)
  from f have "run_retry_from_stage s f u r' = Inl ReconciliationRequired"
    by (simp add: run_retry_from_stage_def fenced_def s)
  moreover have "is_error (run_resume_reconciled s u r')"
    using same(2) assms(2,3) by (simp add: run_resume_reconciled_def)
  ultimately show ?thesis using s same assms(2) by simp
qed

theorem reconciliation_fence_witness:
  "run_retry_from_stage Sources True (utc 5) (drive run_exec [RunCancel (utc 2), RunAdvance None (utc 3)]
     (demo_run\<lparr>run_status := RNeedsReview, run_error_code := Some reconciliation_error_code,
        run_reconciliation := Some demo_recon\<rparr>)) = Inl ReconciliationRequired"
proof -
  let ?r = "demo_run\<lparr>run_status := RNeedsReview, run_error_code := Some reconciliation_error_code,
        run_reconciliation := Some demo_recon\<rparr>"
  have "run_requires_reconciliation ?r"
    by (simp add: run_requires_reconciliation_def requires_submission_reconciliation_def)
  from reconciliation_fence [OF this _ _ _ refl, of demo_recon "[RunCancel (utc 2), RunAdvance None (utc 3)]"]
  show ?thesis by (simp add: demo_recon_def)
qed

text \<open>
  The fence is on the status, not on the submission: writing a failure over a run that waits
  for reconciliation keeps the unresolved submission but drops the fence, and the next retry
  opens a new generation and forgets the submission.
\<close>

theorem failure_drops_fence:
  assumes "run_requires_reconciliation r" and "aware t" and "aware u"
  shows "\<exists>r1 r2. run_mark_failed code message d t r = Inr r1
    \<and> run_reconciliation r1 = run_reconciliation r \<and> run_reconciliation r1 \<noteq> None
    \<and> run_retry_from_stage s True u r1 = Inr r2
    \<and> run_pipeline_generation r2 = run_pipeline_generation r + 1 \<and> run_reconciliation r2 = None"
  using assms
  by (auto simp: run_requires_reconciliation_def requires_submission_reconciliation_def
      run_mark_failed_def run_retry_from_stage_def run_timestamp_def)

theorem failure_drops_fence_witness:
  "\<exists>r1 r2. run_mark_failed ''x'' ''y'' None (utc 1)
     (demo_run\<lparr>run_status := RNeedsReview, run_error_code := Some reconciliation_error_code,
        run_reconciliation := Some demo_recon\<rparr>) = Inr r1
    \<and> run_retry_from_stage Synthesis True (utc 2) r1 = Inr r2 \<and> run_reconciliation r2 = None"
proof -
  let ?r = "demo_run\<lparr>run_status := RNeedsReview, run_error_code := Some reconciliation_error_code,
        run_reconciliation := Some demo_recon\<rparr>"
  have "run_requires_reconciliation ?r"
    by (simp add: run_requires_reconciliation_def requires_submission_reconciliation_def)
  from failure_drops_fence [OF this aware_utc aware_utc] show ?thesis by blast
qed

end
