(* ===== verification/Repair.thy ===== *)
theory Repair
  imports ProductionRun
begin

text \<open>
  Production artifacts and the repair entities of \<open>backend/src/cti_app/domain/production.py\<close>: the
  typed impact of a repair and its granularity invariant, replacement corrections, human decisions and
  the reuse invalidation requests. A frozen dataclass is a record whose \<open>__post_init__\<close> is the
  \<open>..._post_init\<close> function; a \<open>frozenset\<close> is a HOL set.
\<close>

subsection \<open>Artifacts\<close>

datatype artifact_status = Verified | Stale | ArtifactNeedsReview

record production_artifact =
  art_production_run_id :: uuid
  art_subject_id :: uuid
  art_stage :: artifact_stage
  art_version :: int
  art_input_hash :: string
  art_status :: artifact_status
  art_rendered_blob_id :: "uuid option"
  art_model_run_id :: "uuid option"
  art_reused_from_artifact_id :: "uuid option"
  art_metadata :: details
  art_id :: uuid
  art_created_at :: datetime

definition artifact_post_init :: "production_artifact \<Rightarrow> production_artifact result" where
  "artifact_post_init a = validated
     [(art_version a < 1, ValueError ''version must be >= 1''),
      (\<not> is_sha256 (art_input_hash a), ValueError ''input_hash must be lowercase SHA-256''),
      (art_stage a = A_Publication \<and> art_rendered_blob_id a \<noteq> None,
        ValueError ''PUBLICATION artifacts carry no rendered blob'')] a"

subsection \<open>Repair impacts\<close>

datatype issue_kind = RejectedIndicator | RejectedRule | SupplementalSourceUnarchived | SourceExtractionFailed

datatype impact_kind = NoDeliverableChange | RuleBundleOnly | PublicationOnly | Narrative | SourceCorpus

fun impact_kind_value :: "impact_kind \<Rightarrow> string" where
  "impact_kind_value NoDeliverableChange = ''no_deliverable_change''"
| "impact_kind_value RuleBundleOnly = ''rule_bundle_only''"
| "impact_kind_value PublicationOnly = ''publication_only''"
| "impact_kind_value Narrative = ''narrative''"
| "impact_kind_value SourceCorpus = ''source_corpus''"

datatype derived_output = OutReferences | OutExtraction | OutSynthesis | OutEditorialEnrichment
  | OutPublication | OutRuleBundle | OutCheckpoint

definition narrative_impact_kinds :: "impact_kind set" where
  [enum_defs]: "narrative_impact_kinds = {Narrative, SourceCorpus}"

definition narrative_only_outputs :: "derived_output set" where
  [enum_defs]: "narrative_only_outputs = {OutSynthesis, OutReferences}"

record repair_impact =
  ri_kind :: impact_kind
  ri_affected_outputs :: "derived_output set"
  ri_model_call_required :: bool
  ri_reason :: string
  ri_provider_steps :: "string list"
  ri_deterministic_steps :: "string list"
  ri_ready_to_apply :: bool
  ri_expected_q2_calls :: int
  ri_expected_q2_reuses :: int
  ri_reuse_unknown_count :: int

text \<open>The forbidden outputs, sorted by value as the message lists them.\<close>

definition forbidden_outputs :: "derived_output set \<Rightarrow> string list" where
  "forbidden_outputs outs =
     (if OutReferences \<in> outs then [''references''] else []) @
     (if OutSynthesis \<in> outs then [''synthesis''] else [])"

definition impact_post_init :: "repair_impact \<Rightarrow> repair_impact result" where
  "impact_post_init i =
     (if ri_kind i \<in> narrative_impact_kinds then Inr i
      else if ri_model_call_required i then
        Inl (RepairImpactInvariant (impact_kind_value (ri_kind i) @ '' must not require a model call''))
      else if ri_provider_steps i \<noteq> [] then
        Inl (RepairImpactInvariant (impact_kind_value (ri_kind i) @ '' must not declare provider steps''))
      else if ri_affected_outputs i \<inter> narrative_only_outputs \<noteq> {} then
        Inl (RepairImpactInvariant (impact_kind_value (ri_kind i) @ '' must not invalidate ''
          @ join_with '', '' (forbidden_outputs (ri_affected_outputs i))))
      else Inr i)"

record execution_plan =
  xp_impact_kind :: impact_kind
  xp_affected_outputs :: "derived_output set"
  xp_model_call_required :: bool
  xp_provider_steps :: "string list"
  xp_deterministic_steps :: "string list"
  xp_ready_to_apply :: bool
  xp_expected_q2_calls :: int
  xp_expected_q2_reuses :: int
  xp_reuse_unknown_count :: int

definition impact_execution_plan :: "repair_impact \<Rightarrow> execution_plan" where
  "impact_execution_plan i = \<lparr>xp_impact_kind = ri_kind i,
     xp_affected_outputs = ri_affected_outputs i,
     xp_model_call_required = ri_model_call_required i,
     xp_provider_steps = ri_provider_steps i, xp_deterministic_steps = ri_deterministic_steps i,
     xp_ready_to_apply = ri_ready_to_apply i, xp_expected_q2_calls = ri_expected_q2_calls i,
     xp_expected_q2_reuses = ri_expected_q2_reuses i,
     xp_reuse_unknown_count = ri_reuse_unknown_count i\<rparr>"

text \<open>The granularity invariant an impact carries once constructed.\<close>

definition impact_inv :: "repair_impact \<Rightarrow> bool" where
  "impact_inv i = (ri_kind i \<notin> narrative_impact_kinds \<longrightarrow>
     \<not> ri_model_call_required i \<and> ri_provider_steps i = []
     \<and> ri_affected_outputs i \<inter> narrative_only_outputs = {})"

lemma impact_post_init_Inr: "impact_post_init i = Inr j \<longleftrightarrow> j = i \<and> impact_inv i"
  by (auto simp: impact_post_init_def impact_inv_def)

lemma impact_post_init_ok: "impact_inv i \<Longrightarrow> impact_post_init i = Inr i"
  by (simp add: impact_post_init_Inr)

subsection \<open>Corrections and decisions\<close>

datatype repair_action = Include | Exclude | Replace | ContinueWithoutSource

datatype verification_state = SourceVerified | AnalystOverride

datatype source_criticality = Critical | Secondary

datatype criticality_reason = CoreTier | PrimaryRole | CounterAnalysis | RedundantCorroboration
  | CorroborationUncovered | ContentDuplicate | CoverageUnknown

record repair_correction =
  cor_edition_id :: uuid
  cor_subject_id :: uuid
  cor_production_run_id :: uuid
  cor_original_repair_key :: string
  cor_artifact_type :: string
  cor_source_id :: string
  cor_source_url :: string
  cor_replacement_value_sha256 :: string
  cor_replacement_payload_blob_id :: uuid
  cor_actor_id :: string
  cor_verification_state :: verification_state
  cor_created_at :: datetime
  cor_id :: uuid

definition correction_post_init :: "repair_correction \<Rightarrow> repair_correction result" where
  "correction_post_init c = validated
     [(\<not> is_sha256 (cor_original_repair_key c), ValueError ''original_repair_key must be a lowercase SHA-256''),
      (blank (cor_artifact_type c), ValueError ''artifact_type must not be empty''),
      (blank (cor_source_id c) \<or> blank (cor_source_url c),
        ValueError ''A production repair correction requires source identity''),
      (\<not> is_sha256 (cor_replacement_value_sha256 c),
        ValueError ''replacement_value_sha256 must be a lowercase SHA-256''),
      (blank (cor_actor_id c), ValueError ''actor_id must not be empty''),
      (\<not> aware (cor_created_at c), ValueError ''created_at must be timezone-aware'')] c"

record repair_decision =
  dec_edition_id :: uuid
  dec_subject_id :: uuid
  dec_production_run_id :: uuid
  dec_observed_artifact_id :: uuid
  dec_observed_pipeline_generation :: int
  dec_repair_key :: string
  dec_issue_kind :: issue_kind
  dec_action :: repair_action
  dec_actor_id :: string
  dec_reason :: "string option"
  dec_source_criticality :: "source_criticality option"
  dec_criticality_reason :: "criticality_reason option"
  dec_failure_code :: "string option"
  dec_criticality_policy_version :: "string option"
  dec_correction_id :: "uuid option"
  dec_created_at :: datetime
  dec_id :: uuid

definition max_repair_reason_length :: nat where
  "max_repair_reason_length = 500"

definition strip_opt :: "string option \<Rightarrow> string option" where
  "strip_opt s = map_option py_strip s"

definition normalized_reason :: "string option \<Rightarrow> string option" where
  "normalized_reason r = (case strip_opt r of None \<Rightarrow> None | Some s \<Rightarrow> if s = [] then None else Some s)"

definition decision_compatible :: "issue_kind \<Rightarrow> repair_action \<Rightarrow> bool" where
  "decision_compatible k a =
     (k \<in> {RejectedIndicator, RejectedRule} \<and> a \<in> {Include, Exclude, Replace}
      \<or> k = SupplementalSourceUnarchived \<and> a = ContinueWithoutSource
      \<or> k = SourceExtractionFailed \<and> a = ContinueWithoutSource)"

definition decision_post_init :: "repair_decision \<Rightarrow> repair_decision result" where
  "decision_post_init d =
     (let reason = normalized_reason (dec_reason d) in
      validated
       [((case dec_failure_code d of None \<Rightarrow> False | Some c \<Rightarrow> blank c),
          ValueError ''failure_code must not be empty''),
        ((case dec_criticality_policy_version d of None \<Rightarrow> False | Some c \<Rightarrow> blank c),
          ValueError ''criticality_policy_version must not be empty''),
        ((dec_source_criticality d = None) \<noteq> (dec_criticality_reason d = None),
          ValueError ''source criticality and its reason must be recorded together''),
        (dec_source_criticality d \<noteq> None \<and> dec_criticality_policy_version d = None,
          ValueError ''source criticality requires its policy version''),
        (dec_observed_pipeline_generation d < 0, ValueError ''observed_pipeline_generation must be >= 0''),
        (\<not> is_sha256 (dec_repair_key d), ValueError ''repair_key must be a lowercase SHA-256''),
        (blank (dec_actor_id d), ValueError ''actor_id must not be empty''),
        ((case reason of None \<Rightarrow> False | Some s \<Rightarrow> max_repair_reason_length < length s),
          ValueError ''reason is too long''),
        (dec_issue_kind d = SourceExtractionFailed \<and> dec_action d = ContinueWithoutSource
          \<and> (reason = None \<or> dec_source_criticality d = None \<or> dec_criticality_reason d = None
             \<or> dec_failure_code d = None \<or> dec_criticality_policy_version d = None),
          ValueError ''Source extraction failure decisions require an analyst reason and diagnostic''),
        (\<not> decision_compatible (dec_issue_kind d) (dec_action d),
          ValueError ''Production repair action is incompatible with issue kind''),
        ((dec_action d = Replace) \<noteq> (dec_correction_id d \<noteq> None),
          ValueError ''REPLACE decisions require exactly one immutable correction''),
        (\<not> aware (dec_created_at d), ValueError ''created_at must be timezone-aware'')]
       (d\<lparr>dec_failure_code := strip_opt (dec_failure_code d),
          dec_criticality_policy_version := strip_opt (dec_criticality_policy_version d),
          dec_actor_id := py_strip (dec_actor_id d), dec_reason := reason\<rparr>))"

text \<open>What every stored decision satisfies.\<close>

definition decision_inv :: "repair_decision \<Rightarrow> bool" where
  "decision_inv d \<longleftrightarrow> decision_compatible (dec_issue_kind d) (dec_action d)
     \<and> (dec_action d = Replace \<longleftrightarrow> dec_correction_id d \<noteq> None)
     \<and> is_sha256 (dec_repair_key d) \<and> 0 \<le> dec_observed_pipeline_generation d
     \<and> (case dec_reason d of None \<Rightarrow> True
        | Some s \<Rightarrow> \<not> blank s \<and> length s \<le> max_repair_reason_length)
     \<and> (dec_issue_kind d = SourceExtractionFailed \<longrightarrow> dec_reason d \<noteq> None \<and> dec_failure_code d \<noteq> None)"

lemma normalized_reason_Some: "normalized_reason r = Some s \<Longrightarrow> \<not> blank s"
  by (auto simp: normalized_reason_def strip_opt_def blank_def split: option.splits if_splits)
    (simp add: blank_def [symmetric])

lemma decision_post_init_Inr:
  assumes "decision_post_init d = Inr d'"
  shows "d' = d\<lparr>dec_failure_code := strip_opt (dec_failure_code d),
          dec_criticality_policy_version := strip_opt (dec_criticality_policy_version d),
          dec_actor_id := py_strip (dec_actor_id d), dec_reason := normalized_reason (dec_reason d)\<rparr>"
    and "decision_compatible (dec_issue_kind d) (dec_action d)"
    and "dec_action d = Replace \<longleftrightarrow> dec_correction_id d \<noteq> None"
    and "is_sha256 (dec_repair_key d)" and "0 \<le> dec_observed_pipeline_generation d"
    and "normalized_reason (dec_reason d) = Some s \<Longrightarrow> length s \<le> max_repair_reason_length"
    and "dec_issue_kind d = SourceExtractionFailed \<Longrightarrow> dec_action d = ContinueWithoutSource \<Longrightarrow>
      normalized_reason (dec_reason d) \<noteq> None \<and> dec_failure_code d \<noteq> None"
  using assms unfolding decision_post_init_def Let_def validated_Inr
  by (simp_all add: not_le not_less)

lemma decision_post_init_inv:
  assumes "decision_post_init d = Inr d'"
  shows "decision_inv d'"
proof -
  note post = decision_post_init_Inr [OF assms]
  have "dec_issue_kind d = SourceExtractionFailed \<longrightarrow> dec_action d = ContinueWithoutSource"
    using post(2) by (auto simp: decision_compatible_def)
  then show ?thesis
    using post normalized_reason_Some [of "dec_reason d"]
    by (simp add: decision_inv_def strip_opt_def split: option.split)
qed

text \<open>Reuse invalidations name a costly stage, an actor and a correlation id.\<close>

record reuse_invalidation =
  inval_edition_id :: uuid
  inval_subject_id :: uuid
  inval_from_stage :: production_stage
  inval_actor_id :: string
  inval_correlation_id :: string
  inval_occurred_at :: datetime
  inval_id :: uuid

definition reuse_invalidation_post_init :: "reuse_invalidation \<Rightarrow> reuse_invalidation result" where
  "reuse_invalidation_post_init r = validated
     [(inval_from_stage r \<notin> {References, Extraction, Relevance_Projection, Synthesis, Editorial_Enrichment},
        ValueError ''Production reuse invalidation must start at a costly stage''),
      (blank (inval_actor_id r), ValueError ''Production reuse invalidation requires an actor''),
      (blank (inval_correlation_id r), ValueError ''Production reuse invalidation requires a correlation id''),
      (\<not> aware (inval_occurred_at r), ValueError ''occurred_at must be timezone-aware'')] r"

end
