(* ===== verification/RepairPlanner.thy ===== *)
theory RepairPlanner
  imports Repair
begin

text \<open>
  The repair planner of \<open>backend/src/cti_app/application/production_repairs.py\<close>: what a repair of a
  rejected value or of a missing source costs, whether its decision is really applied, whether it
  blocks the sign-off, and the one execution state the Repair Desk, the sign-off rule and the
  publication freeze read. The three issue views are the constructors of \<open>repair_issue\<close>;
  \<open>getattr(issue, field, default)\<close> is the accessor that gives the default to the views that do not
  have the field.
\<close>

subsection \<open>Issues\<close>

datatype application_state = AlreadyEffective | ProjectionRequired | Unbuildable | Unresolved

datatype supplemental_state = Unarchived | CollectionMissing | ArchivedPendingReferences | ContinuedWithDiagnostic

record q2_issue =
  q2_repair_key :: string
  q2_kind :: issue_kind
  q2_effective_decision :: "repair_decision option"
  q2_projection_applied :: bool
  q2_application_state :: application_state

record supplemental_issue =
  sup_repair_key :: string
  sup_kind :: issue_kind
  sup_repair_state :: supplemental_state
  sup_effective_decision :: "repair_decision option"
  sup_expected_q2_calls :: int
  sup_expected_q2_reuses :: int
  sup_reuse_unknown_count :: int
  sup_source_criticality :: source_criticality
  sup_failure_code :: "string option"

record extraction_failure_issue =
  exf_repair_key :: string
  exf_kind :: issue_kind
  exf_failure_code :: string
  exf_extraction_warnings :: "string list"
  exf_source_criticality :: source_criticality
  exf_effective_decision :: "repair_decision option"

datatype repair_issue =
    Q2 q2_issue | Supplemental supplemental_issue | ExtractionFailure extraction_failure_issue

fun issue_kind_of :: "repair_issue \<Rightarrow> issue_kind" where
  "issue_kind_of (Q2 i) = q2_kind i"
| "issue_kind_of (Supplemental i) = sup_kind i"
| "issue_kind_of (ExtractionFailure i) = exf_kind i"

fun issue_repair_key :: "repair_issue \<Rightarrow> string" where
  "issue_repair_key (Q2 i) = q2_repair_key i"
| "issue_repair_key (Supplemental i) = sup_repair_key i"
| "issue_repair_key (ExtractionFailure i) = exf_repair_key i"

fun issue_effective_decision :: "repair_issue \<Rightarrow> repair_decision option" where
  "issue_effective_decision (Q2 i) = q2_effective_decision i"
| "issue_effective_decision (Supplemental i) = sup_effective_decision i"
| "issue_effective_decision (ExtractionFailure i) = exf_effective_decision i"

fun issue_application_state :: "repair_issue \<Rightarrow> application_state option" where
  "issue_application_state (Q2 i) = Some (q2_application_state i)"
| "issue_application_state _ = None"

fun issue_projection_applied :: "repair_issue \<Rightarrow> bool" where
  "issue_projection_applied (Q2 i) = q2_projection_applied i"
| "issue_projection_applied _ = False"

fun issue_repair_state :: "repair_issue \<Rightarrow> supplemental_state option" where
  "issue_repair_state (Supplemental i) = Some (sup_repair_state i)"
| "issue_repair_state _ = None"

fun issue_criticality :: "repair_issue \<Rightarrow> source_criticality option" where
  "issue_criticality (Q2 i) = None"
| "issue_criticality (Supplemental i) = Some (sup_source_criticality i)"
| "issue_criticality (ExtractionFailure i) = Some (exf_source_criticality i)"

fun issue_failure_code :: "repair_issue \<Rightarrow> string option" where
  "issue_failure_code (Q2 i) = None"
| "issue_failure_code (Supplemental i) = sup_failure_code i"
| "issue_failure_code (ExtractionFailure i) = Some (exf_failure_code i)"

fun issue_extraction_warnings :: "repair_issue \<Rightarrow> string list" where
  "issue_extraction_warnings (ExtractionFailure i) = exf_extraction_warnings i"
| "issue_extraction_warnings _ = []"

text \<open>Expected Q2 calls, reuses and unknown reuses, zero for the views without a preview.\<close>

fun q2_preview :: "repair_issue \<Rightarrow> int \<times> int \<times> int" where
  "q2_preview (Supplemental i) = (sup_expected_q2_calls i, sup_expected_q2_reuses i, sup_reuse_unknown_count i)"
| "q2_preview _ = (0, 0, 0)"

text \<open>The views are built for the kinds they describe.\<close>

definition issue_wf :: "repair_issue \<Rightarrow> bool" where
  "issue_wf i = (case i of
     Q2 _ \<Rightarrow> issue_kind_of i \<in> {RejectedIndicator, RejectedRule}
   | Supplemental _ \<Rightarrow> issue_kind_of i = SupplementalSourceUnarchived
   | ExtractionFailure _ \<Rightarrow> issue_kind_of i = SourceExtractionFailed)"

subsection \<open>Impacts\<close>

definition source_kinds :: "issue_kind set" where
  "source_kinds = {SupplementalSourceUnarchived, SourceExtractionFailed}"

definition no_outputs :: "derived_output set" where
  [enum_defs]: "no_outputs = {}"
definition rule_bundle_outputs :: "derived_output set" where
  [enum_defs]: "rule_bundle_outputs = {OutExtraction, OutEditorialEnrichment, OutRuleBundle, OutCheckpoint}"
definition publication_outputs :: "derived_output set" where
  [enum_defs]: "publication_outputs = {OutExtraction, OutEditorialEnrichment, OutPublication, OutCheckpoint}"
definition source_corpus_outputs :: "derived_output set" where
  [enum_defs]: "source_corpus_outputs = {OutReferences, OutExtraction, OutSynthesis,
     OutEditorialEnrichment, OutPublication, OutCheckpoint}"

fun impact_dominance :: "impact_kind \<Rightarrow> nat" where
  "impact_dominance NoDeliverableChange = 0"
| "impact_dominance RuleBundleOnly = 1"
| "impact_dominance PublicationOnly = 2"
| "impact_dominance Narrative = 3"
| "impact_dominance SourceCorpus = 4"

definition st_decision :: string where
  "st_decision = ''D'' @ [CHR 0xE9] @ ''cision analyste''"
definition st_enrichment :: string where
  "st_enrichment = ''Enrichissement '' @ [CHR 0xE9] @ ''ditorial''"
definition st_rules :: string where
  "st_rules = ''Mise '' @ [CHR 0xE0] @ '' jour des fichiers YARA/Sigma''"
definition st_qa :: string where
  "st_qa = ''Contr'' @ [CHR 0xF4] @ ''le QA''"
definition st_new_synthesis :: string where
  "st_new_synthesis = ''Nouvelle synth'' @ [CHR 0xE8] @ ''se''"
definition st_archived :: string where
  "st_archived = ''Source archiv'' @ [CHR 0xE9] @ ''e''"
definition st_references :: string where
  "st_references = ''R'' @ [CHR 0xE9] @ ''f'' @ [CHR 0xE9] @ ''rences''"
definition st_synthesis_if :: string where
  "st_synthesis_if = ''Synth'' @ [CHR 0xE8] @ ''se si n'' @ [CHR 0xE9] @ ''cessaire''"

fun plan_steps :: "impact_kind \<Rightarrow> string list" where
  "plan_steps NoDeliverableChange = [st_decision]"
| "plan_steps RuleBundleOnly = [st_decision, ''Projection Extraction'', st_enrichment, st_rules, st_qa]"
| "plan_steps PublicationOnly =
     [st_decision, ''Projection Extraction'', st_enrichment, ''Rendu Publication'', st_qa]"
| "plan_steps Narrative = [st_decision, ''Projection Extraction'', st_new_synthesis, st_enrichment,
     ''Rendu Publication'', st_qa]"
| "plan_steps SourceCorpus = [st_archived, st_references, ''Extraction'', st_synthesis_if,
     st_enrichment, ''Publication'', st_qa]"

fun provider_steps :: "impact_kind \<Rightarrow> string list" where
  "provider_steps Narrative = [st_new_synthesis]"
| "provider_steps SourceCorpus = [''Nouvelle extraction possible'', st_new_synthesis @ '' possible'']"
| "provider_steps _ = []"

text \<open>\<open>_repair_impact\<close>; every caller leaves the two step tuples at their defaults.\<close>

definition make_impact ::
  "impact_kind \<Rightarrow> derived_output set \<Rightarrow> bool \<Rightarrow> string \<Rightarrow> bool \<Rightarrow> int \<times> int \<times> int \<Rightarrow> repair_impact result" where
  "make_impact kind outs model_call reason ready preview = impact_post_init
     \<lparr>ri_kind = kind, ri_affected_outputs = outs, ri_model_call_required = model_call,
      ri_reason = reason, ri_provider_steps = provider_steps kind,
      ri_deterministic_steps = plan_steps kind, ri_ready_to_apply = ready,
      ri_expected_q2_calls = max 0 (fst preview), ri_expected_q2_reuses = max 0 (fst (snd preview)),
      ri_reuse_unknown_count = max 0 (snd (snd preview))\<rparr>"

definition no_change_impact :: "bool \<Rightarrow> string \<Rightarrow> repair_impact result" where
  "no_change_impact ready reason = make_impact NoDeliverableChange no_outputs False reason ready (0, 0, 0)"

definition step_universe :: "string list" where
  "step_universe = [st_decision, st_archived, st_references, ''Projection Extraction'', ''Extraction'',
     st_new_synthesis, st_synthesis_if, st_enrichment, st_rules, ''Rendu Publication'', ''Publication'', st_qa]"

text \<open>\<open>max\<close> with a key returns the first of the maximal elements.\<close>

fun dominant :: "repair_impact \<Rightarrow> repair_impact list \<Rightarrow> repair_impact" where
  "dominant best [] = best"
| "dominant best (i # is) =
     dominant (if impact_dominance (ri_kind best) < impact_dominance (ri_kind i) then i else best) is"

definition or_default :: "string list \<Rightarrow> string list \<Rightarrow> string list" where
  "or_default xs d = (if xs = [] then d else xs)"

definition merge_repair_impacts :: "repair_impact list \<Rightarrow> repair_impact result" where
  "merge_repair_impacts values = (case values of
     [] \<Rightarrow> no_change_impact True ''No repair changes a deliverable.''
   | v # vs \<Rightarrow>
       (let dom = dominant v vs in
        impact_post_init
         \<lparr>ri_kind = ri_kind dom, ri_affected_outputs = (\<Union>i \<in> set values. ri_affected_outputs i),
          ri_model_call_required = list_ex ri_model_call_required values,
          ri_reason = ri_reason dom,
          ri_provider_steps = filter (\<lambda>s. list_ex (\<lambda>i. s \<in> set
            (or_default (ri_provider_steps i) (provider_steps (ri_kind i)))) values)
            (provider_steps (ri_kind dom)),
          ri_deterministic_steps = filter (\<lambda>s. list_ex (\<lambda>i. s \<in> set
            (or_default (ri_deterministic_steps i) (plan_steps (ri_kind i)))) values) step_universe,
          ri_ready_to_apply = list_all ri_ready_to_apply values,
          ri_expected_q2_calls = sum_list (map ri_expected_q2_calls values),
          ri_expected_q2_reuses = sum_list (map ri_expected_q2_reuses values),
          ri_reuse_unknown_count = sum_list (map ri_reuse_unknown_count values)\<rparr>))"

subsection \<open>Decisions and their application\<close>

definition decision_action :: "repair_decision option \<Rightarrow> repair_action option" where
  "decision_action d = map_option dec_action d"

definition stripped_or_empty :: "string option \<Rightarrow> string" where
  "stripped_or_empty s = py_strip (case s of None \<Rightarrow> [] | Some x \<Rightarrow> x)"

definition source_waiver_has_analyst_reason :: "repair_decision option \<Rightarrow> bool" where
  "source_waiver_has_analyst_reason d =
     (decision_action d = Some ContinueWithoutSource
      \<and> (case d of None \<Rightarrow> False | Some x \<Rightarrow> stripped_or_empty (dec_reason x) \<noteq> []))"

definition secondary_source_loss_is_diagnosed :: "repair_issue \<Rightarrow> bool" where
  "secondary_source_loss_is_diagnosed i =
     (issue_criticality i = Some Secondary
      \<and> (stripped_or_empty (issue_failure_code i) \<noteq> [] \<or> issue_extraction_warnings i \<noteq> []))"

definition pending_references :: "repair_issue \<Rightarrow> bool" where
  "pending_references i = (issue_repair_state i = Some ArchivedPendingReferences)"

text \<open>The marker of the current projection: the decisions it applied and those it could not build.\<close>

record marker_entry =
  me_repair_key :: string
  me_decision_id :: "uuid option"
  me_action :: "repair_action option"

record projection_marker =
  mk_applied :: "marker_entry list"
  mk_unbuildable :: "marker_entry list"

definition marker_has :: "marker_entry list \<Rightarrow> string \<Rightarrow> uuid \<Rightarrow> bool" where
  "marker_has entries key i = list_ex (\<lambda>e. me_repair_key e = key \<and> me_decision_id e = Some i) entries"

definition applied_entries :: "projection_marker option \<Rightarrow> marker_entry list" where
  "applied_entries m = (case m of None \<Rightarrow> [] | Some x \<Rightarrow> mk_applied x)"

definition unbuildable_entries :: "projection_marker option \<Rightarrow> marker_entry list" where
  "unbuildable_entries m = (case m of None \<Rightarrow> [] | Some x \<Rightarrow> mk_unbuildable x)"

definition decision_is_materialized ::
  "projection_marker option \<Rightarrow> string \<Rightarrow> repair_decision option \<Rightarrow> bool" where
  "decision_is_materialized m key d =
     (case d of None \<Rightarrow> False | Some x \<Rightarrow> marker_has (applied_entries m) key (dec_id x))"

definition marker_applied_action :: "projection_marker option \<Rightarrow> string \<Rightarrow> repair_action option" where
  "marker_applied_action m key =
     (case find (\<lambda>e. me_repair_key e = key) (applied_entries m) of
        None \<Rightarrow> None | Some e \<Rightarrow> me_action e)"

definition decision_application_state ::
  "repair_issue \<Rightarrow> repair_decision option \<Rightarrow> projection_marker option \<Rightarrow> application_state" where
  "decision_application_state i eff m =
     (if issue_kind_of i \<in> source_kinds then
        (if pending_references i \<and> decision_action eff = Some ContinueWithoutSource
            \<or> source_waiver_has_analyst_reason eff \<or> secondary_source_loss_is_diagnosed i
         then AlreadyEffective else Unresolved)
      else case eff of
        None \<Rightarrow> Unresolved
      | Some d \<Rightarrow>
          if marker_has (unbuildable_entries m) (issue_repair_key i) (dec_id d) then Unbuildable
          else if decision_is_materialized m (issue_repair_key i) eff then AlreadyEffective
          else if dec_action d = Exclude then
            (if marker_applied_action m (issue_repair_key i) \<in> {Some Include, Some Replace}
             then ProjectionRequired else AlreadyEffective)
          else if dec_action d \<in> {Include, Replace} then ProjectionRequired
          else AlreadyEffective)"

text \<open>\<open>repair_issue_application_state\<close>: the state the view carries, or one derived from it.\<close>

definition or_issue_decision :: "repair_decision option \<Rightarrow> repair_issue \<Rightarrow> repair_decision option" where
  "or_issue_decision d i = (if d = None then issue_effective_decision i else d)"

definition derived_marker :: "repair_issue \<Rightarrow> repair_decision option \<Rightarrow> projection_marker option" where
  "derived_marker i d =
     (if issue_projection_applied i
      then Some \<lparr>mk_applied = [\<lparr>me_repair_key = issue_repair_key i, me_decision_id = map_option dec_id d,
          me_action = decision_action d\<rparr>], mk_unbuildable = []\<rparr>
      else None)"

definition issue_state :: "repair_issue \<Rightarrow> repair_decision option \<Rightarrow> application_state" where
  "issue_state i d0 =
     (let d = or_issue_decision d0 i in
      case issue_application_state i of
        Some s \<Rightarrow> if s \<noteq> Unresolved \<or> d = None then s
          else decision_application_state i d (derived_marker i d)
      | None \<Rightarrow> decision_application_state i d (derived_marker i d))"

definition blocks_signoff :: "repair_issue \<Rightarrow> repair_decision option \<Rightarrow> bool" where
  "blocks_signoff i d =
     (if pending_references i then True
      else if issue_kind_of i \<in> source_kinds then
        \<not> (source_waiver_has_analyst_reason (or_issue_decision d i) \<or> secondary_source_loss_is_diagnosed i)
      else issue_state i d \<in> {ProjectionRequired, Unbuildable})"

subsection \<open>Classification\<close>

definition indicator_reason :: string where
  "indicator_reason =
     ''The repair changes only the deterministic publication projection of an extracted value.''"

definition issue_is_unbuildable :: "repair_issue \<Rightarrow> bool" where
  "issue_is_unbuildable i = (issue_application_state i = Some Unbuildable)"

definition exclude_revises_projected_content :: "repair_issue \<Rightarrow> repair_decision \<Rightarrow> bool" where
  "exclude_revises_projected_content i d =
     (dec_action d = Exclude \<and> issue_application_state i = Some ProjectionRequired)"

definition include_is_already_effective :: "repair_issue \<Rightarrow> repair_decision \<Rightarrow> bool" where
  "include_is_already_effective i d =
     (dec_action d \<in> {Include, Replace} \<and> issue_application_state i = Some AlreadyEffective)"

definition source_corpus_impact :: "repair_issue \<Rightarrow> bool \<Rightarrow> string \<Rightarrow> repair_impact result" where
  "source_corpus_impact i ready reason =
     make_impact SourceCorpus source_corpus_outputs True reason ready (q2_preview i)"

definition classify_supplemental ::
  "repair_issue \<Rightarrow> repair_decision option \<Rightarrow> repair_impact result" where
  "classify_supplemental i d =
     (let accepted = source_waiver_has_analyst_reason d \<or> secondary_source_loss_is_diagnosed i in
      if issue_repair_state i = Some ArchivedPendingReferences then
        source_corpus_impact i True
          ''An archived Q1 source is absent from REFERENCES and can change the source corpus.''
      else if issue_repair_state i = Some CollectionMissing then
        (if accepted then
           no_change_impact True ''The source loss is accepted with an explicit waiver or visible diagnosis.''
         else source_corpus_impact i False ''The supplemental source has no collection to archive yet.'')
      else if issue_repair_state i = Some ContinuedWithDiagnostic then
        no_change_impact True (''The secondary source loss is retained in the diagnostic and does not ''
          @ ''change covered findings.'')
      else if decision_action d = Some ContinueWithoutSource then
        (if \<not> accepted then
           no_change_impact False (''This legacy waiver has no analyst reason; a critical source loss ''
             @ ''needs a new decision.'')
         else no_change_impact True ''The analyst waived the supplemental source without adding content.'')
      else if d = None then
        source_corpus_impact i False ''Archiving the supplemental source may change the source corpus.''
      else no_change_impact True ''The supplemental source has no materialized deliverable change.'')"

definition classify_extraction_failure ::
  "repair_issue \<Rightarrow> repair_decision option \<Rightarrow> repair_impact result" where
  "classify_extraction_failure i d =
     (let diagnosed = secondary_source_loss_is_diagnosed i;
          waived = source_waiver_has_analyst_reason d
      in no_change_impact (waived \<or> diagnosed)
        (if waived then ''The source loss remains visible; the analyst recorded why production ''
             @ ''continues without it.''
         else if diagnosed then ''The secondary source loss remains visible in the extraction diagnostic.''
         else ''The failed source remains a blocking review item until an analyst ''
           @ ''records a reason to continue.''))"

definition changes_projected_content :: "repair_issue \<Rightarrow> repair_decision \<Rightarrow> bool" where
  "changes_projected_content i d =
     (dec_action d \<in> {Include, Replace} \<and> \<not> include_is_already_effective i d
      \<or> dec_action d = Exclude \<and> exclude_revises_projected_content i d)"

definition classify_rejection :: "repair_issue \<Rightarrow> repair_decision option \<Rightarrow> repair_impact result" where
  "classify_rejection i d = (case d of
     None \<Rightarrow>
       (if issue_kind_of i = RejectedRule
        then make_impact RuleBundleOnly rule_bundle_outputs False
          ''Including the rule changes only the accepted detection-rule bundle.'' False (0, 0, 0)
        else make_impact PublicationOnly publication_outputs False indicator_reason False (0, 0, 0))
   | Some x \<Rightarrow>
       if \<not> changes_projected_content i x
       then no_change_impact True ''The rejected value was not previously included in a deliverable.''
       else if issue_kind_of i = RejectedRule
       then make_impact RuleBundleOnly rule_bundle_outputs False
          ''The repair changes only the accepted detection-rule bundle.'' (\<not> issue_is_unbuildable i) (0, 0, 0)
       else make_impact PublicationOnly publication_outputs False indicator_reason
          (\<not> issue_is_unbuildable i) (0, 0, 0))"

definition classify_repair_impact :: "repair_issue \<Rightarrow> repair_decision option \<Rightarrow> repair_impact result" where
  "classify_repair_impact i d =
     (if issue_kind_of i = SupplementalSourceUnarchived then classify_supplemental i d
      else if issue_kind_of i = SourceExtractionFailed then classify_extraction_failure i d
      else classify_rejection i d)"

subsection \<open>The execution state of an issue\<close>

record issue_execution_state =
  ex_application_state :: application_state
  ex_impact :: repair_impact
  ex_resolved :: bool
  ex_blocking :: bool
  ex_rebuild_required :: bool
  ex_recommended_stage :: "string option"

definition issue_execution_state ::
  "repair_issue \<Rightarrow> repair_decision option \<Rightarrow> bool \<Rightarrow> issue_execution_state result" where
  "issue_execution_state i decision document_missing =
     (let effective = or_issue_decision decision i;
          is_source = issue_kind_of i \<in> source_kinds;
          pending = pending_references i;
          state = issue_state i effective;
          blocking = blocks_signoff i effective;
          resolved = (if is_source
            then source_waiver_has_analyst_reason effective \<or> secondary_source_loss_is_diagnosed i \<or> pending
            else effective \<noteq> None \<or> pending);
          debt = (if is_source \<and> pending then (blocking, Some ''rebuild_references'')
            else if is_source then
              (False, Some (if resolved then ''none''
                else if issue_kind_of i = SourceExtractionFailed then ''review_source_loss''
                else ''revise_decision''))
            else if state = Unresolved then (False, None)
            else if state = Unbuildable then (blocking, Some ''revise_decision'')
            else if state = ProjectionRequired then (blocking, Some ''apply_projection'')
            else (document_missing, Some (if document_missing then ''synthesis'' else ''none'')))
      in and_then (classify_repair_impact i effective) (\<lambda>impact.
        Inr \<lparr>ex_application_state = state, ex_impact = impact, ex_resolved = resolved,
          ex_blocking = blocking, ex_rebuild_required = fst debt, ex_recommended_stage = snd debt\<rparr>))"

subsection \<open>Lemmas\<close>

lemma make_impact_ok:
  "(kind \<notin> narrative_impact_kinds \<Longrightarrow> \<not> model_call \<and> outs \<inter> narrative_only_outputs = {}) \<Longrightarrow>
   \<exists>x. make_impact kind outs model_call reason ready p = Inr x \<and> ri_kind x = kind
     \<and> ri_ready_to_apply x = ready \<and> ri_model_call_required x = model_call
     \<and> ri_affected_outputs x = outs \<and> impact_inv x"
  by (cases kind) (simp_all add: make_impact_def impact_post_init_Inr impact_inv_def narrative_impact_kinds_def)

lemma no_change_ok: "\<exists>x. no_change_impact ready reason = Inr x \<and> ri_kind x = NoDeliverableChange
    \<and> ri_ready_to_apply x = ready \<and> \<not> ri_model_call_required x \<and> ri_affected_outputs x = {} \<and> impact_inv x"
  using make_impact_ok [of NoDeliverableChange False no_outputs reason ready "(0, 0, 0)"]
  by (auto simp: no_change_impact_def no_outputs_def)

lemma corpus_ok: "\<exists>x. source_corpus_impact i ready reason = Inr x \<and> ri_kind x = SourceCorpus
    \<and> ri_ready_to_apply x = ready \<and> ri_model_call_required x \<and> impact_inv x"
  using make_impact_ok [of SourceCorpus True source_corpus_outputs reason ready "q2_preview i"]
  by (auto simp: source_corpus_impact_def narrative_impact_kinds_def)

lemma rule_bundle_ok: "\<exists>x. make_impact RuleBundleOnly rule_bundle_outputs False reason ready p = Inr x
    \<and> ri_kind x = RuleBundleOnly \<and> ri_ready_to_apply x = ready \<and> \<not> ri_model_call_required x
    \<and> ri_affected_outputs x = rule_bundle_outputs \<and> impact_inv x"
  using make_impact_ok [of RuleBundleOnly False rule_bundle_outputs reason ready p]
  by (auto simp: rule_bundle_outputs_def narrative_only_outputs_def)

lemma publication_ok: "\<exists>x. make_impact PublicationOnly publication_outputs False reason ready p = Inr x
    \<and> ri_kind x = PublicationOnly \<and> ri_ready_to_apply x = ready \<and> \<not> ri_model_call_required x
    \<and> ri_affected_outputs x = publication_outputs \<and> impact_inv x"
  using make_impact_ok [of PublicationOnly False publication_outputs reason ready p]
  by (auto simp: publication_outputs_def narrative_only_outputs_def)

text \<open>Classification of a rejected value: what it is, whether it can be applied.\<close>

lemma classify_rejection_result:
  "\<exists>x. classify_rejection i d = Inr x \<and> impact_inv x \<and> \<not> ri_model_call_required x
     \<and> ri_kind x \<notin> narrative_impact_kinds
     \<and> (ri_kind x = NoDeliverableChange \<longleftrightarrow> (\<exists>y. d = Some y \<and> \<not> changes_projected_content i y))
     \<and> (ri_ready_to_apply x \<longleftrightarrow> (\<exists>y. d = Some y \<and> (changes_projected_content i y \<longrightarrow> \<not> issue_is_unbuildable i)))"
proof -
  obtain a where a: "make_impact RuleBundleOnly rule_bundle_outputs False
      ''Including the rule changes only the accepted detection-rule bundle.'' False (0, 0, 0) = Inr a"
      "ri_kind a = RuleBundleOnly" "\<not> ri_ready_to_apply a" "\<not> ri_model_call_required a" "impact_inv a"
    using rule_bundle_ok by metis
  obtain b where b: "make_impact PublicationOnly publication_outputs False indicator_reason False (0, 0, 0) = Inr b"
      "ri_kind b = PublicationOnly" "\<not> ri_ready_to_apply b" "\<not> ri_model_call_required b" "impact_inv b"
    using publication_ok by metis
  obtain c where c: "make_impact RuleBundleOnly rule_bundle_outputs False
      ''The repair changes only the accepted detection-rule bundle.'' (\<not> issue_is_unbuildable i) (0, 0, 0) = Inr c"
      "ri_kind c = RuleBundleOnly" "ri_ready_to_apply c = (\<not> issue_is_unbuildable i)"
      "\<not> ri_model_call_required c" "impact_inv c"
    using rule_bundle_ok by metis
  obtain e where e: "make_impact PublicationOnly publication_outputs False indicator_reason
      (\<not> issue_is_unbuildable i) (0, 0, 0) = Inr e"
      "ri_kind e = PublicationOnly" "ri_ready_to_apply e = (\<not> issue_is_unbuildable i)"
      "\<not> ri_model_call_required e" "impact_inv e"
    using publication_ok by metis
  obtain n where n: "no_change_impact True ''The rejected value was not previously included in a deliverable.'' = Inr n"
      "ri_kind n = NoDeliverableChange" "ri_ready_to_apply n" "\<not> ri_model_call_required n" "impact_inv n"
    using no_change_ok [of True] by metis
  show ?thesis
  proof (cases d)
    case None
    with a b show ?thesis by (simp add: classify_rejection_def narrative_impact_kinds_def)
  next
    case (Some y)
    with c e n show ?thesis
      by (cases "changes_projected_content i y") (simp_all add: classify_rejection_def narrative_impact_kinds_def)
  qed
qed

lemma classify_supplemental_result:
  "\<exists>x. classify_supplemental i d = Inr x \<and> impact_inv x
     \<and> (pending_references i \<longrightarrow> ri_kind x = SourceCorpus \<and> ri_ready_to_apply x)"
proof -
  have n: "\<exists>x. no_change_impact ready reason = Inr x \<and> impact_inv x" for ready reason
    using no_change_ok by metis
  have c: "\<exists>x. source_corpus_impact i ready reason = Inr x \<and> impact_inv x" for ready reason
    using corpus_ok by metis
  show ?thesis
  proof (cases "pending_references i")
    case True
    with corpus_ok show ?thesis
      by (simp add: classify_supplemental_def pending_references_def Let_def) metis
  next
    case False
    with n c show ?thesis
      by (simp add: classify_supplemental_def pending_references_def Let_def)
  qed
qed

lemma classify_extraction_failure_result:
  "\<exists>x. classify_extraction_failure i d = Inr x \<and> impact_inv x \<and> ri_kind x = NoDeliverableChange
     \<and> \<not> ri_model_call_required x"
  unfolding classify_extraction_failure_def Let_def using no_change_ok by metis

lemma classify_total: "\<exists>x. classify_repair_impact i d = Inr x \<and> impact_inv x"
  using classify_supplemental_result [of i d] classify_extraction_failure_result [of i d]
    classify_rejection_result [of i d]
  by (auto simp: classify_repair_impact_def)

subsection \<open>Merging\<close>

lemma dominant_props:
  "dominant best is \<in> set (best # is)
   \<and> (\<forall>i \<in> set (best # is). impact_dominance (ri_kind i) \<le> impact_dominance (ri_kind (dominant best is)))"
proof (induction best "is" rule: dominant.induct)
  case (2 best i "is")
  show ?case
  proof (cases "impact_dominance (ri_kind best) < impact_dominance (ri_kind i)")
    case True
    with 2 show ?thesis by auto
  next
    case False
    with 2 show ?thesis by auto
  qed
qed simp

lemma dominance_narrative: "k \<in> narrative_impact_kinds \<longleftrightarrow> 3 \<le> impact_dominance k"
  by (cases k) (simp_all add: narrative_impact_kinds_def)

lemma non_narrative_provider_steps: "k \<notin> narrative_impact_kinds \<Longrightarrow> provider_steps k = []"
  by (cases k) (simp_all add: narrative_impact_kinds_def)

lemma merged_inv:
  assumes "\<forall>i \<in> set values. impact_inv i" and "d \<in> set values"
    and "\<forall>i \<in> set values. impact_dominance (ri_kind i) \<le> impact_dominance (ri_kind d)"
    and "ri_kind d \<notin> narrative_impact_kinds"
  shows "\<not> list_ex ri_model_call_required values
    \<and> (\<Union>i \<in> set values. ri_affected_outputs i) \<inter> narrative_only_outputs = {}"
proof -
  have "ri_kind i \<notin> narrative_impact_kinds" if "i \<in> set values" for i
    using that assms(3,4) by (simp add: dominance_narrative) (meson le_trans not_le)
  with assms(1) have "\<not> ri_model_call_required i \<and> ri_affected_outputs i \<inter> narrative_only_outputs = {}"
    if "i \<in> set values" for i
    using that by (simp add: impact_inv_def)
  then show ?thesis by (auto simp: list_ex_iff)
qed

subsection \<open>Properties\<close>

text \<open>
  C36. Arbitrating a rejected indicator or rule is never narrative: whatever the decision and the
  state of the projection, the classification succeeds, costs no provider call and leaves the
  synthesis and the references alone; the article changes only when the decision changes what is
  projected.
\<close>

theorem rejection_never_narrative:
  assumes "issue_kind_of i \<in> {RejectedIndicator, RejectedRule}"
  shows "\<exists>x. classify_repair_impact i d = Inr x \<and> \<not> ri_model_call_required x
    \<and> ri_provider_steps x = [] \<and> OutSynthesis \<notin> ri_affected_outputs x
    \<and> OutReferences \<notin> ri_affected_outputs x
    \<and> (ri_kind x = NoDeliverableChange \<longleftrightarrow> (\<exists>y. d = Some y \<and> \<not> changes_projected_content i y))"
proof -
  have "classify_repair_impact i d = classify_rejection i d"
    using assms by (auto simp: classify_repair_impact_def)
  moreover obtain x where "classify_rejection i d = Inr x" "impact_inv x" "\<not> ri_model_call_required x"
    "ri_kind x \<notin> narrative_impact_kinds"
    "ri_kind x = NoDeliverableChange \<longleftrightarrow> (\<exists>y. d = Some y \<and> \<not> changes_projected_content i y)"
    using classify_rejection_result [of i d] by blast
  ultimately show ?thesis
    by (auto simp: impact_inv_def narrative_only_outputs_def)
qed

definition demo_q2 :: "application_state \<Rightarrow> repair_decision option \<Rightarrow> repair_issue" where
  "demo_q2 s d = Q2 \<lparr>q2_repair_key = ''k'', q2_kind = RejectedRule, q2_effective_decision = d,
     q2_projection_applied = (s = AlreadyEffective), q2_application_state = s\<rparr>"

theorem rejection_never_narrative_witness:
  "\<exists>x. classify_repair_impact (demo_q2 Unresolved None) None = Inr x \<and> \<not> ri_model_call_required x"
proof -
  have "issue_kind_of (demo_q2 Unresolved None) \<in> {RejectedIndicator, RejectedRule}"
    by (simp add: demo_q2_def)
  from rejection_never_narrative [OF this] show ?thesis by blast
qed

text \<open>
  Merging the impacts of an article is total on well-formed impacts: the merge never trips the
  granularity invariant, its kind is the most invasive one present, it affects exactly the union of
  the outputs, it needs a model call exactly when one of them does, and it is applicable exactly when
  all of them are.
\<close>

theorem merge_is_join:
  assumes "\<forall>i \<in> set values. impact_inv i" and "values \<noteq> []"
  shows "\<exists>x. merge_repair_impacts values = Inr x \<and> impact_inv x
    \<and> ri_kind x \<in> ri_kind ` set values
    \<and> (\<forall>i \<in> set values. impact_dominance (ri_kind i) \<le> impact_dominance (ri_kind x))
    \<and> ri_affected_outputs x = (\<Union>i \<in> set values. ri_affected_outputs i)
    \<and> (ri_model_call_required x \<longleftrightarrow> (\<exists>i \<in> set values. ri_model_call_required i))
    \<and> (ri_ready_to_apply x \<longleftrightarrow> (\<forall>i \<in> set values. ri_ready_to_apply i))
    \<and> ri_expected_q2_calls x = sum_list (map ri_expected_q2_calls values)"
proof -
  obtain v vs where split: "values = v # vs" using assms(2) by (cases "values") auto
  have dom: "dominant v vs \<in> set values"
    "\<forall>i \<in> set values. impact_dominance (ri_kind i) \<le> impact_dominance (ri_kind (dominant v vs))"
    using dominant_props [of v vs] split by auto
  have "\<not> list_ex ri_model_call_required values
      \<and> (\<Union>i \<in> set values. ri_affected_outputs i) \<inter> narrative_only_outputs = {}"
    if "ri_kind (dominant v vs) \<notin> narrative_impact_kinds"
    by (rule merged_inv [OF assms(1) dom that])
  with dom show ?thesis
    using non_narrative_provider_steps [of "ri_kind (dominant v vs)"]
    by (auto simp: merge_repair_impacts_def split Let_def impact_post_init_Inr impact_inv_def
        list_ex_iff list_all_iff)
qed

theorem merge_is_join_witness:
  "\<exists>x y. no_change_impact True ''r'' = Inr x \<and> merge_repair_impacts [x] = Inr y
     \<and> ri_kind y = NoDeliverableChange"
proof -
  obtain x where x: "no_change_impact True ''r'' = Inr x" "ri_kind x = NoDeliverableChange" "impact_inv x"
    using no_change_ok by metis
  then have "\<forall>i \<in> set [x]. impact_inv i" "[x] \<noteq> []" by simp_all
  from merge_is_join [OF this] x show ?thesis by fastforce
qed

text \<open>
  An issue as the issue service builds it from the marker of the current projection, whose unbuildable
  entries are inclusions and replacements.
\<close>

definition issue_observed :: "repair_issue \<Rightarrow> projection_marker option \<Rightarrow> bool" where
  "issue_observed i m \<longleftrightarrow> issue_wf i
     \<and> (case i of Q2 v \<Rightarrow> q2_application_state v = decision_application_state i (q2_effective_decision v) m
        | _ \<Rightarrow> True)
     \<and> (case issue_effective_decision i of None \<Rightarrow> True
        | Some d \<Rightarrow> marker_has (unbuildable_entries m) (issue_repair_key i) (dec_id d)
            \<longrightarrow> dec_action d \<in> {Include, Replace})"

lemma observed_q2_state:
  assumes "issue_observed (Q2 v) m"
  shows "issue_state (Q2 v) (q2_effective_decision v) = q2_application_state v"
    and "q2_application_state v = Unresolved \<longleftrightarrow> q2_effective_decision v = None"
    and "q2_application_state v = Unbuildable \<Longrightarrow> \<exists>d. q2_effective_decision v = Some d \<and> dec_action d \<in> {Include, Replace}"
    and "q2_application_state v = ProjectionRequired \<Longrightarrow>
      \<exists>d. q2_effective_decision v = Some d \<and> dec_action d \<in> {Include, Replace, Exclude}"
proof -
  have not_source: "q2_kind v \<notin> source_kinds"
    using assms by (auto simp: issue_observed_def issue_wf_def source_kinds_def)
  have st: "q2_application_state v = decision_application_state (Q2 v) (q2_effective_decision v) m"
    using assms by (simp add: issue_observed_def)
  show none: "q2_application_state v = Unresolved \<longleftrightarrow> q2_effective_decision v = None"
    unfolding st using not_source by (auto simp: decision_application_state_def split: option.splits)
  then show "issue_state (Q2 v) (q2_effective_decision v) = q2_application_state v"
    by (auto simp: issue_state_def or_issue_decision_def Let_def)
  have unb: "dec_action d \<in> {Include, Replace}"
    if "q2_effective_decision v = Some d" "marker_has (unbuildable_entries m) (q2_repair_key v) (dec_id d)" for d
    using assms that by (simp add: issue_observed_def)
  show "q2_application_state v = Unbuildable \<Longrightarrow> \<exists>d. q2_effective_decision v = Some d \<and> dec_action d \<in> {Include, Replace}"
    unfolding st using not_source unb
    by (auto simp: decision_application_state_def split: option.splits if_splits)
  show "q2_application_state v = ProjectionRequired \<Longrightarrow>
      \<exists>d. q2_effective_decision v = Some d \<and> dec_action d \<in> {Include, Replace, Exclude}"
    unfolding st using not_source
    by (auto simp: decision_application_state_def split: option.splits if_splits)
qed

lemma observed_q2_execution:
  assumes "issue_observed (Q2 v) m"
  shows "\<exists>x. issue_execution_state (Q2 v) None missing = Inr x
    \<and> (ri_kind (ex_impact x) = NoDeliverableChange \<longrightarrow> missing \<or> \<not> ex_rebuild_required x)
    \<and> (ex_rebuild_required x \<longrightarrow> ri_ready_to_apply (ex_impact x) \<or> ex_recommended_stage x = Some ''revise_decision'')
    \<and> (ex_blocking x \<longrightarrow> ex_rebuild_required x)"
proof -
  note q = observed_q2_state [OF assms]
  have k: "q2_kind v \<in> {RejectedIndicator, RejectedRule}"
    using assms by (simp add: issue_observed_def issue_wf_def)
  let ?d = "q2_effective_decision v"
  have classify: "classify_repair_impact (Q2 v) ?d = classify_rejection (Q2 v) ?d"
    using k by (auto simp: classify_repair_impact_def)
  obtain x where x: "classify_rejection (Q2 v) ?d = Inr x"
    "ri_kind x = NoDeliverableChange \<longleftrightarrow> (\<exists>y. ?d = Some y \<and> \<not> changes_projected_content (Q2 v) y)"
    "ri_ready_to_apply x \<longleftrightarrow> (\<exists>y. ?d = Some y \<and>
        (changes_projected_content (Q2 v) y \<longrightarrow> \<not> issue_is_unbuildable (Q2 v)))"
    using classify_rejection_result [of "Q2 v" ?d] by blast
  have eff: "or_issue_decision None (Q2 v) = ?d" "or_issue_decision ?d (Q2 v) = ?d"
    by (simp_all add: or_issue_decision_def)
  have changes: "changes_projected_content (Q2 v) y"
    if "?d = Some y" "q2_application_state v \<in> {Unbuildable, ProjectionRequired}" for y
  proof (cases "q2_application_state v = Unbuildable")
    case True
    with q(3) that(1) have "dec_action y \<in> {Include, Replace}" by simp
    with True show ?thesis by (simp add: changes_projected_content_def include_is_already_effective_def)
  next
    case False
    with that(2) have st: "q2_application_state v = ProjectionRequired" by simp
    with q(4) that(1) have "dec_action y \<in> {Include, Replace, Exclude}" by simp
    with st show ?thesis
      by (auto simp: changes_projected_content_def include_is_already_effective_def
          exclude_revises_projected_content_def)
  qed
  have nosrc: "q2_kind v \<notin> source_kinds" "\<not> pending_references (Q2 v)"
    using k by (auto simp: source_kinds_def pending_references_def)
  have run: "issue_execution_state (Q2 v) None missing = Inr
      \<lparr>ex_application_state = q2_application_state v, ex_impact = x, ex_resolved = (?d \<noteq> None),
       ex_blocking = (q2_application_state v \<in> {ProjectionRequired, Unbuildable}),
       ex_rebuild_required = (q2_application_state v \<in> {ProjectionRequired, Unbuildable}
          \<or> q2_application_state v = AlreadyEffective \<and> missing),
       ex_recommended_stage = (case q2_application_state v of Unresolved \<Rightarrow> None
         | Unbuildable \<Rightarrow> Some ''revise_decision'' | ProjectionRequired \<Rightarrow> Some ''apply_projection''
         | AlreadyEffective \<Rightarrow> Some (if missing then ''synthesis'' else ''none''))\<rparr>"
    unfolding issue_execution_state_def Let_def eff q(1) classify x(1)
    using nosrc by (cases "q2_application_state v") (simp_all add: blocks_signoff_def q(1))
  show ?thesis
  proof (cases ?d)
    case None
    then have "q2_application_state v = Unresolved" using q(2) by simp
    with run show ?thesis by simp
  next
    case (Some y)
    then have "q2_application_state v \<noteq> Unresolved" using q(2) by simp
    with run x(2,3) Some changes [OF Some] show ?thesis
      by (cases "q2_application_state v") (simp_all add: issue_is_unbuildable_def)
  qed
qed

lemma supplemental_execution:
  assumes "issue_wf i" and "issue_kind_of i \<in> source_kinds"
  shows "\<exists>x. issue_execution_state i None missing = Inr x
    \<and> (ri_kind (ex_impact x) = NoDeliverableChange \<longrightarrow> \<not> ex_rebuild_required x)
    \<and> (ex_rebuild_required x \<longrightarrow> ri_ready_to_apply (ex_impact x))
    \<and> (ex_blocking x \<and> \<not> ex_rebuild_required x \<longrightarrow>
        ex_recommended_stage x \<in> {Some ''revise_decision'', Some ''review_source_loss''})
    \<and> (pending_references i \<longrightarrow> ex_blocking x \<and> ex_rebuild_required x)"
proof -
  let ?d = "or_issue_decision None i"
  have again: "or_issue_decision ?d i = ?d" by (simp add: or_issue_decision_def)
  have only: "issue_kind_of i = SupplementalSourceUnarchived" if "pending_references i"
    using that assms(1) by (cases i) (auto simp: pending_references_def issue_wf_def)
  obtain x where x1: "classify_repair_impact i ?d = Inr x" using classify_total by blast
  have x2: "ri_kind x = SourceCorpus \<and> ri_ready_to_apply x" if "pending_references i"
    using classify_supplemental_result [of i ?d] x1 only [OF that] that
    by (auto simp: classify_repair_impact_def)
  show ?thesis
    unfolding issue_execution_state_def Let_def x1
    using assms(2) x2 by (auto simp: blocks_signoff_def again)
qed

text \<open>
  C37. No deadlock at the Repair Desk. For an issue built from the current projection marker (whose
  unbuildable entries are inclusions), the execution state always exists; a required rebuild is
  applicable or names the decision to revise; a blocking issue without a rebuild names the
  arbitration that unblocks it; an archived source that REFERENCES has not absorbed blocks and owes a
  rebuild whatever was decided before; and as long as the article has its document, an issue that
  changes no deliverable owes no rebuild.
\<close>

theorem repair_desk_no_deadlock:
  assumes "issue_observed i m"
  shows "\<exists>x. issue_execution_state i None missing = Inr x
    \<and> (ex_rebuild_required x \<longrightarrow> ri_ready_to_apply (ex_impact x) \<or> ex_recommended_stage x = Some ''revise_decision'')
    \<and> (ex_blocking x \<and> \<not> ex_rebuild_required x \<longrightarrow>
        ex_recommended_stage x \<in> {Some ''revise_decision'', Some ''review_source_loss''})
    \<and> (pending_references i \<longrightarrow> ex_blocking x \<and> ex_rebuild_required x)
    \<and> (ri_kind (ex_impact x) = NoDeliverableChange \<and> \<not> missing \<longrightarrow> \<not> ex_rebuild_required x)"
proof (cases "issue_kind_of i \<in> source_kinds")
  case True
  with supplemental_execution [of i missing] assms show ?thesis
    by (auto simp: issue_observed_def)
next
  case False
  then obtain v where i: "i = Q2 v"
    using assms by (cases i) (auto simp: issue_observed_def issue_wf_def source_kinds_def)
  with observed_q2_execution [of v m missing] assms show ?thesis
    by (auto simp: pending_references_def)
qed

definition demo_decision :: "repair_action \<Rightarrow> repair_decision" where
  "demo_decision a = \<lparr>dec_edition_id = 1, dec_subject_id = 2, dec_production_run_id = 3,
     dec_observed_artifact_id = 4, dec_observed_pipeline_generation = 0, dec_repair_key = ''k'',
     dec_issue_kind = RejectedRule, dec_action = a, dec_actor_id = ''u'', dec_reason = None,
     dec_source_criticality = None, dec_criticality_reason = None, dec_failure_code = None,
     dec_criticality_policy_version = None, dec_correction_id = None, dec_created_at = utc 0,
     dec_id = 5\<rparr>"

theorem repair_desk_no_deadlock_witness:
  "\<exists>x. issue_execution_state (demo_q2 ProjectionRequired (Some (demo_decision Include))) None False = Inr x
     \<and> (ex_rebuild_required x \<longrightarrow> ri_ready_to_apply (ex_impact x)
          \<or> ex_recommended_stage x = Some ''revise_decision'')"
proof -
  have "issue_observed (demo_q2 ProjectionRequired (Some (demo_decision Include))) None"
    by (simp add: issue_observed_def issue_wf_def demo_q2_def demo_decision_def decision_application_state_def
        source_kinds_def marker_has_def unbuildable_entries_def decision_is_materialized_def applied_entries_def)
  from repair_desk_no_deadlock [OF this] show ?thesis by blast
qed

text \<open>
  The missing document is the exception to the last part: an inclusion the projection already
  applied changes no deliverable, and still owes a rebuild when the article has lost its document.
\<close>

theorem missing_document_rebuild:
  assumes "issue_kind_of (Q2 v) \<in> {RejectedIndicator, RejectedRule}"
    and "q2_application_state v = AlreadyEffective" and "q2_effective_decision v = Some d"
    and "dec_action d \<in> {Include, Replace}"
  shows "\<exists>x. issue_execution_state (Q2 v) None True = Inr x
    \<and> ri_kind (ex_impact x) = NoDeliverableChange \<and> ex_rebuild_required x
    \<and> ex_recommended_stage x = Some ''synthesis''"
proof -
  obtain x where x: "classify_rejection (Q2 v) (Some d) = Inr x"
    "ri_kind x = NoDeliverableChange \<longleftrightarrow> (\<exists>y. Some d = Some y \<and> \<not> changes_projected_content (Q2 v) y)"
    using classify_rejection_result [of "Q2 v" "Some d"] by blast
  have "\<not> changes_projected_content (Q2 v) d"
    using assms(2,4) by (auto simp: changes_projected_content_def include_is_already_effective_def)
  with x assms show ?thesis
    by (auto simp: issue_execution_state_def Let_def or_issue_decision_def issue_state_def source_kinds_def
        classify_repair_impact_def)
qed

theorem missing_document_rebuild_witness:
  "\<exists>x. issue_execution_state (demo_q2 AlreadyEffective (Some (demo_decision Include))) None True = Inr x
     \<and> ri_kind (ex_impact x) = NoDeliverableChange \<and> ex_rebuild_required x"
proof -
  have "\<exists>x. issue_execution_state (Q2 \<lparr>q2_repair_key = ''k'', q2_kind = RejectedRule,
      q2_effective_decision = Some (demo_decision Include), q2_projection_applied = True,
      q2_application_state = AlreadyEffective\<rparr>) None True = Inr x
     \<and> ri_kind (ex_impact x) = NoDeliverableChange \<and> ex_rebuild_required x
     \<and> ex_recommended_stage x = Some ''synthesis''"
    by (rule missing_document_rebuild [where d = "demo_decision Include"]) (simp_all add: demo_decision_def)
  then show ?thesis by (auto simp: demo_q2_def)
qed

end
