(* ===== verification/RepairDecisions.thy ===== *)
theory RepairDecisions
  imports RepairPlanner
begin

text \<open>
  The append-only decision log of the Repair Desk: \<open>ProductionRepairDecisionService\<close> of
  \<open>backend/src/cti_app/application/production_repairs.py\<close> over the decision, correction, run and
  artifact tables (\<open>infrastructure/database/repositories/production.py\<close>). The decision in force for
  an identity is the latest one of its history; a revision must name the decision it was shown.
\<close>

subsection \<open>Tables\<close>

record decision_store =
  ds_edition_open :: "uuid \<Rightarrow> bool option"
  ds_runs :: "uuid \<Rightarrow> production_run option"
  ds_artifacts :: "production_artifact list"
  ds_corrections :: "repair_correction list"
  ds_decisions :: "repair_decision list"

definition artifacts_get :: "decision_store \<Rightarrow> uuid \<Rightarrow> production_artifact option" where
  "artifacts_get st i = find (\<lambda>a. art_id a = i) (ds_artifacts st)"

text \<open>The row of highest version among those of the run and stage that are not stale.\<close>

definition artifacts_get_current :: "decision_store \<Rightarrow> uuid \<Rightarrow> artifact_stage \<Rightarrow> production_artifact option" where
  "artifacts_get_current st run stage =
     (case sort_key (\<lambda>a. - art_version a)
        (filter (\<lambda>a. art_production_run_id a = run \<and> art_stage a = stage \<and> art_status a \<noteq> Stale)
          (ds_artifacts st)) of
        [] \<Rightarrow> None | a # _ \<Rightarrow> Some a)"

text \<open>\<open>latest[(subject, key)] = decision\<close> over the history in order.\<close>

definition latest_by_identity :: "repair_decision list \<Rightarrow> ((uuid \<times> string) \<times> repair_decision) list" where
  "latest_by_identity history =
     foldl (\<lambda>acc d. AList.update (dec_subject_id d, dec_repair_key d) d acc) [] history"

definition effective_from_history :: "repair_decision list \<Rightarrow> repair_decision list" where
  "effective_from_history history = map snd (latest_by_identity
     (sort_key (\<lambda>d. instant (dec_created_at d)) (sort_key dec_id history)))"

definition effective_decisions :: "decision_store \<Rightarrow> uuid \<Rightarrow> uuid option \<Rightarrow> repair_decision list" where
  "effective_decisions st edition subject = effective_from_history
     (filter (\<lambda>d. dec_edition_id d = edition
        \<and> (case subject of None \<Rightarrow> True | Some s \<Rightarrow> dec_subject_id d = s)) (ds_decisions st))"

definition effective_decision_for_key :: "repair_decision list \<Rightarrow> uuid \<Rightarrow> string \<Rightarrow> repair_decision option" where
  "effective_decision_for_key eff subject key =
     find (\<lambda>d. dec_subject_id d = subject \<and> dec_repair_key d = key) eff"

subsection \<open>One requested decision\<close>

record decision_input =
  di_subject_id :: uuid
  di_production_run_id :: uuid
  di_observed_artifact_id :: uuid
  di_observed_pipeline_generation :: int
  di_repair_key :: string
  di_issue_kind :: issue_kind
  di_action :: repair_action
  di_correction :: "repair_correction option"
  di_source_criticality :: "source_criticality option"
  di_criticality_reason :: "criticality_reason option"
  di_failure_code :: "string option"
  di_criticality_policy_version :: "string option"
  di_expected_effective_decision_id :: "uuid option"

definition effective_decision_for_observation ::
  "repair_decision list \<Rightarrow> decision_input \<Rightarrow> repair_decision option" where
  "effective_decision_for_observation eff x =
     (case effective_decision_for_key eff (di_subject_id x) (di_repair_key x) of
        None \<Rightarrow> None
      | Some d \<Rightarrow>
          if di_issue_kind x \<notin> source_kinds then Some d
          else if dec_production_run_id d \<noteq> di_production_run_id x
            \<or> dec_observed_artifact_id d \<noteq> di_observed_artifact_id x
            \<or> dec_observed_pipeline_generation d \<noteq> di_observed_pipeline_generation x
          then None else Some d)"

definition require_decision_fence :: "repair_decision list \<Rightarrow> decision_input \<Rightarrow> unit result" where
  "require_decision_fence eff x =
     (if map_option dec_id (effective_decision_for_observation eff x) \<noteq> di_expected_effective_decision_id x
      then Inl (RepairRefused ''production_repair_decision_changed'') else Inr ())"

definition blank_opt :: "string option \<Rightarrow> bool" where
  "blank_opt s = (stripped_or_empty s = [])"

definition build_decision ::
  "uuid \<Rightarrow> decision_input \<Rightarrow> string \<Rightarrow> string option \<Rightarrow> uuid \<Rightarrow> datetime \<Rightarrow> repair_decision result" where
  "build_decision edition x actor reason i t = decision_post_init
     \<lparr>dec_edition_id = edition, dec_subject_id = di_subject_id x,
      dec_production_run_id = di_production_run_id x,
      dec_observed_artifact_id = di_observed_artifact_id x,
      dec_observed_pipeline_generation = di_observed_pipeline_generation x,
      dec_repair_key = di_repair_key x, dec_issue_kind = di_issue_kind x, dec_action = di_action x,
      dec_actor_id = actor, dec_reason = reason, dec_source_criticality = di_source_criticality x,
      dec_criticality_reason = di_criticality_reason x, dec_failure_code = di_failure_code x,
      dec_criticality_policy_version = di_criticality_policy_version x,
      dec_correction_id = map_option cor_id (di_correction x), dec_created_at = t, dec_id = i\<rparr>"

definition waiver_undiagnosed :: "decision_input \<Rightarrow> bool" where
  "waiver_undiagnosed x =
     (di_issue_kind x \<in> source_kinds \<and> di_action x = ContinueWithoutSource
      \<and> (di_source_criticality x = None \<or> di_criticality_reason x = None
         \<or> \<not> truthy (di_criticality_policy_version x)))"

definition correction_mismatch :: "uuid \<Rightarrow> decision_input \<Rightarrow> bool" where
  "correction_mismatch edition x = (case di_correction x of None \<Rightarrow> False
     | Some c \<Rightarrow> cor_edition_id c \<noteq> edition \<or> cor_subject_id c \<noteq> di_subject_id x
         \<or> cor_production_run_id c \<noteq> di_production_run_id x
         \<or> cor_original_repair_key c \<noteq> di_repair_key x)"

definition unexplained_override :: "decision_input \<Rightarrow> string option \<Rightarrow> bool" where
  "unexplained_override x reason = (case di_correction x of None \<Rightarrow> False
     | Some c \<Rightarrow> cor_verification_state c = AnalystOverride \<and> blank_opt reason)"

definition decision_noop :: "repair_decision list \<Rightarrow> decision_input \<Rightarrow> bool" where
  "decision_noop eff x = (case effective_decision_for_observation eff x of None \<Rightarrow> False
     | Some d \<Rightarrow> dec_action d = di_action x
         \<and> \<not> (di_action x = Replace \<and>
              (case di_correction x of None \<Rightarrow> False | Some c \<Rightarrow> dec_correction_id d \<noteq> Some (cor_id c))))"

definition expected_stage :: "issue_kind \<Rightarrow> artifact_stage" where
  "expected_stage k = (if k = SupplementalSourceUnarchived then A_References else A_Extraction)"

definition stale_error :: error where
  "stale_error = RepairRefused ''production_repair_stale''"

text \<open>The checks on the locked run; READY, NEEDS_REVIEW and FAILED are the statuses left.\<close>

definition check_run :: "decision_store \<Rightarrow> uuid \<Rightarrow> decision_input \<Rightarrow> unit result" where
  "check_run st edition x = (case ds_runs st (di_production_run_id x) of
     None \<Rightarrow> Inl stale_error
   | Some r \<Rightarrow>
       if run_edition_id r \<noteq> edition \<or> run_subject_id r \<noteq> di_subject_id x
          \<or> run_pipeline_generation r \<noteq> di_observed_pipeline_generation x then Inl stale_error
       else if run_status r \<in> {RQueued, RRunning, RCancelled}
       then Inl (RepairRefused ''production_repair_run_not_reviewable'')
       else if run_requires_reconciliation r
       then Inl (RepairRefused ''production_reconciliation_required'')
       else Inr ())"

definition check_artifact :: "decision_store \<Rightarrow> decision_input \<Rightarrow> unit result" where
  "check_artifact st x = (case artifacts_get st (di_observed_artifact_id x) of
     None \<Rightarrow> Inl stale_error
   | Some a \<Rightarrow>
       if art_id a \<noteq> di_observed_artifact_id x \<or> art_production_run_id a \<noteq> di_production_run_id x
          \<or> art_status a = Stale then Inl stale_error
       else if art_stage a \<noteq> expected_stage (di_issue_kind x) then Inl stale_error
       else (case artifacts_get_current st (di_production_run_id x) (art_stage a) of
           None \<Rightarrow> Inl stale_error
         | Some c \<Rightarrow> if art_id c \<noteq> art_id a then Inl stale_error else Inr ()))"

definition check_artifact_bulk :: "decision_store \<Rightarrow> decision_input \<Rightarrow> unit result" where
  "check_artifact_bulk st x =
     (case (artifacts_get st (di_observed_artifact_id x),
            artifacts_get_current st (di_production_run_id x) (expected_stage (di_issue_kind x))) of
        (Some a, Some c) \<Rightarrow>
          if art_production_run_id a \<noteq> di_production_run_id x \<or> art_status a = Stale
             \<or> art_stage a \<noteq> expected_stage (di_issue_kind x) \<or> art_id c \<noteq> art_id a
          then Inl stale_error else Inr ()
      | _ \<Rightarrow> Inl stale_error)"

definition append_correction :: "repair_correction option \<Rightarrow> decision_store \<Rightarrow> decision_store" where
  "append_correction c st = (case c of
     None \<Rightarrow> st
   | Some x \<Rightarrow> if find (\<lambda>r. cor_id r = cor_id x) (ds_corrections st) \<noteq> None then st
       else st\<lparr>ds_corrections := ds_corrections st @ [x]\<rparr>)"

definition append_decision :: "repair_decision \<Rightarrow> decision_store \<Rightarrow> decision_store result" where
  "append_decision d st =
     (if dec_id d \<in> dec_id ` set (ds_decisions st) then Inl (RuntimeErr ''IntegrityError'')
      else Inr (st\<lparr>ds_decisions := ds_decisions st @ [d]\<rparr>))"

definition edition_accepts :: "decision_store \<Rightarrow> uuid \<Rightarrow> unit result" where
  "edition_accepts st edition =
     (if ds_edition_open st edition \<noteq> Some True then Inl (RepairRefused ''edition_archived'') else Inr ())"

subsection \<open>The two entry points\<close>

definition decide ::
  "uuid \<Rightarrow> decision_input \<Rightarrow> string \<Rightarrow> string option \<Rightarrow> uuid \<Rightarrow> datetime \<Rightarrow> decision_store \<Rightarrow>
   (repair_decision \<times> decision_store) result" where
  "decide edition x actor reason i t st =
     (if di_action x = ContinueWithoutSource \<and> blank_opt reason
      then Inl (RepairRefused ''production_repair_audit_reason_required'')
      else if waiver_undiagnosed x
      then Inl (RepairRefused ''production_repair_source_diagnostic_required'')
      else and_then (build_decision edition x actor reason i t) (\<lambda>d.
        if di_action x = Replace \<and> di_correction x = None
        then Inl (RepairRefused ''production_repair_correction_required'')
        else if correction_mismatch edition x
        then Inl (RepairRefused ''production_repair_correction_identity_mismatch'')
        else if unexplained_override x reason
        then Inl (RepairRefused ''production_repair_audit_reason_required'')
        else and_then (edition_accepts st edition) (\<lambda>_.
          let eff = effective_decisions st edition (Some (di_subject_id x)) in
          if decision_noop eff x then Inl (RepairRefused ''production_repair_decision_noop'')
          else and_then (require_decision_fence eff x) (\<lambda>_.
            and_then (check_run st edition x) (\<lambda>_.
            and_then (check_artifact st x) (\<lambda>_.
            and_then (append_decision d (append_correction (di_correction x) st)) (\<lambda>st'.
              Inr (d, st'))))))))"

fun build_all ::
  "uuid \<Rightarrow> string \<Rightarrow> string option \<Rightarrow> (decision_input \<times> uuid \<times> datetime) list \<Rightarrow> repair_decision list result" where
  "build_all edition actor reason [] = Inr []"
| "build_all edition actor reason ((x, i, t) # xs) =
     and_then (build_decision edition x actor reason i t) (\<lambda>d.
       and_then (build_all edition actor reason xs) (\<lambda>ds. Inr (d # ds)))"

fun check_all :: "decision_store \<Rightarrow> uuid \<Rightarrow> repair_decision list \<Rightarrow> decision_input list \<Rightarrow> unit result" where
  "check_all st edition eff [] = Inr ()"
| "check_all st edition eff (x # xs) =
     (if decision_noop eff x then Inl (RepairRefused ''production_repair_decision_noop'')
      else and_then (require_decision_fence eff x) (\<lambda>_.
        and_then (check_run st edition x) (\<lambda>_.
        and_then (check_artifact_bulk st x) (\<lambda>_. check_all st edition eff xs))))"

fun append_all :: "repair_decision list \<Rightarrow> decision_store \<Rightarrow> decision_store result" where
  "append_all [] st = Inr st"
| "append_all (d # ds) st = and_then (append_decision d st) (append_all ds)"

definition decide_bulk ::
  "uuid \<Rightarrow> (decision_input \<times> uuid \<times> datetime) list \<Rightarrow> string \<Rightarrow> string option \<Rightarrow> decision_store \<Rightarrow>
   (repair_decision list \<times> decision_store) result" where
  "decide_bulk edition items actor reason st =
     (let xs = map fst items in
      if xs = [] then Inl (ValueError ''production_repair_bulk_empty'')
      else if 200 < length xs then Inl (ValueError ''production_repair_bulk_limit_exceeded'')
      else if list_ex (\<lambda>x. di_action x = ContinueWithoutSource) xs \<and> blank_opt reason
      then Inl (RepairRefused ''production_repair_audit_reason_required'')
      else if list_ex waiver_undiagnosed xs
      then Inl (RepairRefused ''production_repair_source_diagnostic_required'')
      else if \<not> distinct (map (\<lambda>x. (di_subject_id x, di_repair_key x)) xs)
      then Inl (ValueError ''production_repair_duplicate'')
      else and_then (build_all edition actor reason items) (\<lambda>ds.
        if list_ex (correction_mismatch edition) xs
        then Inl (RepairRefused ''production_repair_correction_identity_mismatch'')
        else and_then (edition_accepts st edition) (\<lambda>_.
          and_then (check_all st edition (effective_decisions st edition None) xs) (\<lambda>_.
          and_then (append_all ds (fold (\<lambda>x s. append_correction (di_correction x) s) xs st)) (\<lambda>st'.
            Inr (ds, st'))))))"

subsection \<open>The decision in force\<close>

definition identity_of :: "repair_decision \<Rightarrow> uuid \<times> string" where
  "identity_of d = (dec_subject_id d, dec_repair_key d)"

definition history_order :: "repair_decision list \<Rightarrow> repair_decision list" where
  "history_order h = sort_key (\<lambda>d. instant (dec_created_at d)) (sort_key dec_id h)"

lemma history_order_set [simp]: "set (history_order h) = set h"
  by (simp add: history_order_def)

lemma history_order_filter: "history_order (filter P h) = filter P (history_order h)"
  by (simp add: history_order_def filter_sort)

lemma latest_lookup:
  "map_of (foldl (\<lambda>acc d. AList.update (dec_subject_id d, dec_repair_key d) d acc) acc h) k =
     (case find (\<lambda>d. identity_of d = k) (rev h) of None \<Rightarrow> map_of acc k | Some d \<Rightarrow> Some d)"
  by (induction h arbitrary: acc)
    (auto simp: find_append update_conv' identity_of_def split: option.splits)

lemma latest_keys:
  "distinct (map fst acc) \<Longrightarrow> \<forall>(k, d) \<in> set acc. k = identity_of d \<Longrightarrow>
   (let l = foldl (\<lambda>acc d. AList.update (dec_subject_id d, dec_repair_key d) d acc) acc h
    in distinct (map fst l) \<and> (\<forall>(k, d) \<in> set l. k = identity_of d))"
proof (induction h arbitrary: acc)
  case (Cons d h)
  have "\<forall>(k, x) \<in> set (AList.update (dec_subject_id d, dec_repair_key d) d acc). k = identity_of x"
    using Cons.prems(2) set_alist_update [of "identity_of d" d acc] by (auto simp: identity_of_def)
  with Cons.prems(1) distinct_update Cons.IH show ?case by fastforce
qed (simp add: Let_def)

lemma find_values:
  "distinct (map fst al) \<Longrightarrow> \<forall>(k, d) \<in> set al. k = identity_of d \<Longrightarrow>
   find (\<lambda>d. identity_of d = k) (map snd al) = map_of al k"
  by (induction al) auto

text \<open>The decision in force is the last one of the ordered history with that identity.\<close>

lemma effective_lookup:
  "effective_decision_for_key (effective_from_history h) s k =
     find (\<lambda>d. identity_of d = (s, k)) (rev (history_order h))"
proof -
  let ?l = "latest_by_identity (history_order h)"
  have "distinct (map fst ?l) \<and> (\<forall>(k, d) \<in> set ?l. k = identity_of d)"
    using latest_keys [of "[]" "history_order h"] by (simp add: latest_by_identity_def Let_def)
  then have "find (\<lambda>d. identity_of d = (s, k)) (map snd ?l) = map_of ?l (s, k)"
    using find_values by blast
  moreover have "map_of ?l (s, k) = find (\<lambda>d. identity_of d = (s, k)) (rev (history_order h))"
    by (simp add: latest_by_identity_def latest_lookup split: option.splits)
  ultimately show ?thesis
    by (simp add: effective_decision_for_key_def effective_from_history_def identity_of_def
        history_order_def [symmetric])
qed

lemma effective_subject:
  "effective_decision_for_key (effective_decisions st edition (Some s)) s k
     = effective_decision_for_key (effective_decisions st edition None) s k"
proof -
  have "find (\<lambda>d. identity_of d = (s, k)) (filter (\<lambda>d. dec_edition_id d = edition \<and> dec_subject_id d = s) xs)
      = find (\<lambda>d. identity_of d = (s, k)) (filter (\<lambda>d. dec_edition_id d = edition) xs)" for xs
    by (rule find_filter_conj) (simp add: identity_of_def)
  then show ?thesis
    by (simp add: effective_decisions_def effective_lookup history_order_filter rev_filter)
qed

lemma observation_subject:
  "effective_decision_for_observation (effective_decisions st edition (Some (di_subject_id x))) x
     = effective_decision_for_observation (effective_decisions st edition None) x"
  by (simp add: effective_decision_for_observation_def effective_subject)

lemma effective_in_log:
  assumes "effective_decision_for_key (effective_decisions st edition subject) s k = Some e"
  shows "e \<in> set (ds_decisions st)"
  using find_member [OF assms [unfolded effective_decisions_def effective_lookup]] by simp

text \<open>The history is ordered by instant and then by identifier: its last entry is the greatest.\<close>

definition earlier :: "repair_decision \<Rightarrow> repair_decision \<Rightarrow> bool" where
  "earlier e d \<longleftrightarrow> instant (dec_created_at e) < instant (dec_created_at d)
     \<or> (instant (dec_created_at e) = instant (dec_created_at d) \<and> dec_id e < dec_id d)"

lemma last_history:
  assumes "history_order h = ys @ [d]" and "e \<in> set h"
  shows "instant (dec_created_at e) < instant (dec_created_at d)
    \<or> (instant (dec_created_at e) = instant (dec_created_at d) \<and> dec_id e \<le> dec_id d)"
proof (cases "instant (dec_created_at e) = instant (dec_created_at d)")
  case True
  let ?t = "\<lambda>d. instant (dec_created_at d)"
  let ?P = "\<lambda>x. ?t x = ?t d"
  have "filter ?P (sort_key ?t (sort_key dec_id h)) = filter ?P (sort_key dec_id h)"
    by (rule sort_key_stable)
  then have same: "filter ?P ys @ [d] = filter ?P (sort_key dec_id h)"
    using assms(1) by (simp add: history_order_def)
  have "sorted (map dec_id (filter ?P (sort_key dec_id h)))"
    by (simp only: filter_sort sorted_sort_key)
  then have below: "dec_id x \<le> dec_id d" if "x \<in> set (filter ?P ys)" for x
    using that unfolding same [symmetric] by (auto simp: sorted_append)
  have "e \<in> set (filter ?P (sort_key dec_id h))" using assms(2) True by simp
  then have "e \<in> set (filter ?P ys @ [d])" by (simp only: same)
  then show ?thesis using below True by auto
next
  case False
  have "sorted (map (\<lambda>d. instant (dec_created_at d)) (ys @ [d]))"
    unfolding assms(1) [symmetric] by (simp add: history_order_def)
  moreover have "e \<in> set (ys @ [d])" unfolding assms(1) [symmetric] using assms(2) by simp
  ultimately have "instant (dec_created_at e) \<le> instant (dec_created_at d)" by (auto simp: sorted_append)
  with False show ?thesis by simp
qed

lemma find_hd: "find P xs = (case filter P xs of [] \<Rightarrow> None | y # _ \<Rightarrow> Some y)"
  by (induction xs) auto

definition in_force :: "decision_store \<Rightarrow> uuid \<Rightarrow> uuid \<times> string \<Rightarrow> repair_decision option" where
  "in_force st edition k = effective_decision_for_key (effective_decisions st edition None) (fst k) (snd k)"

definition votes :: "decision_store \<Rightarrow> uuid \<Rightarrow> uuid \<times> string \<Rightarrow> repair_decision list" where
  "votes st edition k = filter (\<lambda>d. identity_of d = k) (filter (\<lambda>d. dec_edition_id d = edition) (ds_decisions st))"

lemma in_force_votes:
  "in_force st edition k = (case rev (history_order (votes st edition k)) of [] \<Rightarrow> None | d # _ \<Rightarrow> Some d)"
  by (simp add: in_force_def votes_def effective_decisions_def effective_lookup find_hd history_order_filter rev_filter)

text \<open>One more decision of an identity is in force exactly when the former one is earlier.\<close>

lemma in_force_append:
  assumes new: "votes st' edition k = votes st edition k @ [d]" and fresh: "dec_id d \<notin> dec_id ` set (votes st edition k)"
  shows "in_force st' edition k =
    (case in_force st edition k of None \<Rightarrow> Some d | Some e \<Rightarrow> if earlier e d then Some d else Some e)"
proof -
  let ?H = "history_order (votes st edition k)" and ?H' = "history_order (votes st' edition k)"
  have "filter (\<lambda>x. x \<noteq> d) (votes st' edition k) = votes st edition k"
    using fresh by (auto simp: new filter_id_conv)
  then have old: "?H = filter (\<lambda>x. x \<noteq> d) ?H'" by (metis history_order_filter)
  have "set ?H' \<noteq> {}" by (simp add: new)
  then have "?H' \<noteq> []" by force
  then obtain ys e' where H': "?H' = ys @ [e']" by (metis rev_exhaust)
  then have now: "in_force st' edition k = Some e'" by (simp add: in_force_votes)
  show ?thesis
  proof (cases "e' = d")
    case True
    show ?thesis
    proof (cases "in_force st edition k")
      case (Some e)
      then have e: "e \<in> set (votes st edition k)"
        by (auto simp: in_force_votes dest!: arg_cong [of _ _ set] split: list.splits)
      have "e \<in> set (votes st' edition k)" "dec_id e \<noteq> dec_id d"
        using e fresh imageI [OF e, of dec_id] by (auto simp: new simp del: image_eqI)
      then have "earlier e d" using last_history [OF H', of e] True by (auto simp: earlier_def)
      then show ?thesis using now True Some by simp
    qed (simp add: now True)
  next
    case False
    then have "?H = filter (\<lambda>x. x \<noteq> d) ys @ [e']" by (simp add: old H')
    then have before: "in_force st edition k = Some e'" by (simp add: in_force_votes)
    have "\<not> earlier e' d" using last_history [OF H', of d] by (auto simp: new earlier_def)
    then show ?thesis by (simp add: now before)
  qed
qed

subsection \<open>What an accepted decision went through\<close>

lemma build_decision_fields:
  assumes "build_decision edition x actor reason i t = Inr d"
  shows "dec_id d = i" "dec_created_at d = t" "dec_edition_id d = edition"
    "dec_subject_id d = di_subject_id x" "dec_repair_key d = di_repair_key x"
    "dec_issue_kind d = di_issue_kind x" "dec_action d = di_action x"
    "dec_production_run_id d = di_production_run_id x"
    "dec_observed_artifact_id d = di_observed_artifact_id x"
    "dec_observed_pipeline_generation d = di_observed_pipeline_generation x"
    "dec_correction_id d = map_option cor_id (di_correction x)"
    "dec_reason d = normalized_reason reason"
  using decision_post_init_Inr(1) [OF assms [unfolded build_decision_def]] by simp_all

lemma append_correction_frame [simp]:
  "ds_decisions (append_correction c st) = ds_decisions st"
  "ds_runs (append_correction c st) = ds_runs st"
  "ds_edition_open (append_correction c st) = ds_edition_open st"
  "ds_artifacts (append_correction c st) = ds_artifacts st"
  by (simp_all add: append_correction_def split: option.split)

definition decide_checks ::
  "uuid \<Rightarrow> decision_input \<Rightarrow> string option \<Rightarrow> decision_store \<Rightarrow> bool" where
  "decide_checks edition x reason st \<longleftrightarrow>
     \<not> (di_action x = ContinueWithoutSource \<and> blank_opt reason) \<and> \<not> waiver_undiagnosed x
     \<and> \<not> correction_mismatch edition x \<and> edition_accepts st edition = Inr ()
     \<and> \<not> decision_noop (effective_decisions st edition None) x
     \<and> require_decision_fence (effective_decisions st edition None) x = Inr ()
     \<and> check_run st edition x = Inr () \<and> check_artifact st x = Inr ()"

definition decide_commit ::
  "decision_input \<Rightarrow> repair_decision \<Rightarrow> decision_store \<Rightarrow> decision_store result" where
  "decide_commit x d st = append_decision d (append_correction (di_correction x) st)"

lemma noop_subject:
  "decision_noop (effective_decisions st edition (Some (di_subject_id x))) x
     = decision_noop (effective_decisions st edition None) x"
  by (simp add: decision_noop_def observation_subject)

lemma fence_subject:
  "require_decision_fence (effective_decisions st edition (Some (di_subject_id x))) x
     = require_decision_fence (effective_decisions st edition None) x"
  by (simp add: require_decision_fence_def observation_subject)

lemma replace_has_correction:
  assumes "build_decision edition x actor reason i t = Inr d"
  shows "\<not> (di_action x = Replace \<and> di_correction x = None)"
  using decision_post_init_Inr(3) [OF assms [unfolded build_decision_def]] by auto

lemma decide_Inr_iff:
  "decide edition x actor reason i t st = Inr (d, st') \<longleftrightarrow>
     build_decision edition x actor reason i t = Inr d \<and> decide_checks edition x reason st
     \<and> \<not> unexplained_override x reason \<and> decide_commit x d st = Inr st'"
  unfolding decide_def decide_checks_def decide_commit_def Let_def guard_Inr then_unit_Inr
    and_then_Inr noop_subject fence_subject
  using replace_has_correction [of edition x actor reason i t]
  by (simp only: sum.inject prod.inject) blast

lemma decide_Inr:
  assumes "decide edition x actor reason i t st = Inr (d, st')"
  shows "build_decision edition x actor reason i t = Inr d"
    and "require_decision_fence (effective_decisions st edition None) x = Inr ()"
    and "i \<notin> dec_id ` set (ds_decisions st)"
    and "st' = (append_correction (di_correction x) st)\<lparr>ds_decisions := ds_decisions st @ [d]\<rparr>"
  using assms build_decision_fields(1) [of edition x actor reason i t d]
  unfolding decide_Inr_iff decide_checks_def decide_commit_def
  by (auto simp: append_decision_def split: if_splits)

lemma artifacts_get_id: "artifacts_get st i = Some a \<Longrightarrow> art_id a = i"
  by (auto simp: artifacts_get_def find_Some_iff)

lemma check_artifact_ok: "check_artifact st x = Inr () \<longleftrightarrow> check_artifact_bulk st x = Inr ()"
proof (cases "artifacts_get st (di_observed_artifact_id x)")
  case (Some a)
  with artifacts_get_id [OF Some] show ?thesis
    by (auto simp: check_artifact_def check_artifact_bulk_def split: option.splits if_splits)
qed (simp add: check_artifact_def check_artifact_bulk_def)

text \<open>An accepted batch of decisions: one new row per item, of distinct identities, every fence passed.\<close>

lemma append_all_effect: "append_all ds st = Inr st' \<Longrightarrow>
    ds_decisions st' = ds_decisions st @ ds \<and> distinct (map dec_id ds)
    \<and> (\<forall>d \<in> set ds. dec_id d \<notin> dec_id ` set (ds_decisions st))"
proof (induction ds arbitrary: st)
  case (Cons d ds)
  then have "dec_id d \<notin> dec_id ` set (ds_decisions st)"
    "append_all ds (st\<lparr>ds_decisions := ds_decisions st @ [d]\<rparr>) = Inr st'"
    by (auto simp: append_decision_def and_then_Inr split: if_splits)
  with Cons.IH [OF this(2)] show ?case by auto
qed simp

lemma append_corrections_frame [simp]:
  "ds_decisions (fold (\<lambda>x s. append_correction (di_correction x) s) xs st) = ds_decisions st"
  by (induction xs arbitrary: st) simp_all

lemma build_all_rows: "build_all edition actor reason items = Inr ds \<Longrightarrow>
    list_all2 (\<lambda>item d. build_decision edition (fst item) actor reason (fst (snd item)) (snd (snd item)) = Inr d) items ds"
  by (induction items arbitrary: ds) (auto simp: and_then_Inr)

lemma check_all_fence: "check_all st edition eff xs = Inr () \<Longrightarrow> x \<in> set xs \<Longrightarrow> require_decision_fence eff x = Inr ()"
  by (induction xs) (auto simp: and_then_Inr split: if_splits)

lemma decide_bulk_Inr:
  assumes "decide_bulk edition items actor reason st = Inr (ds, st')"
  shows "build_all edition actor reason items = Inr ds"
    and "check_all st edition (effective_decisions st edition None) (map fst items) = Inr ()"
    and "distinct (map (\<lambda>x. (di_subject_id x, di_repair_key x)) (map fst items))"
    and "ds_decisions st' = ds_decisions st @ ds" and "distinct (map dec_id ds)"
    and "\<forall>d \<in> set ds. dec_id d \<notin> dec_id ` set (ds_decisions st)"
  using assms
  by (auto simp: decide_bulk_def Let_def and_then_Inr dest!: append_all_effect split: if_splits)

lemma list_all2_split:
  "list_all2 P xs ys \<Longrightarrow> x \<in> set xs \<Longrightarrow>
   \<exists>as y bs xs1 xs2. ys = as @ y # bs \<and> xs = xs1 @ x # xs2 \<and> P x y \<and> list_all2 P xs1 as \<and> list_all2 P xs2 bs"
proof (induction rule: list_all2_induct)
  case (Cons z zs y ys)
  show ?case
  proof (cases "x = z")
    case True
    with Cons show ?thesis by (intro exI [of _ "[]"] exI [of _ y] exI [of _ ys] exI [of _ "[]"] exI [of _ zs]) simp
  next
    case False
    with Cons obtain as y' bs xs1 xs2 where "ys = as @ y' # bs" "zs = xs1 @ x # xs2" "P x y'" "list_all2 P xs1 as"
      "list_all2 P xs2 bs" by auto
    with Cons show ?thesis
      by (intro exI [of _ "y # as"] exI [of _ y'] exI [of _ bs] exI [of _ "z # xs1"] exI [of _ xs2]) simp
  qed
qed simp

lemma distinct_map_middle: "distinct (map f (xs @ x # ys)) \<Longrightarrow> y \<in> set xs \<union> set ys \<Longrightarrow> f y \<noteq> f x"
  by (auto simp: image_iff)

lemma list_all2_member: "list_all2 P xs ys \<Longrightarrow> y \<in> set ys \<Longrightarrow> \<exists>x \<in> set xs. P x y"
  by (induction rule: list_all2_induct) auto

text \<open>A decision that was accepted, alone or in a batch.\<close>

definition decision_accepted ::
  "uuid \<Rightarrow> decision_input \<Rightarrow> uuid \<Rightarrow> datetime \<Rightarrow> decision_store \<Rightarrow> repair_decision \<Rightarrow> decision_store \<Rightarrow> bool" where
  "decision_accepted edition x i t st d st' \<longleftrightarrow>
     (\<exists>actor reason. decide edition x actor reason i t st = Inr (d, st'))
     \<or> (\<exists>items actor reason ds. decide_bulk edition items actor reason st = Inr (ds, st') \<and> (x, i, t) \<in> set items
         \<and> d \<in> set ds \<and> dec_id d = i)"

lemma accepted_effect:
  assumes "decision_accepted edition x i t st d st'"
  obtains actor reason where "build_decision edition x actor reason i t = Inr d"
    "require_decision_fence (effective_decisions st edition None) x = Inr ()"
    "i \<notin> dec_id ` set (ds_decisions st)" "votes st' edition (identity_of d) = votes st edition (identity_of d) @ [d]"
  using assms unfolding decision_accepted_def
proof (elim disjE exE conjE)
  fix actor reason
  assume dec: "decide edition x actor reason i t st = Inr (d, st')"
  note a = decide_Inr [OF dec]
  then show thesis using that build_decision_fields(3) [OF a(1)] by (simp add: votes_def)
next
  fix items actor reason ds
  assume dec: "decide_bulk edition items actor reason st = Inr (ds, st')" and x: "(x, i, t) \<in> set items"
    and d: "d \<in> set ds" "dec_id d = i"
  note b = decide_bulk_Inr [OF dec]
  let ?row = "\<lambda>item d. build_decision edition (fst item) actor reason (fst (snd item)) (snd (snd item)) = Inr d"
  from list_all2_split [OF build_all_rows [OF b(1)] x] obtain as y bs xs1 xs2 where split: "ds = as @ y # bs"
    "items = xs1 @ (x, i, t) # xs2" "build_decision edition x actor reason i t = Inr y" "list_all2 ?row xs1 as"
    "list_all2 ?row xs2 bs" by auto
  have ids: "dec_id y = dec_id d" using build_decision_fields(1) [OF split(3)] d(2) by simp
  have "inj_on dec_id (set ds)" using b(5) by (simp add: distinct_map)
  moreover have "y \<in> set ds" using split(1) by simp
  ultimately have y: "y = d" using ids d(1) by (simp add: inj_onD)
  have others: "identity_of e \<noteq> identity_of d \<and> dec_edition_id e = edition" if e: "e \<in> set as \<union> set bs" for e
  proof -
    obtain item where item: "item \<in> set xs1 \<union> set xs2" "?row item e"
      using e list_all2_member [OF split(4), of e] list_all2_member [OF split(5), of e] by blast
    let ?f = "\<lambda>item. (di_subject_id (fst item), di_repair_key (fst item))"
    have "distinct (map ?f (xs1 @ (x, i, t) # xs2))" using b(3) unfolding split(2) by (simp add: o_def)
    from distinct_map_middle [OF this item(1)] have "?f item \<noteq> ?f (x, i, t)" .
    then show ?thesis
      using build_decision_fields(3-5) [OF item(2)] build_decision_fields(4,5) [OF split(3)] y by (simp add: identity_of_def)
  qed
  have "filter (\<lambda>e. dec_edition_id e = edition \<and> identity_of e = identity_of d) zs = []"
    if "set zs \<subseteq> set as \<union> set bs" for zs
    using that others by (auto simp: filter_empty_conv)
  from this [of as] this [of bs] have "votes st' edition (identity_of d) = votes st edition (identity_of d) @ [d]"
    using build_decision_fields(3) [OF split(3)] y
    by (simp add: votes_def b(4) split(1))
  then show thesis
    using that split(3) y check_all_fence [OF b(2), of x] x b(6) d by (metis image_eqI image_set fst_conv)
qed

lemma accepted_fence:
  "decide edition y actor reason i t st = Inr (d, st') \<Longrightarrow> require_decision_fence (effective_decisions st edition None) y = Inr ()"
  "decide_bulk edition items actor reason st = Inr (ds, st') \<Longrightarrow> y \<in> fst ` set items \<Longrightarrow>
   require_decision_fence (effective_decisions st edition None) y = Inr ()"
  using decide_Inr(2) check_all_fence [OF decide_bulk_Inr(2)] by fastforce+

subsection \<open>Properties\<close>

definition demo_key :: string where "demo_key = replicate 64 (CHR ''a'')"

definition demo_input :: decision_input where
  "demo_input = \<lparr>di_subject_id = 1, di_production_run_id = 3, di_observed_artifact_id = 4,
     di_observed_pipeline_generation = 0, di_repair_key = demo_key, di_issue_kind = RejectedRule,
     di_action = Exclude, di_correction = None, di_source_criticality = None,
     di_criticality_reason = None, di_failure_code = None, di_criticality_policy_version = None,
     di_expected_effective_decision_id = None\<rparr>"

definition demo_artifact :: production_artifact where
  "demo_artifact = \<lparr>art_production_run_id = 3, art_subject_id = 1, art_stage = A_Extraction,
     art_version = 1, art_input_hash = demo_key, art_status = Verified, art_rendered_blob_id = None,
     art_model_run_id = None, art_reused_from_artifact_id = None, art_metadata = [], art_id = 4,
     art_created_at = utc 0\<rparr>"

definition demo_ds :: decision_store where
  "demo_ds = \<lparr>ds_edition_open = (\<lambda>i. if i = 2 then Some True else None),
     ds_runs = (\<lambda>i. if i = 3 then Some (demo_run\<lparr>run_status := RReady\<rparr>) else None),
     ds_artifacts = [demo_artifact], ds_corrections = [], ds_decisions = []\<rparr>"

lemma demo_key_sha [simp]: "is_sha256 demo_key"
  by (simp add: is_sha256_def demo_key_def all_hex_def list_all_iff hex_digits_def)

lemma demo_decide: "\<exists>d st'. decide 2 demo_input ''u'' None 9 (utc 5) demo_ds = Inr (d, st')"
proof -
  obtain d where d: "build_decision 2 demo_input ''u'' None 9 (utc 5) = Inr d"
    by (simp add: build_decision_def decision_post_init_def validated_Inr demo_input_def
        normalized_reason_def strip_opt_def blank_iff py_space_def decision_compatible_def)
  have "decide_checks 2 demo_input None demo_ds"
    by (simp add: decide_checks_def demo_input_def waiver_undiagnosed_def correction_mismatch_def
        edition_accepts_def demo_ds_def decision_noop_def effective_decision_for_observation_def
        effective_decision_for_key_def effective_decisions_def effective_from_history_def
        latest_by_identity_def require_decision_fence_def check_run_def demo_run_def
        run_requires_reconciliation_def requires_submission_reconciliation_def check_artifact_def
        artifacts_get_def artifacts_get_current_def demo_artifact_def expected_stage_def)
  moreover have "\<exists>st'. decide_commit demo_input d demo_ds = Inr st'"
    by (simp add: decide_commit_def append_decision_def append_correction_def demo_input_def demo_ds_def)
  moreover have "\<not> unexplained_override demo_input None"
    by (simp add: unexplained_override_def demo_input_def)
  ultimately show ?thesis using d by (auto simp: decide_Inr_iff)
qed

text \<open>
  C38. No lost update, as far as the clocks allow. Take a decision accepted alone or in a batch. If it is
  later, by instant and then by identifier, than the decision in force before it for its identity, or if there
  was none, it is in force, and every further request built on the same displayed decision for the same
  observation is refused, alone or in a batch, a retry of the very same request included, whatever its action.
  Otherwise (its instant is drawn before the lock is taken, by the clock of its own process) the decision in
  force stays the former one: the accepted decision is recorded and has no effect.
\<close>

theorem decision_lost_update:
  assumes "decision_accepted edition x i t st d st'"
    and "old = effective_decision_for_key (effective_decisions st edition None) (di_subject_id x) (di_repair_key x)"
    and "later = (case old of None \<Rightarrow> True | Some e \<Rightarrow> instant (dec_created_at e) < instant t
      \<or> (instant (dec_created_at e) = instant t \<and> dec_id e < i))"
    and "di_subject_id y = di_subject_id x" "di_repair_key y = di_repair_key x"
    and "di_issue_kind y = di_issue_kind x" "di_production_run_id y = di_production_run_id x"
    and "di_observed_artifact_id y = di_observed_artifact_id x"
    and "di_observed_pipeline_generation y = di_observed_pipeline_generation x"
    and "di_expected_effective_decision_id y = di_expected_effective_decision_id x"
  shows "effective_decision_for_key (effective_decisions st' edition None) (di_subject_id x) (di_repair_key x)
      = (if later then Some d else old)
    \<and> (later \<longrightarrow> is_error (decide edition y actor' reason' i' t' st')
      \<and> (y \<in> fst ` set items \<longrightarrow> is_error (decide_bulk edition items actor' reason' st')))"
proof -
  obtain actor reason where acc: "build_decision edition x actor reason i t = Inr d"
    "require_decision_fence (effective_decisions st edition None) x = Inr ()"
    "i \<notin> dec_id ` set (ds_decisions st)" "votes st' edition (identity_of d) = votes st edition (identity_of d) @ [d]"
    using assms(1) by (rule accepted_effect)
  note fields = build_decision_fields [OF acc(1)]
  have k: "identity_of d = (di_subject_id x, di_repair_key x)" by (simp add: identity_of_def fields)
  have old: "in_force st edition (identity_of d) = old" by (simp add: in_force_def k assms(2))
  have "dec_id d \<notin> dec_id ` set (votes st edition (identity_of d))" using acc(3) fields(1) by (auto simp: votes_def)
  from in_force_append [OF acc(4) this] have now:
    "effective_decision_for_key (effective_decisions st' edition None) (di_subject_id x) (di_repair_key x)
      = (if later then Some d else old)"
    unfolding old by (auto simp: in_force_def k assms(3) earlier_def fields(1,2) split: option.splits)
  have refused: "require_decision_fence (effective_decisions st' edition None) y \<noteq> Inr ()" if later
  proof -
    have "effective_decision_for_observation (effective_decisions st' edition None) y = Some d"
      using now that fields assms(4-9) by (simp add: effective_decision_for_observation_def)
    moreover have "di_expected_effective_decision_id x \<noteq> Some i"
    proof
      assume "di_expected_effective_decision_id x = Some i"
      then obtain e where e: "effective_decision_for_observation
          (effective_decisions st edition None) x = Some e" "dec_id e = i"
        using acc(2) by (auto simp: require_decision_fence_def split: if_splits)
      then have "old = Some e"
        by (auto simp: assms(2) effective_decision_for_observation_def split: option.splits if_splits)
      then have "e \<in> set (ds_decisions st)" unfolding assms(2) by (rule effective_in_log)
      with e(2) acc(3) show False by blast
    qed
    ultimately show ?thesis using assms(10) fields(1) by (auto simp: require_decision_fence_def)
  qed
  have "is_error (decide edition y actor' reason' i' t' st')" if later
    using accepted_fence(1) [of edition y actor' reason' i' t' st'] refused [OF that]
    by (cases "decide edition y actor' reason' i' t' st'") auto
  moreover have "is_error (decide_bulk edition items actor' reason' st')" if later "y \<in> fst ` set items"
    using accepted_fence(2) [of edition items actor' reason' st' _ _ y] refused [OF that(1)] that(2)
    by (cases "decide_bulk edition items actor' reason' st'") auto
  ultimately show ?thesis using now by blast
qed

theorem decision_lost_update_witness:
  "\<exists>d st'. decide 2 demo_input ''u'' None 9 (utc 5) demo_ds = Inr (d, st')
     \<and> is_error (decide 2 (demo_input\<lparr>di_action := Include\<rparr>) ''v'' None 10 (utc 6) st')"
proof -
  obtain d st' where dec: "decide 2 demo_input ''u'' None 9 (utc 5) demo_ds = Inr (d, st')"
    using demo_decide by blast
  then have "decision_accepted 2 demo_input 9 (utc 5) demo_ds d st'" by (auto simp: decision_accepted_def)
  moreover have "effective_decision_for_key (effective_decisions demo_ds 2 None) 1 demo_key = None"
    by (simp add: demo_ds_def effective_decisions_def effective_from_history_def latest_by_identity_def
        effective_decision_for_key_def)
  ultimately show ?thesis
    using decision_lost_update [OF _ refl refl, of 2 demo_input 9 "utc 5" demo_ds d st' "demo_input\<lparr>di_action := Include\<rparr>"] dec
    by (auto simp: demo_input_def)
qed

text \<open>
  One policy behind the two entry points: unless the request is an unexplained analyst
  override, a batch of one is accepted exactly when the single decision is, and both append the same
  decision and leave the same tables.
\<close>

theorem bulk_of_one:
  assumes "\<not> unexplained_override x reason"
  shows "decide_bulk edition [(x, i, t)] actor reason st = Inr ([d], st')
    \<longleftrightarrow> decide edition x actor reason i t st = Inr (d, st')"
proof -
  have "list_ex (\<lambda>y. di_action y = ContinueWithoutSource) [x] = (di_action x = ContinueWithoutSource)" by simp
  have "decide_bulk edition [(x, i, t)] actor reason st = Inr ([d], st') \<longleftrightarrow>
      build_decision edition x actor reason i t = Inr d \<and> decide_checks edition x reason st
      \<and> decide_commit x d st = Inr st'"
    unfolding decide_bulk_def decide_checks_def decide_commit_def Let_def guard_Inr then_unit_Inr
      and_then_Inr check_artifact_ok
    by (simp add: guard_Inr then_unit_Inr and_then_Inr) blast
  with assms show ?thesis by (simp add: decide_Inr_iff)
qed

theorem bulk_of_one_witness:
  "\<exists>d st'. decide_bulk 2 [(demo_input, 9, utc 5)] ''u'' None demo_ds = Inr ([d], st')"
proof -
  have "\<not> unexplained_override demo_input None"
    by (simp add: unexplained_override_def demo_input_def)
  from bulk_of_one [OF this] demo_decide show ?thesis by blast
qed

end
