(* ===== verification/ProductionResume.thy ===== *)
theory ProductionResume
  imports Repair
begin

text \<open>
  Where a stopped production starts again: \<open>backend/src/cti_app/application/production_resume.py\<close>
  (the stage of a retry and the resume plan of a cancelled run, both derived from the artifacts
  that still stand), \<open>production_recovery.py\<close> (the automatic recovery policy) and
  \<open>production_stage_status.py\<close> (the per-stage status shown to the operator). The setting
  \<open>production_relevance_classifier_enabled\<close> is a parameter.
\<close>

subsection \<open>Progress snapshots\<close>

definition extraction_completed_statuses :: "string list" where
  "extraction_completed_statuses = [''cached'', ''reused'', ''succeeded'']"

text \<open>Looking up a list or an object in the frozenset raises (unhashable).\<close>

fun status_pending :: "json option \<Rightarrow> bool result" where
  "status_pending (Some (JStr s)) = Inr (s \<notin> set extraction_completed_statuses)"
| "status_pending (Some (JArr xs)) = Inl (TypeErr ''unhashable type: list'')"
| "status_pending (Some (JObj d)) = Inl (TypeErr ''unhashable type: dict'')"
| "status_pending _ = Inr True"

fun entry_pending :: "json \<Rightarrow> bool result" where
  "entry_pending (JObj d) = status_pending (map_of d ''status'')"
| "entry_pending _ = Inr True"

fun count_pending :: "json list \<Rightarrow> int result" where
  "count_pending [] = Inr 0"
| "count_pending (e # es) = and_then (entry_pending e) (\<lambda>p.
     and_then (count_pending es) (\<lambda>n. Inr (n + (if p then 1 else 0))))"

definition pending_extraction_sources :: "details option \<Rightarrow> int option result" where
  "pending_extraction_sources progress = (case progress of
     None \<Rightarrow> Inr None
   | Some d \<Rightarrow> (case map_of d ''sources'' of
       Some (JArr (e # es)) \<Rightarrow> and_then (count_pending (e # es)) (\<lambda>n. Inr (Some n))
     | _ \<Rightarrow> Inr None))"

lemma count_pending_range: "count_pending es = Inr n \<Longrightarrow> 0 \<le> n \<and> n \<le> int (length es)"
  by (induction es arbitrary: n) (auto simp: and_then_Inr split: if_splits)

subsection \<open>The stage of a retry\<close>

fun first_missing :: "string list \<Rightarrow> production_stage list \<Rightarrow> production_stage option result" where
  "first_missing live [] = Inr None"
| "first_missing live (s # ss) = and_then (artifact_stage_for s) (\<lambda>a. case a of
     None \<Rightarrow> first_missing live ss
   | Some x \<Rightarrow> if artifact_value x \<notin> set live then Inr (Some s) else first_missing live ss)"

definition resolve_retry_stage ::
  "string list \<Rightarrow> production_stage \<Rightarrow> publication_kind option \<Rightarrow> production_stage result" where
  "resolve_retry_stage live current k =
     and_then (first_missing live (production_stages k)) (\<lambda>m.
       Inr (case m of None \<Rightarrow> current | Some s \<Rightarrow> s))"

subsection \<open>The resume plan\<close>

record resume_plan =
  rp_previous_status :: run_status
  rp_resume_from :: production_stage
  rp_completed :: "production_stage list"
  rp_reused :: "string list"
  rp_model_calls :: int

text \<open>\<open>artifacts\<close> gives, per artifact stage, the status of the current artifact if there is one.\<close>

definition artifact_completes_stage :: "artifact_status option \<Rightarrow> bool" where
  "artifact_completes_stage a = (case a of None \<Rightarrow> False | Some s \<Rightarrow> s \<noteq> Stale)"

fun completes ::
  "(artifact_stage \<Rightarrow> artifact_status option) \<Rightarrow> int \<Rightarrow> artifact_stage option \<Rightarrow> bool" where
  "completes artifacts archived None = (0 < archived)"
| "completes artifacts archived (Some a) = artifact_completes_stage (artifacts a)"

fun scan_stages ::
  "(artifact_stage \<Rightarrow> artifact_status option) \<Rightarrow> int \<Rightarrow> production_stage list \<Rightarrow>
   (production_stage list \<times> string list \<times> production_stage option) result" where
  "scan_stages artifacts archived [] = Inr ([], [], None)"
| "scan_stages artifacts archived (s # ss) = and_then (artifact_stage_for s) (\<lambda>a.
     if \<not> completes artifacts archived a then Inr ([], [], Some s)
     else and_then (scan_stages artifacts archived ss) (\<lambda>(done, reused, from).
       Inr (s # done, (case a of None \<Rightarrow> reused | Some x \<Rightarrow> artifact_value x # reused), from)))"

fun artifact_values :: "production_stage list \<Rightarrow> string list result" where
  "artifact_values [] = Inr []"
| "artifact_values (s # ss) = and_then (artifact_stage_for s) (\<lambda>a.
     and_then (artifact_values ss) (\<lambda>vs.
       Inr (case a of None \<Rightarrow> vs | Some x \<Rightarrow> artifact_value x # vs)))"

fun stage_model_calls :: "production_stage \<Rightarrow> int" where
  "stage_model_calls References = 1"
| "stage_model_calls Synthesis = 1"
| "stage_model_calls Editorial_Enrichment = 1"
| "stage_model_calls _ = 0"

fun owed_calls :: "bool \<Rightarrow> details option \<Rightarrow> int \<Rightarrow> production_stage list \<Rightarrow> int result" where
  "owed_calls classifier progress archived [] = Inr 0"
| "owed_calls classifier progress archived (s # ss) =
     and_then
       (if s = Extraction then
          and_then (pending_extraction_sources progress) (\<lambda>p.
            Inr (case p of None \<Rightarrow> archived | Some n \<Rightarrow> n))
        else if s = Relevance_Projection then Inr (if classifier then 1 else 0)
        else Inr (stage_model_calls s))
       (\<lambda>n. and_then (owed_calls classifier progress archived ss) (\<lambda>m. Inr (n + m)))"

definition plan_production_resume ::
  "bool \<Rightarrow> production_run \<Rightarrow> (artifact_stage \<Rightarrow> artifact_status option) \<Rightarrow> int \<Rightarrow> publication_kind option \<Rightarrow>
   resume_plan result" where
  "plan_production_resume classifier run artifacts archived k =
     (let stages = production_stages k in
      and_then (scan_stages artifacts archived stages) (\<lambda>(done0, reused0, from0).
      let done = (case from0 of None \<Rightarrow> filter (\<lambda>s. s \<noteq> Assembly) stages | Some _ \<Rightarrow> done0);
          from = (case from0 of None \<Rightarrow> Assembly | Some s \<Rightarrow> s) in
      and_then (case from0 of None \<Rightarrow> artifact_values done | Some _ \<Rightarrow> Inr reused0) (\<lambda>reused.
      case index_of from stages of
        None \<Rightarrow> Inl (ValueError ''tuple.index(x): x not in tuple'')
      | Some i \<Rightarrow>
          and_then (owed_calls classifier (run_extraction_progress run) archived (drop i stages)) (\<lambda>calls.
            Inr \<lparr>rp_previous_status = run_status run, rp_resume_from = from, rp_completed = done,
                 rp_reused = reused, rp_model_calls = calls\<rparr>))))"

subsection \<open>Automatic recovery\<close>

datatype recovery_disposition = Auto | ManualOnly

definition manual_only_error_codes :: "string list" where
  "manual_only_error_codes = [''model_submission_reconciliation_required'']"

definition auto_error_codes :: "string list" where
  "auto_error_codes = [''bridge_server_error'', ''bridge_idle_timeout'', ''bridge_total_timeout'',
     ''bridge_timeout'', ''bridge_ui_timeout'', ''bridge_extension_disconnected'', ''bridge_unreachable'',
     ''bridge_rate_limited'', ''conversation_unavailable'', ''conversation_profile_mismatch'',
     ''conversation_busy'', ''no_model_response'', ''references_format_unusable'',
     ''synthesis_validation_failed'', ''bridge_run_unavailable'']"

definition code_in :: "string option \<Rightarrow> string list \<Rightarrow> bool" where
  "code_in c codes = (case c of None \<Rightarrow> False | Some s \<Rightarrow> s \<in> set codes)"

definition disposition :: "string option \<Rightarrow> recovery_disposition" where
  "disposition c = (if code_in c manual_only_error_codes then ManualOnly
     else if code_in c auto_error_codes then Auto else ManualOnly)"

definition disposition_for_run :: "production_run \<Rightarrow> recovery_disposition" where
  "disposition_for_run r = (if run_reconciliation r \<noteq> None then ManualOnly
     else disposition (run_error_code r))"

definition current_stage_retry_recommended :: "production_run \<Rightarrow> bool" where
  "current_stage_retry_recommended r =
     (run_status r \<in> {RFailed, RNeedsReview} \<and> disposition_for_run r = Auto)"

text \<open>\<open>auto_recovery_count\<close> is the counter of the run's batch item.\<close>

definition recovery_eligible :: "int \<Rightarrow> production_run \<Rightarrow> bool" where
  "recovery_eligible auto_recovery_count r =
     (if run_status r = RCancelled then False
      else auto_recovery_count = 0 \<and> run_status r \<in> {RFailed, RNeedsReview}
        \<and> disposition_for_run r = Auto)"

subsection \<open>The status of each stage\<close>

record stage_status =
  ss_status :: string
  ss_version :: "int option"
  ss_error_code :: "string option"
  ss_error_message :: "string option"
  ss_reused_from :: "uuid option"
  ss_archived_sources :: "int option"

definition current_stage_status :: "run_status \<Rightarrow> string" where
  "current_stage_status s = (case s of
     RNeedsReview \<Rightarrow> ''needs_review'' | RFailed \<Rightarrow> ''failed'' | RRunning \<Rightarrow> ''running''
   | RCancelled \<Rightarrow> ''cancelled'' | _ \<Rightarrow> ''pending'')"

definition stage_entry ::
  "production_run \<Rightarrow> (artifact_stage \<Rightarrow> production_artifact option) \<Rightarrow> int \<Rightarrow> nat \<Rightarrow> nat \<Rightarrow>
   production_stage \<Rightarrow> artifact_stage option \<Rightarrow> stage_status" where
  "stage_entry run artifacts archived current i s astage =
     (let a = (case astage of None \<Rightarrow> None | Some x \<Rightarrow> artifacts x);
          failed_here = (i = current \<and> run_status run \<in> {RNeedsReview, RFailed}) in
      \<lparr>ss_status = (if run_status run = RReady then ''succeeded''
          else if i < current then ''succeeded''
          else if current < i then ''pending''
          else current_stage_status (run_status run)),
       ss_version = map_option art_version a,
       ss_error_code = (if failed_here then run_error_code run else None),
       ss_error_message = (if failed_here then run_error_message run else None),
       ss_reused_from = (case a of None \<Rightarrow> None | Some x \<Rightarrow> art_reused_from_artifact_id x),
       ss_archived_sources = (if s = Sources then Some archived else None)\<rparr>)"

fun stage_entries ::
  "production_run \<Rightarrow> (artifact_stage \<Rightarrow> production_artifact option) \<Rightarrow> int \<Rightarrow> nat \<Rightarrow> nat \<Rightarrow>
   production_stage list \<Rightarrow> (string \<times> stage_status) list result" where
  "stage_entries run artifacts archived current i [] = Inr []"
| "stage_entries run artifacts archived current i (s # ss) =
     and_then (artifact_stage_for s) (\<lambda>a.
     and_then (stage_entries run artifacts archived current (Suc i) ss) (\<lambda>es.
       Inr ((stage_value s, stage_entry run artifacts archived current i s a) # es)))"

definition build_stage_statuses ::
  "production_run \<Rightarrow> (artifact_stage \<Rightarrow> production_artifact option) \<Rightarrow> int \<Rightarrow> publication_kind option \<Rightarrow>
   (string \<times> stage_status) list result" where
  "build_stage_statuses run artifacts archived k =
     (let stages = production_stages k;
          current = (if run_current_stage run \<in> set stages then run_current_stage run else Synthesis) in
      case index_of current stages of
        None \<Rightarrow> Inl (ValueError ''tuple.index(x): x not in tuple'')
      | Some c \<Rightarrow> stage_entries run artifacts archived c 0 stages)"

definition completed_stage_count :: "(string \<times> stage_status) list \<Rightarrow> nat" where
  "completed_stage_count es = length (filter (\<lambda>e. ss_status (snd e) = ''succeeded'') es)"

subsection \<open>Lemmas\<close>

lemma artifact_stage_for_eq: "artifact_stage_for s = Inr (artifact_or_none s)"
  by (cases s) (simp_all add: artifact_or_none_def)

definition stands :: "string list \<Rightarrow> production_stage \<Rightarrow> bool" where
  "stands live s = (case artifact_or_none s of None \<Rightarrow> True | Some a \<Rightarrow> artifact_value a \<in> set live)"

lemma first_missing_dropWhile:
  "first_missing live ss = Inr (case dropWhile (stands live) ss of [] \<Rightarrow> None | s # _ \<Rightarrow> Some s)"
  by (induction ss) (auto simp: artifact_stage_for_eq stands_def split: option.splits)

lemma first_artifact_stands:
  "\<forall>s \<in> set ss. stands live s \<Longrightarrow>
   \<exists>p. first_artifact ss = Inr p \<and> (case p of None \<Rightarrow> True | Some a \<Rightarrow> artifact_value a \<in> set live)"
  by (induction ss) (auto simp: first_artifact_eq artifact_stage_for_eq stands_def
      simp del: first_artifact.simps(2) split: option.splits)

lemma index_of_split: "distinct (xs @ x # ys) \<Longrightarrow> index_of x (xs @ x # ys) = Some (length xs)"
  by (induction xs) auto

lemma prerequisite_stands:
  assumes "production_stages k = pre @ s # post" and "\<forall>x \<in> set pre. stands live x"
  shows "\<exists>p. prerequisite_artifact_for s k = Inr p
    \<and> (case p of None \<Rightarrow> True | Some a \<Rightarrow> artifact_value a \<in> set live)"
proof -
  have "index_of s (production_stages k) = Some (length pre)"
    using production_stages_distinct [of k] by (simp add: assms(1) index_of_split)
  moreover have "\<forall>x \<in> set (rev pre). stands live x" using assms(2) by simp
  ultimately show ?thesis
    using first_artifact_stands [of "rev pre" live] by (simp add: prerequisite_artifact_for_def assms(1))
qed

lemma takeWhile_split: "dropWhile P xs = y # ys \<Longrightarrow> xs = takeWhile P xs @ y # ys \<and> \<not> P y"
  by (metis hd_dropWhile list.distinct(1) list.sel(1) takeWhile_dropWhile_id)

abbreviation stage_done :: "(artifact_stage \<Rightarrow> artifact_status option) \<Rightarrow> int \<Rightarrow> production_stage \<Rightarrow> bool" where
  "stage_done artifacts archived s \<equiv> completes artifacts archived (artifact_or_none s)"

abbreviation values_of :: "production_stage list \<Rightarrow> string list" where
  "values_of ss \<equiv> map artifact_value (List.map_filter artifact_or_none ss)"

lemma scan_stages_split:
  "scan_stages artifacts archived ss = Inr (takeWhile (stage_done artifacts archived) ss,
     values_of (takeWhile (stage_done artifacts archived) ss),
     case dropWhile (stage_done artifacts archived) ss of [] \<Rightarrow> None | s # _ \<Rightarrow> Some s)"
  by (induction ss) (auto simp: artifact_stage_for_eq map_filter_simps split: option.splits)

lemma artifact_values_eq: "artifact_values ss = Inr (values_of ss)"
  by (induction ss) (auto simp: artifact_stage_for_eq map_filter_simps split: option.splits)

lemma route_ends: "production_stages k = filter (\<lambda>s. s \<noteq> Assembly) (production_stages k) @ [Assembly]"
  using route_cases [of k] by (auto simp: all_stages_def)

lemma owed_calls_nonneg:
  "0 \<le> archived \<Longrightarrow> owed_calls classifier progress archived ss = Inr n \<Longrightarrow> 0 \<le> n"
proof (induction ss arbitrary: n)
  case (Cons s ss)
  have "0 \<le> m" if "pending_extraction_sources progress = Inr (Some m)" for m
    using that count_pending_range
    by (force simp: pending_extraction_sources_def and_then_Inr split: option.splits json.splits list.splits)
  moreover have "0 \<le> stage_model_calls s" by (cases s) simp_all
  ultimately show ?case
    using Cons by (force simp: and_then_Inr split: if_splits option.splits)
qed simp

text \<open>Both branches of the plan split the route at the stage to resume.\<close>

lemma plan_split:
  assumes "plan_production_resume classifier run artifacts archived k = Inr p"
  shows "\<exists>post. production_stages k = rp_completed p @ rp_resume_from p # post"
    and "\<forall>s \<in> set (rp_completed p). stage_done artifacts archived s"
    and "\<not> stage_done artifacts archived (rp_resume_from p)
      \<or> rp_resume_from p = Assembly \<and> (\<forall>s \<in> set (production_stages k). stage_done artifacts archived s)"
    and "rp_reused p = values_of (rp_completed p)"
    and "\<exists>post. owed_calls classifier (run_extraction_progress run) archived (rp_resume_from p # post) = Inr (rp_model_calls p)
      \<and> production_stages k = rp_completed p @ rp_resume_from p # post"
proof -
  let ?P = "stage_done artifacts archived" and ?ss = "production_stages k"
  have "(\<exists>post. ?ss = rp_completed p @ rp_resume_from p # post
      \<and> owed_calls classifier (run_extraction_progress run) archived (rp_resume_from p # post) = Inr (rp_model_calls p))
    \<and> (\<forall>s \<in> set (rp_completed p). ?P s) \<and> rp_reused p = values_of (rp_completed p)
    \<and> (\<not> ?P (rp_resume_from p) \<or> rp_resume_from p = Assembly \<and> (\<forall>s \<in> set ?ss. ?P s))"
  proof (cases "dropWhile ?P ?ss")
    case Nil
    then have all: "\<forall>s \<in> set ?ss. ?P s" by (simp add: dropWhile_eq_Nil_conv)
    let ?done = "filter (\<lambda>s. s \<noteq> Assembly) ?ss"
    have "index_of Assembly ?ss = Some (length ?done)"
      using index_of_split [of ?done Assembly "[]"] production_stages_distinct [of k] route_ends [of k]
      by metis
    moreover have "drop (length ?done) ?ss = [Assembly]"
      by (subst (2) route_ends) simp
    ultimately have p: "rp_completed p = ?done" "rp_resume_from p = Assembly" "rp_reused p = values_of ?done"
      "owed_calls classifier (run_extraction_progress run) archived [Assembly] = Inr (rp_model_calls p)"
      using assms by (auto simp: plan_production_resume_def scan_stages_split Nil artifact_values_eq
          Let_def and_then_Inr)
    with all route_ends [of k] show ?thesis by auto
  next
    case (Cons s post)
    note split = takeWhile_split [OF Cons]
    have "index_of s ?ss = Some (length (takeWhile ?P ?ss))"
      using index_of_split [of "takeWhile ?P ?ss" s post] production_stages_distinct [of k] split by metis
    moreover have "drop (length (takeWhile ?P ?ss)) ?ss = s # post"
      using Cons by (simp add: dropWhile_eq_drop)
    ultimately have p: "rp_completed p = takeWhile ?P ?ss" "rp_resume_from p = s"
      "rp_reused p = values_of (takeWhile ?P ?ss)"
      "owed_calls classifier (run_extraction_progress run) archived (s # post) = Inr (rp_model_calls p)"
      using assms by (auto simp: plan_production_resume_def scan_stages_split Cons Let_def and_then_Inr)
    with split show ?thesis by (auto dest: set_takeWhileD)
  qed
  then show "\<exists>post. production_stages k = rp_completed p @ rp_resume_from p # post"
    and "\<forall>s \<in> set (rp_completed p). stage_done artifacts archived s"
    and "\<not> stage_done artifacts archived (rp_resume_from p)
      \<or> rp_resume_from p = Assembly \<and> (\<forall>s \<in> set (production_stages k). stage_done artifacts archived s)"
    and "rp_reused p = values_of (rp_completed p)"
    and "\<exists>post. owed_calls classifier (run_extraction_progress run) archived (rp_resume_from p # post) = Inr (rp_model_calls p)
      \<and> production_stages k = rp_completed p @ rp_resume_from p # post"
    by blast+
qed

definition board_status :: "run_status \<Rightarrow> nat \<Rightarrow> nat \<Rightarrow> string" where
  "board_status st c j = (if st = RReady \<or> j < c then ''succeeded''
     else if c < j then ''pending'' else current_stage_status st)"

lemma stage_entry_status: "ss_status (stage_entry run artifacts archived c i s a) = board_status (run_status run) c i"
  by (simp add: stage_entry_def board_status_def Let_def)

lemma stage_entries_map:
  "\<exists>es. stage_entries run artifacts archived c i ss = Inr es \<and> map fst es = map stage_value ss
     \<and> map (ss_status \<circ> snd) es = map (board_status (run_status run) c) [i ..< i + length ss]"
proof (induction ss arbitrary: i)
  case (Cons s ss)
  obtain es where es: "stage_entries run artifacts archived c (Suc i) ss = Inr es"
    "map fst es = map stage_value ss"
    "map (ss_status \<circ> snd) es = map (board_status (run_status run) c) [Suc i ..< Suc i + length ss]"
    using Cons.IH [of "Suc i"] by blast
  have "[i ..< i + length (s # ss)] = i # [Suc i ..< Suc i + length ss]"
    by (simp add: upt_rec)
  with es show ?case by (simp add: artifact_stage_for_eq stage_entry_status o_def del: upt_Suc)
qed simp

lemma count_below: "c < n \<Longrightarrow> length (filter (\<lambda>j. j < c) [0 ..< n]) = c"
proof (induction n)
  case (Suc n)
  then show ?case by (cases "c = n") (auto simp: filter_id_conv)
qed simp

subsection \<open>Properties\<close>

text \<open>
  C39. A retry never runs into a missing prerequisite: the stage it is aimed at is in the selected
  route, every artifact before it stands, and so does the prerequisite artifact that stage asks for,
  as long as the run points at a stage of the route.
\<close>

theorem retry_stage_ready:
  assumes "resolve_retry_stage live current k = Inr s" and "current \<in> set (production_stages k)"
  shows "\<exists>pre post p. production_stages k = pre @ s # post \<and> (\<forall>x \<in> set pre. stands live x)
    \<and> prerequisite_artifact_for s k = Inr p
    \<and> (case p of None \<Rightarrow> True | Some a \<Rightarrow> artifact_value a \<in> set live)"
proof -
  have "\<exists>pre post. production_stages k = pre @ s # post \<and> (\<forall>x \<in> set pre. stands live x)"
  proof (cases "dropWhile (stands live) (production_stages k)")
    case Nil
    have "s = current"
      using assms(1) unfolding resolve_retry_stage_def first_missing_dropWhile Nil by simp
    moreover have "\<forall>x \<in> set (production_stages k). stands live x"
      using Nil by (simp add: dropWhile_eq_Nil_conv)
    moreover obtain pre post where "production_stages k = pre @ current # post"
      using split_list [OF assms(2)] by blast
    ultimately show ?thesis by auto
  next
    case (Cons x post)
    with assms(1) have "x = s" by (simp add: resolve_retry_stage_def first_missing_dropWhile)
    with takeWhile_split [OF Cons] show ?thesis by (metis set_takeWhileD)
  qed
  with prerequisite_stands show ?thesis by metis
qed

theorem retry_stage_ready_witness:
  "\<exists>p. resolve_retry_stage [''references'', ''extraction''] Assembly (Some Brief) = Inr Relevance_Projection
     \<and> prerequisite_artifact_for Relevance_Projection (Some Brief) = Inr p"
proof -
  have r: "resolve_retry_stage [''references'', ''extraction''] Assembly (Some Brief) = Inr Relevance_Projection"
    by (simp add: resolve_retry_stage_def production_stages_simps)
  have "Assembly \<in> set (production_stages (Some Brief))" by (simp add: production_stages_simps)
  from retry_stage_ready [OF r this] r show ?thesis by blast
qed

text \<open>
  The resume plan is exact: the route splits into the completed stages, the stage to resume and
  the rest; every completed stage is evidenced; the resumed stage is not, unless everything is and
  the assembly is replayed; the reused artifacts are those of the completed stages; and the announced
  cost is never negative.
\<close>

theorem resume_plan_exact:
  assumes "plan_production_resume classifier run artifacts archived k = Inr p" and "0 \<le> archived"
  shows "(\<exists>post. production_stages k = rp_completed p @ rp_resume_from p # post)
    \<and> (\<forall>s \<in> set (rp_completed p). stage_done artifacts archived s)
    \<and> (\<not> stage_done artifacts archived (rp_resume_from p) \<or> rp_resume_from p = Assembly)
    \<and> rp_reused p = values_of (rp_completed p) \<and> 0 \<le> rp_model_calls p"
proof -
  from plan_split(5) [OF assms(1)] have "0 \<le> rp_model_calls p"
    using owed_calls_nonneg [OF assms(2)] by blast
  with plan_split(1-4) [OF assms(1)] show ?thesis by blast
qed

theorem resume_plan_exact_witness:
  "\<exists>p. plan_production_resume False demo_run (\<lambda>a. if a = A_References then Some Verified else None) 4 None = Inr p
     \<and> rp_resume_from p = Extraction \<and> 0 \<le> rp_model_calls p"
proof -
  obtain p where p: "plan_production_resume False demo_run
      (\<lambda>a. if a = A_References then Some Verified else None) 4 None = Inr p" "rp_resume_from p = Extraction"
    by (simp add: plan_production_resume_def production_stages_simps all_stages_def artifact_completes_stage_def
        Let_def pending_extraction_sources_def demo_run_def)
  with resume_plan_exact [OF p(1)] show ?thesis by simp
qed

text \<open>
  Retry and resume follow the same doctrine: with archived sources, the stage the resume plan
  starts from is the stage a retry of a run standing at ASSEMBLY resolves to from the same artifacts.
\<close>

theorem retry_agrees_with_resume:
  assumes "plan_production_resume classifier run artifacts archived k = Inr p" and "0 < archived"
    and "\<And>a. artifact_value a \<in> set live \<longleftrightarrow> artifact_completes_stage (artifacts a)"
  shows "resolve_retry_stage live Assembly k = Inr (rp_resume_from p)"
proof -
  have same: "stands live = stage_done artifacts archived"
  proof
    fix s show "stands live s = stage_done artifacts archived s"
      using assms(2,3) by (cases "artifact_or_none s") (simp_all add: stands_def)
  qed
  obtain post where split: "production_stages k = rp_completed p @ rp_resume_from p # post"
    using plan_split(1) [OF assms(1)] by blast
  consider "\<not> stands live (rp_resume_from p)"
    | "rp_resume_from p = Assembly" "\<forall>s \<in> set (production_stages k). stands live s"
    using plan_split(3) [OF assms(1)] same by auto
  then show ?thesis
  proof cases
    case 1
    have "dropWhile (stands live) (production_stages k) = rp_resume_from p # post"
      using 1 plan_split(2) [OF assms(1)] by (simp add: split same dropWhile_append2)
    then show ?thesis by (simp add: resolve_retry_stage_def first_missing_dropWhile)
  next
    case 2
    then have none: "dropWhile (stands live) (production_stages k) = []" by (simp add: dropWhile_eq_Nil_conv)
    show ?thesis unfolding resolve_retry_stage_def first_missing_dropWhile none by (simp add: 2(1))
  qed
qed

theorem retry_agrees_with_resume_witness:
  "\<exists>p. plan_production_resume False demo_run (\<lambda>a. if a = A_References then Some Verified else None) 4 None = Inr p
     \<and> resolve_retry_stage [''references''] Assembly None = Inr (rp_resume_from p)"
proof -
  obtain p where p: "plan_production_resume False demo_run
      (\<lambda>a. if a = A_References then Some Verified else None) 4 None = Inr p"
    by (simp add: plan_production_resume_def production_stages_simps all_stages_def artifact_completes_stage_def
        Let_def pending_extraction_sources_def demo_run_def)
  have "artifact_value a \<in> set [''references''] \<longleftrightarrow>
      artifact_completes_stage ((\<lambda>a. if a = A_References then Some Verified else None) a)" for a
    by (cases a) (simp_all add: artifact_completes_stage_def)
  from retry_agrees_with_resume [OF p _ this] p show ?thesis by auto
qed

text \<open>
  Automatic recovery is safe: a run the policy finds eligible carries no provider submission,
  adopted or not, and the retry it triggers is accepted, from any stage, in a new generation.
\<close>

theorem eligible_recovery_accepted:
  assumes "recovery_eligible n r" and "aware t"
  shows "run_reconciliation r = None \<and> \<not> run_requires_reconciliation r
    \<and> (\<exists>r'. run_retry_from_stage s force t r = Inr r' \<and> run_status r' = RRunning
        \<and> run_pipeline_generation r' = run_pipeline_generation r + 1)"
  using assms
  by (auto simp: recovery_eligible_def disposition_for_run_def run_retry_from_stage_def run_timestamp_def
      run_requires_reconciliation_def requires_submission_reconciliation_def split: if_splits)

theorem eligible_recovery_accepted_witness:
  "\<exists>r'. run_retry_from_stage Synthesis False (utc 4)
     (demo_run\<lparr>run_status := RFailed, run_error_code := Some ''bridge_timeout''\<rparr>) = Inr r'"
proof -
  have "recovery_eligible 0 (demo_run\<lparr>run_status := RFailed, run_error_code := Some ''bridge_timeout''\<rparr>)"
    by (simp add: recovery_eligible_def disposition_for_run_def disposition_def code_in_def
        manual_only_error_codes_def auto_error_codes_def demo_run_def)
  from eligible_recovery_accepted [OF this aware_utc] show ?thesis by blast
qed

text \<open>
  The stage board is total and consistent: it shows the stages of the route in order, and the
  number of completed stages is the whole route when the run is ready and the position of the current
  stage (SYNTHESIS when a route change removed it) otherwise.
\<close>

theorem stage_board_consistent:
  "\<exists>es. build_stage_statuses run artifacts archived k = Inr es
     \<and> map fst es = map stage_value (production_stages k)
     \<and> (if run_status run = RReady then completed_stage_count es = length (production_stages k)
        else index_of (if run_current_stage run \<in> set (production_stages k)
               then run_current_stage run else Synthesis) (production_stages k) = Some (completed_stage_count es))"
proof -
  let ?ss = "production_stages k"
  let ?cur = "if run_current_stage run \<in> set ?ss then run_current_stage run else Synthesis"
  have "?cur \<in> set ?ss" using route_cases [of k] by (auto simp: all_stages_def)
  then obtain c where c: "index_of ?cur ?ss = Some c" by (metis index_of_None not_None_eq)
  then have len: "c < length ?ss" using index_of_Some by fastforce
  obtain es where es: "stage_entries run artifacts archived c 0 ?ss = Inr es" "map fst es = map stage_value ?ss"
    "map (ss_status \<circ> snd) es = map (board_status (run_status run) c) [0 ..< length ?ss]"
    using stage_entries_map [of run artifacts archived c 0 ?ss] by auto
  have "completed_stage_count es = length (filter (\<lambda>s. s = ''succeeded'') (map (ss_status \<circ> snd) es))"
    by (simp add: completed_stage_count_def filter_map comp_def)
  also have "\<dots> = length (filter (\<lambda>j. run_status run = RReady \<or> j < c) [0 ..< length ?ss])"
    unfolding es(3) filter_map length_map
    by (rule arg_cong [where f = length], rule filter_cong)
      (auto simp: board_status_def current_stage_status_def split: run_status.splits)
  finally have count: "completed_stage_count es
      = length (filter (\<lambda>j. run_status run = RReady \<or> j < c) [0 ..< length ?ss])" .
  have "build_stage_statuses run artifacts archived k = Inr es"
    using c es(1) by (simp add: build_stage_statuses_def Let_def)
  with es(2) c count count_below [OF len] show ?thesis by auto
qed

end
