(* ===== verification/Batch.thy ===== *)
theory Batch
  imports ProductionResume
begin

text \<open>
  The production batch of an edition and its items, \<open>backend/src/cti_app/domain/production.py\<close>:
  the batch is the serialization point of dispatch, its status machine decides whether a subject may
  move forward. One definition per method; \<open>pause\<close>, \<open>resume\<close>, \<open>cancel\<close> and
  \<open>open_review_recovery\<close> also return whether the batch changed.
\<close>

subsection \<open>State\<close>

datatype batch_status = BQueued | BRunning | BPaused | BCompleted | BCompletedWithIssues | BCancelled

fun batch_status_value :: "batch_status \<Rightarrow> string" where
  "batch_status_value BQueued = ''queued''"
| "batch_status_value BRunning = ''running''"
| "batch_status_value BPaused = ''paused''"
| "batch_status_value BCompleted = ''completed''"
| "batch_status_value BCompletedWithIssues = ''completed_with_issues''"
| "batch_status_value BCancelled = ''cancelled''"

datatype batch_phase = PhaseInitial | PhaseRecovery | PhaseReview

definition cancellation_conflict :: "batch_status \<Rightarrow> error" where
  "cancellation_conflict s = BatchConflict ''production_batch_not_cancellable'' (batch_status_value s)"

definition recovery_conflict :: "batch_status \<Rightarrow> error" where
  "recovery_conflict s = BatchConflict ''production_batch_not_recoverable'' (batch_status_value s)"

definition pause_conflict :: "string \<Rightarrow> batch_status \<Rightarrow> error" where
  "pause_conflict code s = BatchConflict code (batch_status_value s)"

record batch =
  ba_edition_id :: uuid
  ba_status :: batch_status
  ba_idempotency_key :: string
  ba_request_fingerprint :: string
  ba_actor_id :: string
  ba_correlation_id :: string
  ba_phase :: batch_phase
  ba_next_dispatch_at :: "datetime option"
  ba_created_at :: datetime
  ba_started_at :: "datetime option"
  ba_finished_at :: "datetime option"
  ba_paused_at :: "datetime option"
  ba_paused_by :: "string option"
  ba_id :: uuid
  ba_version :: int

definition bad_text :: "nat \<Rightarrow> string \<Rightarrow> bool" where
  "bad_text n s = (blank s \<or> n < length s)"

definition batch_post_init :: "batch \<Rightarrow> batch result" where
  "batch_post_init b = validated
     [(bad_text 255 (ba_idempotency_key b), ValueError ''idempotency_key must be non-empty and at most 255 characters''),
      (\<not> is_sha256 (ba_request_fingerprint b), ValueError ''request_fingerprint must be 64 lowercase hexadecimal characters''),
      (bad_text 255 (ba_actor_id b), ValueError ''actor_id must be non-empty and at most 255 characters''),
      (bad_text 128 (ba_correlation_id b), ValueError ''correlation_id must be non-empty and at most 128 characters''),
      ((case ba_paused_by b of None \<Rightarrow> False | Some p \<Rightarrow> bad_text 255 p),
        ValueError ''paused_by must be non-empty and at most 255 characters''),
      ((ba_paused_at b = None) \<noteq> (ba_paused_by b = None),
        ValueError ''paused_at and paused_by must be supplied together'')] b"

text \<open>
  The fingerprint hashes the ordered request payload; \<open>sha256\<close> is the hash of the hexadecimal
  text, a parameter. \<open>UUID.hex\<close> is 32 hexadecimal digits.
\<close>

fun hex_of :: "nat \<Rightarrow> nat \<Rightarrow> string" where
  "hex_of 0 n = []"
| "hex_of (Suc k) n = hex_of k (n div 16) @ [hex_digits ! (n mod 16)]"

definition request_material :: "uuid \<Rightarrow> uuid list \<Rightarrow> string" where
  "request_material edition subjects =
     hex_of 32 edition @ ''|'' @ join_with ''|'' (map (hex_of 32) subjects)"

definition batch_request_fingerprint :: "(string \<Rightarrow> string) \<Rightarrow> uuid \<Rightarrow> uuid list \<Rightarrow> string" where
  "batch_request_fingerprint sha256 edition subjects = sha256 (request_material edition subjects)"

subsection \<open>Methods\<close>

definition batch_start :: "datetime \<Rightarrow> batch \<Rightarrow> batch result" where
  [op_defs]: "batch_start t b =
     (if ba_status b \<noteq> BQueued then Inl (ValueError ''Can only start from queued status'')
      else Inr (b\<lparr>ba_status := BRunning, ba_started_at := Some t, ba_version := ba_version b + 1\<rparr>))"

definition batch_finish :: "bool \<Rightarrow> datetime \<Rightarrow> batch \<Rightarrow> batch result" where
  [op_defs]: "batch_finish with_issues t b =
     (if ba_status b \<noteq> BRunning then Inl (ValueError ''Can only finish from running status'')
      else Inr (b\<lparr>ba_status := (if with_issues then BCompletedWithIssues else BCompleted),
        ba_finished_at := Some t, ba_version := ba_version b + 1\<rparr>))"

definition batch_pause :: "string \<Rightarrow> datetime \<Rightarrow> batch \<Rightarrow> (bool \<times> batch) result" where
  [op_defs]: "batch_pause actor t b =
     (if ba_status b = BPaused then Inr (False, b)
      else if ba_status b \<notin> {BQueued, BRunning}
      then Inl (pause_conflict ''production_batch_not_pausable'' (ba_status b))
      else if bad_text 255 actor then Inl (ValueError ''paused_by must be non-empty and at most 255 characters'')
      else Inr (True, b\<lparr>ba_status := BPaused, ba_paused_at := Some t, ba_paused_by := Some actor,
        ba_version := ba_version b + 1\<rparr>))"

definition batch_resume :: "batch \<Rightarrow> (bool \<times> batch) result" where
  [op_defs]: "batch_resume b =
     (if ba_status b \<in> {BQueued, BRunning} then Inr (False, b)
      else if ba_status b \<noteq> BPaused
      then Inl (pause_conflict ''production_batch_not_resumable'' (ba_status b))
      else Inr (True, b\<lparr>ba_status := (if ba_started_at b \<noteq> None then BRunning else BQueued),
        ba_version := ba_version b + 1\<rparr>))"

definition batch_cancel :: "datetime \<Rightarrow> batch \<Rightarrow> (bool \<times> batch) result" where
  [op_defs]: "batch_cancel t b =
     (if ba_status b = BCancelled then Inr (False, b)
      else if ba_status b \<in> {BCompleted, BCompletedWithIssues}
      then Inl (cancellation_conflict (ba_status b))
      else if ba_status b \<notin> {BQueued, BRunning, BPaused}
      then Inl (cancellation_conflict (ba_status b))
      else Inr (True, b\<lparr>ba_status := BCancelled, ba_next_dispatch_at := None, ba_finished_at := Some t,
        ba_version := ba_version b + 1\<rparr>))"

definition batch_schedule_next_dispatch :: "datetime \<Rightarrow> batch \<Rightarrow> batch result" where
  [op_defs]: "batch_schedule_next_dispatch at b =
     (if \<not> aware at then Inl (ValueError ''dispatch_at must be timezone-aware'')
      else Inr (b\<lparr>ba_next_dispatch_at := Some at, ba_version := ba_version b + 1\<rparr>))"

definition batch_clear_next_dispatch :: "batch \<Rightarrow> batch result" where
  [op_defs]: "batch_clear_next_dispatch b =
     (if ba_next_dispatch_at b \<noteq> None
      then Inr (b\<lparr>ba_next_dispatch_at := None, ba_version := ba_version b + 1\<rparr>) else Inr b)"

definition batch_enter_recovery :: "batch \<Rightarrow> batch result" where
  [op_defs]: "batch_enter_recovery b =
     (if ba_status b \<noteq> BRunning then Inl (ValueError ''Can only enter recovery from a running batch'')
      else Inr (b\<lparr>ba_phase := PhaseRecovery, ba_version := ba_version b + 1\<rparr>))"

definition batch_enter_review :: "batch \<Rightarrow> batch result" where
  [op_defs]: "batch_enter_review b = Inr (b\<lparr>ba_phase := PhaseReview, ba_next_dispatch_at := None,
     ba_version := ba_version b + 1\<rparr>)"

definition batch_open_review_recovery :: "datetime \<Rightarrow> batch \<Rightarrow> (bool \<times> batch) result" where
  [op_defs]: "batch_open_review_recovery t b =
     (if ba_status b = BCancelled then Inl (recovery_conflict (ba_status b))
      else if ba_status b = BPaused then Inl (recovery_conflict (ba_status b))
      else if ba_status b \<in> {BQueued, BRunning} then Inr (False, b)
      else Inr (True, b\<lparr>ba_status := BRunning, ba_phase := PhaseReview, ba_next_dispatch_at := None,
        ba_finished_at := None, ba_started_at := dt_or (ba_started_at b) t,
        ba_version := ba_version b + 1\<rparr>))"

subsection \<open>Items\<close>

record batch_item =
  bi_batch_id :: uuid
  bi_subject_id :: uuid
  bi_run_id :: uuid
  bi_position :: int
  bi_auto_recovery_count :: int
  bi_verified_reemission_count :: int
  bi_created_at :: datetime
  bi_id :: uuid

definition batch_item_post_init :: "batch_item \<Rightarrow> batch_item result" where
  "batch_item_post_init i = validated
     [(bi_position i < 1, ValueError ''position must be >= 1''),
      (bi_auto_recovery_count i \<notin> {0, 1}, ValueError ''auto_recovery_count must be between 0 and 1''),
      (bi_verified_reemission_count i \<notin> {0, 1, 2},
        ValueError ''verified_reemission_count must be between 0 and 2'')] i"

subsection \<open>The batch as a machine\<close>

datatype batch_op =
    BStart datetime | BFinish bool datetime | BPause string datetime | BResume | BCancel datetime
  | BSchedule datetime | BClear | BEnterRecovery | BEnterReview | BReopen datetime

definition drop_flag :: "(bool \<times> 'a) result \<Rightarrow> 'a result" where
  "drop_flag r = and_then r (\<lambda>p. Inr (snd p))"

lemma drop_flag_Inr: "drop_flag r = Inr x \<longleftrightarrow> (\<exists>c. r = Inr (c, x))"
  by (auto simp: drop_flag_def and_then_Inr)

fun batch_exec :: "batch_op \<Rightarrow> batch \<Rightarrow> batch result" where
  "batch_exec (BStart t) b = batch_start t b"
| "batch_exec (BFinish w t) b = batch_finish w t b"
| "batch_exec (BPause a t) b = drop_flag (batch_pause a t b)"
| "batch_exec BResume b = drop_flag (batch_resume b)"
| "batch_exec (BCancel t) b = drop_flag (batch_cancel t b)"
| "batch_exec (BSchedule t) b = batch_schedule_next_dispatch t b"
| "batch_exec BClear b = batch_clear_next_dispatch b"
| "batch_exec BEnterRecovery b = batch_enter_recovery b"
| "batch_exec BEnterReview b = batch_enter_review b"
| "batch_exec (BReopen t) b = drop_flag (batch_open_review_recovery t b)"

definition batch_dispatchable :: "batch \<Rightarrow> bool" where
  "batch_dispatchable b = (ba_status b \<in> {BQueued, BRunning})"

definition batch_active :: "batch \<Rightarrow> bool" where
  "batch_active b = (ba_status b \<in> {BQueued, BRunning, BPaused})"

definition batch_inv :: "batch \<Rightarrow> bool" where
  "batch_inv b \<longleftrightarrow> 1 \<le> ba_version b
     \<and> (ba_finished_at b = None \<longleftrightarrow> batch_active b)
     \<and> (ba_status b \<in> {BRunning, BCompleted, BCompletedWithIssues} \<longrightarrow> ba_started_at b \<noteq> None)
     \<and> (ba_status b = BQueued \<longrightarrow> ba_started_at b = None)
     \<and> (ba_paused_at b = None \<longleftrightarrow> ba_paused_by b = None)
     \<and> (ba_status b = BPaused \<longrightarrow> ba_paused_by b \<noteq> None)"

lemma dt_or_is_Some [simp]: "\<exists>y. dt_or a t = Some y"
  by (cases a) (simp_all add: dt_or_def)

lemma batch_exec_inv: "batch_inv b \<Longrightarrow> batch_exec op b = Inr b' \<Longrightarrow> batch_inv b'"
  by (cases op; clarsimp simp: op_defs batch_inv_def batch_active_def drop_flag_Inr split: if_splits)

lemma batch_exec_version: "batch_exec op b = Inr b' \<Longrightarrow>
    ba_version b \<le> ba_version b' \<and> ba_version b' \<le> ba_version b + 1"
  by (cases op; clarsimp simp: op_defs drop_flag_Inr split: if_splits)

lemma batch_exec_identity: "batch_exec op b = Inr b' \<Longrightarrow>
    ba_id b' = ba_id b \<and> ba_edition_id b' = ba_edition_id b \<and> ba_created_at b' = ba_created_at b
    \<and> ba_idempotency_key b' = ba_idempotency_key b \<and> ba_request_fingerprint b' = ba_request_fingerprint b"
  by (cases op; clarsimp simp: op_defs drop_flag_Inr split: if_splits)

interpretation batch_machine: versioned_machine batch_exec batch_inv ba_version
  by unfold_locales (auto intro: batch_exec_inv dest: batch_exec_version)

text \<open>The absolute barrier: no operation leaves CANCELLED.\<close>

lemma batch_cancelled_kept: "ba_status b = BCancelled \<Longrightarrow> batch_exec op b = Inr b' \<Longrightarrow>
    ba_status b' = BCancelled \<and> ba_finished_at b' = ba_finished_at b"
  by (cases op; clarsimp simp: op_defs drop_flag_Inr split: if_splits)

interpretation batch_barrier: absorbing_machine batch_exec "\<lambda>b. ba_status b = BCancelled" ba_finished_at "\<lambda>_. False"
  by unfold_locales (erule batch_cancelled_kept)

text \<open>A finished batch only comes back through the review recovery.\<close>

fun reopens_batch :: "batch_op \<Rightarrow> bool" where
  "reopens_batch (BReopen t) = True"
| "reopens_batch _ = False"

lemma batch_finished_kept: "\<not> batch_active b \<Longrightarrow> \<not> reopens_batch op \<Longrightarrow> batch_exec op b = Inr b' \<Longrightarrow>
    \<not> batch_active b' \<and> (ba_status b', ba_finished_at b') = (ba_status b, ba_finished_at b)"
  by (cases op; clarsimp simp: op_defs batch_active_def drop_flag_Inr split: if_splits)

interpretation batch_finished: absorbing_machine batch_exec "\<lambda>b. \<not> batch_active b"
  "\<lambda>b. (ba_status b, ba_finished_at b)" reopens_batch
  by (unfold_locales, erule (2) batch_finished_kept)

text \<open>The queue: a batch that has not started yet stays queued through a pause.\<close>

lemma resume_after_pause:
  assumes "batch_inv b" and "batch_dispatchable b" and "batch_pause actor t b = Inr (c, b')"
  shows "c \<and> ba_status b' = BPaused \<and> batch_inv b'
    \<and> batch_resume b' = Inr (True, b'\<lparr>ba_status := ba_status b, ba_version := ba_version b + 2\<rparr>)"
proof -
  have st: "ba_status b \<noteq> BPaused" using assms(2) by (auto simp: batch_dispatchable_def)
  then have b': "c" "b' = b\<lparr>ba_status := BPaused, ba_paused_at := Some t, ba_paused_by := Some actor,
      ba_version := ba_version b + 1\<rparr>"
    using assms(3) by (auto simp: batch_pause_def split: if_splits)
  have started: "ba_started_at b \<noteq> None \<longleftrightarrow> ba_status b = BRunning"
    using assms(1,2) unfolding batch_inv_def batch_dispatchable_def by fastforce
  have "batch_inv b'" using batch_exec_inv [OF assms(1), of "BPause actor t" b'] assms(3)
    by (simp add: drop_flag_Inr)
  moreover have "ba_status b = (if ba_started_at b \<noteq> None then BRunning else BQueued)"
    using started assms(2) by (auto simp: batch_dispatchable_def)
  ultimately show ?thesis by (simp add: b' batch_resume_def)
qed

subsection \<open>Properties\<close>

definition demo_batch :: batch where
  "demo_batch = \<lparr>ba_edition_id = 2, ba_status = BQueued, ba_idempotency_key = ''k'',
     ba_request_fingerprint = replicate 64 (CHR ''0''), ba_actor_id = ''system'', ba_correlation_id = ''-'',
     ba_phase = PhaseInitial, ba_next_dispatch_at = None, ba_created_at = utc 0, ba_started_at = None,
     ba_finished_at = None, ba_paused_at = None, ba_paused_by = None, ba_id = 9, ba_version = 1\<rparr>"

lemma demo_batch_inv: "batch_inv demo_batch"
  by (simp add: batch_inv_def demo_batch_def batch_active_def)

text \<open>
  The life of a batch: along every sequence of operations the batch keeps its invariant (it has a
  finish date exactly when it is neither queued, running nor paused; a started batch has a start date, a
  paused one names who paused it) and its lock version advances by at most one per accepted operation;
  once cancelled it stays cancelled with its finish date, whatever is asked of it; and a finished one
  only becomes active again through the review recovery.
\<close>

theorem batch_lifecycle:
  assumes "batch_inv b" and "b' = drive batch_exec ops b"
  shows "batch_inv b'
    \<and> ba_version b \<le> ba_version b' \<and> ba_version b' \<le> ba_version b + int (length (accepted batch_exec ops b))
    \<and> (ba_status b = BCancelled \<longrightarrow> ba_status b' = BCancelled \<and> ba_finished_at b' = ba_finished_at b)
    \<and> (\<not> batch_active b \<and> list_all (\<lambda>op. \<not> reopens_batch op) ops \<longrightarrow> \<not> batch_active b' \<and> ba_status b' = ba_status b)"
  unfolding assms(2)
  using batch_machine.drive_inv [OF assms(1)] batch_machine.drive_version [OF assms(1)]
    batch_barrier.drive_absorb [of b ops] batch_finished.drive_absorb [of b ops] by (simp add: list_all_iff)

theorem batch_lifecycle_witness:
  "batch_inv (drive batch_exec [BStart (utc 1), BPause ''ana'' (utc 2), BCancel (utc 3), BReopen (utc 4)] demo_batch)"
  using batch_lifecycle [OF demo_batch_inv refl] by blast

text \<open>
  A pause is transparent to the queue: pausing a dispatchable batch and resuming it restores the
  status, the phase and the schedule it had, so a batch paused before its first dispatch is still queued.
\<close>

theorem pause_resume_roundtrip:
  assumes "batch_inv b" and "batch_dispatchable b" and "batch_pause actor t b = Inr (c, b')"
  shows "\<exists>b''. batch_resume b' = Inr (True, b'') \<and> ba_status b'' = ba_status b
      \<and> ba_phase b'' = ba_phase b \<and> ba_next_dispatch_at b'' = ba_next_dispatch_at b
      \<and> ba_version b'' = ba_version b + 2"
proof -
  have "ba_phase b' = ba_phase b \<and> ba_next_dispatch_at b' = ba_next_dispatch_at b"
    using assms(3) by (auto simp: batch_pause_def split: if_splits)
  with resume_after_pause [OF assms] show ?thesis by simp
qed

theorem pause_resume_roundtrip_witness:
  "\<exists>b' b''. batch_pause ''ana'' (utc 2) demo_batch = Inr (True, b') \<and> batch_resume b' = Inr (True, b'')
     \<and> ba_status b'' = BQueued"
proof -
  obtain b' where p: "batch_pause ''ana'' (utc 2) demo_batch = Inr (True, b')"
    by (simp add: batch_pause_def demo_batch_def bad_text_def blank_def py_strip_def py_space_def)
  have "batch_dispatchable demo_batch" "ba_status demo_batch = BQueued"
    by (simp_all add: batch_dispatchable_def demo_batch_def)
  with pause_resume_roundtrip [OF demo_batch_inv _ p] p show ?thesis by metis
qed

end
