(* ===== verification/BatchTables.thy ===== *)
theory BatchTables
  imports Batch
begin

text \<open>
  The tables the production services work on (\<open>infrastructure/database/repositories/production.py\<close>
  and the constraints of \<open>infrastructure/database/models/production.py\<close>): runs, batches,
  batch items and artifacts, with one definition per repository query. What the services only
  read (editions, routing decisions, collected sources, subjects and their discovery origins) is the
  environment \<open>prod_env\<close>.
\<close>

subsection \<open>State\<close>

record prod_world =
  pw_runs :: "production_run list"
  pw_batches :: "batch list"
  pw_items :: "batch_item list"
  pw_artifacts :: "production_artifact list"

datatype edition_status = EditionOpen | EditionArchived

text \<open>
  \<open>env_routes\<close> gives whether a routing decision is DECIDED and its publication kind;
  \<open>env_source_states\<close> the states of the collected sources of a subject; \<open>env_origins\<close> the subject
  and edition of a discovery origin; \<open>env_capture\<close> stands for \<open>capture_snapshot_for_new_run\<close>,
  of which only the frozen research date matters here.
\<close>

record prod_env =
  env_editions :: "uuid \<Rightarrow> edition_status option"
  env_routes :: "uuid \<Rightarrow> (bool \<times> publication_kind option) option"
  env_source_states :: "uuid \<Rightarrow> string list"
  env_subjects :: "uuid \<Rightarrow> uuid option"
  env_origins :: "uuid \<Rightarrow> (uuid \<times> uuid) option"
  env_capture :: "prod_world \<Rightarrow> production_run \<Rightarrow> int result"
  env_classifier :: bool
  env_sha256 :: "string \<Rightarrow> string"

subsection \<open>Runs\<close>

definition run_active :: "production_run \<Rightarrow> bool" where
  "run_active r = (run_status r \<in> {RQueued, RRunning})"

definition runs_get :: "prod_world \<Rightarrow> uuid \<Rightarrow> production_run option" where
  "runs_get w i = find (\<lambda>r. run_id r = i) (pw_runs w)"

text \<open>\<open>ORDER BY run_number DESC LIMIT 1\<close>\<close>

definition current_run_for_subject :: "prod_world \<Rightarrow> uuid \<Rightarrow> production_run option" where
  "current_run_for_subject w s =
     (case sort_key (\<lambda>r. - run_number r) (filter (\<lambda>r. run_subject_id r = s) (pw_runs w)) of
        [] \<Rightarrow> None | r # _ \<Rightarrow> Some r)"

definition allocate_next_run_number :: "prod_world \<Rightarrow> uuid \<Rightarrow> int" where
  "allocate_next_run_number w s =
     (case current_run_for_subject w s of None \<Rightarrow> 1 | Some r \<Rightarrow> run_number r + 1)"

text \<open>The partial unique index \<open>uq_subject_production_one_active_run\<close>.\<close>

definition active_clash :: "production_run \<Rightarrow> prod_world \<Rightarrow> bool" where
  "active_clash r w = (run_active r \<and>
     list_ex (\<lambda>x. run_id x \<noteq> run_id r \<and> run_active x \<and> run_subject_id x = run_subject_id r) (pw_runs w))"

definition runs_add :: "production_run \<Rightarrow> prod_world \<Rightarrow> prod_world result" where
  "runs_add r w =
     (if runs_get w (run_id r) \<noteq> None then Inl (IntegrityError ''production_runs_pkey'')
      else if active_clash r w then Inl ActiveRunConflict
      else Inr (w\<lparr>pw_runs := pw_runs w @ [r]\<rparr>))"

text \<open>
  The columns \<open>save\<close> writes; the subject, the edition, the number, the creation date and the
  routing decision of the stored row are not among them.
\<close>

definition run_saved_columns :: "production_run \<Rightarrow> production_run \<Rightarrow> production_run" where
  "run_saved_columns r row = r\<lparr>run_subject_id := run_subject_id row, run_edition_id := run_edition_id row,
     run_number := run_number row, run_routing_decision_id := run_routing_decision_id row,
     run_created_at := run_created_at row\<rparr>"

definition runs_save :: "production_run \<Rightarrow> prod_world \<Rightarrow> prod_world result" where
  "runs_save r w =
     (if active_clash r w then Inl (IntegrityError ''uq_subject_production_one_active_run'')
      else Inr (w\<lparr>pw_runs := map (\<lambda>x. if run_id x = run_id r then run_saved_columns r x else x) (pw_runs w)\<rparr>))"

subsection \<open>Batches\<close>

definition batches_get :: "prod_world \<Rightarrow> uuid \<Rightarrow> batch option" where
  "batches_get w i = find (\<lambda>b. ba_id b = i) (pw_batches w)"

definition batch_by_idempotency_key :: "prod_world \<Rightarrow> uuid \<Rightarrow> string \<Rightarrow> batch option" where
  "batch_by_idempotency_key w e k =
     find (\<lambda>b. ba_edition_id b = e \<and> ba_idempotency_key b = k) (pw_batches w)"

text \<open>\<open>ORDER BY created_at DESC, id DESC LIMIT 1\<close>\<close>

definition active_batch_for_edition :: "prod_world \<Rightarrow> uuid \<Rightarrow> batch option" where
  "active_batch_for_edition w e =
     (case rev (sort_key (\<lambda>b. instant (ba_created_at b)) (sort_key ba_id
        (filter (\<lambda>b. ba_edition_id b = e \<and> batch_active b) (pw_batches w)))) of
        [] \<Rightarrow> None | b # _ \<Rightarrow> Some b)"

definition batches_add :: "batch \<Rightarrow> prod_world \<Rightarrow> prod_world result" where
  "batches_add b w =
     (if batches_get w (ba_id b) \<noteq> None then Inl (IntegrityError ''edition_production_batches_pkey'')
      else if batch_by_idempotency_key w (ba_edition_id b) (ba_idempotency_key b) \<noteq> None
      then Inl (IntegrityError ''uq_batch_edition_idempotency'')
      else Inr (w\<lparr>pw_batches := pw_batches w @ [b]\<rparr>))"

definition batches_save :: "batch \<Rightarrow> prod_world \<Rightarrow> prod_world" where
  "batches_save b w = w\<lparr>pw_batches := map (\<lambda>x. if ba_id x = ba_id b
     then b\<lparr>ba_edition_id := ba_edition_id x, ba_created_at := ba_created_at x\<rparr> else x) (pw_batches w)\<rparr>"

subsection \<open>Items\<close>

definition items_for_batch :: "prod_world \<Rightarrow> uuid \<Rightarrow> batch_item list" where
  "items_for_batch w b = sort_key bi_position (filter (\<lambda>i. bi_batch_id i = b) (pw_items w))"

definition item_by_run :: "prod_world \<Rightarrow> uuid \<Rightarrow> batch_item option" where
  "item_by_run w r = find (\<lambda>i. bi_run_id i = r) (pw_items w)"

text \<open>Primary key, \<open>uq_batch_position\<close> and \<open>uq_batch_subject\<close>.\<close>

definition item_clash :: "batch_item \<Rightarrow> batch_item \<Rightarrow> bool" where
  "item_clash i x = (bi_id x = bi_id i
     \<or> bi_batch_id x = bi_batch_id i \<and> (bi_position x = bi_position i \<or> bi_subject_id x = bi_subject_id i))"

fun items_append_many :: "batch_item list \<Rightarrow> prod_world \<Rightarrow> prod_world result" where
  "items_append_many [] w = Inr w"
| "items_append_many (i # is) w =
     (if list_ex (item_clash i) (pw_items w) then Inl (IntegrityError ''edition_production_batch_items'')
      else items_append_many is (w\<lparr>pw_items := pw_items w @ [i]\<rparr>))"

text \<open>The check constraints bound the two counters.\<close>

definition items_save :: "batch_item \<Rightarrow> prod_world \<Rightarrow> prod_world result" where
  "items_save i w =
     (if bi_auto_recovery_count i \<notin> {0, 1} then Inl (IntegrityError ''ck_batch_item_auto_recovery_count'')
      else if bi_verified_reemission_count i \<notin> {0, 1, 2}
      then Inl (IntegrityError ''ck_batch_item_verified_reemission_count'')
      else Inr (w\<lparr>pw_items := map (\<lambda>x. if bi_id x = bi_id i then x\<lparr>bi_run_id := bi_run_id i,
        bi_auto_recovery_count := bi_auto_recovery_count i,
        bi_verified_reemission_count := bi_verified_reemission_count i\<rparr> else x) (pw_items w)\<rparr>))"

subsection \<open>Artifacts\<close>

definition current_artifact :: "prod_world \<Rightarrow> uuid \<Rightarrow> artifact_stage \<Rightarrow> production_artifact option" where
  "current_artifact w run stage =
     (case sort_key (\<lambda>a. - art_version a)
        (filter (\<lambda>a. art_production_run_id a = run \<and> art_stage a = stage \<and> art_status a \<noteq> Stale)
          (pw_artifacts w)) of
        [] \<Rightarrow> None | a # _ \<Rightarrow> Some a)"

definition live_artifact_values :: "prod_world \<Rightarrow> uuid \<Rightarrow> string list" where
  "live_artifact_values w run = map (\<lambda>a. artifact_value (art_stage a))
     (filter (\<lambda>a. art_production_run_id a = run \<and> art_status a \<noteq> Stale) (pw_artifacts w))"

text \<open>
  \<open>mark_stages_stale\<close>: the values that are artifact stages, in pipeline order; the stages whose rows
  changed are returned.
\<close>

definition mark_stages_stale :: "uuid \<Rightarrow> string set \<Rightarrow> prod_world \<Rightarrow> string list \<times> prod_world" where
  "mark_stages_stale run stages w =
     (let affected = filter (\<lambda>a. artifact_value a \<in> stages) (production_artifact_stages None);
          hit = (\<lambda>x. art_production_run_id x = run \<and> art_stage x \<in> set affected \<and> art_status x \<noteq> Stale)
      in (map artifact_value (filter (\<lambda>a. list_ex (\<lambda>x. hit x \<and> art_stage x = a) (pw_artifacts w)) affected),
          w\<lparr>pw_artifacts := map (\<lambda>x. if hit x then x\<lparr>art_status := Stale\<rparr> else x) (pw_artifacts w)\<rparr>))"

end
