(* ===== verification/BatchService.thy ===== *)
theory BatchService
  imports BatchTables
begin

text \<open>
  The services that move production runs and batches, \<open>backend/src/cti_app/application/subject_production.py\<close>,
  with \<open>production_review_recovery.py\<close> and \<open>production_batch_repointing.py\<close>. A unit of work is
  one function on \<open>prod_world\<close>: an error means the transaction is rolled back. \<open>t\<close> is the reading of the
  clock, \<open>delay\<close> the milliseconds the pacing policy draws, and the identifiers of the rows an
  operation creates are its arguments. The optional repositories (\<open>getattr(uow, ...)\<close>) are present.
\<close>

subsection \<open>Locks and routes\<close>

definition lock_open_edition :: "prod_env \<Rightarrow> uuid \<Rightarrow> unit result" where
  "lock_open_edition env e = (case env_editions env e of
     None \<Rightarrow> Inl (ValueError ''edition_not_found'')
   | Some EditionArchived \<Rightarrow> Inl (ValueError ''production_edition_archived'')
   | Some EditionOpen \<Rightarrow> Inr ())"

definition route_kind :: "prod_env \<Rightarrow> production_run \<Rightarrow> publication_kind option" where
  "route_kind env r = (case run_routing_decision_id r of
     None \<Rightarrow> None
   | Some d \<Rightarrow> (case env_routes env d of Some (True, k) \<Rightarrow> k | _ \<Rightarrow> None))"

definition ready_states :: "string list" where
  "ready_states = [''archived'', ''extracted'', ''completed'']"

definition archived_source_count :: "prod_env \<Rightarrow> uuid \<Rightarrow> int" where
  "archived_source_count env s = int (length (filter (\<lambda>x. x \<in> set ready_states) (env_source_states env s)))"

subsection \<open>Recovery of one article (\<open>production_review_recovery.py\<close>)\<close>

definition ensure_no_active_subject_run :: "production_run \<Rightarrow> prod_world \<Rightarrow> unit result" where
  "ensure_no_active_subject_run r w = (case current_run_for_subject w (run_subject_id r) of
     None \<Rightarrow> Inr ()
   | Some c \<Rightarrow> if run_id c \<noteq> run_id r \<and> run_active c then Inl (ReviewRecovery ''active_subject_run'') else Inr ())"

definition ensure_no_active_batch :: "batch \<Rightarrow> prod_world \<Rightarrow> unit result" where
  "ensure_no_active_batch b w = (case active_batch_for_edition w (ba_edition_id b) of
     None \<Rightarrow> Inr ()
   | Some a \<Rightarrow> if ba_id a \<noteq> ba_id b then Inl (ReviewRecovery ''active_batch'') else Inr ())"

definition item_runs_now :: "prod_world \<Rightarrow> batch_item \<Rightarrow> bool" where
  "item_runs_now w i = (case runs_get w (bi_run_id i) of None \<Rightarrow> False | Some r \<Rightarrow> run_status r = RRunning)"

definition ensure_no_active_sibling :: "uuid \<Rightarrow> uuid \<Rightarrow> prod_world \<Rightarrow> unit result" where
  "ensure_no_active_sibling b r w =
     (if list_ex (\<lambda>i. bi_run_id i \<noteq> r \<and> item_runs_now w i) (items_for_batch w b)
      then Inl (ReviewRecovery ''active_sibling'') else Inr ())"

definition prepare_batch_for_recovery ::
  "datetime \<Rightarrow> production_run \<Rightarrow> bool \<Rightarrow> prod_world \<Rightarrow> (batch option \<times> prod_world) result" where
  "prepare_batch_for_recovery t r reopen w = (case item_by_run w (run_id r) of
     None \<Rightarrow> Inr (None, w)
   | Some i \<Rightarrow> (case batches_get w (bi_batch_id i) of
       None \<Rightarrow> Inl (ReviewRecovery ''batch_missing'')
     | Some b \<Rightarrow>
         if ba_status b = BCancelled then Inl (ReviewRecovery ''batch_cancelled'')
         else if ba_status b = BPaused then Inl (ReviewRecovery ''batch_paused'')
         else and_then (ensure_no_active_subject_run r w) (\<lambda>_.
           let needs = (ba_status b \<notin> {BQueued, BRunning}) in
           and_then (if needs then ensure_no_active_batch b w else Inr ()) (\<lambda>_.
           and_then (ensure_no_active_sibling (ba_id b) (run_id r) w) (\<lambda>_.
             if reopen \<and> needs then and_then (batch_open_review_recovery t b) (\<lambda>(_, b').
               Inr (Some b', batches_save b' w))
             else Inr (Some b, w))))))"

definition repoint_batch_item :: "uuid option \<Rightarrow> uuid \<Rightarrow> prod_world \<Rightarrow> prod_world result" where
  "repoint_batch_item replaced replacement w = (case replaced of
     None \<Rightarrow> Inr w
   | Some old \<Rightarrow> (case item_by_run w old of
       None \<Rightarrow> Inr w
     | Some i \<Rightarrow> items_save (i\<lparr>bi_run_id := replacement, bi_auto_recovery_count := 0\<rparr>) w))"

subsection \<open>New runs\<close>

definition active_run_of_subject :: "prod_world \<Rightarrow> uuid \<Rightarrow> production_run option" where
  "active_run_of_subject w s = (case current_run_for_subject w s of
     None \<Rightarrow> None | Some r \<Rightarrow> if run_active r then Some r else None)"

definition prepare_production_run ::
  "prod_env \<Rightarrow> uuid \<Rightarrow> datetime \<Rightarrow> uuid \<Rightarrow> uuid \<Rightarrow> prod_world \<Rightarrow> production_run result" where
  "prepare_production_run env i t edition subject w = (case env_subjects env subject of
     None \<Rightarrow> Inl (BatchRequestConflict ''production_subject_not_found'' [subject])
   | Some e \<Rightarrow>
       if e \<noteq> edition then Inl (BatchRequestConflict ''production_subject_edition_mismatch'' [subject])
       else if env_origins env subject \<noteq> Some (subject, edition)
       then Inl (BatchRequestConflict ''production_subject_discovery_origin_missing'' [subject])
       else and_then (new_run i t subject edition (allocate_next_run_number w subject)) (\<lambda>r.
         case env_capture env w r of
           Inl (CollectionNotAllowed m) \<Rightarrow>
             Inl (BatchRequestConflict ''production_subject_lineage_unavailable'' [subject])
         | Inl e' \<Rightarrow> Inl e'
         | Inr d \<Rightarrow> Inr (r\<lparr>run_research_date := Some d\<rparr>)))"

subsection \<open>\<open>SubjectProductionService\<close>\<close>

text \<open>The insertion that loses the race on the unique index rereads the winner.\<close>

definition create_run ::
  "prod_env \<Rightarrow> uuid \<Rightarrow> datetime \<Rightarrow> uuid \<Rightarrow> uuid \<Rightarrow> uuid option \<Rightarrow> prod_world \<Rightarrow>
   ((production_run \<times> bool) \<times> prod_world) result" where
  "create_run env i t subject edition replaced w =
     and_then (lock_open_edition env edition) (\<lambda>_.
     case active_run_of_subject w subject of
       Some existing \<Rightarrow> Inr ((existing, False), w)
     | None \<Rightarrow>
       and_then (case replaced of
           None \<Rightarrow> Inr w
         | Some old \<Rightarrow> (case current_run_for_subject w subject of
             None \<Rightarrow> Inl (ValueError ''production_run_superseded'')
           | Some r \<Rightarrow>
               if run_id r \<noteq> old then Inl (ValueError ''production_run_superseded'')
               else if run_edition_id r \<noteq> edition then Inl (ValueError ''production_run_edition_changed'')
               else and_then (prepare_batch_for_recovery t r True w) (\<lambda>(_, w1). Inr w1)))
       (\<lambda>w1. and_then (prepare_production_run env i t edition subject w1) (\<lambda>r.
         case runs_add r w1 of
           Inl e \<Rightarrow> if e \<noteq> ActiveRunConflict then Inl e else (case active_run_of_subject w subject of
               Some winner \<Rightarrow> Inr ((winner, False), w) | None \<Rightarrow> Inl e)
         | Inr w2 \<Rightarrow> and_then (repoint_batch_item replaced i w2) (\<lambda>w3. Inr ((r, True), w3)))))"

definition run_missing :: error where
  "run_missing = ValueError ''Production run not found''"

definition start_run :: "prod_env \<Rightarrow> datetime \<Rightarrow> uuid \<Rightarrow> prod_world \<Rightarrow> (production_run \<times> prod_world) result" where
  "start_run env t i w = (case runs_get w i of
     None \<Rightarrow> Inl run_missing
   | Some r \<Rightarrow> and_then (lock_open_edition env (run_edition_id r)) (\<lambda>_.
       if run_status r = RCancelled then Inr (r, w)
       else if run_status r \<noteq> RRunning then and_then (run_start t r) (\<lambda>r'.
         and_then (runs_save r' w) (\<lambda>w'. Inr (r', w')))
       else Inr (r, w)))"

definition advance_stage :: "prod_env \<Rightarrow> datetime \<Rightarrow> uuid \<Rightarrow> prod_world \<Rightarrow> (production_run \<times> prod_world) result" where
  "advance_stage env t i w = (case runs_get w i of
     None \<Rightarrow> Inl run_missing
   | Some r \<Rightarrow> and_then (run_advance_stage (route_kind env r) t r) (\<lambda>r'.
       and_then (runs_save r' w) (\<lambda>w'. Inr (r', w'))))"

text \<open>\<open>mark_ready\<close>, \<open>mark_needs_review\<close> and \<open>mark_failed\<close>.\<close>

definition change_run ::
  "(production_run \<Rightarrow> production_run result) \<Rightarrow> uuid \<Rightarrow> prod_world \<Rightarrow> (production_run \<times> prod_world) result" where
  "change_run f i w = (case runs_get w i of
     None \<Rightarrow> Inl run_missing
   | Some r \<Rightarrow> and_then (f r) (\<lambda>r'. and_then (runs_save r' w) (\<lambda>w'. Inr (r', w'))))"

definition mark_ready :: "datetime \<Rightarrow> uuid \<Rightarrow> prod_world \<Rightarrow> (production_run \<times> prod_world) result" where
  "mark_ready t = change_run (run_mark_ready t)"

definition mark_needs_review ::
  "string \<Rightarrow> string \<Rightarrow> details option \<Rightarrow> datetime \<Rightarrow> uuid \<Rightarrow> prod_world \<Rightarrow> (production_run \<times> prod_world) result" where
  "mark_needs_review code message d t = change_run (run_mark_needs_review code message d None t)"

definition mark_failed ::
  "string \<Rightarrow> string \<Rightarrow> details option \<Rightarrow> datetime \<Rightarrow> uuid \<Rightarrow> prod_world \<Rightarrow> (production_run \<times> prod_world) result" where
  "mark_failed code message d t = change_run (run_mark_failed code message d t)"

record cancellation_result =
  cr_run :: production_run
  cr_batch_id :: "uuid option"
  cr_changed :: bool

definition cancel_run ::
  "prod_env \<Rightarrow> datetime \<Rightarrow> uuid \<Rightarrow> prod_world \<Rightarrow> (cancellation_result \<times> prod_world) result" where
  "cancel_run env t i w = (case runs_get w i of
     None \<Rightarrow> Inl (RunNotFound i)
   | Some r \<Rightarrow> and_then (lock_open_edition env (run_edition_id r)) (\<lambda>_.
       and_then (run_mark_cancelled t r) (\<lambda>r'.
       and_then (if run_status r = RCancelled then Inr w else runs_save r' w) (\<lambda>w'.
         Inr (\<lparr>cr_run = r', cr_batch_id = map_option bi_batch_id (item_by_run w i),
           cr_changed = (run_status r \<noteq> RCancelled)\<rparr>, w')))))"

definition artifact_statuses :: "prod_world \<Rightarrow> uuid \<Rightarrow> artifact_stage \<Rightarrow> artifact_status option" where
  "artifact_statuses w i = (\<lambda>a. map_option art_status (current_artifact w i a))"

definition resume_cancelled_run ::
  "prod_env \<Rightarrow> datetime \<Rightarrow> uuid \<Rightarrow> prod_world \<Rightarrow> ((production_run \<times> resume_plan \<times> uuid option) \<times> prod_world) result" where
  "resume_cancelled_run env t i w = (case runs_get w i of
     None \<Rightarrow> Inl (RunNotFound i)
   | Some r \<Rightarrow>
       if run_status r \<noteq> RCancelled then Inl (ValueError ''production_run_not_resumable'')
       else and_then (lock_open_edition env (run_edition_id r)) (\<lambda>_.
       and_then (prepare_batch_for_recovery t r True w) (\<lambda>(b, w1).
       and_then (plan_production_resume (env_classifier env) r (artifact_statuses w1 i)
           (archived_source_count env (run_subject_id r)) (route_kind env r)) (\<lambda>plan.
       and_then (run_resume_after_cancellation (rp_resume_from plan) t r) (\<lambda>r'.
       and_then (runs_save r' w1) (\<lambda>w2. Inr ((r', plan, map_option ba_id b), w2)))))))"

record retry_result =
  rr_run :: production_run
  rr_staled :: "string list"
  rr_previous_status :: run_status
  rr_previous_stage :: production_stage
  rr_old_generation :: int

definition check_retry_prerequisite ::
  "prod_env \<Rightarrow> production_stage \<Rightarrow> production_run \<Rightarrow> prod_world \<Rightarrow> unit result" where
  "check_retry_prerequisite env stage r w =
     (let k = route_kind env r in
      if stage \<notin> set (production_stages k) then Inl (ValueError ''retry_stage_not_in_pipeline'')
      else if stage = References \<and> archived_source_count env (run_subject_id r) = 0
      then Inl (RetryPrerequisiteMissing (stage_value stage) None (Some (stage_value Sources)))
      else and_then (prerequisite_artifact_for stage k) (\<lambda>p. case p of
          None \<Rightarrow> Inr ()
        | Some a \<Rightarrow> if current_artifact w (run_id r) a \<noteq> None then Inr ()
            else and_then (resolve_retry_stage (live_artifact_values w (run_id r)) stage k) (\<lambda>s.
              Inl (RetryPrerequisiteMissing (stage_value stage) (Some (artifact_value a)) (Some (stage_value s))))))"

definition retry_from_stage_in_uow ::
  "prod_env \<Rightarrow> datetime \<Rightarrow> production_stage \<Rightarrow> bool \<Rightarrow> uuid \<Rightarrow> prod_world \<Rightarrow> (retry_result \<times> prod_world) result" where
  "retry_from_stage_in_uow env t stage force i w = (case runs_get w i of
     None \<Rightarrow> Inl (RunNotFound i)
   | Some r \<Rightarrow>
       if run_status r = RCancelled then Inl run_cancelled_error
       else if run_active r then Inl (ValueError ''retry_not_allowed_while_running'')
       else and_then (check_retry_prerequisite env stage r w) (\<lambda>_.
       and_then (run_retry_from_stage stage force t r) (\<lambda>r'.
       and_then (downstream_artifacts_from_pipeline_stage stage False (route_kind env r)) (\<lambda>downstream.
       let (staled, w1) = mark_stages_stale i (insert (stage_value stage) (artifact_value ` set downstream)) w in
       and_then (runs_save r' w1) (\<lambda>w2.
         Inr (\<lparr>rr_run = r', rr_staled = staled, rr_previous_status = run_status r,
           rr_previous_stage = run_current_stage r, rr_old_generation = run_pipeline_generation r\<rparr>, w2))))))"

definition verified_reemission_stages :: "production_stage list" where
  "verified_reemission_stages = [Extraction, Relevance_Projection, Synthesis, Editorial_Enrichment]"

definition verified_reemission_limit :: int where
  "verified_reemission_limit = 2"

text \<open>The checks of an automatic retry before the batch is touched.\<close>

definition check_automatic_retry :: "bool \<Rightarrow> production_run \<Rightarrow> batch_item option \<Rightarrow> unit result" where
  "check_automatic_retry verified_no_answer r item = (case item of
     None \<Rightarrow> Inl (ValueError ''automatic_recovery_not_allowed'')
   | Some i \<Rightarrow>
       if verified_no_answer then
         (if disposition (run_error_code r) \<noteq> Auto then Inl (ValueError ''automatic_recovery_not_allowed'')
          else if run_current_stage r \<notin> set verified_reemission_stages
          then Inl (ValueError ''verified_reemission_stage_not_stateless'')
          else if verified_reemission_limit \<le> bi_verified_reemission_count i
          then Inl (ValueError ''verified_reemission_limit_reached'')
          else Inr ())
       else if \<not> recovery_eligible (bi_auto_recovery_count i) r
       then Inl (ValueError ''automatic_recovery_not_allowed'')
       else Inr ())"

definition ms_later :: "datetime \<Rightarrow> int \<Rightarrow> datetime" where
  "ms_later t ms = dt_plus t (ms * 1000)"

text \<open>The counter, the phase and the next dispatch of an automatic retry.\<close>

definition count_recovery :: "bool \<Rightarrow> batch_item \<Rightarrow> prod_world \<Rightarrow> prod_world result" where
  "count_recovery verified_no_answer i w = items_save
     (if verified_no_answer then i\<lparr>bi_verified_reemission_count := bi_verified_reemission_count i + 1\<rparr>
      else i\<lparr>bi_auto_recovery_count := bi_auto_recovery_count i + 1\<rparr>) w"

definition pace_recovery :: "datetime \<Rightarrow> int \<Rightarrow> batch \<Rightarrow> batch result" where
  "pace_recovery t delay b =
     and_then (if ba_phase b = PhaseInitial then batch_enter_recovery b else Inr b)
       (batch_schedule_next_dispatch (ms_later t delay))"

definition retry_from_stage ::
  "prod_env \<Rightarrow> datetime \<Rightarrow> int \<Rightarrow> uuid \<Rightarrow> production_stage \<Rightarrow> bool \<Rightarrow> bool \<Rightarrow> bool \<Rightarrow> prod_world \<Rightarrow>
   (retry_result \<times> prod_world) result" where
  "retry_from_stage env t delay i stage force automatic verified_no_answer w = (case runs_get w i of
     None \<Rightarrow> Inl (RunNotFound i)
   | Some r \<Rightarrow> and_then (lock_open_edition env (run_edition_id r)) (\<lambda>_.
       if run_status r = RCancelled then Inl run_cancelled_error
       else if run_active r then Inl (ValueError ''retry_not_allowed_while_running'')
       else if run_requires_reconciliation r then Inl ReconciliationRequired
       else if verified_no_answer \<and> (\<not> automatic \<or> run_error_code r \<noteq> Some ''bridge_run_unavailable'')
       then Inl (ValueError ''verified_reemission_requires_released_bridge_run'')
       else let item = item_by_run w i in
       and_then (if automatic then check_automatic_retry verified_no_answer r item else Inr ()) (\<lambda>_.
       and_then (prepare_batch_for_recovery t r True w) (\<lambda>(b, w1).
       and_then (retry_from_stage_in_uow env t stage force i w1) (\<lambda>(res, w2).
         case item of
           Some it \<Rightarrow>
             if \<not> automatic then Inr (res, w2)
             else and_then (count_recovery verified_no_answer it w2) (\<lambda>w3.
               case b of None \<Rightarrow> Inr (res, w3)
               | Some ba \<Rightarrow> and_then (pace_recovery t delay ba) (\<lambda>ba'. Inr (res, batches_save ba' w3)))
         | None \<Rightarrow> Inr (res, w2))))))"

subsection \<open>\<open>ProductionBatchService\<close>: creation\<close>

text \<open>
  Every subject is checked before the first write; the subjects already active are collected.
  \<open>run_of\<close> and \<open>item_of\<close> give the identifiers drawn for the run and the item of a subject.
\<close>

fun prepare_all ::
  "prod_env \<Rightarrow> datetime \<Rightarrow> uuid \<Rightarrow> (uuid \<Rightarrow> uuid) \<Rightarrow> uuid list \<Rightarrow> prod_world \<Rightarrow>
   (uuid list \<times> production_run list) result" where
  "prepare_all env t edition run_of [] w = Inr ([], [])"
| "prepare_all env t edition run_of (s # ss) w =
     (if active_run_of_subject w s \<noteq> None
      then and_then (prepare_all env t edition run_of ss w) (\<lambda>(active, rs). Inr (s # active, rs))
      else and_then (prepare_production_run env (run_of s) t edition s w) (\<lambda>r.
        and_then (prepare_all env t edition run_of ss w) (\<lambda>(active, rs). Inr (active, r # rs))))"

fun add_runs :: "production_run list \<Rightarrow> prod_world \<Rightarrow> prod_world result" where
  "add_runs [] w = Inr w"
| "add_runs (r # rs) w = and_then (runs_add r w) (add_runs rs)"

text \<open>\<open>enumerate(prepared, start=1)\<close>: the payload order is the dispatch order.\<close>

fun new_items :: "uuid \<Rightarrow> datetime \<Rightarrow> (uuid \<Rightarrow> uuid) \<Rightarrow> int \<Rightarrow> production_run list \<Rightarrow> batch_item list" where
  "new_items b t item_of n [] = []"
| "new_items b t item_of n (r # rs) =
     \<lparr>bi_batch_id = b, bi_subject_id = run_subject_id r, bi_run_id = run_id r, bi_position = n,
      bi_auto_recovery_count = 0, bi_verified_reemission_count = 0, bi_created_at = t,
      bi_id = item_of (run_subject_id r)\<rparr>
     # new_items b t item_of (n + 1) rs"

definition new_batch ::
  "prod_env \<Rightarrow> uuid \<Rightarrow> datetime \<Rightarrow> uuid \<Rightarrow> string \<Rightarrow> uuid list \<Rightarrow> string \<Rightarrow> string \<Rightarrow> batch result" where
  "new_batch env i t edition key subjects actor corr = batch_post_init
     \<lparr>ba_edition_id = edition, ba_status = BQueued, ba_idempotency_key = key,
      ba_request_fingerprint = batch_request_fingerprint (env_sha256 env) edition subjects,
      ba_actor_id = actor, ba_correlation_id = corr, ba_phase = PhaseInitial, ba_next_dispatch_at = None,
      ba_created_at = t, ba_started_at = None, ba_finished_at = None, ba_paused_at = None,
      ba_paused_by = None, ba_id = i, ba_version = 1\<rparr>"

definition create_batch ::
  "prod_env \<Rightarrow> uuid \<Rightarrow> (uuid \<Rightarrow> uuid) \<Rightarrow> (uuid \<Rightarrow> uuid) \<Rightarrow> datetime \<Rightarrow> uuid \<Rightarrow> uuid list \<Rightarrow> string \<Rightarrow> string \<Rightarrow> string \<Rightarrow>
   prod_world \<Rightarrow> ((batch \<times> bool) \<times> prod_world) result" where
  "create_batch env b run_of item_of t edition subjects key actor corr w =
     (if blank key then Inl (BatchRequestConflict ''production_idempotency_key_required'' [])
      else if subjects = [] then Inl (BatchRequestConflict ''production_subject_ids_required'' [])
      else if \<not> distinct subjects then Inl (BatchRequestConflict ''production_subject_ids_duplicate'' [])
      else let fingerprint = batch_request_fingerprint (env_sha256 env) edition subjects in
      case env_editions env edition of
        None \<Rightarrow> Inl (BatchRequestConflict ''edition_not_found'' [])
      | Some EditionArchived \<Rightarrow> Inl (BatchRequestConflict ''production_edition_archived'' [])
      | Some EditionOpen \<Rightarrow>
        (case batch_by_idempotency_key w edition key of
          Some existing \<Rightarrow>
            if ba_request_fingerprint existing \<noteq> fingerprint
            then Inl (BatchRequestConflict ''production_idempotency_conflict'' [])
            else Inr ((existing, False), w)
        | None \<Rightarrow>
          if active_batch_for_edition w edition \<noteq> None
          then Inl (BatchRequestConflict ''production_batch_active'' [])
          else and_then (prepare_all env t edition run_of subjects w) (\<lambda>(active, rs).
            if active \<noteq> [] then Inl (BatchRequestConflict ''production_subject_active'' active)
            else and_then (new_batch env b t edition key subjects actor corr) (\<lambda>ba.
            and_then (batches_add ba w) (\<lambda>w1.
            and_then (add_runs rs w1) (\<lambda>w2.
            and_then (items_append_many (new_items b t item_of 1 rs) w2) (\<lambda>w3.
              Inr ((ba, True), w3))))))))"

subsection \<open>\<open>ProductionBatchService\<close>: control\<close>

text \<open>Edition, batch and ownership, then the fence against an older batch.\<close>

definition lock_batch_for_control ::
  "prod_env \<Rightarrow> uuid \<Rightarrow> uuid \<Rightarrow> prod_world \<Rightarrow> batch result" where
  "lock_batch_for_control env edition b w = (case env_editions env edition of
     None \<Rightarrow> Inl (BatchNotFound edition)
   | Some EditionArchived \<Rightarrow> Inl (ValueError ''production_edition_archived'')
   | Some EditionOpen \<Rightarrow> (case batches_get w b of
       None \<Rightarrow> Inl (BatchNotFound b)
     | Some ba \<Rightarrow>
         if ba_edition_id ba \<noteq> edition
         then Inl (BatchOwnership ''Production batch does not belong to this edition'')
         else (case active_batch_for_edition w edition of
             None \<Rightarrow> Inr ba
           | Some active \<Rightarrow> if ba_id active \<noteq> ba_id ba
               then Inl (StaleBatch ''A newer production batch is active for this edition'') else Inr ba)))"

fun cancel_items ::
  "datetime \<Rightarrow> uuid \<Rightarrow> batch_item list \<Rightarrow> prod_world \<Rightarrow> ((uuid \<times> uuid) list \<times> prod_world) result" where
  "cancel_items t edition [] w = Inr ([], w)"
| "cancel_items t edition (i # is) w = (case runs_get w (bi_run_id i) of
     None \<Rightarrow> Inl (ValueError ''production_batch_run_missing'')
   | Some r \<Rightarrow>
       if run_edition_id r \<noteq> edition \<or> run_subject_id r \<noteq> bi_subject_id i
       then Inl (BatchOwnership ''Production run does not belong to this batch'')
       else if run_active r then and_then (run_mark_cancelled t r) (\<lambda>r'.
         and_then (runs_save r' w) (\<lambda>w1.
         and_then (cancel_items t edition is w1) (\<lambda>(cs, w2).
           Inr ((run_id r, run_subject_id r) # cs, w2))))
       else cancel_items t edition is w)"

definition cancel_batch ::
  "prod_env \<Rightarrow> datetime \<Rightarrow> uuid \<Rightarrow> uuid \<Rightarrow> prod_world \<Rightarrow>
   ((batch \<times> (uuid \<times> uuid) list \<times> bool) \<times> prod_world) result" where
  "cancel_batch env t edition b w = and_then (lock_batch_for_control env edition b w) (\<lambda>ba.
     if ba_status ba = BCancelled then Inr ((ba, [], False), w)
     else and_then (batch_cancel t ba) (\<lambda>(_, ba').
       let w1 = batches_save ba' w in
       and_then (cancel_items t edition (items_for_batch w1 (ba_id ba')) w1) (\<lambda>(cs, w2).
         Inr ((ba', cs, True), w2))))"

definition pause_batch ::
  "prod_env \<Rightarrow> datetime \<Rightarrow> uuid \<Rightarrow> uuid \<Rightarrow> string \<Rightarrow> prod_world \<Rightarrow> ((batch \<times> bool) \<times> prod_world) result" where
  "pause_batch env t edition b actor w = and_then (lock_batch_for_control env edition b w) (\<lambda>ba.
     and_then (batch_pause actor t ba) (\<lambda>(changed, ba').
       Inr ((ba', changed), if changed then batches_save ba' w else w)))"

definition resume_batch ::
  "prod_env \<Rightarrow> uuid \<Rightarrow> uuid \<Rightarrow> prod_world \<Rightarrow> ((batch \<times> bool) \<times> prod_world) result" where
  "resume_batch env edition b w = and_then (lock_batch_for_control env edition b w) (\<lambda>ba.
     and_then (batch_resume ba) (\<lambda>(changed, ba').
       Inr ((ba', changed), if changed then batches_save ba' w else w)))"

subsection \<open>\<open>ProductionBatchService\<close>: the hand-over\<close>

definition get_batch_in_lock_order :: "prod_env \<Rightarrow> uuid \<Rightarrow> prod_world \<Rightarrow> batch result" where
  "get_batch_in_lock_order env b w = (case batches_get w b of
     None \<Rightarrow> Inl (ValueError ''Batch not found'')
   | Some ba \<Rightarrow> and_then (lock_open_edition env (ba_edition_id ba)) (\<lambda>_. Inr ba))"

fun cancel_queued :: "datetime \<Rightarrow> batch_item list \<Rightarrow> prod_world \<Rightarrow> prod_world result" where
  "cancel_queued t [] w = Inr w"
| "cancel_queued t (i # is) w = (case runs_get w (bi_run_id i) of
     None \<Rightarrow> cancel_queued t is w
   | Some r \<Rightarrow>
       if run_status r = RQueued then and_then (run_mark_cancelled t r) (\<lambda>r'.
         and_then (runs_save r' w) (cancel_queued t is))
       else cancel_queued t is w)"

text \<open>
  The batch is started with its first subject, and saved only while it is running. The result is
  the run, the batch object of the transaction and the tables.
\<close>

definition start_subject ::
  "datetime \<Rightarrow> int option \<Rightarrow> production_run \<Rightarrow> batch \<Rightarrow> prod_world \<Rightarrow>
   (production_run option \<times> batch \<times> prod_world) result" where
  "start_subject t pace r ba w =
     and_then (run_start t r) (\<lambda>r'.
     and_then (runs_save r' w) (\<lambda>w1.
     and_then (if ba_status ba = BQueued then batch_start t ba else Inr ba) (\<lambda>ba1.
     and_then (case pace of None \<Rightarrow> Inr ba1
         | Some delay \<Rightarrow> batch_schedule_next_dispatch (ms_later t delay) ba1) (\<lambda>ba2.
       Inr (Some r', ba2, if ba_status ba2 = BRunning then batches_save ba2 w1 else w1)))))"

fun start_first ::
  "datetime \<Rightarrow> (int \<Rightarrow> int) option \<Rightarrow> batch_item list \<Rightarrow> batch \<Rightarrow> prod_world \<Rightarrow>
   (production_run option \<times> batch \<times> prod_world) result" where
  "start_first t pace [] ba w = Inr (None, ba, w)"
| "start_first t pace (i # is) ba w = (case runs_get w (bi_run_id i) of
     None \<Rightarrow> start_first t pace is ba w
   | Some r \<Rightarrow>
       if run_status r = RRunning then Inr (None, ba, w)
       else if run_status r = RQueued
       then start_subject t (map_option (\<lambda>d. d (bi_position i)) pace) r ba w
       else start_first t pace is ba w)"

text \<open>\<open>pace\<close> is the pacing policy when the hand-over spaces the subjects: a delay per position.\<close>

definition start_next_in_uow ::
  "datetime \<Rightarrow> (int \<Rightarrow> int) option \<Rightarrow> batch \<Rightarrow> prod_world \<Rightarrow>
   (production_run option \<times> batch \<times> prod_world) result" where
  "start_next_in_uow t pace ba w =
     (let is = items_for_batch w (ba_id ba) in
      if ba_status ba = BPaused then Inr (None, ba, w)
      else if ba_status ba = BCancelled
      then and_then (cancel_queued t is w) (\<lambda>w'. Inr (None, ba, w'))
      else start_first t pace is ba w)"

definition start_next ::
  "prod_env \<Rightarrow> datetime \<Rightarrow> uuid \<Rightarrow> prod_world \<Rightarrow> (production_run option \<times> prod_world) result" where
  "start_next env t b w = and_then (get_batch_in_lock_order env b w) (\<lambda>ba.
     and_then (start_next_in_uow t None ba w) (\<lambda>(r, _, w'). Inr (r, w')))"

definition is_prerequisite_error :: "error \<Rightarrow> bool" where
  "is_prerequisite_error e = (case e of
     RetryPrerequisiteMissing a b c \<Rightarrow> True
   | ValueError s \<Rightarrow> s = ''retry_prerequisite_missing''
   | _ \<Rightarrow> False)"

fun retry_next_recovery ::
  "prod_env \<Rightarrow> datetime \<Rightarrow> int \<Rightarrow> batch \<Rightarrow> batch_item list \<Rightarrow> prod_world \<Rightarrow>
   ((production_run \<times> batch) option \<times> prod_world) result" where
  "retry_next_recovery env t delay ba [] w = Inr (None, w)"
| "retry_next_recovery env t delay ba (i # is) w = (case runs_get w (bi_run_id i) of
     None \<Rightarrow> retry_next_recovery env t delay ba is w
   | Some r \<Rightarrow>
       if \<not> recovery_eligible (bi_auto_recovery_count i) r then retry_next_recovery env t delay ba is w
       else (case retry_from_stage_in_uow env t (run_current_stage r) False (run_id r) w of
           Inl e \<Rightarrow> if is_prerequisite_error e then retry_next_recovery env t delay ba is w else Inl e
         | Inr (res, w1) \<Rightarrow> and_then (count_recovery False i w1) (\<lambda>w2.
             and_then (pace_recovery t delay ba) (\<lambda>ba'.
               Inr (Some (rr_run res, ba'), batches_save ba' w2)))))"

definition not_ready :: "prod_world \<Rightarrow> batch_item \<Rightarrow> bool" where
  "not_ready w i = (case runs_get w (bi_run_id i) of None \<Rightarrow> False | Some r \<Rightarrow> run_status r \<noteq> RReady)"

definition finish_batch_in_uow :: "datetime \<Rightarrow> batch \<Rightarrow> batch_item list \<Rightarrow> prod_world \<Rightarrow> prod_world result" where
  "finish_batch_in_uow t ba is w =
     and_then (batch_enter_review ba) (\<lambda>ba1.
     and_then (batch_finish (list_ex (not_ready w) is) t ba1) (\<lambda>ba2. Inr (batches_save ba2 w)))"

definition run_terminal :: "production_run \<Rightarrow> bool" where
  "run_terminal r = (run_status r \<in> {RReady, RNeedsReview, RFailed, RCancelled})"

definition on_subject_terminal ::
  "prod_env \<Rightarrow> datetime \<Rightarrow> (int \<Rightarrow> int) \<Rightarrow> int \<Rightarrow> uuid \<Rightarrow> uuid \<Rightarrow> prod_world \<Rightarrow>
   (production_run option \<times> prod_world) result" where
  "on_subject_terminal env t pace cooldown b i w = and_then (get_batch_in_lock_order env b w) (\<lambda>ba.
     if (case item_by_run w i of None \<Rightarrow> True | Some it \<Rightarrow> bi_batch_id it \<noteq> ba_id ba) then Inr (None, w)
     else and_then (start_next_in_uow t (Some pace) ba w) (\<lambda>(started, ba1, w1).
       if started \<noteq> None then Inr (started, w1)
       else if ba_status ba1 = BCancelled then Inr (None, w1)
       else let is = items_for_batch w1 b; rows = map (\<lambda>it. runs_get w1 (bi_run_id it)) is in
         case find (\<lambda>r. case r of None \<Rightarrow> False | Some x \<Rightarrow> run_status x = RRunning) rows of
           Some active \<Rightarrow> Inr (active, w1)
         | None \<Rightarrow>
             if list_all (\<lambda>r. case r of None \<Rightarrow> False | Some x \<Rightarrow> run_terminal x) rows
                \<and> batch_dispatchable ba1
             then and_then (if ba_phase ba1 \<noteq> PhaseReview
                 then retry_next_recovery env t cooldown ba1 (sort_key bi_position is) w1 else Inr (None, w1))
               (\<lambda>(recovery, w2). case recovery of
                   Some (r, _) \<Rightarrow> Inr (Some r, w2)
                 | None \<Rightarrow> and_then (finish_batch_in_uow t ba1 is w1) (\<lambda>w3. Inr (None, w3)))
             else Inr (None, w1)))"

definition clear_next_dispatch :: "prod_env \<Rightarrow> uuid \<Rightarrow> prod_world \<Rightarrow> prod_world result" where
  "clear_next_dispatch env i w = (case item_by_run w i of
     None \<Rightarrow> Inr w
   | Some it \<Rightarrow> and_then (get_batch_in_lock_order env (bi_batch_id it) w) (\<lambda>ba.
       and_then (batch_clear_next_dispatch ba) (\<lambda>ba'. Inr (batches_save ba' w))))"

text \<open>Adoption of a routing decision: the version and generation compare-and-swap of the repository.\<close>

definition adopt_route :: "datetime \<Rightarrow> uuid \<Rightarrow> uuid \<Rightarrow> int \<Rightarrow> int \<Rightarrow> prod_world \<Rightarrow> prod_world result" where
  "adopt_route t i decision version generation w = (case runs_get w i of
     None \<Rightarrow> Inl (ValueError ''production routing run does not exist'')
   | Some r \<Rightarrow>
       if run_pipeline_generation r \<noteq> generation then Inl (ValueError ''routing decision generation is not current'')
       else if run_routing_decision_id r = Some decision then Inr w
       else if run_version r \<noteq> version
       then Inl (ValueError ''production run version changed before routing decision adoption'')
       else Inr (w\<lparr>pw_runs := map (\<lambda>x. if run_id x = i then x\<lparr>run_routing_decision_id := Some decision,
         run_version := run_version x + 1, run_updated_at := t\<rparr> else x) (pw_runs w)\<rparr>))"

subsection \<open>The services as a machine\<close>

datatype prod_op =
    OpCreateRun uuid datetime uuid uuid "uuid option"
  | OpStartRun datetime uuid
  | OpAdvance datetime uuid
  | OpReady datetime uuid
  | OpReview string string "details option" datetime uuid
  | OpFail string string "details option" datetime uuid
  | OpCancelRun datetime uuid
  | OpResumeRun datetime uuid
  | OpRetry datetime int uuid production_stage bool bool bool
  | OpCreateBatch uuid "uuid \<Rightarrow> uuid" "uuid \<Rightarrow> uuid" datetime uuid "uuid list" string string string
  | OpCancelBatch datetime uuid uuid
  | OpPauseBatch datetime uuid uuid string
  | OpResumeBatch uuid uuid
  | OpStartNext datetime uuid
  | OpHandOver datetime "int \<Rightarrow> int" int uuid uuid
  | OpClear uuid
  | OpAdoptRoute datetime uuid uuid int int

definition effect :: "('a \<times> prod_world) result \<Rightarrow> prod_world result" where
  "effect r = and_then r (\<lambda>p. Inr (snd p))"

lemma effect_Inr: "effect r = Inr w \<longleftrightarrow> (\<exists>x. r = Inr (x, w))"
  by (auto simp: effect_def and_then_Inr)

text \<open>Each request meets the environment of its moment.\<close>

fun prod_exec :: "prod_env \<times> prod_op \<Rightarrow> prod_world \<Rightarrow> prod_world result" where
  "prod_exec (env, OpCreateRun i t s e old) w = effect (create_run env i t s e old w)"
| "prod_exec (env, OpStartRun t i) w = effect (start_run env t i w)"
| "prod_exec (env, OpAdvance t i) w = effect (advance_stage env t i w)"
| "prod_exec (env, OpReady t i) w = effect (mark_ready t i w)"
| "prod_exec (env, OpReview c m d t i) w = effect (mark_needs_review c m d t i w)"
| "prod_exec (env, OpFail c m d t i) w = effect (mark_failed c m d t i w)"
| "prod_exec (env, OpCancelRun t i) w = effect (cancel_run env t i w)"
| "prod_exec (env, OpResumeRun t i) w = effect (resume_cancelled_run env t i w)"
| "prod_exec (env, OpRetry t d i s f a v) w = effect (retry_from_stage env t d i s f a v w)"
| "prod_exec (env, OpCreateBatch b ro io t e ss k a c) w = effect (create_batch env b ro io t e ss k a c w)"
| "prod_exec (env, OpCancelBatch t e b) w = effect (cancel_batch env t e b w)"
| "prod_exec (env, OpPauseBatch t e b a) w = effect (pause_batch env t e b a w)"
| "prod_exec (env, OpResumeBatch e b) w = effect (resume_batch env e b w)"
| "prod_exec (env, OpStartNext t b) w = effect (start_next env t b w)"
| "prod_exec (env, OpHandOver t p c b i) w = effect (on_subject_terminal env t p c b i w)"
| "prod_exec (env, OpClear i) w = clear_next_dispatch env i w"
| "prod_exec (env, OpAdoptRoute t i d v g) w = adopt_route t i d v g w"

end
