(* ===== verification/BatchProtocol.thy ===== *)
theory BatchProtocol
  imports BatchService
begin

text \<open>
  The dispatch protocol behind \<open>subject_production.py\<close>, as an abstract step relation on the production
  tables: what a transaction may do to the activity of runs and batches. The services are proved to
  take only such steps, and the safety of the protocol is proved once, on the steps.
\<close>

subsection \<open>Views of the tables\<close>

definition run_idle :: "prod_world \<Rightarrow> uuid \<Rightarrow> bool" where
  "run_idle w i = (case runs_get w i of None \<Rightarrow> True | Some r \<Rightarrow> \<not> run_active r)"

definition run_runs :: "prod_world \<Rightarrow> uuid \<Rightarrow> bool" where
  "run_runs w i = (case runs_get w i of None \<Rightarrow> False | Some r \<Rightarrow> run_status r = RRunning)"

definition batch_cancelled :: "prod_world \<Rightarrow> uuid \<Rightarrow> bool" where
  "batch_cancelled w b = (case batches_get w b of None \<Rightarrow> False | Some ba \<Rightarrow> ba_status ba = BCancelled)"

text \<open>No batch of the run is cancelled.\<close>

definition admitted :: "prod_world \<Rightarrow> uuid \<Rightarrow> bool" where
  "admitted w i = (\<forall>it \<in> set (pw_items w). bi_run_id it = i \<longrightarrow> \<not> batch_cancelled w (bi_batch_id it))"

text \<open>It is the turn of the run: the earlier subjects of its batch are idle and no other one runs.\<close>

definition has_turn :: "prod_world \<Rightarrow> uuid \<Rightarrow> bool" where
  "has_turn w i = (\<forall>it \<in> set (pw_items w). bi_run_id it = i \<longrightarrow>
     (\<forall>jt \<in> set (pw_items w). bi_batch_id jt = bi_batch_id it \<and> bi_run_id jt \<noteq> i \<longrightarrow>
        \<not> run_runs w (bi_run_id jt) \<and> (bi_position jt < bi_position it \<longrightarrow> run_idle w (bi_run_id jt))))"

lemma run_runs_not_idle: "run_runs w i \<Longrightarrow> \<not> run_idle w i"
  by (auto simp: run_runs_def run_idle_def run_active_def split: option.splits)

subsection \<open>Effects of the writes\<close>

lemma find_map_id:
  assumes "\<And>x. key (f x) = key x"
  shows "find (\<lambda>x. key x = k) (map f xs) = map_option f (find (\<lambda>x. key x = k) xs)"
  by (induction xs) (auto simp: assms)

lemma run_saved_columns_simps [simp]:
  "run_id (run_saved_columns r x) = run_id r"
  "run_status (run_saved_columns r x) = run_status r"
  by (simp_all add: run_saved_columns_def)

lemma runs_get_id: "runs_get w i = Some r \<Longrightarrow> run_id r = i"
  by (auto simp: runs_get_def dest: find_member)

lemma batches_get_id: "batches_get w i = Some b \<Longrightarrow> ba_id b = i"
  by (auto simp: batches_get_def dest: find_member)

lemma batches_get_mem: "batches_get w i = Some b \<Longrightarrow> b \<in> set (pw_batches w)"
  by (auto simp: batches_get_def dest: find_member)

lemma item_by_run_mem: "item_by_run w i = Some it \<Longrightarrow> it \<in> set (pw_items w) \<and> bi_run_id it = i"
  by (auto simp: item_by_run_def dest: find_member)

lemma runs_save_frame: "runs_save r w = Inr w' \<Longrightarrow>
    pw_batches w' = pw_batches w \<and> pw_items w' = pw_items w \<and> pw_artifacts w' = pw_artifacts w"
  by (auto simp: runs_save_def split: if_splits)

lemma runs_save_get:
  assumes "runs_save r w = Inr w'"
  shows "runs_get w' i = (if i = run_id r then map_option (run_saved_columns r) (runs_get w i) else runs_get w i)"
proof -
  let ?f = "\<lambda>x. if run_id x = run_id r then run_saved_columns r x else x"
  have "runs_get w' i = map_option ?f (runs_get w i)"
    using assms find_map_id [of run_id ?f i "pw_runs w"]
    by (auto simp: runs_save_def runs_get_def split: if_splits)
  then show ?thesis using runs_get_id [of w i] by (cases "runs_get w i") auto
qed

lemma runs_save_views:
  assumes "runs_save r w = Inr w'" and "runs_get w (run_id r) = Some r0"
  shows "run_idle w' i = (if i = run_id r then \<not> run_active r else run_idle w i)"
    and "run_runs w' i = (if i = run_id r then run_status r = RRunning else run_runs w i)"
    and "batches_get w' = batches_get w"
  using assms runs_save_frame [OF assms(1)]
  by (simp_all add: run_idle_def run_runs_def runs_save_get [OF assms(1)] run_active_def batches_get_def
      fun_eq_iff)

lemma batches_save_frame [simp]:
  "pw_runs (batches_save b w) = pw_runs w" "pw_items (batches_save b w) = pw_items w"
  "pw_artifacts (batches_save b w) = pw_artifacts w"
  by (simp_all add: batches_save_def)

lemma batches_save_get: "batches_get (batches_save b w) i =
    (if i = ba_id b then map_option (\<lambda>x. b\<lparr>ba_edition_id := ba_edition_id x, ba_created_at := ba_created_at x\<rparr>)
       (batches_get w i) else batches_get w i)"
proof -
  let ?f = "\<lambda>x. if ba_id x = ba_id b
     then b\<lparr>ba_edition_id := ba_edition_id x, ba_created_at := ba_created_at x\<rparr> else x"
  have "batches_get (batches_save b w) i = map_option ?f (batches_get w i)"
    using find_map_id [of ba_id ?f i "pw_batches w"] by (simp add: batches_save_def batches_get_def)
  then show ?thesis using batches_get_id [of w i] by (cases "batches_get w i") auto
qed

lemma batches_save_runs [simp]: "runs_get (batches_save b w) = runs_get w"
  "run_idle (batches_save b w) = run_idle w" "run_runs (batches_save b w) = run_runs w"
  by (simp_all add: runs_get_def run_idle_def run_runs_def fun_eq_iff)

subsection \<open>The step relation\<close>

text \<open>
  The flag marks the steps that respect the editorial order. \<open>Settle\<close> never activates a run;
  \<open>Activate\<close> starts one outside cancelled batches; \<open>Move\<close> rewrites a batch row; \<open>Enrol\<close> adds a
  whole batch; \<open>Count\<close> and \<open>Repoint\<close> rewrite an item.
\<close>

inductive pstep :: "bool \<Rightarrow> prod_world \<Rightarrow> prod_world \<Rightarrow> bool" where
  Settle: "pstep ord w w'"
    if "runs_get w (run_id r) = Some r0" and "run_active r \<longrightarrow> run_status r = run_status r0"
      and "runs_save r w = Inr w'" and "run_subject_id r = run_subject_id r0"
| Activate: "pstep ord w w'"
    if "runs_get w (run_id r) = Some r0" and "run_status r = RRunning" and "admitted w (run_id r)"
      and "ord \<longrightarrow> has_turn w (run_id r)" and "runs_save r w = Inr w'"
      and "run_subject_id r = run_subject_id r0"
| Move: "pstep ord w (batches_save b w)"
    if "batches_get w (ba_id b) = Some b0" and "ba_edition_id b = ba_edition_id b0"
      and "ba_status b0 = BCancelled \<longrightarrow> ba_status b = BCancelled"
      and "ba_status b = BCancelled \<longrightarrow> ba_status b0 = BCancelled
        \<or> (\<forall>it \<in> set (pw_items w). bi_batch_id it = ba_id b \<longrightarrow> run_idle w (bi_run_id it))"
      and "batch_active b \<longrightarrow> batch_active b0
        \<or> (\<forall>x \<in> set (pw_batches w). batch_active x \<longrightarrow> ba_edition_id x = ba_edition_id b \<longrightarrow> ba_id x = ba_id b)"
| Enrol: "pstep ord w w'"
    if "batches_add b w = Inr w1" and "add_runs rs w1 = Inr w2"
      and "items_append_many (new_items (ba_id b) t item_of 1 rs) w2 = Inr w'"
      and "ba_status b = BQueued" and "\<forall>r \<in> set rs. run_status r = RQueued"
      and "\<forall>x \<in> set (pw_batches w). batch_active x \<longrightarrow> ba_edition_id x \<noteq> ba_edition_id b"
| Add: "pstep ord w w'"
    if "runs_add r w = Inr w'"
| Count: "pstep ord w w'"
    if "it \<in> set (pw_items w)" and "bi_id i = bi_id it" and "bi_run_id i = bi_run_id it"
      and "items_save i w = Inr w'"
| Repoint: "pstep False w w'"
    if "it \<in> set (pw_items w)" and "bi_id i = bi_id it" and "\<not> batch_cancelled w (bi_batch_id it)"
      and "runs_get w (bi_run_id i) \<noteq> None" and "\<forall>jt \<in> set (pw_items w). bi_run_id jt \<noteq> bi_run_id i"
      and "items_save i w = Inr w'"
| Stale: "pstep ord w (w\<lparr>pw_artifacts := xs\<rparr>)"
| Relabel: "pstep ord w (w\<lparr>pw_runs := map f (pw_runs w)\<rparr>)"
    if "\<And>r. run_id (f r) = run_id r" and "\<And>r. run_status (f r) = run_status r"
      and "\<And>r. run_subject_id (f r) = run_subject_id r"

abbreviation psteps :: "bool \<Rightarrow> prod_world \<Rightarrow> prod_world \<Rightarrow> bool" where
  "psteps ord \<equiv> (pstep ord)\<^sup>*\<^sup>*"

lemma pstep_weaken: "pstep ord w w' \<Longrightarrow> pstep False w w'"
  by (induction rule: pstep.induct) (auto intro: pstep.intros)

lemma psteps_weaken: "psteps ord w w' \<Longrightarrow> psteps False w w'"
  by (induction rule: rtranclp_induct) (auto intro: rtranclp.rtrancl_into_rtrancl pstep_weaken)

subsection \<open>Integrity and safety invariants\<close>

definition items_wf :: "prod_world \<Rightarrow> bool" where
  "items_wf w \<longleftrightarrow> distinct (map bi_id (pw_items w)) \<and> distinct (map bi_run_id (pw_items w))
     \<and> (\<forall>it \<in> set (pw_items w). runs_get w (bi_run_id it) \<noteq> None \<and> batches_get w (bi_batch_id it) \<noteq> None)
     \<and> (\<forall>it \<in> set (pw_items w). \<forall>jt \<in> set (pw_items w).
          bi_batch_id it = bi_batch_id jt \<and> bi_position it = bi_position jt \<longrightarrow> it = jt)"

text \<open>Nothing of a cancelled batch is active.\<close>

definition barrier :: "prod_world \<Rightarrow> bool" where
  "barrier w \<longleftrightarrow> (\<forall>it \<in> set (pw_items w). batch_cancelled w (bi_batch_id it) \<longrightarrow> run_idle w (bi_run_id it))"

text \<open>An edition has at most one active batch, and the batch identifiers are distinct.\<close>

definition one_active :: "prod_world \<Rightarrow> bool" where
  "one_active w \<longleftrightarrow> distinct (map ba_id (pw_batches w))
     \<and> (\<forall>x \<in> set (pw_batches w). \<forall>y \<in> set (pw_batches w).
          batch_active x \<and> batch_active y \<and> ba_edition_id x = ba_edition_id y \<longrightarrow> ba_id x = ba_id y)"

definition prod_inv :: "prod_world \<Rightarrow> bool" where
  "prod_inv w \<longleftrightarrow> items_wf w \<and> barrier w \<and> one_active w"

text \<open>The editorial order: while a subject runs, the earlier ones of its batch are idle.\<close>

definition in_order :: "prod_world \<Rightarrow> bool" where
  "in_order w \<longleftrightarrow> (\<forall>it \<in> set (pw_items w). \<forall>jt \<in> set (pw_items w).
     bi_batch_id jt = bi_batch_id it \<and> bi_position jt < bi_position it \<and> run_runs w (bi_run_id it) \<longrightarrow>
     run_idle w (bi_run_id jt))"

lemma batch_active_update [simp]:
  "batch_active (b\<lparr>ba_edition_id := e, ba_created_at := c\<rparr>) = batch_active b"
  by (simp add: batch_active_def)

lemma items_save_items: "items_save i w = Inr w' \<Longrightarrow> pw_items w' = map (\<lambda>x. if bi_id x = bi_id i
    then x\<lparr>bi_run_id := bi_run_id i, bi_auto_recovery_count := bi_auto_recovery_count i,
      bi_verified_reemission_count := bi_verified_reemission_count i\<rparr> else x) (pw_items w)
    \<and> pw_runs w' = pw_runs w \<and> pw_batches w' = pw_batches w \<and> pw_artifacts w' = pw_artifacts w"
  by (auto simp: items_save_def split: if_splits)

lemma batch_cancelled_save: "batch_cancelled (batches_save b w) i =
    (if i = ba_id b \<and> batches_get w i \<noteq> None then ba_status b = BCancelled else batch_cancelled w i)"
  by (auto simp: batch_cancelled_def batches_save_get split: option.splits)

lemma views_cong:
  "pw_runs w' = pw_runs w \<Longrightarrow> runs_get w' = runs_get w \<and> run_idle w' = run_idle w \<and> run_runs w' = run_runs w"
  "pw_batches w' = pw_batches w \<Longrightarrow> batches_get w' = batches_get w \<and> batch_cancelled w' = batch_cancelled w"
  by (auto simp: runs_get_def run_idle_def run_runs_def batches_get_def batch_cancelled_def fun_eq_iff)

lemma add_runs_effect: "add_runs rs w = Inr w' \<Longrightarrow>
    pw_runs w' = pw_runs w @ rs \<and> pw_batches w' = pw_batches w \<and> pw_items w' = pw_items w
    \<and> pw_artifacts w' = pw_artifacts w
    \<and> (\<forall>r \<in> set rs. runs_get w (run_id r) = None) \<and> distinct (map run_id rs)"
proof (induction rs arbitrary: w)
  case (Cons r rs)
  then obtain w1 where add: "runs_add r w = Inr w1" and rest: "add_runs rs w1 = Inr w'"
    by (auto simp: and_then_Inr)
  then have w1: "w1 = w\<lparr>pw_runs := pw_runs w @ [r]\<rparr>" and fresh: "runs_get w (run_id r) = None"
    by (auto simp: runs_add_def split: if_splits)
  have later: "runs_get w (run_id x) = None \<and> run_id x \<noteq> run_id r" if "x \<in> set rs" for x
  proof -
    have "runs_get w1 (run_id x) = None" using Cons.IH [OF rest] that by blast
    then show ?thesis by (auto simp: w1 runs_get_def find_append split: option.splits if_splits)
  qed
  then have "distinct (map run_id (r # rs))" using Cons.IH [OF rest] by force
  with Cons.IH [OF rest] fresh later show ?case by (auto simp: w1)
qed simp

lemma runs_get_append: "pw_runs w' = pw_runs w @ rs \<Longrightarrow>
    runs_get w' i = (case runs_get w i of None \<Rightarrow> find (\<lambda>r. run_id r = i) rs | Some r \<Rightarrow> Some r)"
  by (simp add: runs_get_def find_append)

definition items_keyed :: "batch_item list \<Rightarrow> bool" where
  "items_keyed is \<longleftrightarrow> distinct (map bi_id is) \<and> (\<forall>x \<in> set is. \<forall>y \<in> set is.
     bi_batch_id x = bi_batch_id y \<and> bi_position x = bi_position y \<longrightarrow> x = y)"

lemma items_append_many_effect: "items_append_many is w = Inr w' \<Longrightarrow> items_keyed (pw_items w) \<Longrightarrow>
    pw_items w' = pw_items w @ is \<and> pw_runs w' = pw_runs w \<and> pw_batches w' = pw_batches w
    \<and> items_keyed (pw_items w')"
proof (induction "is" arbitrary: w)
  case (Cons i "is")
  let ?w = "w\<lparr>pw_items := pw_items w @ [i]\<rparr>"
  have ok: "\<not> list_ex (item_clash i) (pw_items w)" and rest: "items_append_many is ?w = Inr w'"
    using Cons.prems(1) by (auto split: if_splits)
  have "items_keyed (pw_items ?w)"
    using ok Cons.prems(2) by (force simp: items_keyed_def list_ex_iff item_clash_def)
  with Cons.IH [OF rest] show ?case by auto
qed simp

lemma new_items_simps:
  "map bi_run_id (new_items b t f n rs) = map run_id rs"
  "x \<in> set (new_items b t f n rs) \<Longrightarrow> bi_batch_id x = b"
  by (induction rs arbitrary: n) auto

lemma items_wf_keyed: "items_wf w \<Longrightarrow> items_keyed (pw_items w)"
  by (auto simp: items_wf_def items_keyed_def)

lemma batches_add_effect: "batches_add b w = Inr w1 \<Longrightarrow>
    w1 = w\<lparr>pw_batches := pw_batches w @ [b]\<rparr> \<and> batches_get w (ba_id b) = None"
  by (auto simp: batches_add_def split: if_splits)

text \<open>The tables after the enrolment of a batch.\<close>

lemma enrol_effect:
  assumes "batches_add b w = Inr w1" and "add_runs rs w1 = Inr w2"
    and "items_append_many (new_items (ba_id b) t item_of 1 rs) w2 = Inr w'" and "items_wf w"
  shows "pw_items w' = pw_items w @ new_items (ba_id b) t item_of 1 rs" "pw_runs w' = pw_runs w @ rs"
    "pw_batches w' = pw_batches w @ [b]" "items_keyed (pw_items w')"
    "\<forall>r \<in> set rs. runs_get w (run_id r) = None" "distinct (map run_id rs)" "batches_get w (ba_id b) = None"
proof -
  have b: "w1 = w\<lparr>pw_batches := pw_batches w @ [b]\<rparr>" "batches_get w (ba_id b) = None"
    using batches_add_effect [OF assms(1)] by auto
  note r = add_runs_effect [OF assms(2)]
  have "pw_items w2 = pw_items w" using r b by simp
  then have "items_keyed (pw_items w2)" using items_wf_keyed [OF assms(4)] by simp
  note i = items_append_many_effect [OF assms(3) this]
  have "runs_get w1 = runs_get w" by (simp add: b runs_get_def fun_eq_iff)
  with b r i show "pw_items w' = pw_items w @ new_items (ba_id b) t item_of 1 rs" "pw_runs w' = pw_runs w @ rs"
    "pw_batches w' = pw_batches w @ [b]" "items_keyed (pw_items w')"
    "\<forall>r \<in> set rs. runs_get w (run_id r) = None" "distinct (map run_id rs)" "batches_get w (ba_id b) = None"
    by auto
qed

lemma one_active_append:
  assumes "one_active w" and batches: "pw_batches w' = pw_batches w @ [b]"
    and "ba_id b \<notin> ba_id ` set (pw_batches w)"
    and "\<forall>x \<in> set (pw_batches w). batch_active x \<longrightarrow> ba_edition_id x \<noteq> ba_edition_id b"
  shows "one_active w'"
  unfolding one_active_def
proof (intro conjI ballI impI)
  show "distinct (map ba_id (pw_batches w'))" using assms by (simp add: one_active_def)
  fix x y
  assume "x \<in> set (pw_batches w')" "y \<in> set (pw_batches w')"
    and xy: "batch_active x \<and> batch_active y \<and> ba_edition_id x = ba_edition_id y"
  then have "(x \<in> set (pw_batches w) \<or> x = b) \<and> (y \<in> set (pw_batches w) \<or> y = b)" by (auto simp: batches)
  with assms(1,4) xy show "ba_id x = ba_id y" unfolding one_active_def by metis
qed

lemma enrol_inv:
  assumes "batches_add b w = Inr w1" and "add_runs rs w1 = Inr w2"
    and "items_append_many (new_items (ba_id b) t item_of 1 rs) w2 = Inr w'"
    and queued: "ba_status b = BQueued"
    and free: "\<forall>x \<in> set (pw_batches w). batch_active x \<longrightarrow> ba_edition_id x \<noteq> ba_edition_id b"
    and inv: "prod_inv w"
  shows "prod_inv w'"
proof -
  have wf: "items_wf w" using inv by (simp add: prod_inv_def)
  note e = enrol_effect [OF assms(1-3) wf]
  let ?new = "new_items (ba_id b) t item_of 1 rs"
  have old: "runs_get w' (bi_run_id it) = runs_get w (bi_run_id it)"
    "batches_get w' (bi_batch_id it) = batches_get w (bi_batch_id it)"
    "bi_run_id it \<notin> run_id ` set rs" if "it \<in> set (pw_items w)" for it
  proof -
    obtain r ba where r: "runs_get w (bi_run_id it) = Some r" and ba: "batches_get w (bi_batch_id it) = Some ba"
      using wf \<open>it \<in> set (pw_items w)\<close> by (fastforce simp: items_wf_def)
    from r show "runs_get w' (bi_run_id it) = runs_get w (bi_run_id it)" by (simp add: runs_get_append [OF e(2)])
    from ba show "batches_get w' (bi_batch_id it) = batches_get w (bi_batch_id it)"
      using e(3) by (simp add: batches_get_def find_append)
    from r e(5) show "bi_run_id it \<notin> run_id ` set rs" by auto
  qed
  have new: "batches_get w' (bi_batch_id it) = Some b" "runs_get w' (bi_run_id it) \<noteq> None"
    if "it \<in> set ?new" for it
  proof -
    have b: "bi_batch_id it = ba_id b" using new_items_simps(2) that by blast
    then show "batches_get w' (bi_batch_id it) = Some b"
      using e(3,7) by (simp add: batches_get_def find_append)
    have "bi_run_id it \<in> set (map bi_run_id ?new)" using that by simp
    then obtain r where "r \<in> set rs" "run_id r = bi_run_id it" unfolding new_items_simps(1) by auto
    then have "find (\<lambda>r. run_id r = bi_run_id it) rs \<noteq> None" by (auto simp: find_None_iff)
    then show "runs_get w' (bi_run_id it) \<noteq> None"
      by (auto simp: runs_get_append [OF e(2)] split: option.splits)
  qed
  have "distinct (map bi_run_id (pw_items w'))"
    using wf old(3) e(6) unfolding e(1) map_append new_items_simps(1)
    by (fastforce simp: items_wf_def)
  moreover have "runs_get w' (bi_run_id it) \<noteq> None \<and> batches_get w' (bi_batch_id it) \<noteq> None"
    if "it \<in> set (pw_items w')" for it
  proof -
    consider "it \<in> set (pw_items w)" | "it \<in> set ?new"
      using \<open>it \<in> set (pw_items w')\<close> unfolding e(1) by auto
    then show ?thesis
    proof cases
      case 1 then show ?thesis using old(1,2) wf by (simp add: items_wf_def)
    next
      case 2 then show ?thesis using new by simp
    qed
  qed
  ultimately have "items_wf w'" using e(4) by (simp add: items_wf_def items_keyed_def)
  moreover have "barrier w'"
    using inv old(1,2) new(1) queued
    by (auto simp: barrier_def prod_inv_def e(1) batch_cancelled_def run_idle_def)
  moreover have "one_active w'"
  proof -
    have "ba_id b \<notin> ba_id ` set (pw_batches w)" using e(7) by (auto simp: batches_get_def find_None_iff)
    then show ?thesis using one_active_append [OF _ e(3) _ free] inv by (simp add: prod_inv_def)
  qed
  ultimately show ?thesis by (simp add: prod_inv_def)
qed

lemma one_active_cong: "pw_batches w' = pw_batches w \<Longrightarrow> one_active w' = one_active w"
  by (simp add: one_active_def)

lemma items_wfI:
  assumes "distinct (map bi_id (pw_items w))" and "distinct (map bi_run_id (pw_items w))"
    and "\<And>it. it \<in> set (pw_items w) \<Longrightarrow> runs_get w (bi_run_id it) \<noteq> None \<and> batches_get w (bi_batch_id it) \<noteq> None"
    and "\<And>it jt. it \<in> set (pw_items w) \<Longrightarrow> jt \<in> set (pw_items w) \<Longrightarrow> bi_batch_id it = bi_batch_id jt \<Longrightarrow>
      bi_position it = bi_position jt \<Longrightarrow> it = jt"
  shows "items_wf w"
  using assms unfolding items_wf_def by blast

lemma items_wf_cong:
  assumes "items_wf w" and "pw_items w' = pw_items w"
    and "\<And>i. runs_get w i \<noteq> None \<Longrightarrow> runs_get w' i \<noteq> None"
    and "\<And>i. batches_get w i \<noteq> None \<Longrightarrow> batches_get w' i \<noteq> None"
  shows "items_wf w'"
  using assms unfolding items_wf_def by metis

lemma save_run_inv:
  assumes "prod_inv w" and row: "runs_get w (run_id r) = Some r0" and save: "runs_save r w = Inr w'"
    and idle: "\<And>it. it \<in> set (pw_items w) \<Longrightarrow> bi_run_id it = run_id r \<Longrightarrow>
      batch_cancelled w (bi_batch_id it) \<Longrightarrow> \<not> run_active r"
  shows "prod_inv w'"
proof -
  note f = runs_save_frame [OF save] and v = runs_save_views [OF save row] and g = runs_save_get [OF save]
  note c = views_cong(2) [of w' w, OF conjunct1 [OF f]]
  have "items_wf w" using assms(1) by (simp add: prod_inv_def)
  then have "items_wf w'" by (rule items_wf_cong) (use f c row in \<open>auto simp: g\<close>)
  moreover have "barrier w'" using assms(1) idle f c by (simp add: prod_inv_def barrier_def v)
  moreover have "one_active w'" using assms(1) one_active_cong f by (metis prod_inv_def)
  ultimately show ?thesis by (simp add: prod_inv_def)
qed

lemma save_item_inv:
  assumes inv: "prod_inv w" and it: "it \<in> set (pw_items w)" and same: "bi_id i = bi_id it"
    and save: "items_save i w = Inr w'"
    and run: "bi_run_id i = bi_run_id it \<or> (\<not> batch_cancelled w (bi_batch_id it)
      \<and> runs_get w (bi_run_id i) \<noteq> None \<and> (\<forall>jt \<in> set (pw_items w). bi_run_id jt \<noteq> bi_run_id i))"
  shows "prod_inv w'"
proof -
  let ?f = "\<lambda>x. if bi_id x = bi_id i then x\<lparr>bi_run_id := bi_run_id i,
      bi_auto_recovery_count := bi_auto_recovery_count i,
      bi_verified_reemission_count := bi_verified_reemission_count i\<rparr> else x"
  note f = items_save_items [OF save]
  have c: "runs_get w' = runs_get w" "run_idle w' = run_idle w" "batches_get w' = batches_get w"
    "batch_cancelled w' = batch_cancelled w"
    using views_cong [of w' w] f by auto
  have wf: "items_wf w" using inv by (simp add: prod_inv_def)
  have only: "x = it" if "x \<in> set (pw_items w)" "bi_id x = bi_id i" for x
    using wf it that same by (metis distinct_map inj_onD items_wf_def)
  have keep [simp]: "bi_id (?f x) = bi_id x" "bi_batch_id (?f x) = bi_batch_id x"
    "bi_position (?f x) = bi_position x" for x by auto
  have ids: "map bi_id (pw_items w') = map bi_id (pw_items w)" using f by simp
  have runs: "x = y" if x: "x \<in> set (pw_items w)" and y: "y \<in> set (pw_items w)"
    and eq: "bi_run_id (?f x) = bi_run_id (?f y)" for x y
  proof (cases "bi_run_id i = bi_run_id it")
    case True
    then have "bi_run_id (?f z) = bi_run_id z" if "z \<in> set (pw_items w)" for z
      using only [OF that] by auto
    with eq x y have "bi_run_id x = bi_run_id y" by metis
    with wf x y show ?thesis by (metis distinct_map inj_onD items_wf_def)
  next
    case False
    with run have fresh: "\<forall>jt \<in> set (pw_items w). bi_run_id jt \<noteq> bi_run_id i" by blast
    show ?thesis
    proof (cases "bi_id x = bi_id i \<or> bi_id y = bi_id i")
      case True
      with eq fresh x y have "bi_id x = bi_id i \<and> bi_id y = bi_id i" by (auto split: if_splits)
      with only x y show ?thesis by blast
    next
      case False
      with eq have "bi_run_id x = bi_run_id y" by simp
      with wf x y show ?thesis by (metis distinct_map inj_onD items_wf_def)
    qed
  qed
  have dist: "distinct (pw_items w)" using wf by (metis distinct_map items_wf_def)
  have rows: "\<exists>x. x \<in> set (pw_items w) \<and> z = ?f x" if "z \<in> set (pw_items w')" for z
    using that f by auto
  have exists: "runs_get w (bi_run_id (?f x)) \<noteq> None \<and> batches_get w (bi_batch_id x) \<noteq> None"
    if "x \<in> set (pw_items w)" for x
    using wf that run only [OF that] by (auto simp: items_wf_def)
  have "items_wf w'"
  proof (rule items_wfI)
    show "distinct (map bi_id (pw_items w'))" using ids wf by (simp add: items_wf_def)
    show "distinct (map bi_run_id (pw_items w'))"
      using runs dist by (auto simp: f distinct_map inj_on_def)
    fix z assume "z \<in> set (pw_items w')"
    then obtain x where x: "x \<in> set (pw_items w)" "z = ?f x" using rows by blast
    show "runs_get w' (bi_run_id z) \<noteq> None \<and> batches_get w' (bi_batch_id z) \<noteq> None"
      using exists [OF x(1)] unfolding x(2) keep c .
    fix z' assume "z' \<in> set (pw_items w')" and same: "bi_batch_id z = bi_batch_id z'" "bi_position z = bi_position z'"
    then obtain y where y: "y \<in> set (pw_items w)" "z' = ?f y" using rows by blast
    have "x = y" using wf x(1) y(1) same unfolding x(2) y(2) keep items_wf_def by blast
    then show "z = z'" using x(2) y(2) by simp
  qed
  moreover have "barrier w'"
    unfolding barrier_def
  proof (intro ballI impI)
    fix z assume "z \<in> set (pw_items w')" and canc: "batch_cancelled w' (bi_batch_id z)"
    then obtain x where x: "x \<in> set (pw_items w)" "z = ?f x" using f by auto
    have canc': "batch_cancelled w (bi_batch_id x)" using canc x(2) keep(2) by (simp add: c)
    have "bi_run_id z = bi_run_id x"
    proof (cases "bi_id x = bi_id i")
      case True
      then have "x = it" using only x(1) by blast
      with run canc' have "bi_run_id i = bi_run_id x" by blast
      then show ?thesis using x(2) True by simp
    qed (simp add: x(2))
    then show "run_idle w' (bi_run_id z)" using inv x(1) canc' by (simp add: c prod_inv_def barrier_def)
  qed
  moreover have "one_active w'" using inv one_active_cong f by (metis prod_inv_def)
  ultimately show ?thesis by (simp add: prod_inv_def)
qed

lemma batches_distinct_get:
  assumes "one_active w" and "batches_get w (ba_id x) = Some b0" and "x \<in> set (pw_batches w)"
  shows "x = b0"
proof -
  have "inj_on ba_id (set (pw_batches w))" using assms(1) by (simp add: one_active_def distinct_map)
  then show ?thesis using batches_get_mem [OF assms(2)] batches_get_id [OF assms(2)] assms(3)
    by (metis inj_onD)
qed

lemma move_inv:
  assumes inv: "prod_inv w" and row: "batches_get w (ba_id b) = Some b0"
    and edition: "ba_edition_id b = ba_edition_id b0"
    and seal: "ba_status b = BCancelled \<longrightarrow> ba_status b0 = BCancelled
        \<or> (\<forall>it \<in> set (pw_items w). bi_batch_id it = ba_id b \<longrightarrow> run_idle w (bi_run_id it))"
    and active: "batch_active b \<longrightarrow> batch_active b0
        \<or> (\<forall>x \<in> set (pw_batches w). batch_active x \<longrightarrow> ba_edition_id x = ba_edition_id b \<longrightarrow> ba_id x = ba_id b)"
  shows "prod_inv (batches_save b w)"
proof -
  let ?w = "batches_save b w"
  let ?g = "\<lambda>x. if ba_id x = ba_id b
     then b\<lparr>ba_edition_id := ba_edition_id x, ba_created_at := ba_created_at x\<rparr> else x"
  have wf: "items_wf w" and bar: "barrier w" and one: "one_active w" using inv by (simp_all add: prod_inv_def)
  from wf have "items_wf ?w" by (rule items_wf_cong) (auto simp: batches_save_get row)
  moreover have "barrier ?w"
    unfolding barrier_def
  proof (intro ballI impI)
    fix it assume it: "it \<in> set (pw_items ?w)" and canc: "batch_cancelled ?w (bi_batch_id it)"
    have "batch_cancelled w (ba_id b) \<longleftrightarrow> ba_status b0 = BCancelled" by (simp add: batch_cancelled_def row)
    then have "batch_cancelled w (bi_batch_id it) \<or> bi_batch_id it = ba_id b \<and> run_idle w (bi_run_id it)"
      using canc seal it by (auto simp: batch_cancelled_save split: if_splits)
    with bar it show "run_idle ?w (bi_run_id it)" by (auto simp: barrier_def)
  qed
  moreover have "one_active ?w"
    unfolding one_active_def
  proof (intro conjI ballI impI)
    have "map ba_id (pw_batches ?w) = map ba_id (pw_batches w)" by (simp add: batches_save_def)
    then show "distinct (map ba_id (pw_batches ?w))" using one by (simp add: one_active_def)
    have rows: "\<exists>x0 \<in> set (pw_batches w). x = ?g x0" if "x \<in> set (pw_batches ?w)" for x
      using that by (auto simp: batches_save_def)
    have attrs: "ba_id (?g x) = ba_id x \<and> ba_edition_id (?g x) = ba_edition_id x
        \<and> batch_active (?g x) = (if ba_id x = ba_id b then batch_active b else batch_active x)" for x by simp
    have old: "x = b0" if "x \<in> set (pw_batches w)" "ba_id x = ba_id b" for x
      using batches_distinct_get [OF one _ that(1)] row that(2) by simp
    fix x y
    assume "x \<in> set (pw_batches ?w)" "y \<in> set (pw_batches ?w)"
      and xy: "batch_active x \<and> batch_active y \<and> ba_edition_id x = ba_edition_id y"
    then obtain x0 y0 where x0: "x0 \<in> set (pw_batches w)" "x = ?g x0" and y0: "y0 \<in> set (pw_batches w)" "y = ?g y0"
      using rows by blast
    have ax: "ba_id x = ba_id x0" "ba_edition_id x = ba_edition_id x0"
        "batch_active x = (if ba_id x0 = ba_id b then batch_active b else batch_active x0)"
      and ay: "ba_id y = ba_id y0" "ba_edition_id y = ba_edition_id y0"
        "batch_active y = (if ba_id y0 = ba_id b then batch_active b else batch_active y0)"
      unfolding x0(2) y0(2) using attrs by blast+
    have ed: "ba_edition_id x0 = ba_edition_id y0" using xy unfolding ax(2) ay(2) by blast
    have pair: "ba_id u = ba_id v" if "u \<in> set (pw_batches w)" "v \<in> set (pw_batches w)" "ba_edition_id u = ba_edition_id v"
      "ba_id u = ba_id b" "batch_active b" "ba_id v \<noteq> ba_id b \<longrightarrow> batch_active v" for u v
    proof (cases "ba_id v = ba_id b")
      case False
      have "u = b0" using old that(1,4) by blast
      then show ?thesis using active one that False edition unfolding one_active_def by metis
    qed (simp add: that(4))
    consider "ba_id x0 = ba_id b" | "ba_id y0 = ba_id b" | "ba_id x0 \<noteq> ba_id b" "ba_id y0 \<noteq> ba_id b" by blast
    then have "ba_id x0 = ba_id y0"
    proof cases
      case 1 then show ?thesis using pair [OF x0(1) y0(1) ed 1] xy ax(3) ay(3) by auto
    next
      case 2 then show ?thesis using pair [OF y0(1) x0(1) ed [symmetric] 2] xy ax(3) ay(3) by auto
    next
      case 3
      then have "batch_active x0 \<and> batch_active y0" using xy ax(3) ay(3) by simp
      with one x0(1) y0(1) ed show ?thesis unfolding one_active_def by blast
    qed
    then show "ba_id x = ba_id y" unfolding ax(1) ay(1) .
  qed
  ultimately show ?thesis by (simp add: prod_inv_def)
qed

lemma runs_only_inv:
  assumes "prod_inv w" and "pw_items w' = pw_items w" and "pw_batches w' = pw_batches w"
    and "\<And>i. runs_get w i \<noteq> None \<Longrightarrow> runs_get w' i \<noteq> None \<and> run_idle w' i = run_idle w i"
  shows "prod_inv w'"
proof -
  note c = views_cong(2) [OF assms(3)]
  have wf: "items_wf w" using assms(1) by (simp add: prod_inv_def)
  then have "items_wf w'" by (rule items_wf_cong) (use assms c in auto)
  moreover have "barrier w'"
    using assms(1,4) wf by (auto simp: barrier_def prod_inv_def c assms(2) items_wf_def)
  moreover have "one_active w'" using assms(1) one_active_cong [OF assms(3)] by (simp add: prod_inv_def)
  ultimately show ?thesis by (simp add: prod_inv_def)
qed

lemma add_run_views:
  assumes "runs_add r w = Inr w'" and "runs_get w i \<noteq> None"
  shows "runs_get w' i = runs_get w i"
  using assms by (auto simp: runs_add_def runs_get_def find_append split: if_splits option.splits)

lemma relabel_views:
  assumes "\<And>r. run_id (f r) = run_id r" and "\<And>r. run_status (f r) = run_status r"
  shows "run_idle (w\<lparr>pw_runs := map f (pw_runs w)\<rparr>) i = run_idle w i"
    and "run_runs (w\<lparr>pw_runs := map f (pw_runs w)\<rparr>) i = run_runs w i"
    and "runs_get (w\<lparr>pw_runs := map f (pw_runs w)\<rparr>) i = map_option f (runs_get w i)"
  by (simp_all add: runs_get_def find_map_id [of run_id f, OF assms(1)] run_idle_def run_runs_def
      run_active_def assms split: option.splits)

lemma pstep_inv: "pstep ord w w' \<Longrightarrow> prod_inv w \<Longrightarrow> prod_inv w'"
proof (induction rule: pstep.induct)
  case (Settle w r r0 w' ord)
  have "run_idle w (run_id r) \<Longrightarrow> \<not> run_active r"
    using Settle(1,2) by (auto simp: run_idle_def run_active_def)
  moreover have "run_idle w (run_id r)"
    if "it \<in> set (pw_items w)" "bi_run_id it = run_id r" "batch_cancelled w (bi_batch_id it)" for it
    using Settle(5) that unfolding prod_inv_def barrier_def by metis
  ultimately show ?case by (blast intro: save_run_inv [OF Settle(5,1,3)])
next
  case (Activate w r r0 ord w')
  show ?case by (rule save_run_inv [OF Activate(7,1,5)]) (use Activate(3) in \<open>simp add: admitted_def\<close>)
next
  case (Move w b b0 ord)
  show ?case by (rule move_inv [OF Move(6,1,2,4,5)])
next
  case (Enrol b w w1 rs w2 t item_of w' ord)
  show ?case by (rule enrol_inv [OF Enrol(1-4,6,7)])
next
  case (Add r w w' ord)
  then have f: "pw_items w' = pw_items w" "pw_batches w' = pw_batches w"
    by (auto simp: runs_add_def split: if_splits)
  show ?case using add_run_views [OF Add(1)] by (intro runs_only_inv [OF Add(2) f]) (auto simp: run_idle_def)
next
  case (Count it w i w' ord)
  then show ?case by (blast intro: save_item_inv [OF Count(5,1,2,4)])
next
  case (Repoint it w i w')
  then show ?case by (blast intro: save_item_inv [OF Repoint(7,1,2,6)])
next
  case (Stale ord w xs)
  have "pw_runs (w\<lparr>pw_artifacts := xs\<rparr>) = pw_runs w" by simp
  note v = views_cong(1) [OF this]
  show ?case by (rule runs_only_inv [OF Stale]) (use v in auto)
next
  case (Relabel f ord w)
  show ?case by (rule runs_only_inv [OF Relabel(4)]) (auto simp: relabel_views [of f, OF Relabel(1,2)])
qed

lemma psteps_inv: "psteps ord w w' \<Longrightarrow> prod_inv w \<Longrightarrow> prod_inv w'"
  by (induction rule: rtranclp_induct) (auto intro: pstep_inv)

subsection \<open>One active run per subject\<close>

text \<open>The run identifiers are distinct and the partial unique index holds.\<close>

definition one_run :: "prod_world \<Rightarrow> bool" where
  "one_run w \<longleftrightarrow> distinct (map run_id (pw_runs w))
     \<and> (\<forall>x \<in> set (pw_runs w). \<forall>y \<in> set (pw_runs w).
          run_active x \<and> run_active y \<and> run_subject_id x = run_subject_id y \<longrightarrow> run_id x = run_id y)"

lemma one_runI:
  assumes "distinct (map run_id (pw_runs w))"
    and "\<And>x y. x \<in> set (pw_runs w) \<Longrightarrow> y \<in> set (pw_runs w) \<Longrightarrow> run_active x \<Longrightarrow> run_active y \<Longrightarrow>
      run_subject_id x = run_subject_id y \<Longrightarrow> run_id x = run_id y"
  shows "one_run w"
  using assms unfolding one_run_def by blast

lemma one_runD: "one_run w \<Longrightarrow> x \<in> set (pw_runs w) \<Longrightarrow> y \<in> set (pw_runs w) \<Longrightarrow> run_active x \<Longrightarrow> run_active y \<Longrightarrow>
    run_subject_id x = run_subject_id y \<Longrightarrow> run_id x = run_id y"
  unfolding one_run_def by blast

lemma one_run_cong: "pw_runs w' = pw_runs w \<Longrightarrow> one_run w' = one_run w"
  by (simp add: one_run_def)

lemma run_row: "one_run w \<Longrightarrow> x \<in> set (pw_runs w) \<Longrightarrow> runs_get w (run_id x) = Some x"
proof -
  assume one: "one_run w" and x: "x \<in> set (pw_runs w)"
  then obtain y where y: "runs_get w (run_id x) = Some y"
    by (cases "runs_get w (run_id x)") (auto simp: runs_get_def find_None_iff)
  then have "y \<in> set (pw_runs w)" "run_id y = run_id x" by (auto simp: runs_get_def dest: find_member)
  with one x have "y = x" by (metis distinct_map inj_onD one_run_def)
  with y show ?thesis by simp
qed

lemma save_one_run:
  assumes one: "one_run w" and row: "runs_get w (run_id r) = Some r0" and save: "runs_save r w = Inr w'"
    and subject: "run_subject_id r = run_subject_id r0"
  shows "one_run w'"
proof -
  let ?f = "\<lambda>x. if run_id x = run_id r then run_saved_columns r x else x"
  have clash: "\<not> active_clash r w" and runs: "pw_runs w' = map ?f (pw_runs w)"
    using save by (auto simp: runs_save_def split: if_splits)
  have f: "run_id (?f x) = run_id x" "run_subject_id (?f x) = run_subject_id x" for x
    by (simp_all add: run_saved_columns_def)
  have act: "run_active (run_saved_columns r x) = run_active r" for x by (simp add: run_active_def)
  have same: "run_subject_id x = run_subject_id r" if "x \<in> set (pw_runs w)" "run_id x = run_id r" for x
    using run_row [OF one that(1)] that(2) row subject by simp
  have free: "run_id x = run_id r" if "x \<in> set (pw_runs w)" "run_active r" "run_active x"
    "run_subject_id x = run_subject_id r" for x
    using clash that by (auto simp: active_clash_def list_ex_iff)
  have pair: "run_id x = run_id y" if x: "x \<in> set (pw_runs w)" and y: "y \<in> set (pw_runs w)" and "run_active (?f x)"
    "run_active (?f y)" "run_subject_id x = run_subject_id y" for x y
  proof -
    consider "run_id x = run_id r" "run_id y = run_id r" | "run_id x = run_id r" "run_id y \<noteq> run_id r"
      | "run_id x \<noteq> run_id r" "run_id y = run_id r" | "run_id x \<noteq> run_id r" "run_id y \<noteq> run_id r" by blast
    then show ?thesis
    proof cases
      case 2
      then show ?thesis using free [OF y] same [OF x] that by (simp add: act)
    next
      case 3
      then show ?thesis using free [OF x] same [OF y] that by (simp add: act)
    next
      case 4
      then show ?thesis using one_runD [OF one x y] that by simp
    qed simp
  qed
  show ?thesis
  proof (rule one_runI)
    show "distinct (map run_id (pw_runs w'))" using one unfolding one_run_def runs by (simp add: o_def f)
    fix x y
    assume "x \<in> set (pw_runs w')" "y \<in> set (pw_runs w')" and h: "run_active x" "run_active y"
      "run_subject_id x = run_subject_id y"
    then obtain x0 y0 where xy: "x0 \<in> set (pw_runs w)" "x = ?f x0" "y0 \<in> set (pw_runs w)" "y = ?f y0"
      unfolding runs by auto
    have "run_id x0 = run_id y0" using pair [OF xy(1,3)] h unfolding xy(2,4) f by blast
    then show "run_id x = run_id y" unfolding xy(2,4) f .
  qed
qed

lemma add_one_run: "runs_add r w = Inr w' \<Longrightarrow> one_run w \<Longrightarrow> one_run w'"
  by (fastforce simp: runs_add_def one_run_def active_clash_def list_ex_iff runs_get_def find_None_iff split: if_splits)

lemma add_runs_one_run: "add_runs rs w = Inr w' \<Longrightarrow> one_run w \<Longrightarrow> one_run w'"
  by (induction rs arbitrary: w) (auto simp: and_then_Inr intro: add_one_run)

lemma items_append_runs: "items_append_many is w = Inr w' \<Longrightarrow> pw_runs w' = pw_runs w"
  by (induction "is" arbitrary: w) (auto split: if_splits)

lemma relabel_one_run:
  assumes "\<And>r. run_id (f r) = run_id r" and "\<And>r. run_status (f r) = run_status r"
    and "\<And>r. run_subject_id (f r) = run_subject_id r" and "one_run w"
  shows "one_run (w\<lparr>pw_runs := map f (pw_runs w)\<rparr>)"
proof -
  have active: "run_active (f x) = run_active x" for x by (simp add: run_active_def assms(2))
  show ?thesis
  proof (rule one_runI)
    show "distinct (map run_id (pw_runs (w\<lparr>pw_runs := map f (pw_runs w)\<rparr>)))"
      using assms(4) unfolding one_run_def by (simp add: o_def assms(1))
    fix x y
    assume "x \<in> set (pw_runs (w\<lparr>pw_runs := map f (pw_runs w)\<rparr>))" "y \<in> set (pw_runs (w\<lparr>pw_runs := map f (pw_runs w)\<rparr>))"
      and h: "run_active x" "run_active y" "run_subject_id x = run_subject_id y"
    then obtain x0 y0 where xy: "x0 \<in> set (pw_runs w)" "x = f x0" "y0 \<in> set (pw_runs w)" "y = f y0" by auto
    have "run_id x0 = run_id y0"
      using one_runD [OF assms(4) xy(1,3)] h unfolding xy(2,4) active assms(3) by blast
    then show "run_id x = run_id y" unfolding xy(2,4) assms(1) .
  qed
qed

lemma pstep_one_run: "pstep ord w w' \<Longrightarrow> one_run w \<Longrightarrow> one_run w'"
proof (induction rule: pstep.induct)
  case (Settle w r r0 w' ord)
  show ?case by (rule save_one_run [OF Settle(5,1,3,4)])
next
  case (Activate w r r0 ord w')
  show ?case by (rule save_one_run [OF Activate(7,1,5,6)])
next
  case (Enrol b w w1 rs w2 t item_of w' ord)
  have "pw_runs w1 = pw_runs w" using batches_add_effect [OF Enrol(1)] by simp
  then have "one_run w2" using add_runs_one_run [OF Enrol(2)] one_run_cong Enrol(7) by blast
  then show ?case using items_append_runs [OF Enrol(3)] one_run_cong by blast
next
  case (Add r w w' ord)
  then show ?case by (blast intro: add_one_run)
next
  case (Relabel f ord w)
  show ?case by (rule relabel_one_run [OF Relabel])
next
  case (Count it w i w' ord)
  then show ?case using items_save_items [of i w w'] one_run_cong by blast
next
  case (Repoint it w i w')
  then show ?case using items_save_items [of i w w'] one_run_cong by blast
next
  case (Stale ord w xs)
  have "pw_runs (w\<lparr>pw_artifacts := xs\<rparr>) = pw_runs w" by simp
  then show ?case using Stale one_run_cong by blast
next
  case (Move w b b0 ord)
  then show ?case using one_run_cong [OF batches_save_frame(1)] by blast
qed

lemma psteps_one_run: "psteps ord w w' \<Longrightarrow> one_run w \<Longrightarrow> one_run w'"
  by (induction rule: rtranclp_induct) (auto intro: pstep_one_run)

subsection \<open>A cancelled batch is sealed\<close>

definition batch_members :: "prod_world \<Rightarrow> uuid \<Rightarrow> (uuid \<times> uuid) list" where
  "batch_members w b = map (\<lambda>i. (bi_id i, bi_run_id i)) (filter (\<lambda>i. bi_batch_id i = b) (pw_items w))"

lemma batch_members_update:
  assumes "\<And>x. bi_id (f x) = bi_id x" and "\<And>x. bi_batch_id (f x) = bi_batch_id x"
    and "\<And>x. x \<in> set is \<Longrightarrow> bi_batch_id x = b \<Longrightarrow> bi_run_id (f x) = bi_run_id x"
  shows "map (\<lambda>i. (bi_id i, bi_run_id i)) (filter (\<lambda>i. bi_batch_id i = b) (map f is))
     = map (\<lambda>i. (bi_id i, bi_run_id i)) (filter (\<lambda>i. bi_batch_id i = b) is)"
  using assms(3) by (induction "is") (auto simp: assms(1,2))

lemma save_item_members:
  assumes "prod_inv w" and "it \<in> set (pw_items w)" and "bi_id i = bi_id it" and "items_save i w = Inr w'"
    and "bi_run_id i = bi_run_id it \<or> bi_batch_id it \<noteq> b"
  shows "batch_members w' b = batch_members w b"
proof -
  have inj: "inj_on bi_id (set (pw_items w))"
    using assms(1) by (simp add: prod_inv_def items_wf_def distinct_map)
  have "x = it" if "x \<in> set (pw_items w)" "bi_id x = bi_id i" for x
    using inj_onD [OF inj _ that(1) assms(2)] that(2) assms(3) by simp
  then have keep: "bi_run_id i = bi_run_id x"
    if "x \<in> set (pw_items w)" "bi_id x = bi_id i" "bi_batch_id x = b" for x
    using that assms(5) by blast
  have items: "pw_items w' = map (\<lambda>x. if bi_id x = bi_id i then x\<lparr>bi_run_id := bi_run_id i,
      bi_auto_recovery_count := bi_auto_recovery_count i,
      bi_verified_reemission_count := bi_verified_reemission_count i\<rparr> else x) (pw_items w)"
    using items_save_items [OF assms(4)] by blast
  show ?thesis unfolding batch_members_def items by (rule batch_members_update) (use keep in auto)
qed

lemma batch_members_cong: "pw_items w' = pw_items w \<Longrightarrow> batch_members w' b = batch_members w b"
  by (simp add: batch_members_def)

lemma pstep_sealed:
  "pstep ord w w' \<Longrightarrow> prod_inv w \<Longrightarrow> batch_cancelled w b \<Longrightarrow>
   batch_cancelled w' b \<and> batch_members w' b = batch_members w b"
proof (induction rule: pstep.induct)
  case (Settle w r r0 w' ord)
  note f = runs_save_frame [OF Settle(3)]
  show ?case using Settle(6) views_cong(2) [of w' w] batch_members_cong [of w' w] f by simp
next
  case (Activate w r r0 ord w')
  note f = runs_save_frame [OF Activate(5)]
  show ?case using Activate(8) views_cong(2) [of w' w] batch_members_cong [of w' w] f by simp
next
  case (Move w b1 b0 ord)
  have "batch_cancelled (batches_save b1 w) b"
  proof (cases "b = ba_id b1")
    case True
    then have "ba_status b0 = BCancelled" using Move(1,7) by (simp add: batch_cancelled_def)
    then show ?thesis using Move(1,3) True by (simp add: batch_cancelled_save)
  qed (use Move(7) in \<open>simp add: batch_cancelled_save\<close>)
  moreover have "batch_members (batches_save b1 w) b = batch_members w b"
    by (rule batch_members_cong) (rule batches_save_frame(2))
  ultimately show ?case by blast
next
  case (Enrol b1 w w1 rs w2 t item_of w' ord)
  have wf: "items_wf w" using Enrol(7) by (simp add: prod_inv_def)
  note e = enrol_effect [OF Enrol(1-3) wf]
  have "batches_get w b \<noteq> None" using Enrol(8) by (cases "batches_get w b") (simp_all add: batch_cancelled_def)
  then have ne: "b \<noteq> ba_id b1" and same: "batches_get w' b = batches_get w b"
    using e(3,7) by (auto simp: batches_get_def find_append)
  have "filter (\<lambda>i. bi_batch_id i = b) (new_items (ba_id b1) t item_of 1 rs) = []"
    using ne new_items_simps(2) by (fastforce simp: filter_empty_conv)
  then show ?case using Enrol(8) same by (simp add: batch_members_def e(1) batch_cancelled_def)
next
  case (Add r w w' ord)
  then have f: "pw_items w' = pw_items w" "pw_batches w' = pw_batches w"
    by (auto simp: runs_add_def split: if_splits)
  show ?case using Add(3) views_cong(2) [OF f(2)] batch_members_cong [OF f(1)] by simp
next
  case (Count it w i w' ord)
  have "batch_members w' b = batch_members w b"
    by (rule save_item_members [OF Count(5,1,2,4)]) (simp add: Count(3))
  then show ?case using Count(6) views_cong(2) [of w' w] items_save_items [OF Count(4)] by simp
next
  case (Repoint it w i w')
  have "bi_batch_id it \<noteq> b" using Repoint(3,8) by auto
  then have "batch_members w' b = batch_members w b"
    by (intro save_item_members [OF Repoint(7,1,2,6)]) simp
  then show ?case using Repoint(8) views_cong(2) [of w' w] items_save_items [OF Repoint(6)] by simp
next
  case (Stale ord w xs)
  then show ?case by (simp add: batch_members_def batch_cancelled_def batches_get_def)
next
  case (Relabel f ord w)
  then show ?case by (simp add: batch_members_def batch_cancelled_def batches_get_def)
qed

lemma psteps_sealed: "psteps ord w w' \<Longrightarrow> prod_inv w \<Longrightarrow> batch_cancelled w b \<Longrightarrow>
    batch_cancelled w' b \<and> batch_members w' b = batch_members w b"
  by (induction rule: rtranclp_induct) (use pstep_sealed psteps_inv in \<open>simp, metis\<close>)

subsection \<open>Ordered steps keep the editorial order\<close>

lemma in_order_views:
  assumes "in_order w" and "pw_items w' = pw_items w"
    and "\<And>it. it \<in> set (pw_items w) \<Longrightarrow> run_runs w' (bi_run_id it) \<Longrightarrow> run_runs w (bi_run_id it)"
    and "\<And>it. it \<in> set (pw_items w) \<Longrightarrow> run_idle w (bi_run_id it) \<Longrightarrow> run_idle w' (bi_run_id it)"
  shows "in_order w'"
  using assms(1,3,4) unfolding in_order_def assms(2) by blast

lemma activate_in_order:
  assumes "in_order w" and wf: "items_wf w" and row: "runs_get w (run_id r) = Some r0"
    and turn: "has_turn w (run_id r)" and save: "runs_save r w = Inr w'"
  shows "in_order w'"
  unfolding in_order_def
proof (intro ballI impI)
  note v = runs_save_views [OF save row]
  have items: "pw_items w' = pw_items w" using runs_save_frame [OF save] by simp
  fix it jt
  assume "it \<in> set (pw_items w')" "jt \<in> set (pw_items w')" and
    h: "bi_batch_id jt = bi_batch_id it \<and> bi_position jt < bi_position it \<and> run_runs w' (bi_run_id it)"
  then have it: "it \<in> set (pw_items w)" and jt: "jt \<in> set (pw_items w)" by (simp_all add: items)
  have inj: "inj_on bi_run_id (set (pw_items w))" using wf by (simp add: items_wf_def distinct_map)
  have ne: "bi_run_id jt \<noteq> bi_run_id it"
  proof
    assume "bi_run_id jt = bi_run_id it"
    then have "jt = it" using inj_onD [OF inj _ jt it] by simp
    then show False using h by simp
  qed
  show "run_idle w' (bi_run_id jt)"
  proof (cases "bi_run_id it = run_id r")
    case True
    then have "run_idle w (bi_run_id jt)" using turn it jt h ne by (auto simp: has_turn_def)
    then show ?thesis using ne True by (simp add: v(1))
  next
    case False
    then have runs: "run_runs w (bi_run_id it)" using h by (simp add: v(2))
    have "bi_run_id jt \<noteq> run_id r"
    proof
      assume "bi_run_id jt = run_id r"
      then show False using turn it jt h runs False by (auto simp: has_turn_def)
    qed
    moreover have "run_idle w (bi_run_id jt)" using assms(1) it jt h runs by (auto simp: in_order_def)
    ultimately show ?thesis by (simp add: v(1))
  qed
qed

lemma enrol_in_order:
  assumes "batches_add b w = Inr w1" and "add_runs rs w1 = Inr w2"
    and "items_append_many (new_items (ba_id b) t item_of 1 rs) w2 = Inr w'"
    and queued: "\<forall>r \<in> set rs. run_status r = RQueued" and wf: "items_wf w" and ord: "in_order w"
  shows "in_order w'"
  unfolding in_order_def
proof (intro ballI impI)
  note e = enrol_effect [OF assms(1-3) wf]
  let ?new = "new_items (ba_id b) t item_of 1 rs"
  have old: "runs_get w' (bi_run_id x) = runs_get w (bi_run_id x) \<and> bi_batch_id x \<noteq> ba_id b"
    if "x \<in> set (pw_items w)" for x
    using wf that e(7) by (auto simp: items_wf_def runs_get_append [OF e(2)] split: option.splits)
  fix it jt
  assume it: "it \<in> set (pw_items w')" and jt: "jt \<in> set (pw_items w')" and
    h: "bi_batch_id jt = bi_batch_id it \<and> bi_position jt < bi_position it \<and> run_runs w' (bi_run_id it)"
  have "it \<notin> set ?new"
  proof
    assume "it \<in> set ?new"
    then have "bi_run_id it \<in> set (map bi_run_id ?new)" by simp
    then have "bi_run_id it \<in> run_id ` set rs" unfolding new_items_simps(1) by simp
    then have "runs_get w (bi_run_id it) = None" using e(5) by auto
    then have "runs_get w' (bi_run_id it) = find (\<lambda>r. run_id r = bi_run_id it) rs"
      by (simp add: runs_get_append [OF e(2)])
    then have "\<not> run_runs w' (bi_run_id it)"
      using queued by (auto simp: run_runs_def split: option.splits dest!: find_member)
    with h show False by simp
  qed
  then have it': "it \<in> set (pw_items w)" using it unfolding e(1) by simp
  then have "jt \<notin> set ?new" using h old [OF it'] new_items_simps(2) by fastforce
  then have jt': "jt \<in> set (pw_items w)" using jt unfolding e(1) by simp
  have "run_idle w (bi_run_id jt)"
    using ord it' jt' h old [OF it'] by (auto simp: in_order_def run_runs_def)
  then show "run_idle w' (bi_run_id jt)" using old [OF jt'] by (simp add: run_idle_def)
qed

lemma pstep_in_order:
  assumes "pstep True w w'" and "prod_inv w" and "in_order w"
  shows "in_order w'"
  using assms
proof (cases rule: pstep.cases)
  case (Settle r r0)
  have f: "pw_items w' = pw_items w" using runs_save_frame [OF Settle(3)] by simp
  note v = runs_save_views [OF Settle(3,1)]
  have "run_status r = RRunning \<Longrightarrow> run_runs w (run_id r)" "run_idle w (run_id r) \<Longrightarrow> \<not> run_active r"
    using Settle(1,2) by (auto simp: run_active_def run_runs_def run_idle_def)
  then show ?thesis by (intro in_order_views [OF assms(3) f]) (auto simp: v split: if_splits)
next
  case (Activate r r0)
  then show ?thesis using assms activate_in_order [OF assms(3) _ Activate(1) _ Activate(5)]
    by (simp add: prod_inv_def)
next
  case (Move b b0)
  show ?thesis unfolding Move(1) by (rule in_order_views [OF assms(3)]) simp_all
next
  case (Enrol b w1 rs w2 t item_of)
  show ?thesis using assms by (intro enrol_in_order [OF Enrol(1-3,5)]) (simp_all add: prod_inv_def)
next
  case (Add r)
  have f: "pw_items w' = pw_items w" using Add by (auto simp: runs_add_def split: if_splits)
  have "runs_get w' (bi_run_id it) = runs_get w (bi_run_id it)" if "it \<in> set (pw_items w)" for it
    using add_run_views [OF Add(1)] that assms(2) by (auto simp: prod_inv_def items_wf_def)
  then show ?thesis by (intro in_order_views [OF assms(3) f]) (auto simp: run_runs_def run_idle_def)
next
  case (Count it i)
  note f = items_save_items [OF Count(4)]
  have inj: "inj_on bi_id (set (pw_items w))"
    using assms(2) by (simp add: prod_inv_def items_wf_def distinct_map)
  have keep: "bi_run_id x = bi_run_id i" if "x \<in> set (pw_items w)" "bi_id x = bi_id i" for x
    using inj_onD [OF inj _ that(1) Count(1)] that(2) Count(2,3) by simp
  have rows: "\<exists>x \<in> set (pw_items w). bi_run_id x = bi_run_id z \<and> bi_batch_id x = bi_batch_id z
      \<and> bi_position x = bi_position z" if "z \<in> set (pw_items w')" for z
  proof -
    obtain x where x: "x \<in> set (pw_items w)" and z: "z = (if bi_id x = bi_id i then x\<lparr>bi_run_id := bi_run_id i,
        bi_auto_recovery_count := bi_auto_recovery_count i,
        bi_verified_reemission_count := bi_verified_reemission_count i\<rparr> else x)"
      using \<open>z \<in> set (pw_items w')\<close> f by auto
    have "bi_run_id x = bi_run_id z \<and> bi_batch_id x = bi_batch_id z \<and> bi_position x = bi_position z"
      using keep [OF x] by (simp add: z)
    with x show ?thesis by blast
  qed
  have v: "run_runs w' = run_runs w" "run_idle w' = run_idle w" using views_cong(1) [of w' w] f by auto
  show ?thesis using assms(3) rows unfolding in_order_def v by metis
next
  case (Stale xs)
  show ?thesis unfolding Stale(1)
    by (rule in_order_views [OF assms(3)]) (simp_all add: run_runs_def run_idle_def runs_get_def)
next
  case (Relabel f)
  show ?thesis unfolding Relabel(1)
    by (rule in_order_views [OF assms(3)]) (simp_all add: relabel_views [of f, OF Relabel(2,3)])
qed simp

lemma psteps_in_order: "psteps True w w' \<Longrightarrow> prod_inv w \<Longrightarrow> in_order w \<Longrightarrow> in_order w'"
  by (induction rule: rtranclp_induct) (auto intro: pstep_in_order psteps_inv)

end
