(* ===== verification/BatchSafety.thy ===== *)
theory BatchSafety
  imports BatchProtocol
begin

text \<open>
  The services of \<open>subject_production.py\<close> refine the dispatch protocol: every accepted request is a
  sequence of protocol steps, ordered ones unless the request revives a single article. The safety of
  the batches follows.
\<close>

subsection \<open>Queries\<close>

lemma active_batch_None:
  "active_batch_for_edition w e = None \<longleftrightarrow> (\<forall>x \<in> set (pw_batches w). batch_active x \<longrightarrow> ba_edition_id x \<noteq> e)"
proof -
  let ?xs = "rev (sort_key (\<lambda>b. instant (ba_created_at b)) (sort_key ba_id
        (filter (\<lambda>b. ba_edition_id b = e \<and> batch_active b) (pw_batches w))))"
  have "set ?xs = {x \<in> set (pw_batches w). ba_edition_id x = e \<and> batch_active x}" by auto
  moreover have "active_batch_for_edition w e = None \<longleftrightarrow> set ?xs = {}"
    by (cases ?xs) (simp_all add: active_batch_for_edition_def)
  ultimately show ?thesis by auto
qed

lemma active_batch_Some:
  assumes "active_batch_for_edition w e = Some a"
  shows "a \<in> set (pw_batches w) \<and> batch_active a \<and> ba_edition_id a = e"
proof -
  let ?xs = "rev (sort_key (\<lambda>b. instant (ba_created_at b)) (sort_key ba_id
        (filter (\<lambda>b. ba_edition_id b = e \<and> batch_active b) (pw_batches w))))"
  obtain ys where "?xs = a # ys" using assms by (auto simp: active_batch_for_edition_def split: list.splits)
  then have "a \<in> set ?xs" by simp
  then show ?thesis by simp
qed

lemma only_active:
  assumes "one_active w" and "active_batch_for_edition w e = None \<or>
    (\<exists>a. active_batch_for_edition w e = Some a \<and> ba_id a = i)"
  shows "\<forall>x \<in> set (pw_batches w). batch_active x \<longrightarrow> ba_edition_id x = e \<longrightarrow> ba_id x = i"
proof (intro ballI impI)
  fix x assume x: "x \<in> set (pw_batches w)" "batch_active x" "ba_edition_id x = e"
  then obtain a where a: "active_batch_for_edition w e = Some a" "ba_id a = i"
    using assms(2) active_batch_None [of w e] by blast
  show "ba_id x = i"
    using assms(1) x active_batch_Some [OF a(1)] a(2) unfolding one_active_def by metis
qed

lemma item_by_run_only:
  assumes "items_wf w" and "item_by_run w i = Some it" and "jt \<in> set (pw_items w)" and "bi_run_id jt = i"
  shows "jt = it"
proof -
  have "inj_on bi_run_id (set (pw_items w))" using assms(1) by (simp add: items_wf_def distinct_map)
  then show ?thesis using item_by_run_mem [OF assms(2)] assms(3,4) by (metis inj_onD)
qed

lemma admitted_item:
  assumes "items_wf w" and "case item_by_run w i of None \<Rightarrow> True | Some it \<Rightarrow> \<not> batch_cancelled w (bi_batch_id it)"
  shows "admitted w i"
  using assms item_by_run_only [OF assms(1)]
  by (auto simp: admitted_def item_by_run_def find_None_iff split: option.splits)

lemma active_admitted:
  assumes "prod_inv w" and "runs_get w i = Some r" and "run_active r"
  shows "admitted w i"
  using assms by (auto simp: admitted_def prod_inv_def barrier_def run_idle_def)

lemma batch_open_effect: "batch_open_review_recovery t b = Inr (c, b') \<Longrightarrow>
    ba_id b' = ba_id b \<and> ba_edition_id b' = ba_edition_id b \<and> ba_status b' \<noteq> BCancelled \<and> ba_status b \<noteq> BCancelled"
  by (auto simp: batch_open_review_recovery_def split: if_splits)

text \<open>The preparation of a recovery: at most one batch row moves, and the run is admitted.\<close>

lemma prepare_cases:
  assumes "prepare_batch_for_recovery t r reopen w = Inr (b, w1)"
  obtains (Alone) "item_by_run w (run_id r) = None" "b = None" "w1 = w"
  | (Kept) it b0 where "item_by_run w (run_id r) = Some it" "batches_get w (bi_batch_id it) = Some b0"
      "ba_status b0 \<noteq> BCancelled" "ensure_no_active_sibling (ba_id b0) (run_id r) w = Inr ()"
      "batch_dispatchable b0 \<or> \<not> reopen" "b = Some b0" "w1 = w"
  | (Reopened) it b0 c b' where "item_by_run w (run_id r) = Some it" "batches_get w (bi_batch_id it) = Some b0"
      "ba_status b0 \<noteq> BCancelled" "ensure_no_active_sibling (ba_id b0) (run_id r) w = Inr ()"
      "ensure_no_active_batch b0 w = Inr ()" "batch_open_review_recovery t b0 = Inr (c, b')"
      "b = Some b'" "w1 = batches_save b' w"
proof (cases "item_by_run w (run_id r)")
  case None
  then show thesis using assms by (intro Alone) (simp_all add: prepare_batch_for_recovery_def)
next
  case (Some it)
  then obtain b0 where b0: "batches_get w (bi_batch_id it) = Some b0"
    using assms by (auto simp: prepare_batch_for_recovery_def split: option.splits)
  have alive: "ba_status b0 \<noteq> BCancelled" "ba_status b0 \<noteq> BPaused"
    using assms Some b0 by (auto simp: prepare_batch_for_recovery_def)
  have sib: "ensure_no_active_sibling (ba_id b0) (run_id r) w = Inr ()"
    using assms Some b0 alive by (auto simp: prepare_batch_for_recovery_def and_then_Inr Let_def)
  show thesis
  proof (cases "reopen \<and> ba_status b0 \<notin> {BQueued, BRunning}")
    case False
    then have "b = Some b0 \<and> w1 = w"
      using assms Some b0 by (auto simp: prepare_batch_for_recovery_def Let_def and_then_Inr split: if_splits)
    then show thesis using Kept Some b0 alive sib False by (auto simp: batch_dispatchable_def)
  next
    case True
    then obtain c b' where "ensure_no_active_batch b0 w = Inr ()"
      "batch_open_review_recovery t b0 = Inr (c, b')" "b = Some b'" "w1 = batches_save b' w"
      using assms Some b0 alive by (auto simp: prepare_batch_for_recovery_def Let_def and_then_Inr)
    then show thesis using Reopened Some b0 alive sib by blast
  qed
qed

lemma prepare_steps:
  assumes prepare: "prepare_batch_for_recovery t r reopen w = Inr (b, w1)" and inv: "prod_inv w"
  shows "psteps ord w w1" "pw_runs w1 = pw_runs w" "pw_items w1 = pw_items w" "pw_artifacts w1 = pw_artifacts w"
    "admitted w1 (run_id r)"
proof -
  have "psteps ord w w1 \<and> pw_runs w1 = pw_runs w \<and> pw_items w1 = pw_items w \<and> pw_artifacts w1 = pw_artifacts w
    \<and> (case item_by_run w1 (run_id r) of None \<Rightarrow> True | Some it \<Rightarrow> \<not> batch_cancelled w1 (bi_batch_id it))"
    using prepare
  proof (cases rule: prepare_cases)
    case Alone
    then show ?thesis by simp
  next
    case (Kept it b0)
    then show ?thesis by (simp add: batch_cancelled_def)
  next
    case (Reopened it b0 c b')
    have id: "ba_id b0 = bi_batch_id it" using batches_get_id [OF Reopened(2)] .
    note o = batch_open_effect [OF Reopened(6)]
    have "active_batch_for_edition w (ba_edition_id b0) = None \<or>
        (\<exists>a. active_batch_for_edition w (ba_edition_id b0) = Some a \<and> ba_id a = ba_id b0)"
      using Reopened(5) by (auto simp: ensure_no_active_batch_def split: option.splits if_splits)
    moreover have "one_active w" using inv by (simp add: prod_inv_def)
    ultimately have "\<forall>x \<in> set (pw_batches w). batch_active x \<longrightarrow> ba_edition_id x = ba_edition_id b0 \<longrightarrow> ba_id x = ba_id b0"
      by (rule only_active [rotated])
    then have "pstep ord w (batches_save b' w)"
      using Reopened(2) o id by (intro pstep.Move [of w b' b0]) auto
    moreover have "item_by_run w1 (run_id r) = Some it" using Reopened(1,8) by (simp add: item_by_run_def)
    moreover have "\<not> batch_cancelled w1 (bi_batch_id it)"
      using o Reopened(2,8) id by (simp add: batch_cancelled_save)
    ultimately show ?thesis by (simp add: Reopened(8))
  qed
  then have steps: "psteps ord w w1" "pw_runs w1 = pw_runs w" "pw_items w1 = pw_items w"
    "pw_artifacts w1 = pw_artifacts w"
    and adm: "case item_by_run w1 (run_id r) of None \<Rightarrow> True | Some it \<Rightarrow> \<not> batch_cancelled w1 (bi_batch_id it)"
    by auto
  have "items_wf w1" using psteps_inv [OF steps(1) inv] by (simp add: prod_inv_def)
  from admitted_item [OF this adm] steps
  show "psteps ord w w1" "pw_runs w1 = pw_runs w" "pw_items w1 = pw_items w" "pw_artifacts w1 = pw_artifacts w"
    "admitted w1 (run_id r)" by blast+
qed

subsection \<open>Runs\<close>

text \<open>What the methods of a run do to its activity.\<close>

lemma settling_methods:
  "run_advance_stage k t r = Inr r' \<Longrightarrow> run_id r' = run_id r \<and> run_subject_id r' = run_subject_id r \<and> run_status r' = run_status r"
  "run_mark_ready t r = Inr r' \<Longrightarrow> run_id r' = run_id r \<and> run_subject_id r' = run_subject_id r \<and> \<not> run_active r'"
  "run_mark_needs_review c m d x t r = Inr r' \<Longrightarrow> run_id r' = run_id r \<and> run_subject_id r' = run_subject_id r \<and> \<not> run_active r'"
  "run_mark_failed c m d t r = Inr r' \<Longrightarrow> run_id r' = run_id r \<and> run_subject_id r' = run_subject_id r \<and> \<not> run_active r'"
  "run_mark_cancelled t r = Inr r' \<Longrightarrow> run_id r' = run_id r \<and> run_subject_id r' = run_subject_id r \<and> \<not> run_active r'"
  by (auto simp: op_defs run_active_def and_then_Inr split: if_splits)

lemma activating_methods:
  "run_start t r = Inr r' \<Longrightarrow> run_id r' = run_id r \<and> run_subject_id r' = run_subject_id r \<and> run_status r' = RRunning \<and> run_status r = RQueued"
  "run_retry_from_stage s f t r = Inr r' \<Longrightarrow> run_id r' = run_id r \<and> run_subject_id r' = run_subject_id r \<and> run_status r' = RRunning \<and> \<not> run_active r"
  "run_resume_after_cancellation s t r = Inr r' \<Longrightarrow> run_id r' = run_id r \<and> run_subject_id r' = run_subject_id r \<and> run_status r' = RRunning"
  by (auto simp: op_defs run_active_def and_then_Inr split: if_splits)

lemma change_run_steps:
  assumes "change_run f i w = Inr (r', w')"
    and "\<And>r r'. f r = Inr r' \<Longrightarrow> run_id r' = run_id r \<and> run_subject_id r' = run_subject_id r \<and> (run_active r' \<longrightarrow> run_status r' = run_status r)"
  shows "psteps ord w w'"
proof -
  obtain r where r: "runs_get w i = Some r" "f r = Inr r'" "runs_save r' w = Inr w'"
    using assms(1) by (auto simp: change_run_def and_then_Inr split: option.splits)
  have "pstep ord w w'"
    by (rule pstep.Settle [of w r' r]) (use assms(2) [OF r(2)] runs_get_id [OF r(1)] r in auto)
  then show ?thesis by simp
qed

lemma advance_steps: "advance_stage env t i w = Inr (r', w') \<Longrightarrow> psteps ord w w'"
proof -
  assume "advance_stage env t i w = Inr (r', w')"
  then obtain r where "change_run (run_advance_stage (route_kind env r) t) i w = Inr (r', w')"
    by (auto simp: advance_stage_def change_run_def split: option.splits)
  then show ?thesis by (rule change_run_steps) (use settling_methods(1) in blast)
qed

lemma mark_steps:
  "mark_ready t i w = Inr (r', w') \<Longrightarrow> psteps ord w w'"
  "mark_needs_review c m d t i w = Inr (r', w') \<Longrightarrow> psteps ord w w'"
  "mark_failed c m d t i w = Inr (r', w') \<Longrightarrow> psteps ord w w'"
  unfolding mark_ready_def mark_needs_review_def mark_failed_def
  by (erule change_run_steps, use settling_methods in blast)+

lemma cancel_run_steps: "cancel_run env t i w = Inr (x, w') \<Longrightarrow> psteps ord w w'"
proof -
  assume "cancel_run env t i w = Inr (x, w')"
  then obtain r r' where r: "runs_get w i = Some r" "run_mark_cancelled t r = Inr r'"
    and save: "(if run_status r = RCancelled then Inr w else runs_save r' w) = Inr w'"
    by (auto simp: cancel_run_def and_then_Inr split: option.splits)
  have "pstep ord w w'" if "runs_save r' w = Inr w'"
    by (rule pstep.Settle [of w r' r]) (use settling_methods(5) [OF r(2)] runs_get_id [OF r(1)] r that in auto)
  then show ?thesis using save by (auto split: if_splits)
qed

lemma start_run_steps: "start_run env t i w = Inr (x, w') \<Longrightarrow> prod_inv w \<Longrightarrow> psteps False w w'"
proof -
  assume start: "start_run env t i w = Inr (x, w')" and inv: "prod_inv w"
  then obtain r where r: "runs_get w i = Some r"
    and "w' = w \<or> (\<exists>r'. run_start t r = Inr r' \<and> runs_save r' w = Inr w')"
    by (auto simp: start_run_def and_then_Inr split: option.splits if_splits)
  then consider "w' = w" | r' where "run_start t r = Inr r'" "runs_save r' w = Inr w'" by blast
  then show ?thesis
  proof cases
    case (2 r')
    note m = activating_methods(1) [OF 2(1)]
    have "admitted w i" using active_admitted [OF inv r] m by (simp add: run_active_def)
    then have "pstep False w w'"
      using m runs_get_id [OF r] r 2 by (intro pstep.Activate [of w r' r]) auto
    then show ?thesis by simp
  qed simp
qed

text \<open>A retry in the transaction, once the run is admitted.\<close>

lemma retry_in_uow_cases:
  assumes "retry_from_stage_in_uow env t s f i w = Inr (res, w')"
  obtains r r' downstream where "runs_get w i = Some r" "\<not> run_active r"
    "check_retry_prerequisite env s r w = Inr ()" "run_retry_from_stage s f t r = Inr r'"
    "downstream_artifacts_from_pipeline_stage s False (route_kind env r) = Inr downstream"
    "runs_save r' (snd (mark_stages_stale i (insert (stage_value s) (artifact_value ` set downstream)) w)) = Inr w'"
    "rr_run res = r'"
    "rr_staled res = fst (mark_stages_stale i (insert (stage_value s) (artifact_value ` set downstream)) w)"
  using assms
  by (auto simp: retry_from_stage_in_uow_def and_then_Inr Let_def case_prod_beta split: option.splits if_splits)

lemma retry_in_uow_steps:
  assumes retry: "retry_from_stage_in_uow env t s f i w = Inr (res, w')" and adm: "admitted w i"
    and turn: "ord \<longrightarrow> has_turn w i"
  shows "psteps ord w w'"
proof -
  obtain r r' xs where r: "runs_get w i = Some r" "run_retry_from_stage s f t r = Inr r'"
    and save: "runs_save r' (snd (mark_stages_stale i xs w)) = Inr w'"
    using retry by (rule retry_in_uow_cases)
  obtain ys where w1: "snd (mark_stages_stale i xs w) = w\<lparr>pw_artifacts := ys\<rparr>"
    by (simp add: mark_stages_stale_def Let_def)
  let ?w = "w\<lparr>pw_artifacts := ys\<rparr>"
  note m = activating_methods(2) [OF r(2)]
  have same: "runs_get ?w = runs_get w" "admitted ?w i = admitted w i" "has_turn ?w i = has_turn w i"
    by (simp_all add: runs_get_def fun_eq_iff admitted_def has_turn_def batch_cancelled_def batches_get_def
        run_runs_def run_idle_def)
  have id: "run_id r' = i" using m runs_get_id [OF r(1)] by simp
  have "pstep ord w ?w" by (rule pstep.Stale)
  moreover have "pstep ord ?w w'"
    by (rule pstep.Activate [of ?w r' r]) (use m r id same adm turn save w1 in auto)
  ultimately show ?thesis by (meson converse_rtranclp_into_rtranclp r_into_rtranclp)
qed

lemma retry_in_uow_frame:
  assumes "retry_from_stage_in_uow env t s f i w = Inr (res, w')"
  shows "pw_batches w' = pw_batches w" "pw_items w' = pw_items w"
proof -
  obtain r' xs where "runs_save r' (snd (mark_stages_stale i xs w)) = Inr w'"
    using assms by (rule retry_in_uow_cases)
  then show "pw_batches w' = pw_batches w" "pw_items w' = pw_items w"
    using runs_save_frame by (fastforce simp: mark_stages_stale_def Let_def)+
qed

subsection \<open>Batches\<close>

text \<open>The moves of a batch that neither activate, cancel nor revive it.\<close>

definition tame :: "batch \<Rightarrow> batch \<Rightarrow> bool" where
  "tame b b' \<longleftrightarrow> ba_id b' = ba_id b \<and> ba_edition_id b' = ba_edition_id b
     \<and> (batch_active b' \<longrightarrow> batch_active b) \<and> (ba_status b' = BCancelled \<longleftrightarrow> ba_status b = BCancelled)"

lemma tame_refl [simp]: "tame b b"
  by (simp add: tame_def)

lemma tame_trans: "tame a b \<Longrightarrow> tame b c \<Longrightarrow> tame a c"
  by (auto simp: tame_def)

lemma tame_methods:
  "batch_start t b = Inr b' \<Longrightarrow> tame b b'"
  "batch_finish x t b = Inr b' \<Longrightarrow> tame b b'"
  "batch_pause a t b = Inr (c, b') \<Longrightarrow> tame b b'"
  "batch_resume b = Inr (c, b') \<Longrightarrow> tame b b'"
  "batch_schedule_next_dispatch t b = Inr b' \<Longrightarrow> tame b b'"
  "batch_clear_next_dispatch b = Inr b' \<Longrightarrow> tame b b'"
  "batch_enter_recovery b = Inr b' \<Longrightarrow> tame b b'"
  "batch_enter_review b = Inr b' \<Longrightarrow> tame b b'"
  by (auto simp: op_defs tame_def batch_active_def split: if_splits)

lemma tame_pace: "pace_recovery t d b = Inr b' \<Longrightarrow> tame b b'"
  by (auto simp: pace_recovery_def and_then_Inr split: if_splits
      dest: tame_methods intro: tame_trans)

lemma tame_move: "batches_get w (ba_id b') = Some b \<Longrightarrow> tame b b' \<Longrightarrow> psteps ord w (batches_save b' w)"
  by (rule r_into_rtranclp, rule pstep.Move) (auto simp: tame_def)

lemma lock_batch_get: "lock_batch_for_control env e b w = Inr ba \<Longrightarrow>
    batches_get w b = Some ba \<and> ba_id ba = b \<and> ba_edition_id ba = e"
  by (auto simp: lock_batch_for_control_def dest: batches_get_id
      split: option.splits edition_status.splits if_splits)

lemma get_in_lock_order_get: "get_batch_in_lock_order env b w = Inr ba \<Longrightarrow> batches_get w b = Some ba \<and> ba_id ba = b"
  by (auto simp: get_batch_in_lock_order_def and_then_Inr dest: batches_get_id split: option.splits)

lemma control_steps:
  assumes "lock_batch_for_control env e b w = Inr ba" and "tame ba ba'"
  shows "psteps ord w (if c then batches_save ba' w else w)"
proof -
  have "batches_get w (ba_id ba') = Some ba" using lock_batch_get [OF assms(1)] assms(2) by (simp add: tame_def)
  from tame_move [OF this assms(2)] show ?thesis by simp
qed

lemma pause_batch_steps: "pause_batch env t e b a w = Inr (x, w') \<Longrightarrow> psteps ord w w'"
  by (auto simp: pause_batch_def and_then_Inr dest!: tame_methods(3)
      intro: control_steps split del: if_split)

lemma resume_batch_steps: "resume_batch env e b w = Inr (x, w') \<Longrightarrow> psteps ord w w'"
  by (auto simp: resume_batch_def and_then_Inr dest!: tame_methods(4) intro: control_steps split del: if_split)

lemma clear_steps: "clear_next_dispatch env i w = Inr w' \<Longrightarrow> psteps ord w w'"
proof -
  assume clear: "clear_next_dispatch env i w = Inr w'"
  show ?thesis
  proof (cases "item_by_run w i")
    case None
    then show ?thesis using clear by (simp add: clear_next_dispatch_def)
  next
    case (Some it)
    then obtain ba ba' where b: "get_batch_in_lock_order env (bi_batch_id it) w = Inr ba"
      "batch_clear_next_dispatch ba = Inr ba'" "w' = batches_save ba' w"
      using clear by (auto simp: clear_next_dispatch_def and_then_Inr)
    note tame = tame_methods(6) [OF b(2)]
    have "batches_get w (ba_id ba') = Some ba" using get_in_lock_order_get [OF b(1)] tame by (simp add: tame_def)
    from tame_move [OF this tame] show ?thesis by (simp add: b(3))
  qed
qed

text \<open>Cancellation: the batch row and the runs are disjoint, so the runs may be cancelled first.\<close>

lemma save_run_batch_commute:
  "runs_save r (batches_save b w) = and_then (runs_save r w) (\<lambda>w'. Inr (batches_save b w'))"
  by (simp add: runs_save_def active_clash_def batches_save_def)

lemma cancel_items_commute:
  "cancel_items t e is (batches_save b w) =
     and_then (cancel_items t e is w) (\<lambda>(cs, w'). Inr (cs, batches_save b w'))"
proof (induction "is" arbitrary: w)
  case (Cons i "is")
  show ?case
    by (auto simp: Cons.IH save_run_batch_commute and_then_def split: option.splits sum.splits)
qed simp

lemma cancel_items_steps:
  "cancel_items t e is w = Inr (cs, w') \<Longrightarrow>
     psteps ord w w' \<and> pw_items w' = pw_items w \<and> pw_batches w' = pw_batches w
     \<and> (\<forall>i. run_idle w i \<longrightarrow> run_idle w' i) \<and> (\<forall>i \<in> set is. run_idle w' (bi_run_id i))"
proof (induction "is" arbitrary: w cs)
  case (Cons i "is")
  obtain r where r: "runs_get w (bi_run_id i) = Some r"
    using Cons.prems by (auto split: option.splits)
  show ?case
  proof (cases "run_active r")
    case False
    then have "cancel_items t e is w = Inr (cs, w')"
      using Cons.prems r by (auto split: if_splits)
    moreover have "run_idle w (bi_run_id i)" using r False by (simp add: run_idle_def)
    ultimately show ?thesis using Cons.IH by auto
  next
    case True
    then obtain r' w1 cs' where c: "run_mark_cancelled t r = Inr r'" "runs_save r' w = Inr w1"
      "cancel_items t e is w1 = Inr (cs', w')"
      using Cons.prems r by (auto simp: and_then_Inr split: if_splits)
    note m = settling_methods(5) [OF c(1)]
    have id: "run_id r' = bi_run_id i" using m runs_get_id [OF r] by simp
    have row: "runs_get w (run_id r') = Some r" by (simp add: id r)
    have "pstep ord w w1" by (rule pstep.Settle [OF row]) (use m c in auto)
    moreover have "run_idle w1 j" if "run_idle w j \<or> j = bi_run_id i" for j
      using that m runs_save_views(1) [OF c(2) row] by (auto simp: id)
    ultimately show ?thesis
      using Cons.IH [OF c(3)] runs_save_frame [OF c(2)] by (auto intro: converse_rtranclp_into_rtranclp)
  qed
qed simp

lemma cancel_batch_steps:
  assumes "cancel_batch env t e b w = Inr (x, w')"
  shows "psteps ord w w'"
proof -
  obtain ba where lock: "lock_batch_for_control env e b w = Inr ba"
    using assms by (auto simp: cancel_batch_def and_then_Inr)
  note l = lock_batch_get [OF lock]
  show ?thesis
  proof (cases "ba_status ba = BCancelled")
    case True
    then show ?thesis using assms lock by (simp add: cancel_batch_def)
  next
    case False
    then obtain c ba' cs where c: "batch_cancel t ba = Inr (c, ba')"
      and items: "cancel_items t e (items_for_batch (batches_save ba' w) (ba_id ba')) (batches_save ba' w) = Inr (cs, w')"
      using assms lock by (auto simp: cancel_batch_def and_then_Inr Let_def)
    have ba': "ba_id ba' = b" "ba_edition_id ba' = ba_edition_id ba" "ba_status ba' = BCancelled" "\<not> batch_active ba'"
      using c l False by (auto simp: batch_cancel_def batch_active_def split: if_splits)
    obtain w1 where w1: "cancel_items t e (items_for_batch (batches_save ba' w) b) w = Inr (cs, w1)"
      and w': "w' = batches_save ba' w1"
      using items unfolding cancel_items_commute ba'(1) by (auto simp: and_then_Inr)
    note s = cancel_items_steps [OF w1]
    have "pstep ord w1 (batches_save ba' w1)"
    proof (rule pstep.Move)
      have "batches_get w1 = batches_get w" using s views_cong(2) by blast
      then show "batches_get w1 (ba_id ba') = Some ba" using l ba' by simp
      have "it \<in> set (items_for_batch (batches_save ba' w) b)"
        if "it \<in> set (pw_items w1)" "bi_batch_id it = b" for it
        using s that by (simp add: items_for_batch_def)
      then show "ba_status ba' = BCancelled \<longrightarrow> ba_status ba = BCancelled
        \<or> (\<forall>it \<in> set (pw_items w1). bi_batch_id it = ba_id ba' \<longrightarrow> run_idle w1 (bi_run_id it))"
        using s ba'(1) by blast
    qed (use ba' False in auto)
    with s show ?thesis by (auto simp: w' intro: rtranclp.rtrancl_into_rtrancl)
  qed
qed

subsection \<open>The hand-over\<close>

lemma cancel_queued_steps: "cancel_queued t is w = Inr w' \<Longrightarrow> psteps ord w w'"
proof (induction "is" arbitrary: w)
  case (Cons i "is")
  show ?case
  proof (cases "\<exists>r. runs_get w (bi_run_id i) = Some r \<and> run_status r = RQueued")
    case False
    then have "cancel_queued t is w = Inr w'" using Cons.prems by (auto split: option.splits)
    then show ?thesis by (rule Cons.IH)
  next
    case True
    then obtain r r' w1 where r: "runs_get w (bi_run_id i) = Some r" and c: "run_mark_cancelled t r = Inr r'"
      "runs_save r' w = Inr w1" "cancel_queued t is w1 = Inr w'"
      using Cons.prems by (auto simp: and_then_Inr)
    note m = settling_methods(5) [OF c(1)]
    have "pstep ord w w1"
      by (rule pstep.Settle [of w r' r]) (use m c r runs_get_id [OF r] in auto)
    then show ?thesis using Cons.IH [OF c(3)] by (rule converse_rtranclp_into_rtranclp)
  qed
qed simp

text \<open>The first subject that is not finished, if it is queued.\<close>

lemma start_first_cases:
  assumes "start_first t pace is ba w = Inr (res, ba', w')"
  obtains (Nothing) "res = None" "ba' = ba" "w' = w"
      "(\<forall>i \<in> set is. run_idle w (bi_run_id i)) \<or> (\<exists>i \<in> set is. run_runs w (bi_run_id i))"
  | (Start) pre i post r p where "is = pre @ i # post" "\<forall>j \<in> set pre. run_idle w (bi_run_id j)"
      "runs_get w (bi_run_id i) = Some r" "run_status r = RQueued" "start_subject t p r ba w = Inr (res, ba', w')"
  using assms
proof (induction "is" arbitrary: thesis)
  case (Cons i "is")
  show ?case
  proof (cases "runs_get w (bi_run_id i)")
    case None
    then have rest: "start_first t pace is ba w = Inr (res, ba', w')" and idle: "run_idle w (bi_run_id i)"
      using Cons.prems(3) by (simp_all add: run_idle_def)
    show ?thesis
    proof (rule Cons.IH [OF _ _ rest])
      fix pre k post r p
      assume "is = pre @ k # post" "\<forall>j \<in> set pre. run_idle w (bi_run_id j)" "runs_get w (bi_run_id k) = Some r"
        "run_status r = RQueued" "start_subject t p r ba w = Inr (res, ba', w')"
      then show thesis using idle by (intro Cons.prems(2) [of "i # pre" k post r p]) auto
    qed (use Cons.prems(1) idle in auto)
  next
    case (Some r)
    consider "run_status r = RRunning" | "run_status r = RQueued" | "\<not> run_active r"
      by (auto simp: run_active_def)
    then show ?thesis
    proof cases
      case 1
      then have "run_runs w (bi_run_id i)" using Some by (simp add: run_runs_def)
      then show ?thesis using Cons.prems(1,3) 1 Some by auto
    next
      case 2
      then show ?thesis
        using Cons.prems(3) Some
        by (intro Cons.prems(2) [of "[]" i "is" r "map_option (\<lambda>d. d (bi_position i)) pace"]) auto
    next
      case 3
      then have rest: "start_first t pace is ba w = Inr (res, ba', w')" and idle: "run_idle w (bi_run_id i)"
        using Cons.prems(3) Some by (auto simp: run_idle_def run_active_def)
      show ?thesis
      proof (rule Cons.IH [OF _ _ rest])
        fix pre k post r p
        assume "is = pre @ k # post" "\<forall>j \<in> set pre. run_idle w (bi_run_id j)" "runs_get w (bi_run_id k) = Some r"
          "run_status r = RQueued" "start_subject t p r ba w = Inr (res, ba', w')"
        then show thesis using idle by (intro Cons.prems(2) [of "i # pre" k post r p]) auto
      qed (use Cons.prems(1) idle in auto)
    qed
  qed
qed simp

lemma start_subject_effect:
  assumes "start_subject t p r ba w = Inr (res, ba', w')"
  obtains r' w1 where "run_start t r = Inr r'" "runs_save r' w = Inr w1" "tame ba ba'" "res = Some r'"
    "w' = (if ba_status ba' = BRunning then batches_save ba' w1 else w1)"
    "ba_status ba' = (if ba_status ba = BQueued then BRunning else ba_status ba)"
proof -
  obtain r' w1 ba1 where s: "run_start t r = Inr r'" "runs_save r' w = Inr w1"
    "(if ba_status ba = BQueued then batch_start t ba else Inr ba) = Inr ba1"
    "(case p of None \<Rightarrow> Inr ba1 | Some d \<Rightarrow> batch_schedule_next_dispatch (ms_later t d) ba1) = Inr ba'"
    "res = Some r'" "w' = (if ba_status ba' = BRunning then batches_save ba' w1 else w1)"
    using assms unfolding start_subject_def and_then_Inr by blast
  have "tame ba ba1" using s(3) by (auto split: if_splits dest: tame_methods(1))
  moreover have "tame ba1 ba'" using s(4) by (auto split: option.splits dest: tame_methods(5))
  moreover have "ba_status ba1 = (if ba_status ba = BQueued then BRunning else ba_status ba)"
    using s(3) by (auto simp: batch_start_def split: if_splits)
  moreover have "ba_status ba' = ba_status ba1"
    using s(4) by (auto simp: batch_schedule_next_dispatch_def split: option.splits if_splits)
  ultimately show thesis using that s tame_trans by simp
qed

lemma items_for_batch_set: "set (items_for_batch w b) = {i \<in> set (pw_items w). bi_batch_id i = b}"
  by (auto simp: items_for_batch_def)

lemma items_for_batch_sorted: "sorted (map bi_position (items_for_batch w b))"
  by (simp add: items_for_batch_def)

text \<open>The subject chosen by the hand-over has its turn.\<close>

lemma first_has_turn:
  assumes wf: "items_wf w" and ord: "in_order w" and split: "items_for_batch w b = pre @ i # post"
    and idle: "\<forall>j \<in> set pre. run_idle w (bi_run_id j)" and queued: "\<not> run_idle w (bi_run_id i)" "\<not> run_runs w (bi_run_id i)"
  shows "has_turn w (bi_run_id i)"
  unfolding has_turn_def
proof (intro ballI impI)
  fix it jt
  assume it: "it \<in> set (pw_items w)" "bi_run_id it = bi_run_id i"
    and jt: "jt \<in> set (pw_items w)" "bi_batch_id jt = bi_batch_id it \<and> bi_run_id jt \<noteq> bi_run_id i"
  have i: "i \<in> set (pw_items w)" "bi_batch_id i = b"
    using items_for_batch_set [of w b] split by auto
  have "inj_on bi_run_id (set (pw_items w))" using wf by (simp add: items_wf_def distinct_map)
  then have "it = i" using it i by (metis inj_onD)
  then have "jt \<in> set (pre @ i # post)" using jt i items_for_batch_set [of w b] split by auto
  then consider "jt \<in> set pre" | "jt \<in> set post" using jt by auto
  then show "\<not> run_runs w (bi_run_id jt) \<and> (bi_position jt < bi_position it \<longrightarrow> run_idle w (bi_run_id jt))"
  proof cases
    case 1
    then show ?thesis using idle run_runs_not_idle by blast
  next
    case 2
    have "sorted (map bi_position (pre @ i # post))" using items_for_batch_sorted [of w b] split by simp
    then have le: "bi_position i \<le> bi_position jt" using 2 by (auto simp: sorted_append)
    have "bi_position i \<noteq> bi_position jt"
      using wf i(1) jt \<open>it = i\<close> unfolding items_wf_def by metis
    with le have "bi_position i < bi_position jt" by simp
    then have "\<not> run_runs w (bi_run_id jt)"
      using ord i jt \<open>it = i\<close> queued(1) unfolding in_order_def by metis
    with le \<open>it = i\<close> show ?thesis by simp
  qed
qed

lemma start_next_steps:
  assumes start: "start_next_in_uow t pace ba w = Inr (res, ba', w')" and inv: "prod_inv w"
    and ord: "ord \<longrightarrow> in_order w" and row: "batches_get w (ba_id ba) = Some ba"
  shows "psteps ord w w'"
proof -
  consider "ba_status ba = BPaused" | "ba_status ba = BCancelled"
    | "ba_status ba \<noteq> BPaused" "ba_status ba \<noteq> BCancelled" by blast
  then show ?thesis
  proof cases
    case 1
    then show ?thesis using start by (simp add: start_next_in_uow_def)
  next
    case 2
    then show ?thesis using start by (auto simp: start_next_in_uow_def and_then_Inr intro: cancel_queued_steps)
  next
    case 3
    then have "start_first t pace (items_for_batch w (ba_id ba)) ba w = Inr (res, ba', w')"
      using start by (simp add: start_next_in_uow_def)
    then show ?thesis
    proof (cases rule: start_first_cases)
      case Nothing
      then show ?thesis by simp
    next
      case (Start pre i post r p)
      from Start(5) obtain r' w1 where s: "run_start t r = Inr r'" "runs_save r' w = Inr w1" "tame ba ba'"
        "w' = (if ba_status ba' = BRunning then batches_save ba' w1 else w1)"
        by (rule start_subject_effect)
      note m = activating_methods(1) [OF s(1)]
      have id: "run_id r' = bi_run_id i" using m runs_get_id [OF Start(3)] by simp
      have queued: "\<not> run_idle w (bi_run_id i)" "\<not> run_runs w (bi_run_id i)"
        using Start(3,4) by (simp_all add: run_idle_def run_runs_def run_active_def)
      have "admitted w (bi_run_id i)"
        using active_admitted [OF inv Start(3)] Start(4) by (simp add: run_active_def)
      moreover have "ord \<longrightarrow> has_turn w (bi_run_id i)"
        using first_has_turn [OF _ _ Start(1,2) queued] inv ord by (simp add: prod_inv_def)
      ultimately have "pstep ord w w1"
        using m Start(3) s(2) id by (intro pstep.Activate [of w r' r]) auto
      moreover have "batches_get w1 (ba_id ba') = Some ba"
        using row s(3) views_cong(2) [of w1 w] runs_save_frame [OF s(2)] by (simp add: tame_def)
      then have "psteps ord w1 w'" using tame_move [OF _ s(3)] s(4) by simp
      ultimately show ?thesis by (rule converse_rtranclp_into_rtranclp)
    qed
  qed
qed

lemma count_recovery_steps:
  assumes "count_recovery v i w = Inr w'" and "i \<in> set (pw_items w)"
  shows "psteps ord w w' \<and> pw_batches w' = pw_batches w \<and> pw_runs w' = pw_runs w"
proof -
  obtain i' where "items_save i' w = Inr w'" "bi_id i' = bi_id i" "bi_run_id i' = bi_run_id i"
    using assms(1) by (cases v) (auto simp: count_recovery_def)
  then show ?thesis using pstep.Count [OF assms(2)] items_save_items by blast
qed

lemma idle_batch_turn:
  assumes wf: "items_wf w" and i: "i \<in> set (pw_items w)"
    and idle: "\<forall>j \<in> set (pw_items w). bi_batch_id j = bi_batch_id i \<longrightarrow> run_idle w (bi_run_id j)"
  shows "has_turn w (bi_run_id i)"
proof -
  have "it = i" if "it \<in> set (pw_items w)" "bi_run_id it = bi_run_id i" for it
    using wf i that by (metis distinct_map inj_onD items_wf_def)
  then show ?thesis using idle run_runs_not_idle by (auto simp: has_turn_def)
qed

lemma retry_next_recovery_steps:
  "retry_next_recovery env t d ba is w = Inr (res, w') \<Longrightarrow> items_wf w \<Longrightarrow>
   set is \<subseteq> {i \<in> set (pw_items w). bi_batch_id i = ba_id ba} \<Longrightarrow>
   \<forall>j \<in> set (pw_items w). bi_batch_id j = ba_id ba \<longrightarrow> run_idle w (bi_run_id j) \<Longrightarrow>
   batches_get w (ba_id ba) = Some ba \<Longrightarrow> ba_status ba \<noteq> BCancelled \<Longrightarrow> psteps ord w w'"
proof (induction "is" arbitrary: res)
  case (Cons i "is")
  have i: "i \<in> set (pw_items w)" "bi_batch_id i = ba_id ba" using Cons.prems(3) by auto
  consider (skip) res' where "retry_next_recovery env t d ba is w = Inr (res', w')"
    | (go) r rr w1 w2 ba' where "runs_get w (bi_run_id i) = Some r"
        "retry_from_stage_in_uow env t (run_current_stage r) False (run_id r) w = Inr (rr, w1)"
        "count_recovery False i w1 = Inr w2" "pace_recovery t d ba = Inr ba'" "w' = batches_save ba' w2"
    using Cons.prems(1) by (auto simp: and_then_Inr split: option.splits if_splits sum.splits)
  then show ?case
  proof cases
    case skip
    then show ?thesis using Cons by auto
  next
    case go
    have id: "run_id r = bi_run_id i" using runs_get_id [OF go(1)] .
    have turn: "has_turn w (bi_run_id i)" using idle_batch_turn [OF Cons.prems(2) i(1)] Cons.prems(4) i(2) by simp
    have "it = i" if "it \<in> set (pw_items w)" "bi_run_id it = bi_run_id i" for it
      using Cons.prems(2) i that by (metis distinct_map inj_onD items_wf_def)
    moreover have "\<not> batch_cancelled w (bi_batch_id i)"
      using Cons.prems(5,6) i(2) by (simp add: batch_cancelled_def)
    ultimately have "admitted w (bi_run_id i)" unfolding admitted_def by blast
    then have "psteps ord w w1" using retry_in_uow_steps [OF go(2)] turn id by simp
    moreover note f = retry_in_uow_frame [OF go(2)]
    then have c: "psteps ord w1 w2" "pw_batches w2 = pw_batches w1"
      using count_recovery_steps [OF go(3)] i(1) by auto
    moreover have "batches_get w2 (ba_id ba') = Some ba"
      using Cons.prems(5) tame_pace [OF go(4)] views_cong(2) [of w2 w] f c(2) by (simp add: tame_def)
    then have "psteps ord w2 w'" using tame_move [OF _ tame_pace [OF go(4)]] go(5) by simp
    ultimately show ?thesis by (meson rtranclp_trans)
  qed
qed simp

lemma hand_over_steps:
  assumes step: "on_subject_terminal env t p c b i w = Inr (x, w')" and inv: "prod_inv w"
    and ord: "ord \<longrightarrow> in_order w"
  shows "psteps ord w w'"
proof -
  obtain ba where ba: "get_batch_in_lock_order env b w = Inr ba"
    using step by (auto simp: on_subject_terminal_def and_then_Inr)
  note row = get_in_lock_order_get [OF ba]
  show ?thesis
  proof (cases "case item_by_run w i of None \<Rightarrow> True | Some it \<Rightarrow> bi_batch_id it \<noteq> ba_id ba")
    case True
    then show ?thesis using step ba by (simp add: on_subject_terminal_def)
  next
    case False
    obtain started ba1 w1 where s: "start_next_in_uow t (Some p) ba w = Inr (started, ba1, w1)"
      using step ba False by (auto simp: on_subject_terminal_def and_then_Inr)
    have first: "psteps ord w w1" using start_next_steps [OF s inv ord] row by simp
    show ?thesis
    proof (cases "w' = w1")
      case True
      then show ?thesis using first by simp
    next
      case False2: False
      let ?is = "items_for_batch w1 b"
      let ?rows = "map (\<lambda>it. runs_get w1 (bi_run_id it)) ?is"
      have none: "started = None" "ba_status ba1 \<noteq> BCancelled"
        "list_all (\<lambda>r. case r of None \<Rightarrow> False | Some x \<Rightarrow> run_terminal x) ?rows" "batch_dispatchable ba1"
        and last: "and_then (if ba_phase ba1 \<noteq> PhaseReview
                 then retry_next_recovery env t c ba1 (sort_key bi_position ?is) w1 else Inr (None, w1))
               (\<lambda>(recovery, w2). case recovery of
                   Some (r, _) \<Rightarrow> Inr (Some r, w2)
                 | None \<Rightarrow> and_then (finish_batch_in_uow t ba1 ?is w1) (\<lambda>w3. Inr (None, w3))) = Inr (x, w')"
        using step ba False s False2
        by (auto simp: on_subject_terminal_def Let_def split: if_splits option.splits)
      have same: "ba1 = ba" "w1 = w"
      proof -
        have "ba_status ba \<noteq> BCancelled"
          using s none(2) by (auto simp: start_next_in_uow_def and_then_Inr split: if_splits)
        then have "ba_status ba = BPaused \<and> ba1 = ba \<and> w1 = w \<or>
            start_first t (Some p) (items_for_batch w (ba_id ba)) ba w = Inr (None, ba1, w1)"
          using s none(1) by (auto simp: start_next_in_uow_def Let_def split: if_splits)
        then show "ba1 = ba" "w1 = w"
          using none(1) by (auto elim!: start_first_cases start_subject_effect)
      qed
      have idle: "\<forall>j \<in> set (pw_items w). bi_batch_id j = ba_id ba \<longrightarrow> run_idle w (bi_run_id j)"
        using none(3) row by (auto simp: same list_all_iff items_for_batch_set run_idle_def run_terminal_def run_active_def
            split: option.splits)
      have wf: "items_wf w" using inv by (simp add: prod_inv_def)
      consider (rec) r' where "retry_next_recovery env t c ba (sort_key bi_position ?is) w = Inr (r', w')"
        | (fin) "finish_batch_in_uow t ba ?is w = Inr w'"
        using last unfolding same by (auto simp: and_then_Inr split: if_splits option.splits)
      then show ?thesis
      proof cases
        case rec
        show ?thesis
          by (rule retry_next_recovery_steps [OF rec wf _ idle])
            (use row none(2) in \<open>auto simp: same items_for_batch_set\<close>)
      next
        case fin
        then obtain ba2 ba3 where f: "batch_enter_review ba = Inr ba2"
          "batch_finish (list_ex (not_ready w) ?is) t ba2 = Inr ba3" "w' = batches_save ba3 w"
          by (auto simp: finish_batch_in_uow_def and_then_Inr)
        have tame: "tame ba ba3" using f tame_methods(8,2) tame_trans by blast
        show ?thesis using tame_move [OF _ tame] row tame f(3) by (simp add: tame_def)
      qed
    qed
  qed
qed

subsection \<open>Creation and revival\<close>

lemma prepared_run: "prepare_production_run env i t e s w = Inr r \<Longrightarrow> run_id r = i \<and> run_status r = RQueued"
  by (auto simp: prepare_production_run_def new_run_def run_post_init_def validated_Inr and_then_Inr
      split: option.splits if_splits sum.splits error.splits)

lemma prepare_all_queued: "prepare_all env t e ro ss w = Inr (active, rs) \<Longrightarrow> \<forall>r \<in> set rs. run_status r = RQueued"
proof (induction ss arbitrary: active rs)
  case (Cons s ss)
  then show ?case by (auto simp: and_then_Inr split: if_splits dest: prepared_run)
qed simp

lemma create_batch_steps:
  assumes create: "create_batch env b ro io t e ss k a c w = Inr (x, w')"
  shows "psteps ord w w'"
proof (cases "w' = w")
  case False
  obtain active rs ba w1 w2 where free: "active_batch_for_edition w e = None"
    and p: "prepare_all env t e ro ss w = Inr (active, rs)" and ba: "new_batch env b t e k ss a c = Inr ba"
    and w: "batches_add ba w = Inr w1" "add_runs rs w1 = Inr w2" "items_append_many (new_items b t io 1 rs) w2 = Inr w'"
    using create False
    by (auto simp: create_batch_def and_then_Inr Let_def split: if_splits option.splits edition_status.splits)
  have "ba_id ba = b \<and> ba_edition_id ba = e \<and> ba_status ba = BQueued"
    using ba by (auto simp: new_batch_def batch_post_init_def validated_Inr)
  then have "pstep ord w w'"
    using w free prepare_all_queued [OF p] by (intro pstep.Enrol [of ba w w1 rs w2]) (auto simp: active_batch_None)
  then show ?thesis by simp
qed simp

lemma resume_run_steps:
  assumes resume: "resume_cancelled_run env t i w = Inr (x, w')" and inv: "prod_inv w"
  shows "psteps False w w'"
proof -
  obtain r b w1 r' and plan :: resume_plan where r: "runs_get w i = Some r"
    and p: "prepare_batch_for_recovery t r True w = Inr (b, w1)"
    and m: "run_resume_after_cancellation (rp_resume_from plan) t r = Inr r'" and save: "runs_save r' w1 = Inr w'"
    using resume by (auto simp: resume_cancelled_run_def and_then_Inr split: option.splits if_splits)
  note s = prepare_steps [OF p inv] and a = activating_methods(3) [OF m]
  have "runs_get w1 (run_id r') = Some r"
    using r s(2) a runs_get_id [OF r] views_cong(1) [of w1 w] by simp
  then have "pstep False w1 w'" using s(5) a save by (intro pstep.Activate [of w1 r' r]) auto
  with s(1) show ?thesis by (rule rtranclp.rtrancl_into_rtrancl)
qed

lemma create_run_steps:
  assumes create: "create_run env i t s e old w = Inr (x, w')" and inv: "prod_inv w" and ord: "ord \<longrightarrow> old = None"
  shows "psteps ord w w'"
proof (cases "w' = w")
  case False
  have idle: "active_run_of_subject w s = None"
    using create False by (auto simp: create_run_def and_then_Inr split: option.splits)
  obtain w1 r where find: "(case old of None \<Rightarrow> Inr w
         | Some q0 \<Rightarrow> (case current_run_for_subject w s of
             None \<Rightarrow> Inl (ValueError ''production_run_superseded'')
           | Some q \<Rightarrow>
               if run_id q \<noteq> q0 then Inl (ValueError ''production_run_superseded'')
               else if run_edition_id q \<noteq> e then Inl (ValueError ''production_run_edition_changed'')
               else and_then (prepare_batch_for_recovery t q True w) (\<lambda>(_, w1). Inr w1))) = Inr w1"
    and r: "prepare_production_run env i t e s w1 = Inr r"
    and tail: "(case runs_add r w1 of
           Inl x \<Rightarrow> if x \<noteq> ActiveRunConflict then Inl x else (case active_run_of_subject w s of
               None \<Rightarrow> Inl x | Some winner \<Rightarrow> Inr ((winner, False), w))
         | Inr w2 \<Rightarrow> and_then (repoint_batch_item old i w2) (\<lambda>w3. Inr ((r, True), w3))) = Inr (x, w')"
    using create idle by (clarsimp simp: create_run_def and_then_Inr)
  obtain w2 where add: "runs_add r w1 = Inr w2" and point: "repoint_batch_item old i w2 = Inr w'"
    using tail idle by (auto simp: and_then_Inr split: sum.splits if_splits)
  have first: "w1 = w \<and> old = None \<or> (\<exists>q0 b q. old = Some q0 \<and> run_id q = q0
      \<and> prepare_batch_for_recovery t q True w = Inr (b, w1))"
    using find by (auto simp: and_then_Inr split: option.splits if_splits)
  have one: "psteps ord w w1" using first prepare_steps(1) [OF _ inv] by auto
  have inv1: "prod_inv w1" using psteps_inv [OF one inv] .
  have two: "psteps ord w w2" using one pstep.Add [OF add] by (rule rtranclp.rtrancl_into_rtrancl)
  have w2: "pw_items w2 = pw_items w1" "batch_cancelled w2 = batch_cancelled w1" "runs_get w1 i = None"
    "runs_get w2 i \<noteq> None"
    using add prepared_run [OF r]
    by (auto simp: runs_add_def runs_get_def batch_cancelled_def batches_get_def fun_eq_iff find_append
        split: if_splits option.splits)
  show ?thesis
  proof (cases "\<exists>q0 it. old = Some q0 \<and> item_by_run w2 q0 = Some it")
    case False
    then have "w' = w2" using point by (auto simp: repoint_batch_item_def split: option.splits)
    with two show ?thesis by simp
  next
    case True
    then obtain q0 it where it: "old = Some q0" "item_by_run w2 q0 = Some it" by blast
    then obtain b q where q: "run_id q = q0" "prepare_batch_for_recovery t q True w = Inr (b, w1)" using first by auto
    have mem: "it \<in> set (pw_items w2)" "bi_run_id it = q0" using item_by_run_mem [OF it(2)] by auto
    then have "\<not> batch_cancelled w2 (bi_batch_id it)"
      using prepare_steps(5) [OF q(2) inv] q(1) w2 by (auto simp: admitted_def)
    moreover have "\<forall>jt \<in> set (pw_items w2). bi_run_id jt \<noteq> i"
      using inv1 w2 by (auto simp: prod_inv_def items_wf_def)
    ultimately have "pstep False w2 w'"
      using point it mem(1) w2(4)
      by (intro pstep.Repoint [of it w2 "it\<lparr>bi_run_id := i, bi_auto_recovery_count := 0\<rparr>"])
        (auto simp: repoint_batch_item_def)
    then have "pstep ord w2 w'" using ord it(1) by simp
    with two show ?thesis by (rule rtranclp.rtrancl_into_rtrancl)
  qed
qed simp

lemma prepare_batch_row:
  assumes prepare: "prepare_batch_for_recovery t r reopen w = Inr (Some ba, w1)"
  shows "batch_dispatchable ba \<or> \<not> reopen" "\<exists>b0. batches_get w1 (ba_id ba) = Some b0 \<and> tame b0 ba"
proof -
  have "(batch_dispatchable ba \<or> \<not> reopen) \<and> (\<exists>b0. batches_get w1 (ba_id ba) = Some b0 \<and> tame b0 ba)"
    using prepare
  proof (cases rule: prepare_cases)
    case (Kept it b0)
    then show ?thesis using batches_get_id [OF Kept(2)] by simp
  next
    case (Reopened it b0 c b')
    then have b: "b' = ba" by simp
    have row: "batches_get w (ba_id ba) = Some b0"
      using Reopened(2) batches_get_id [OF Reopened(2)] batch_open_effect [OF Reopened(6)] by (simp add: b)
    then have "batches_get w1 (ba_id ba) = Some (ba\<lparr>ba_edition_id := ba_edition_id b0, ba_created_at := ba_created_at b0\<rparr>)"
      by (simp add: Reopened(8) b batches_save_get)
    moreover have "ba_edition_id ba = ba_edition_id b0" "batch_dispatchable ba"
      using Reopened(6) by (auto simp: b batch_open_review_recovery_def batch_dispatchable_def split: if_splits)
    ultimately show ?thesis by (auto simp: tame_def batch_active_def)
  qed simp
  then show "batch_dispatchable ba \<or> \<not> reopen" "\<exists>b0. batches_get w1 (ba_id ba) = Some b0 \<and> tame b0 ba"
    by blast+
qed

lemma retry_cases:
  assumes retry: "retry_from_stage env t d i s f auto v w = Inr (x, w')"
  obtains r b w1 w2 where "runs_get w i = Some r" "prepare_batch_for_recovery t r True w = Inr (b, w1)"
    "retry_from_stage_in_uow env t s f i w1 = Inr (x, w2)"
    "w' = w2 \<or> (\<exists>it w3. item_by_run w i = Some it \<and> count_recovery v it w2 = Inr w3
      \<and> (b = None \<and> w' = w3 \<or> (\<exists>ba ba'. b = Some ba \<and> pace_recovery t d ba = Inr ba' \<and> w' = batches_save ba' w3)))"
proof -
  obtain r where r: "runs_get w i = Some r" using retry by (auto simp: retry_from_stage_def split: option.splits)
  obtain b w1 res w2 where p: "prepare_batch_for_recovery t r True w = Inr (b, w1)"
    and go: "retry_from_stage_in_uow env t s f i w1 = Inr (res, w2)"
    and tail: "(case item_by_run w i of Some it \<Rightarrow> if \<not> auto then Inr (res, w2)
        else and_then (count_recovery v it w2) (\<lambda>w3. case b of None \<Rightarrow> Inr (res, w3)
          | Some ba \<Rightarrow> and_then (pace_recovery t d ba) (\<lambda>ba'. Inr (res, batches_save ba' w3)))
      | None \<Rightarrow> Inr (res, w2)) = Inr (x, w')"
    using retry r by (clarsimp simp: retry_from_stage_def and_then_Inr Let_def guard_Inr)
  have "res = x \<and> (w' = w2 \<or> (\<exists>it w3. item_by_run w i = Some it \<and> count_recovery v it w2 = Inr w3
      \<and> (b = None \<and> w' = w3 \<or> (\<exists>ba ba'. b = Some ba \<and> pace_recovery t d ba = Inr ba' \<and> w' = batches_save ba' w3))))"
    using tail by (cases b) (auto simp: and_then_Inr split: option.splits if_splits)
  with r p go that show thesis by blast
qed

lemma retry_steps:
  assumes retry: "retry_from_stage env t d i s f auto v w = Inr (x, w')" and inv: "prod_inv w"
  shows "psteps False w w'"
proof -
  obtain r b w1 w2 where r: "runs_get w i = Some r" and p: "prepare_batch_for_recovery t r True w = Inr (b, w1)"
    and go: "retry_from_stage_in_uow env t s f i w1 = Inr (x, w2)"
    and rest: "w' = w2 \<or> (\<exists>it w3. item_by_run w i = Some it \<and> count_recovery v it w2 = Inr w3
      \<and> (b = None \<and> w' = w3 \<or> (\<exists>ba ba'. b = Some ba \<and> pace_recovery t d ba = Inr ba' \<and> w' = batches_save ba' w3)))"
    using retry by (rule retry_cases)
  note s = prepare_steps [OF p inv]
  have two: "psteps False w1 w2"
    by (rule retry_in_uow_steps [OF go]) (use s(5) runs_get_id [OF r] in auto)
  note f = retry_in_uow_frame [OF go]
  have upto: "psteps False w w2" using s(1) two by (rule rtranclp_trans)
  show ?thesis
  proof (cases "w' = w2")
    case False
    then obtain it w3 where it: "item_by_run w i = Some it" and c: "count_recovery v it w2 = Inr w3"
      and b: "b = None \<and> w' = w3 \<or> (\<exists>ba ba'. b = Some ba \<and> pace_recovery t d ba = Inr ba' \<and> w' = batches_save ba' w3)"
      using rest by blast
    have "it \<in> set (pw_items w2)" using item_by_run_mem [OF it] f s(3) by simp
    note c3 = count_recovery_steps [OF c this]
    have three: "psteps False w w3" using upto c3 by (meson rtranclp_trans)
    from b show ?thesis
    proof
      assume "\<exists>ba ba'. b = Some ba \<and> pace_recovery t d ba = Inr ba' \<and> w' = batches_save ba' w3"
      then obtain ba ba' where ba: "b = Some ba" "pace_recovery t d ba = Inr ba'" "w' = batches_save ba' w3" by blast
      obtain b0 where b0: "batches_get w1 (ba_id ba) = Some b0" "tame b0 ba"
        using prepare_batch_row(2) p ba(1) by blast
      note pace = tame_pace [OF ba(2)]
      have "batches_get w3 (ba_id ba') = Some b0"
        using b0(1) pace views_cong(2) [of w3 w1] c3 f by (simp add: tame_def)
      then have "psteps False w3 w'" using tame_move tame_trans [OF b0(2) pace] ba(3) by blast
      with three show ?thesis by (rule rtranclp_trans)
    qed (use three in simp)
  qed (use upto in simp)
qed

lemma adopt_steps: "adopt_route t i d v g w = Inr w' \<Longrightarrow> psteps ord w w'"
  by (auto simp: adopt_route_def split: option.splits if_splits intro!: r_into_rtranclp pstep.Relabel)

subsection \<open>Refinement of the protocol\<close>

text \<open>The requests that start, resume or retry a single article, or replace its run.\<close>

fun revives :: "prod_env \<times> prod_op \<Rightarrow> bool" where
  "revives (env, OpCreateRun i t s e old) = (old \<noteq> None)"
| "revives (env, OpStartRun t i) = True"
| "revives (env, OpResumeRun t i) = True"
| "revives (env, OpRetry t d i s f a v) = True"
| "revives _ = False"

lemma services_refine_protocol:
  assumes exec: "prod_exec op w = Inr w'" and inv: "prod_inv w" and ord: "\<not> revives op \<longrightarrow> in_order w"
  shows "psteps (\<not> revives op) w w'"
proof -
  obtain env act where op: "op = (env, act)" by (cases op)
  show ?thesis
  proof (cases act)
    case (OpStartNext t b)
    then obtain ba res ba' where "get_batch_in_lock_order env b w = Inr ba" "start_next_in_uow t None ba w = Inr (res, ba', w')"
      using exec by (auto simp: op effect_Inr start_next_def and_then_Inr)
    then show ?thesis using start_next_steps inv ord OpStartNext op get_in_lock_order_get by fastforce
  qed (use exec inv ord in \<open>auto simp: op effect_Inr intro: create_run_steps start_run_steps advance_steps mark_steps
      cancel_run_steps resume_run_steps retry_steps create_batch_steps cancel_batch_steps pause_batch_steps
      resume_batch_steps hand_over_steps clear_steps adopt_steps\<close>)
qed

lemma prod_exec_steps: "prod_exec op w = Inr w' \<Longrightarrow> prod_inv w \<Longrightarrow> psteps False w w'"
proof -
  assume exec: "prod_exec op w = Inr w'" and inv: "prod_inv w"
  show ?thesis
  proof (cases "revives op")
    case True
    then show ?thesis using services_refine_protocol [OF exec inv] by simp
  next
    case False
    obtain env act where "op = (env, act)" by (cases op)
    then show ?thesis using exec inv False
      by (cases act) (auto simp: effect_Inr start_next_def and_then_Inr dest: get_in_lock_order_get
          intro: create_run_steps advance_steps mark_steps cancel_run_steps create_batch_steps cancel_batch_steps pause_batch_steps
            resume_batch_steps hand_over_steps clear_steps adopt_steps start_next_steps)
  qed
qed

interpretation prod_machine: guarded_machine prod_exec prod_inv
  by unfold_locales (blast intro: psteps_inv prod_exec_steps)

interpretation subject_machine: guarded_machine prod_exec "\<lambda>w. prod_inv w \<and> one_run w"
  by unfold_locales (blast intro: psteps_inv psteps_one_run prod_exec_steps)

text \<open>A sequence of requests is a sequence of protocol steps.\<close>

lemma drive_steps: "prod_inv w \<Longrightarrow> psteps False w (drive prod_exec ops w)"
proof (induction ops arbitrary: w)
  case (Cons op ops)
  show ?case
  proof (cases "prod_exec op w")
    case (Inr w1)
    with Cons.prems have one: "psteps False w w1" by (blast intro: prod_exec_steps)
    then have "psteps False w1 (drive prod_exec ops w1)" using Cons psteps_inv by blast
    with one show ?thesis by (simp add: Inr step_def)
  qed (use Cons in \<open>simp add: step_def\<close>)
qed simp

lemma drive_ordered_steps:
  "prod_inv w \<Longrightarrow> in_order w \<Longrightarrow> list_all (\<lambda>op. \<not> revives op) ops \<Longrightarrow> psteps True w (drive prod_exec ops w)"
proof (induction ops arbitrary: w)
  case (Cons op ops)
  show ?case
  proof (cases "prod_exec op w")
    case (Inr w1)
    with Cons.prems have one: "psteps True w w1" using services_refine_protocol [of op w w1] by simp
    then have "psteps True w1 (drive prod_exec ops w1)"
      using Cons psteps_inv psteps_in_order by simp
    with one show ?thesis by (simp add: Inr step_def)
  qed (use Cons in \<open>simp add: step_def\<close>)
qed simp

text \<open>No request revives a cancelled batch or changes its members.\<close>

interpretation batch_seal: absorbing_machine prod_exec "\<lambda>w. prod_inv w \<and> batch_cancelled w b"
  "\<lambda>w. batch_members w b" "\<lambda>_. False" for b
proof
  fix w op w'
  assume h: "prod_inv w \<and> batch_cancelled w b" and exec: "prod_exec op w = Inr w'"
  show "(prod_inv w' \<and> batch_cancelled w' b) \<and> batch_members w' b = batch_members w b"
    using psteps_inv [OF prod_exec_steps [OF exec]] psteps_sealed [OF prod_exec_steps [OF exec]] h by blast
qed

interpretation batch_order: absorbing_machine prod_exec "\<lambda>w. prod_inv w \<and> in_order w" "\<lambda>_. ()" revives
proof
  fix w op w'
  assume "prod_inv w \<and> in_order w" "\<not> revives op" "prod_exec op w = Inr w'"
  then have "prod_inv w" "in_order w" "psteps True w w'" using services_refine_protocol [of op w w'] by auto
  then show "(prod_inv w' \<and> in_order w') \<and> () = ()" using psteps_inv psteps_in_order by blast
qed

end
