(* ===== verification/BatchProperties.thy ===== *)
theory BatchProperties
  imports BatchSafety
begin

text \<open>
  What the production services promise: the safety of batches along every interleaving of requests, the
  progress of the hand-over, and what a recovery, a retry and a repeated creation do.
\<close>

subsection \<open>An example production\<close>

definition demo_env :: prod_env where
  "demo_env = \<lparr>env_editions = (\<lambda>e. if e = 2 then Some EditionOpen else None), env_routes = (\<lambda>_. None),
     env_source_states = (\<lambda>_. [''archived'']), env_subjects = (\<lambda>s. if s < 9 then Some 2 else None),
     env_origins = (\<lambda>s. Some (s, 2)), env_capture = (\<lambda>_ _. Inr 0), env_classifier = False,
     env_sha256 = (\<lambda>_. replicate 64 (CHR ''0''))\<rparr>"

definition empty_world :: prod_world where
  "empty_world = \<lparr>pw_runs = [], pw_batches = [], pw_items = [], pw_artifacts = []\<rparr>"

lemma empty_world_inv [simp]: "prod_inv empty_world" "in_order empty_world" "one_run empty_world"
  by (simp_all add: empty_world_def prod_inv_def items_wf_def barrier_def one_active_def in_order_def one_run_def)

definition demo_create :: prod_op where
  "demo_create = OpCreateBatch 9 (\<lambda>s. s + 10) (\<lambda>s. s + 20) (utc 0) 2 [1, 3, 4] ''k'' ''ana'' ''-''"

definition demo_overtaking :: "prod_op list" where
  "demo_overtaking = [demo_create, OpStartNext (utc 1) 9, OpStartRun (utc 1) 14, OpFail ''x'' ''m'' None (utc 2) 14,
     OpReady (utc 3) 11]"

abbreviation demo_ops :: "prod_op list \<Rightarrow> (prod_env \<times> prod_op) list" where
  "demo_ops ops \<equiv> map (\<lambda>op. (demo_env, op)) ops"

subsection \<open>Lemmas\<close>

text \<open>The row of a started or retried run.\<close>

lemma saved_run_runs:
  "runs_save r w = Inr w' \<Longrightarrow> runs_get w (run_id r) = Some r0 \<Longrightarrow> run_status r = RRunning \<Longrightarrow>
   run_runs w' (run_id r)"
  by (simp add: run_runs_def runs_save_get)

lemma retry_in_uow_runs:
  assumes "retry_from_stage_in_uow env t s f i w = Inr (res, w')"
  shows "run_id (rr_run res) = i" "run_runs w' i" "\<And>j. j \<noteq> i \<Longrightarrow> runs_get w' j = runs_get w j"
proof -
  obtain r r' xs where r: "runs_get w i = Some r" "run_retry_from_stage s f t r = Inr r'"
    and save: "runs_save r' (snd (mark_stages_stale i xs w)) = Inr w'" and res: "rr_run res = r'"
    using assms by (rule retry_in_uow_cases)
  note m = activating_methods(2) [OF r(2)]
  have id: "run_id r' = i" using m runs_get_id [OF r(1)] by simp
  have same: "runs_get (snd (mark_stages_stale i xs w)) = runs_get w"
    by (simp add: mark_stages_stale_def Let_def runs_get_def fun_eq_iff)
  show "run_id (rr_run res) = i" by (simp add: res id)
  show "run_runs w' i" using saved_run_runs [OF save, of r] m r id same by simp
  show "runs_get w' j = runs_get w j" if "j \<noteq> i" for j
    using that by (simp add: runs_save_get [OF save] id same)
qed

lemma retry_in_uow_items: "retry_from_stage_in_uow env t s f i w = Inr (res, w') \<Longrightarrow> items_for_batch w' = items_for_batch w"
  using retry_in_uow_frame by (fastforce simp: items_for_batch_def)

lemma insort_key_map: "(\<And>x. k (f x) = k x) \<Longrightarrow> insort_key k (f x) (map f xs) = map f (insort_key k x xs)"
  by (induction xs) auto

lemma sort_key_map: "(\<And>x. k (f x) = k x) \<Longrightarrow> sort_key k (map f xs) = map f (sort_key k xs)"
  by (induction xs) (simp_all add: insort_key_map)

lemma count_recovery_items:
  assumes "count_recovery v i w = Inr w'" and wf: "items_wf w" and i: "i \<in> set (pw_items w)"
  shows "map bi_run_id (items_for_batch w' b) = map bi_run_id (items_for_batch w b)"
proof -
  obtain i' where save: "items_save i' w = Inr w'" and same: "bi_id i' = bi_id i" "bi_run_id i' = bi_run_id i"
    using assms(1) by (cases v) (auto simp: count_recovery_def)
  let ?f = "\<lambda>x. if bi_id x = bi_id i' then x\<lparr>bi_run_id := bi_run_id i',
      bi_auto_recovery_count := bi_auto_recovery_count i',
      bi_verified_reemission_count := bi_verified_reemission_count i'\<rparr> else x"
  have inj: "inj_on bi_id (set (pw_items w))" using wf by (simp add: items_wf_def distinct_map)
  have run: "bi_run_id (?f x) = bi_run_id x" if "x \<in> set (pw_items w)" for x
    using inj_onD [OF inj _ that i] same by auto
  have "items_for_batch w' b = map ?f (items_for_batch w b)"
    using items_save_items [OF save] sort_key_map [of bi_position ?f]
    by (simp add: items_for_batch_def filter_map o_def if_distrib cong: if_cong)
  then show ?thesis using run by (simp add: items_for_batch_set)
qed

lemma pace_recovery_status: "pace_recovery t d b = Inr b' \<Longrightarrow> ba_status b' = ba_status b \<and> ba_id b' = ba_id b"
  by (auto simp: pace_recovery_def batch_enter_recovery_def batch_schedule_next_dispatch_def and_then_Inr
      split: if_splits)

text \<open>No running sibling.\<close>

lemma no_active_sibling:
  "ensure_no_active_sibling b i w = Inr () \<longleftrightarrow>
     (\<forall>j \<in> set (items_for_batch w b). bi_run_id j \<noteq> i \<longrightarrow> \<not> run_runs w (bi_run_id j))"
  by (auto simp: ensure_no_active_sibling_def list_ex_iff item_runs_now_def run_runs_def split: if_splits option.splits)

lemma items_append_batches: "items_append_many is w = Inr w' \<Longrightarrow> pw_batches w' = pw_batches w"
  by (induction "is" arbitrary: w) (auto split: if_splits)

text \<open>The outcome of a hand-over on a dispatchable batch.\<close>

lemma hand_over_idle:
  assumes "start_next_in_uow t (Some p) ba w = Inr (None, ba1, w1)" and "batch_dispatchable ba"
  shows "ba1 = ba" "w1 = w" "(\<forall>i \<in> set (items_for_batch w (ba_id ba)). run_idle w (bi_run_id i))
    \<or> (\<exists>i \<in> set (items_for_batch w (ba_id ba)). run_runs w (bi_run_id i))"
proof -
  have "start_first t (Some p) (items_for_batch w (ba_id ba)) ba w = Inr (None, ba1, w1)"
    using assms by (auto simp: start_next_in_uow_def Let_def batch_dispatchable_def split: if_splits)
  then show "ba1 = ba" "w1 = w" "(\<forall>i \<in> set (items_for_batch w (ba_id ba)). run_idle w (bi_run_id i))
    \<or> (\<exists>i \<in> set (items_for_batch w (ba_id ba)). run_runs w (bi_run_id i))"
    by (auto elim!: start_first_cases start_subject_effect)
qed

text \<open>The recovery takes the first article whose retry is due and has its prerequisites.\<close>

definition recoverable :: "prod_env \<Rightarrow> datetime \<Rightarrow> prod_world \<Rightarrow> batch_item \<Rightarrow> bool" where
  "recoverable env t w i = (case runs_get w (bi_run_id i) of
     None \<Rightarrow> False
   | Some r \<Rightarrow> recovery_eligible (bi_auto_recovery_count i) r
       \<and> (case retry_from_stage_in_uow env t (run_current_stage r) False (run_id r) w of
            Inl e \<Rightarrow> \<not> is_prerequisite_error e | Inr _ \<Rightarrow> True))"

lemma retry_next_recovery_result:
  "retry_next_recovery env t d ba is w = Inr (res, w') \<Longrightarrow> items_wf w \<Longrightarrow> set is \<subseteq> set (pw_items w) \<Longrightarrow>
   case find (recoverable env t w) is of None \<Rightarrow> res = None \<and> w' = w
   | Some it \<Rightarrow> \<exists>r ba'. res = Some (r, ba') \<and> run_id r = bi_run_id it \<and> run_runs w' (bi_run_id it)
       \<and> (\<forall>j. j \<noteq> bi_run_id it \<longrightarrow> runs_get w' j = runs_get w j)"
proof (induction "is")
  case (Cons i "is")
  have i: "i \<in> set (pw_items w)" using Cons.prems(3) by simp
  show ?case
  proof (cases "recoverable env t w i")
    case False
    then have "retry_next_recovery env t d ba is w = Inr (res, w')"
      using Cons.prems(1) by (auto simp: recoverable_def split: option.splits if_splits sum.splits)
    then show ?thesis using Cons False by simp
  next
    case True
    then obtain r rr w1 w2 ba' where go: "runs_get w (bi_run_id i) = Some r"
      "retry_from_stage_in_uow env t (run_current_stage r) False (run_id r) w = Inr (rr, w1)"
      "count_recovery False i w1 = Inr w2" "w' = batches_save ba' w2" "res = Some (rr_run rr, ba')"
      using Cons.prems(1) by (auto simp: recoverable_def and_then_Inr split: option.splits sum.splits)
    have id: "run_id r = bi_run_id i" using runs_get_id [OF go(1)] .
    have "pw_runs w2 = pw_runs w1"
      using count_recovery_steps [OF go(3)] i retry_in_uow_frame [OF go(2)] by simp
    then have "run_runs w' = run_runs w1 \<and> runs_get w' = runs_get w1"
      using views_cong(1) [of w2 w1] by (simp add: go(4))
    then show ?thesis using retry_in_uow_runs [OF go(2)] id True by (simp add: go(5))
  qed
qed simp

lemma rows_terminal:
  "list_all (\<lambda>r. case r of None \<Rightarrow> False | Some x \<Rightarrow> run_terminal x) (map (\<lambda>it. runs_get w (bi_run_id it)) is)
   \<longleftrightarrow> (\<forall>i \<in> set is. runs_get w (bi_run_id i) \<noteq> None \<and> run_idle w (bi_run_id i))"
proof -
  have "run_terminal x \<longleftrightarrow> \<not> run_active x" for x
    by (cases "run_status x") (simp_all add: run_terminal_def run_active_def)
  then show ?thesis by (auto simp: list_all_iff run_idle_def split: option.splits)
qed

lemma find_split: "find P xs = Some x \<Longrightarrow> \<exists>pre post. xs = pre @ x # post \<and> P x \<and> (\<forall>y \<in> set pre. \<not> P y)"
proof (induction xs)
  case (Cons y ys)
  show ?case
  proof (cases "P y")
    case True
    then show ?thesis using Cons.prems by (intro exI [of _ "[]"] exI [of _ ys]) auto
  next
    case False
    then obtain pre post where "ys = pre @ x # post \<and> P x \<and> (\<forall>y \<in> set pre. \<not> P y)" using Cons by auto
    then show ?thesis using False by (intro exI [of _ "y # pre"] exI [of _ post]) auto
  qed
qed simp

lemma find_skip: "\<forall>y \<in> set pre. \<not> P y \<Longrightarrow> find P (pre @ xs) = find P xs"
  by (induction pre) auto

abbreviation running_row :: "production_run option \<Rightarrow> bool" where
  "running_row r \<equiv> (case r of None \<Rightarrow> False | Some x \<Rightarrow> run_status x = RRunning)"

lemma running_row: "running_row (runs_get w i) \<longleftrightarrow> run_runs w i"
  by (simp add: run_runs_def)

text \<open>The dispatch passes over the articles that are finished.\<close>

lemma start_first_skip:
  "\<forall>j \<in> set pre. run_idle w (bi_run_id j) \<Longrightarrow> start_first t p (pre @ is) ba w = start_first t p is ba w"
  by (induction pre) (auto simp: run_idle_def run_active_def split: option.splits)

lemma started_subject:
  assumes "start_subject t p r ba w = Inr (res, ba', w')" and "runs_get w (run_id r) = Some r"
  shows "\<exists>r'. res = Some r' \<and> run_id r' = run_id r \<and> run_runs w' (run_id r)
    \<and> (\<forall>j. j \<noteq> run_id r \<longrightarrow> runs_get w' j = runs_get w j)"
proof -
  obtain r' w1 where s: "run_start t r = Inr r'" "runs_save r' w = Inr w1" "res = Some r'"
    "w' = (if ba_status ba' = BRunning then batches_save ba' w1 else w1)"
    using assms(1) by (rule start_subject_effect) simp
  note m = activating_methods(1) [OF s(1)]
  have "runs_get w' = runs_get w1" "run_runs w' = run_runs w1" by (simp_all add: s(4))
  then show ?thesis using saved_run_runs [OF s(2), of r] m assms(2) s(3) runs_save_get [OF s(2)] by simp
qed

lemma finished_row:
  assumes row: "batches_get w (ba_id ba) = Some ba" and finish: "finish_batch_in_uow t ba is w = Inr w'"
  shows "\<exists>ba'. batches_get w' (ba_id ba) = Some ba' \<and> ba_phase ba' = PhaseReview \<and> ba_finished_at ba' = Some t
    \<and> ba_status ba' = (if list_ex (not_ready w) is then BCompletedWithIssues else BCompleted)"
  using assms
  by (auto simp: finish_batch_in_uow_def batch_enter_review_def batch_finish_def and_then_Inr batches_save_get
      split: if_splits)

subsection \<open>Safety of the batches\<close>

text \<open>
  C1. The services refine the dispatch protocol: along every sequence of requests the tables move by protocol
  steps only (a run settles, a run is activated outside cancelled batches, a batch row moves, a batch is enrolled,
  a run is added or relabelled, an item is counted or repointed, artifacts turn stale), so the integrity of
  the items, the cancellation barrier and the uniqueness of the active batch of an edition are kept; and while no
  request starts, resumes, retries or replaces a single article, every step respects the editorial order, which
  is kept too.
\<close>

theorem dispatch_refinement:
  assumes "prod_inv w" and "w' = drive prod_exec ops w"
  shows "psteps False w w' \<and> prod_inv w'
    \<and> (in_order w \<and> list_all (\<lambda>op. \<not> revives op) ops \<longrightarrow> psteps True w w' \<and> in_order w')"
  using drive_steps [OF assms(1)] drive_ordered_steps [OF assms(1)] psteps_inv psteps_in_order assms by blast

theorem dispatch_refinement_witness:
  "psteps True empty_world (drive prod_exec (demo_ops [demo_create, OpStartNext (utc 1) 9]) empty_world)
   \<and> run_runs (drive prod_exec (demo_ops [demo_create, OpStartNext (utc 1) 9]) empty_world) 11"
proof -
  have "list_all (\<lambda>op. \<not> revives op) (demo_ops [demo_create, OpStartNext (utc 1) 9])" by (simp add: demo_create_def)
  moreover have "run_runs (drive prod_exec (demo_ops [demo_create, OpStartNext (utc 1) 9]) empty_world) 11" by code_simp
  ultimately show ?thesis using dispatch_refinement [OF empty_world_inv(1) refl] empty_world_inv(2) by blast
qed

text \<open>
  C3. A cancelled batch is an absolute barrier: whatever requests follow, in whatever environment, it
  stays cancelled, keeps the same items and runs, and none of its runs is ever queued or running again.
\<close>

theorem cancelled_batch_barrier:
  assumes "prod_inv w" and "batch_cancelled w b" and "w' = drive prod_exec ops w"
  shows "batch_cancelled w' b \<and> batch_members w' b = batch_members w b
    \<and> (\<forall>it \<in> set (items_for_batch w' b). run_idle w' (bi_run_id it))"
proof -
  have h: "(prod_inv w' \<and> batch_cancelled w' b) \<and> batch_members w' b = batch_members w b"
    unfolding assms(3) by (rule batch_seal.drive_absorb) (simp_all add: assms list_all_iff)
  then show ?thesis by (auto simp: prod_inv_def barrier_def items_for_batch_set)
qed

theorem cancelled_batch_barrier_witness:
  "batch_cancelled (drive prod_exec (demo_ops [demo_create, OpStartNext (utc 1) 9, OpCancelBatch (utc 2) 2 9,
     OpResumeRun (utc 3) 13, OpRetry (utc 4) 0 11 Sources True False False]) empty_world) 9"
proof -
  let ?w = "drive prod_exec (demo_ops [demo_create, OpStartNext (utc 1) 9, OpCancelBatch (utc 2) 2 9]) empty_world"
  let ?ops = "demo_ops [OpResumeRun (utc 3) 13, OpRetry (utc 4) 0 11 Sources True False False]"
  have "prod_inv ?w" by (rule prod_machine.drive_inv) simp
  moreover have "batch_cancelled ?w 9" by code_simp
  ultimately have "batch_cancelled (drive prod_exec ?ops ?w) 9"
    using cancelled_batch_barrier [of ?w 9 _ ?ops] by blast
  then show ?thesis by (simp only: drive_append [symmetric] map_append [symmetric] append.simps)
qed

text \<open>
  C4. Along every sequence of requests an edition never has two active batches, which no unique index enforces
  but the checks of creation, control and review recovery do; and a subject never has two runs that are
  queued or running, which the partial unique index enforces on every insertion and save.
\<close>

theorem one_active_batch:
  assumes "prod_inv w" and "one_run w" and "w' = drive prod_exec ops w"
  shows "(\<forall>x \<in> set (pw_batches w'). \<forall>y \<in> set (pw_batches w').
      batch_active x \<and> batch_active y \<and> ba_edition_id x = ba_edition_id y \<longrightarrow> x = y)
    \<and> (\<forall>x \<in> set (pw_runs w'). \<forall>y \<in> set (pw_runs w').
      run_status x \<in> {RQueued, RRunning} \<and> run_status y \<in> {RQueued, RRunning}
        \<and> run_subject_id x = run_subject_id y \<longrightarrow> x = y)"
proof -
  have inv: "prod_inv w'" "one_run w'" using subject_machine.drive_inv assms by blast+
  then have "inj_on ba_id (set (pw_batches w'))" "inj_on run_id (set (pw_runs w'))"
    unfolding prod_inv_def one_active_def one_run_def distinct_map by blast+
  moreover have "ba_id x = ba_id y" if "x \<in> set (pw_batches w')" "y \<in> set (pw_batches w')" "batch_active x" "batch_active y"
    "ba_edition_id x = ba_edition_id y" for x y
    using inv(1) that unfolding prod_inv_def one_active_def by blast
  moreover have "run_id x = run_id y" if "x \<in> set (pw_runs w')" "y \<in> set (pw_runs w')"
    "run_status x \<in> {RQueued, RRunning}" "run_status y \<in> {RQueued, RRunning}" "run_subject_id x = run_subject_id y" for x y
    using one_runD [OF inv(2)] that unfolding run_active_def by blast
  ultimately show ?thesis by (meson inj_onD)
qed

theorem one_active_batch_witness:
  "\<exists>x y. runs_get (drive prod_exec (demo_ops [demo_create, OpCreateRun 50 (utc 1) 5 2 None, OpStartRun (utc 2) 11])
       empty_world) 11 = Some x
     \<and> runs_get (drive prod_exec (demo_ops [demo_create, OpCreateRun 50 (utc 1) 5 2 None, OpStartRun (utc 2) 11])
       empty_world) 50 = Some y
     \<and> run_status x = RRunning \<and> run_status y = RQueued \<and> run_subject_id x \<noteq> run_subject_id y"
proof -
  let ?w = "drive prod_exec (demo_ops [demo_create, OpCreateRun 50 (utc 1) 5 2 None, OpStartRun (utc 2) 11]) empty_world"
  have "map_option run_status (runs_get ?w 11) = Some RRunning" "map_option run_status (runs_get ?w 50) = Some RQueued"
    by code_simp+
  then obtain x y where xy: "runs_get ?w 11 = Some x" "runs_get ?w 50 = Some y" "run_status x = RRunning"
    "run_status y = RQueued" by auto
  have m: "x \<in> set (pw_runs ?w)" "y \<in> set (pw_runs ?w)" using xy(1,2) by (auto simp: runs_get_def dest: find_member)
  have "x \<noteq> y" using xy(3,4) by auto
  with bspec [OF bspec [OF conjunct2 [OF one_active_batch [OF empty_world_inv(1,3) refl]] m(1)] m(2)] xy(3,4)
  have "run_subject_id x \<noteq> run_subject_id y" by simp
  with xy show ?thesis by blast
qed

text \<open>
  C2. One subject of a batch runs at a time, in editorial order: from an ordered state, as long as no
  request starts, resumes or retries a single article or replaces its run, two items of a batch never run
  together and the items before the running one are finished.
\<close>

theorem one_subject_at_a_time:
  assumes "prod_inv w" and "in_order w" and "list_all (\<lambda>op. \<not> revives op) ops" and "w' = drive prod_exec ops w"
    and "it \<in> set (items_for_batch w' b)" and "jt \<in> set (items_for_batch w' b)" and "run_runs w' (bi_run_id it)"
  shows "(run_runs w' (bi_run_id jt) \<longrightarrow> jt = it) \<and> (bi_position jt < bi_position it \<longrightarrow> run_idle w' (bi_run_id jt))"
proof -
  have inv: "prod_inv w'" and ord: "in_order w'"
    using batch_order.drive_absorb [OF _ assms(3), of w] assms(1,2) unfolding assms(4) by blast+
  have it: "it \<in> set (pw_items w')" "jt \<in> set (pw_items w')" "bi_batch_id it = bi_batch_id jt"
    using assms(5,6) by (simp_all add: items_for_batch_set)
  have before: "run_idle w' (bi_run_id y)"
    if "x \<in> {it, jt}" "y \<in> {it, jt}" "bi_position y < bi_position x" "run_runs w' (bi_run_id x)" for x y
    using ord that it unfolding in_order_def by auto
  have "jt = it" if "run_runs w' (bi_run_id jt)"
  proof (rule ccontr)
    assume "jt \<noteq> it"
    then have "bi_position jt \<noteq> bi_position it"
      using inv it unfolding prod_inv_def items_wf_def by metis
    then show False using before [of it jt] before [of jt it] assms(7) that run_runs_not_idle by fastforce
  qed
  with before [of it jt] assms(7) show ?thesis by blast
qed

theorem one_subject_at_a_time_witness:
  "\<exists>it \<in> set (items_for_batch (drive prod_exec (demo_ops [demo_create, OpStartNext (utc 1) 9]) empty_world) 9).
     run_runs (drive prod_exec (demo_ops [demo_create, OpStartNext (utc 1) 9]) empty_world) (bi_run_id it)
     \<and> (\<forall>jt \<in> set (items_for_batch (drive prod_exec (demo_ops [demo_create, OpStartNext (utc 1) 9]) empty_world) 9).
       run_runs (drive prod_exec (demo_ops [demo_create, OpStartNext (utc 1) 9]) empty_world) (bi_run_id jt) \<longrightarrow> jt = it)"
proof -
  let ?ops = "demo_ops [demo_create, OpStartNext (utc 1) 9]"
  let ?w = "drive prod_exec ?ops empty_world"
  have "list_ex (\<lambda>i. run_runs ?w (bi_run_id i)) (items_for_batch ?w 9)" by code_simp
  then obtain it where it: "it \<in> set (items_for_batch ?w 9)" "run_runs ?w (bi_run_id it)" by (auto simp: list_ex_iff)
  have "list_all (\<lambda>op. \<not> revives op) ?ops" by (simp add: demo_create_def)
  from one_subject_at_a_time [OF empty_world_inv(1,2) this refl it(1) _ it(2)] it show ?thesis by blast
qed

lemma prepare_alone:
  assumes p: "prepare_batch_for_recovery t r True w = Inr (b0, w1)" and it: "item_by_run w (run_id r) = Some it"
  shows "\<exists>ba. b0 = Some ba \<and> ba_id ba = bi_batch_id it
    \<and> ensure_no_active_sibling (bi_batch_id it) (run_id r) w = Inr ()
    \<and> (\<exists>x. batches_get w1 (bi_batch_id it) = Some x \<and> batch_dispatchable x)"
  using p
proof (cases rule: prepare_cases)
  case (Kept jt x)
  then show ?thesis using it batches_get_id [OF Kept(2)] by simp
next
  case (Reopened jt x c x')
  have "ba_id x' = ba_id x" "batch_dispatchable x'" "ba_id x = bi_batch_id it"
    using Reopened(1,6) it batches_get_id [OF Reopened(2)]
    by (auto simp: batch_open_review_recovery_def batch_dispatchable_def split: if_splits)
  then show ?thesis using Reopened it by (auto simp: batches_save_get batch_dispatchable_def)
qed (use it in auto)

text \<open>The bookkeeping of an automatic retry moves no run and keeps the batch dispatchable.\<close>

lemma recovery_bookkeeping:
  assumes c: "count_recovery v it w2 = Inr w3" "pace_recovery t d ba = Inr ba'"
    and it: "it \<in> set (pw_items w2)" and wf: "items_wf w2" and ba: "ba_id ba = b" "batch_dispatchable ba"
    and row: "\<exists>x. batches_get w2 b = Some x"
  shows "runs_get (batches_save ba' w3) = runs_get w2
    \<and> map bi_run_id (items_for_batch (batches_save ba' w3) b) = map bi_run_id (items_for_batch w2 b)
    \<and> (\<exists>x. batches_get (batches_save ba' w3) b = Some x \<and> batch_dispatchable x)"
proof -
  note k = count_recovery_steps [OF c(1) it] and pace = pace_recovery_status [OF c(2)]
  have "\<exists>x. batches_get (batches_save ba' w3) b = Some x \<and> batch_dispatchable x"
    using row pace ba views_cong(2) [of w3 w2] k by (auto simp: batches_save_get batch_dispatchable_def)
  moreover have "runs_get w3 = runs_get w2" using views_cong(1) [of w3 w2] k by simp
  ultimately show ?thesis using count_recovery_items [OF c(1) wf it] by (simp add: items_for_batch_def)
qed

text \<open>A recovery that found no running sibling leaves none, whatever it records afterwards.\<close>

lemma recovered_siblings:
  assumes "prod_inv w" and p: "prepare_batch_for_recovery t r True w = Inr (b0, w1)"
    and go: "retry_from_stage_in_uow env t s f i w1 = Inr (res, w2)" and "run_id r = i"
    and alone: "ensure_no_active_sibling b i w = Inr ()"
  shows "items_wf w2" and "map bi_run_id (items_for_batch w2 b) = map bi_run_id (items_for_batch w b)"
    and "\<And>jt. jt \<in> set (items_for_batch w b) \<Longrightarrow> bi_run_id jt \<noteq> i \<Longrightarrow> \<not> run_runs w2 (bi_run_id jt)"
    and "\<And>j. j \<noteq> i \<Longrightarrow> runs_get w2 j = runs_get w j"
proof -
  note s = prepare_steps [OF p assms(1)] and g = retry_in_uow_runs [OF go] and f = retry_in_uow_frame [OF go]
  show "items_wf w2"
    using psteps_inv [OF _ assms(1)] s(1) retry_in_uow_steps [OF go, of False] s(5) assms(4)
    by (meson prod_inv_def rtranclp_trans)
  show "map bi_run_id (items_for_batch w2 b) = map bi_run_id (items_for_batch w b)"
    using s(3) f(2) by (simp add: items_for_batch_def)
  show other: "runs_get w2 j = runs_get w j" if "j \<noteq> i" for j
    using g(3) [OF that] views_cong(1) [OF s(2)] by simp
  show "\<not> run_runs w2 (bi_run_id jt)" if "jt \<in> set (items_for_batch w b)" "bi_run_id jt \<noteq> i" for jt
  proof -
    have "\<not> run_runs w (bi_run_id jt)" using alone that by (simp add: no_active_sibling)
    then show ?thesis using other [OF that(2)] by (simp add: run_runs_def)
  qed
qed

text \<open>The state an accepted recovery leaves.\<close>

lemma recovered_alone:
  assumes "prod_inv w" and "retry_from_stage env t d i s f auto v w = Inr (res, w')"
    and "item_by_run w i = Some it" and "b = bi_batch_id it"
  shows "map bi_run_id (items_for_batch w' b) = map bi_run_id (items_for_batch w b)"
    and "\<And>j. j \<noteq> i \<Longrightarrow> runs_get w' j = runs_get w j"
    and "run_runs w' i \<and> (\<exists>ba. batches_get w' b = Some ba \<and> batch_dispatchable ba)
    \<and> (\<forall>jt \<in> set (items_for_batch w' b). bi_run_id jt \<noteq> i \<longrightarrow> \<not> run_runs w' (bi_run_id jt))"
proof -
  obtain r b0 w1 w2 where r: "runs_get w i = Some r" and p: "prepare_batch_for_recovery t r True w = Inr (b0, w1)"
    and go: "retry_from_stage_in_uow env t s f i w1 = Inr (res, w2)"
    and rest: "w' = w2 \<or> (\<exists>it w3. item_by_run w i = Some it \<and> count_recovery v it w2 = Inr w3
      \<and> (b0 = None \<and> w' = w3 \<or> (\<exists>ba ba'. b0 = Some ba \<and> pace_recovery t d ba = Inr ba' \<and> w' = batches_save ba' w3)))"
    using assms(2) by (rule retry_cases)
  have id: "run_id r = i" using runs_get_id [OF r] .
  note s = prepare_steps [OF p assms(1)] and g = retry_in_uow_runs [OF go] and f = retry_in_uow_frame [OF go]
  obtain ba where ba: "b0 = Some ba" "ba_id ba = b" and alone: "ensure_no_active_sibling b i w = Inr ()"
    and row1: "\<exists>x. batches_get w1 b = Some x \<and> batch_dispatchable x"
    using prepare_alone [OF p] assms(3,4) id by auto
  note sib = recovered_siblings [OF assms(1) p go id alone]
  have after: "runs_get w' = runs_get w2 \<and> map bi_run_id (items_for_batch w' b) = map bi_run_id (items_for_batch w b)
    \<and> (\<exists>x. batches_get w' b = Some x \<and> batch_dispatchable x)"
    using rest
  proof
    assume "w' = w2"
    then show ?thesis using sib(2) row1 views_cong(2) [OF f(1)] by simp
  next
    assume "\<exists>it w3. item_by_run w i = Some it \<and> count_recovery v it w2 = Inr w3
      \<and> (b0 = None \<and> w' = w3 \<or> (\<exists>ba ba'. b0 = Some ba \<and> pace_recovery t d ba = Inr ba' \<and> w' = batches_save ba' w3))"
    then obtain w3 ba' where c: "count_recovery v it w2 = Inr w3" "pace_recovery t d ba = Inr ba'" "w' = batches_save ba' w3"
      using assms(3) ba(1) by auto
    have it: "it \<in> set (pw_items w2)" using item_by_run_mem [OF assms(3)] f(2) s(3) by simp
    have "batch_dispatchable ba" using prepare_batch_row(1) p ba(1) by blast
    from recovery_bookkeeping [OF c(1,2) it sib(1) ba(2) this]
    show ?thesis using row1 views_cong(2) [OF f(1)] sib(2) by (auto simp: c(3))
  qed
  show "map bi_run_id (items_for_batch w' b) = map bi_run_id (items_for_batch w b)" using after by simp
  show other: "runs_get w' j = runs_get w j" if "j \<noteq> i" for j using after sib(4) [OF that] by simp
  have runs: "run_runs w' = run_runs w2" using after by (simp add: run_runs_def fun_eq_iff)
  have "\<not> run_runs w' (bi_run_id jt)" if "jt \<in> set (items_for_batch w' b)" "bi_run_id jt \<noteq> i" for jt
  proof -
    have "bi_run_id jt \<in> set (map bi_run_id (items_for_batch w b))"
      using that(1) after by (metis imageI list.set_map)
    then obtain kt where "kt \<in> set (items_for_batch w b)" "bi_run_id kt = bi_run_id jt" by auto
    then show ?thesis using sib(3) that(2) runs by metis
  qed
  then show "run_runs w' i \<and> (\<exists>ba. batches_get w' b = Some ba \<and> batch_dispatchable ba)
    \<and> (\<forall>jt \<in> set (items_for_batch w' b). bi_run_id jt \<noteq> i \<longrightarrow> \<not> run_runs w' (bi_run_id jt))"
    using after g(2) runs by simp
qed

text \<open>
  C14. A recovery starts alone: an accepted retry of an article of a batch leaves that batch dispatchable,
  the article running, and no other article of the batch running.
\<close>

theorem recovery_runs_alone:
  assumes "prod_inv w" and "retry_from_stage env t d i s f auto v w = Inr (res, w')"
    and "item_by_run w i = Some it" and "b = bi_batch_id it"
  shows "run_runs w' i \<and> (\<exists>ba. batches_get w' b = Some ba \<and> batch_dispatchable ba)
    \<and> (\<forall>jt \<in> set (items_for_batch w' b). bi_run_id jt \<noteq> i \<longrightarrow> \<not> run_runs w' (bi_run_id jt))"
  using assms by (rule recovered_alone(3))

theorem recovery_runs_alone_witness:
  "\<exists>w'. run_runs w' 11 \<and> \<not> run_runs w' 13 \<and> (\<exists>ba. batches_get w' 9 = Some ba \<and> batch_dispatchable ba)"
proof -
  let ?w = "drive prod_exec (demo_ops [demo_create, OpStartNext (utc 1) 9, OpFail ''x'' ''m'' None (utc 2) 11]) empty_world"
  have inv: "prod_inv ?w" by (rule prod_machine.drive_inv) simp
  have "case retry_from_stage demo_env (utc 3) 0 11 Sources True False False ?w of
      Inl e \<Rightarrow> False | Inr (res, w') \<Rightarrow> list_ex (\<lambda>i. bi_run_id i = 13) (items_for_batch w' 9)" by code_simp
  then obtain res w' where w': "retry_from_stage demo_env (utc 3) 0 11 Sources True False False ?w = Inr (res, w')"
    and sib: "list_ex (\<lambda>i. bi_run_id i = 13) (items_for_batch w' 9)" by (auto split: sum.splits)
  have "case item_by_run ?w 11 of None \<Rightarrow> False | Some it \<Rightarrow> bi_batch_id it = 9" by code_simp
  then obtain it where it: "item_by_run ?w 11 = Some it" "9 = bi_batch_id it" by (auto split: option.splits)
  from sib obtain jt where "jt \<in> set (items_for_batch w' 9)" "bi_run_id jt = 13" by (auto simp: list_ex_iff)
  with recovery_runs_alone [OF inv w' it] show ?thesis by (intro exI [of _ w']) (metis numeral_eq_iff semiring_norm(85,88,90))
qed

subsection \<open>Progress of the hand-over\<close>

text \<open>What the hand-over does when no queued subject was started.\<close>

definition settle_batch ::
  "prod_env \<Rightarrow> datetime \<Rightarrow> int \<Rightarrow> batch \<Rightarrow> uuid \<Rightarrow> prod_world \<Rightarrow> (production_run option \<times> prod_world) result" where
  "settle_batch env t c ba b w =
     (let is = items_for_batch w b; rows = map (\<lambda>it. runs_get w (bi_run_id it)) is in
      case find (\<lambda>r. case r of None \<Rightarrow> False | Some x \<Rightarrow> run_status x = RRunning) rows of
        Some active \<Rightarrow> Inr (active, w)
      | None \<Rightarrow>
          if list_all (\<lambda>r. case r of None \<Rightarrow> False | Some x \<Rightarrow> run_terminal x) rows \<and> batch_dispatchable ba
          then and_then (if ba_phase ba \<noteq> PhaseReview
              then retry_next_recovery env t c ba (sort_key bi_position is) w else Inr (None, w))
            (\<lambda>(recovery, w2). case recovery of
                Some (r, _) \<Rightarrow> Inr (Some r, w2)
              | None \<Rightarrow> and_then (finish_batch_in_uow t ba is w) (\<lambda>w3. Inr (None, w3)))
          else Inr (None, w))"

lemma hand_over_settles:
  assumes "on_subject_terminal env t p c b i w = Inr (res, w')"
    and "batches_get w b = Some ba" "batch_dispatchable ba" "item_by_run w i = Some it" "bi_batch_id it = b"
  obtains (started) r ba1 where "start_next_in_uow t (Some p) ba w = Inr (Some r, ba1, w')" "res = Some r"
  | (settled) ba1 w1 where "start_next_in_uow t (Some p) ba w = Inr (None, ba1, w1)" "settle_batch env t c ba b w = Inr (res, w')"
proof -
  have id: "ba_id ba = b" using batches_get_id [OF assms(2)] .
  have "get_batch_in_lock_order env b w = Inr ba"
    using assms(1) get_in_lock_order_get assms(2) by (auto simp: on_subject_terminal_def and_then_Inr)
  then obtain started ba1 w1 where s: "start_next_in_uow t (Some p) ba w = Inr (started, ba1, w1)"
    and tail: "(if started \<noteq> None then Inr (started, w1)
       else if ba_status ba1 = BCancelled then Inr (None, w1) else settle_batch env t c ba1 b w1) = Inr (res, w')"
    using assms(1,4,5) id unfolding settle_batch_def by (auto simp: on_subject_terminal_def and_then_Inr)
  show ?thesis
  proof (cases started)
    case (Some r)
    with s tail show ?thesis by (auto intro: started)
  next
    case None
    have "ba_status ba \<noteq> BCancelled" using assms(3) by (auto simp: batch_dispatchable_def)
    with tail None hand_over_idle [OF s [unfolded None] assms(3)] have "settle_batch env t c ba b w = Inr (res, w')" by simp
    with s None show ?thesis by (auto intro: settled)
  qed
qed

text \<open>A batch with a live article: the first one runs, started if it was queued.\<close>

lemma hand_over_live:
  assumes hand: "on_subject_terminal env t p c b i w = Inr (res, w')"
    and ba: "batches_get w b = Some ba" "batch_dispatchable ba" and k: "item_by_run w i = Some k" "bi_batch_id k = b"
    and split: "items_for_batch w b = pre @ it # post" "\<forall>j \<in> set pre. run_idle w (bi_run_id j)"
    and r: "runs_get w (bi_run_id it) = Some r" "run_active r"
  shows "\<exists>r'. res = Some r' \<and> run_id r' = bi_run_id it \<and> run_runs w' (bi_run_id it)
    \<and> (\<forall>j. j \<noteq> bi_run_id it \<longrightarrow> runs_get w' j = runs_get w j) \<and> (run_status r = RRunning \<longrightarrow> w' = w)"
proof -
  have id: "run_id r = bi_run_id it" "ba_id ba = b" using runs_get_id [OF r(1)] batches_get_id [OF ba(1)] by simp_all
  have start: "start_next_in_uow t (Some p) ba w = start_first t (Some p) (it # post) ba w"
    using ba(2) split id start_first_skip by (auto simp: start_next_in_uow_def batch_dispatchable_def)
  show ?thesis
  proof (cases "run_status r = RRunning")
    case True
    then have "start_next_in_uow t (Some p) ba w = Inr (None, ba, w)" using start r by simp
    then have settle: "settle_batch env t c ba b w = Inr (res, w')"
      using hand_over_settles [OF hand ba k] by auto
    have "\<forall>x \<in> set (map (\<lambda>it. runs_get w (bi_run_id it)) pre). \<not> running_row x"
      using split(2) run_runs_not_idle by (auto simp: running_row)
    from find_skip [OF this] have "find running_row (map (\<lambda>it. runs_get w (bi_run_id it)) (items_for_batch w b)) = Some (Some r)"
      using True r by (simp add: split(1))
    with settle have "res = Some r" "w' = w" by (simp_all add: settle_batch_def)
    then show ?thesis using True r id by (simp add: run_runs_def)
  next
    case False
    then have queued: "run_status r = RQueued" using r(2) by (auto simp: run_active_def)
    have row: "runs_get w (run_id r) = Some r" using r(1) id by simp
    have starts: "start_next_in_uow t (Some p) ba w = start_subject t (Some (p (bi_position it))) r ba w"
      using start r queued by simp
    from hand ba k show ?thesis
    proof (cases rule: hand_over_settles)
      case (started r1 ba1)
      from started_subject [OF started(1) [unfolded starts] row] show ?thesis using started(2) id False by auto
    next
      case (settled ba1 w1)
      from started_subject [OF settled(1) [unfolded starts] row] show ?thesis by simp
    qed
  qed
qed

text \<open>A batch without one: the first recoverable article is retried, or the batch is finished.\<close>

lemma hand_over_finished:
  assumes hand: "on_subject_terminal env t p c b i w = Inr (res, w')" and wf: "items_wf w"
    and ba: "batches_get w b = Some ba" "batch_dispatchable ba" and k: "item_by_run w i = Some k" "bi_batch_id k = b"
    and idle: "\<forall>j \<in> set (items_for_batch w b). run_idle w (bi_run_id j)"
  shows "case if ba_phase ba = PhaseReview then None else find (recoverable env t w) (items_for_batch w b) of
      Some it \<Rightarrow> (\<exists>r. res = Some r \<and> run_id r = bi_run_id it) \<and> run_runs w' (bi_run_id it)
        \<and> (\<forall>j. j \<noteq> bi_run_id it \<longrightarrow> runs_get w' j = runs_get w j)
    | None \<Rightarrow> res = None \<and> pw_runs w' = pw_runs w
        \<and> (\<exists>ba'. batches_get w' b = Some ba' \<and> ba_phase ba' = PhaseReview \<and> ba_finished_at ba' = Some t
          \<and> ba_status ba' = (if list_ex (not_ready w) (items_for_batch w b) then BCompletedWithIssues else BCompleted))"
proof -
  let ?is = "items_for_batch w b"
  let ?rows = "map (\<lambda>it. runs_get w (bi_run_id it)) ?is"
  have id: "ba_id ba = b" using batches_get_id [OF ba(1)] .
  have sub: "set ?is \<subseteq> set (pw_items w)" by (auto simp: items_for_batch_set)
  have sorted: "sort_key bi_position ?is = ?is" by (simp add: sort_key_id_if_sorted items_for_batch_sorted)
  have "start_next_in_uow t (Some p) ba w = Inr (None, ba, w)"
    using ba(2) id start_first_skip [OF idle, of t "Some p" "[]" ba]
    by (auto simp: start_next_in_uow_def batch_dispatchable_def)
  then have settle: "settle_batch env t c ba b w = Inr (res, w')"
    using hand_over_settles [OF hand ba k] by auto
  have none: "find running_row ?rows = None"
    using idle run_runs_not_idle by (fastforce simp: find_None_iff running_row)
  have "list_all (\<lambda>r. case r of None \<Rightarrow> False | Some x \<Rightarrow> run_terminal x) ?rows"
    unfolding rows_terminal using wf sub idle by (auto simp: items_wf_def)
  then obtain rec w2 where r: "(if ba_phase ba \<noteq> PhaseReview
        then retry_next_recovery env t c ba ?is w else Inr (None, w)) = Inr (rec, w2)"
    and last: "(case rec of Some (r, _) \<Rightarrow> Inr (Some r, w2)
      | None \<Rightarrow> and_then (finish_batch_in_uow t ba ?is w) (\<lambda>w3. Inr (None, w3))) = Inr (res, w')"
    using settle none ba(2) unfolding settle_batch_def Let_def sorted by (auto simp: and_then_Inr)
  have fin: "res = None \<and> pw_runs w' = pw_runs w
      \<and> (\<exists>ba'. batches_get w' b = Some ba' \<and> ba_phase ba' = PhaseReview \<and> ba_finished_at ba' = Some t
        \<and> ba_status ba' = (if list_ex (not_ready w) ?is then BCompletedWithIssues else BCompleted))"
    if "rec = None"
  proof -
    have f: "finish_batch_in_uow t ba ?is w = Inr w'" "res = None" using last that by (auto simp: and_then_Inr)
    then have "pw_runs w' = pw_runs w" by (auto simp: finish_batch_in_uow_def and_then_Inr)
    then show ?thesis using finished_row [of w ba t ?is w'] f ba(1) id by simp
  qed
  show ?thesis
  proof (cases "ba_phase ba = PhaseReview")
    case True
    then show ?thesis using r fin by simp
  next
    case False
    then have "retry_next_recovery env t c ba ?is w = Inr (rec, w2)" using r by simp
    from retry_next_recovery_result [OF this wf sub] show ?thesis
      using False fin last by (auto split: option.splits prod.splits)
  qed
qed

text \<open>
  C16. What an accepted hand-over does to a dispatchable batch, exactly. If an article of the batch is queued
  or running, the first such article in position order is the one returned, and it runs: started if it was
  queued, and nothing is written if it was running. If all are finished and the batch is not under
  review, the first article whose automatic recovery is due and has its prerequisites is retried and runs.
  In both cases no other run changes. Otherwise the batch is finished, as completed when every article is
  ready and as completed with issues if not, and no run changes.
\<close>

theorem handover_never_strands:
  assumes "prod_inv w" and "batches_get w b = Some ba" and "batch_dispatchable ba"
    and "item_by_run w i = Some k" and "bi_batch_id k = b"
    and "on_subject_terminal env t p c b i w = Inr (res, w')"
  shows "case find (\<lambda>it. \<not> run_idle w (bi_run_id it)) (items_for_batch w b) of
      Some it \<Rightarrow> (\<exists>r. res = Some r \<and> run_id r = bi_run_id it) \<and> run_runs w' (bi_run_id it)
        \<and> (\<forall>j. j \<noteq> bi_run_id it \<longrightarrow> runs_get w' j = runs_get w j)
        \<and> (run_runs w (bi_run_id it) \<longrightarrow> w' = w)
    | None \<Rightarrow> (case if ba_phase ba = PhaseReview then None else find (recoverable env t w) (items_for_batch w b) of
        Some it \<Rightarrow> (\<exists>r. res = Some r \<and> run_id r = bi_run_id it) \<and> run_runs w' (bi_run_id it)
          \<and> (\<forall>j. j \<noteq> bi_run_id it \<longrightarrow> runs_get w' j = runs_get w j)
      | None \<Rightarrow> res = None \<and> pw_runs w' = pw_runs w
          \<and> (\<exists>ba'. batches_get w' b = Some ba' \<and> ba_phase ba' = PhaseReview \<and> ba_finished_at ba' = Some t
            \<and> ba_status ba' = (if list_ex (not_ready w) (items_for_batch w b) then BCompletedWithIssues else BCompleted)))"
proof (cases "find (\<lambda>it. \<not> run_idle w (bi_run_id it)) (items_for_batch w b)")
  case None
  then have "\<forall>j \<in> set (items_for_batch w b). run_idle w (bi_run_id j)" by (simp add: find_None_iff)
  from hand_over_finished [OF assms(6) _ assms(2-5) this] None assms(1) show ?thesis by (simp add: prod_inv_def)
next
  case (Some it)
  from find_split [OF this] obtain pre post where split: "items_for_batch w b = pre @ it # post"
    "\<forall>j \<in> set pre. run_idle w (bi_run_id j)" and live: "\<not> run_idle w (bi_run_id it)" by auto
  obtain r where r: "runs_get w (bi_run_id it) = Some r" "run_active r"
    using live by (auto simp: run_idle_def split: option.splits)
  from hand_over_live [OF assms(6,2-5) split r] Some r show ?thesis by (auto simp: run_runs_def)
qed

theorem handover_never_strands_witness:
  "\<exists>r w'. on_subject_terminal demo_env (utc 3) (\<lambda>_. 0) 0 9 11
       (drive prod_exec (demo_ops [demo_create, OpStartNext (utc 1) 9, OpReady (utc 2) 11]) empty_world)
     = Inr (Some r, w') \<and> run_id r = 13 \<and> run_runs w' 13"
proof -
  let ?w = "drive prod_exec (demo_ops [demo_create, OpStartNext (utc 1) 9, OpReady (utc 2) 11]) empty_world"
  have inv: "prod_inv ?w" by (rule prod_machine.drive_inv) simp
  have "case batches_get ?w 9 of None \<Rightarrow> False | Some ba \<Rightarrow> batch_dispatchable ba" by code_simp
  then obtain ba where ba: "batches_get ?w 9 = Some ba" "batch_dispatchable ba" by (auto split: option.splits)
  have "case item_by_run ?w 11 of None \<Rightarrow> False | Some it \<Rightarrow> bi_batch_id it = 9" by code_simp
  then obtain it where it: "item_by_run ?w 11 = Some it" "bi_batch_id it = 9" by (auto split: option.splits)
  have "case on_subject_terminal demo_env (utc 3) (\<lambda>_. 0) 0 9 11 ?w of Inr (Some r, w') \<Rightarrow> True | _ \<Rightarrow> False"
    by code_simp
  then obtain r w' where r: "on_subject_terminal demo_env (utc 3) (\<lambda>_. 0) 0 9 11 ?w = Inr (Some r, w')"
    by (auto split: sum.splits option.splits)
  have "case find (\<lambda>it. \<not> run_idle ?w (bi_run_id it)) (items_for_batch ?w 9) of None \<Rightarrow> False | Some it \<Rightarrow> bi_run_id it = 13"
    by code_simp
  with handover_never_strands [OF inv ba it r] r show ?thesis by (auto split: option.splits)
qed

text \<open>
  C15. A recovered article overtakes the queue: the recovery never looks at the queued articles before it, nor
  the hand-over at the running ones after it. Whenever an article is retried while an earlier article of its
  batch waits with everything before it finished, the next hand-over of the batch starts that earlier article
  beside the recovered one, so that two articles of one batch run at the same time.
\<close>

theorem recovery_overtakes:
  assumes "prod_inv w" and "retry_from_stage env t d i s f auto v w = Inr (res, w1)"
    and "item_by_run w i = Some it" and "b = bi_batch_id it"
    and "jt \<in> set (items_for_batch w b)" and "bi_position jt < bi_position it"
    and "runs_get w (bi_run_id jt) = Some q" and "run_status q = RQueued"
    and "\<forall>kt \<in> set (items_for_batch w b). bi_position kt < bi_position jt \<longrightarrow> run_idle w (bi_run_id kt)"
    and "item_by_run w1 k = Some kt" and "bi_batch_id kt = b"
    and "on_subject_terminal env' t' p c b k w1 = Inr (res', w2)"
  shows "bi_run_id jt \<noteq> i \<and> run_runs w2 i \<and> run_runs w2 (bi_run_id jt)"
proof -
  note rec = recovered_alone [OF assms(1-4)]
  have wf: "items_wf w" using assms(1) by (simp add: prod_inv_def)
  note it = item_by_run_mem [OF assms(3)]
  have later: "bi_run_id x \<noteq> i" if "x \<in> set (items_for_batch w b)" "bi_position x < bi_position it" for x
    using item_by_run_only [OF wf assms(3)] that by (auto simp: items_for_batch_set)
  obtain pre post where split: "items_for_batch w b = pre @ jt # post" "jt \<notin> set pre"
    using split_list_first [OF assms(5)] by blast
  have before: "bi_position x < bi_position jt" if "x \<in> set pre" for x
  proof -
    have "bi_position x \<le> bi_position jt"
      using items_for_batch_sorted [of w b] that unfolding split(1) by (auto simp: sorted_append)
    moreover have "x \<in> set (items_for_batch w b)" using that split(1) by simp
    then have "x \<in> set (pw_items w)" "jt \<in> set (pw_items w)" "bi_batch_id x = bi_batch_id jt"
      using assms(5) by (simp_all add: items_for_batch_set)
    then have "bi_position x \<noteq> bi_position jt" using wf that split(2) unfolding items_wf_def by metis
    ultimately show ?thesis by simp
  qed
  have idle: "run_idle w1 (bi_run_id x)" if "x \<in> set pre" for x
    using assms(9) before [OF that] that split(1) later [of x] rec(2) [of "bi_run_id x"] assms(6)
    by (simp add: run_idle_def)
  have "map bi_run_id (items_for_batch w1 b) = map bi_run_id pre @ bi_run_id jt # map bi_run_id post"
    using rec(1) split(1) by simp
  then obtain pre1 jt1 post1 where split1: "items_for_batch w1 b = pre1 @ jt1 # post1"
    "map bi_run_id pre1 = map bi_run_id pre" "bi_run_id jt1 = bi_run_id jt"
    by (auto simp: map_eq_append_conv map_eq_Cons_conv)
  have "run_idle w1 (bi_run_id x)" if "x \<in> set pre1" for x
  proof -
    have "bi_run_id x \<in> set (map bi_run_id pre)" using that split1(2) by (metis imageI list.set_map)
    then show ?thesis using idle by auto
  qed
  then have idle1: "\<forall>j \<in> set pre1. run_idle w1 (bi_run_id j)" by blast
  have ne: "bi_run_id jt \<noteq> i" using later assms(5,6) by blast
  have row: "runs_get w1 (bi_run_id jt1) = Some q" "run_active q"
    using rec(2) [OF ne] assms(7,8) split1(3) by (simp_all add: run_active_def)
  obtain ba where ba: "batches_get w1 b = Some ba" "batch_dispatchable ba" using rec(3) by blast
  from hand_over_live [OF assms(12) ba assms(10,11) split1(1) idle1 row]
  have "run_runs w2 (bi_run_id jt)" "runs_get w2 i = runs_get w1 i" using ne split1(3) by auto
  then show ?thesis using ne rec(3) by (simp add: run_runs_def)
qed

theorem recovery_overtakes_witness:
  "\<exists>res w1 res' w2. retry_from_stage demo_env (utc 4) 0 14 Sources True False False
       (drive prod_exec (demo_ops demo_overtaking) empty_world) = Inr (res, w1)
     \<and> on_subject_terminal demo_env (utc 5) (\<lambda>_. 0) 0 9 11 w1 = Inr (res', w2) \<and> run_runs w2 14 \<and> run_runs w2 13"
proof -
  let ?w = "drive prod_exec (demo_ops demo_overtaking) empty_world"
  have inv: "prod_inv ?w" by (rule prod_machine.drive_inv) simp
  let ?hand = "\<lambda>w1. on_subject_terminal demo_env (utc 5) (\<lambda>_. 0) 0 9 11 w1"
  have "case retry_from_stage demo_env (utc 4) 0 14 Sources True False False ?w of Inl e \<Rightarrow> False | Inr (res, w1) \<Rightarrow>
      \<not> is_error (?hand w1) \<and> (case item_by_run w1 11 of None \<Rightarrow> False | Some kt \<Rightarrow> bi_batch_id kt = 9)" by code_simp
  then obtain res w1 kt where w1: "retry_from_stage demo_env (utc 4) 0 14 Sources True False False ?w = Inr (res, w1)"
    "\<not> is_error (?hand w1)" "item_by_run w1 11 = Some kt" "bi_batch_id kt = 9"
    by (auto split: sum.splits option.splits)
  obtain res' w2 where w2: "?hand w1 = Inr (res', w2)" using w1(2) by (cases "?hand w1") (auto simp: is_error_def)
  have "case item_by_run ?w 14 of None \<Rightarrow> False | Some it \<Rightarrow> bi_batch_id it = 9 \<and> bi_position it = 3" by code_simp
  then obtain it where it: "item_by_run ?w 14 = Some it" "9 = bi_batch_id it" "bi_position it = 3" by (auto split: option.splits)
  have "list_ex (\<lambda>jt. bi_run_id jt = 13 \<and> bi_position jt = 2) (items_for_batch ?w 9)" by code_simp
  then obtain jt where jt: "jt \<in> set (items_for_batch ?w 9)" "bi_run_id jt = 13" "bi_position jt = 2"
    by (auto simp: list_ex_iff)
  have "case runs_get ?w 13 of None \<Rightarrow> False | Some q \<Rightarrow> run_status q = RQueued" by code_simp
  then obtain q where q: "runs_get ?w (bi_run_id jt) = Some q" "run_status q = RQueued"
    using jt(2) by (auto split: option.splits)
  have "list_all (\<lambda>kt. bi_position kt < 2 \<longrightarrow> run_idle ?w (bi_run_id kt)) (items_for_batch ?w 9)" by code_simp
  then have "\<forall>kt \<in> set (items_for_batch ?w 9). bi_position kt < bi_position jt \<longrightarrow> run_idle ?w (bi_run_id kt)"
    using jt(3) by (simp add: list_all_iff)
  from recovery_overtakes [OF inv w1(1) it(1,2) jt(1) _ q this w1(3,4) w2] w1(1) w2 jt it(3) show ?thesis by auto
qed

text \<open>
  Except that a batch none of whose articles was ever started cannot be closed: when all its articles
  are finished without recovery while the batch is still queued, every hand-over fails, and the batch keeps
  blocking the creation of another one for its edition.
\<close>

theorem queued_batch_stuck:
  assumes "batches_get w b = Some ba" and "ba_status ba = BQueued" and "env_editions env (ba_edition_id ba) = Some EditionOpen"
    and "item_by_run w i = Some it" and "bi_batch_id it = b"
    and "\<forall>jt \<in> set (items_for_batch w b). \<exists>r. runs_get w (bi_run_id jt) = Some r \<and> run_status r = RCancelled"
  shows "on_subject_terminal env t p c b i w = Inl (ValueError ''Can only finish from running status'')
    \<and> active_batch_for_edition w (ba_edition_id ba) \<noteq> None"
proof -
  let ?is = "items_for_batch w b"
  have id: "ba_id ba = b" using batches_get_id [OF assms(1)] .
  have lock: "get_batch_in_lock_order env b w = Inr ba"
    using assms(1,3) by (simp add: get_batch_in_lock_order_def lock_open_edition_def)
  have "start_first t (Some p) js ba w = Inr (None, ba, w)" if "set js \<subseteq> set ?is" for js
    using that assms(6) by (induction js) auto
  then have start: "start_next_in_uow t (Some p) ba w = Inr (None, ba, w)"
    using assms(2) id by (simp add: start_next_in_uow_def)
  have idle: "\<forall>jt \<in> set ?is. run_idle w (bi_run_id jt) \<and> runs_get w (bi_run_id jt) \<noteq> None"
    using assms(6) by (auto simp: run_idle_def run_active_def)
  have none: "find (\<lambda>r. case r of None \<Rightarrow> False | Some x \<Rightarrow> run_status x = RRunning)
      (map (\<lambda>it. runs_get w (bi_run_id it)) ?is) = None"
    using assms(6) by (fastforce simp: find_None_iff)
  have rec: "retry_next_recovery env t c ba js w = Inr (None, w)" if "set js \<subseteq> set ?is" for js
    using that assms(6) by (induction js) (auto simp: recovery_eligible_def)
  have "finish_batch_in_uow t ba ?is w = Inl (ValueError ''Can only finish from running status'')"
    using assms(2) by (simp add: finish_batch_in_uow_def batch_enter_review_def batch_finish_def)
  then have "on_subject_terminal env t p c b i w = Inl (ValueError ''Can only finish from running status'')"
    using lock start none rec [of "sort_key bi_position ?is"] assms(2,4,5) id idle rows_terminal [of w ?is]
    by (simp add: on_subject_terminal_def Let_def batch_dispatchable_def)
  moreover have "batch_active ba" using assms(2) by (simp add: batch_active_def)
  then have "active_batch_for_edition w (ba_edition_id ba) \<noteq> None"
    using batches_get_mem [OF assms(1)] by (auto simp: active_batch_None)
  ultimately show ?thesis by simp
qed

theorem queued_batch_stuck_witness:
  "is_error (on_subject_terminal demo_env (utc 5) (\<lambda>_. 0) 0 9 11
     (drive prod_exec (demo_ops [demo_create, OpPauseBatch (utc 1) 2 9 ''ana'', OpCancelRun (utc 2) 11,
        OpCancelRun (utc 2) 13, OpCancelRun (utc 2) 14, OpResumeBatch 2 9]) empty_world))"
proof -
  let ?w = "drive prod_exec (demo_ops [demo_create, OpPauseBatch (utc 1) 2 9 ''ana'', OpCancelRun (utc 2) 11,
        OpCancelRun (utc 2) 13, OpCancelRun (utc 2) 14, OpResumeBatch 2 9]) empty_world"
  have "case batches_get ?w 9 of None \<Rightarrow> False | Some ba \<Rightarrow> ba_status ba = BQueued \<and> ba_edition_id ba = 2" by code_simp
  then obtain ba where ba: "batches_get ?w 9 = Some ba" "ba_status ba = BQueued" "ba_edition_id ba = 2"
    by (auto split: option.splits)
  have ed: "env_editions demo_env (ba_edition_id ba) = Some EditionOpen" by (simp add: ba(3) demo_env_def)
  have "case item_by_run ?w 11 of None \<Rightarrow> False | Some it \<Rightarrow> bi_batch_id it = 9" by code_simp
  then obtain it where it: "item_by_run ?w 11 = Some it" "bi_batch_id it = 9" by (auto split: option.splits)
  have "list_all (\<lambda>jt. case runs_get ?w (bi_run_id jt) of None \<Rightarrow> False | Some r \<Rightarrow> run_status r = RCancelled)
      (items_for_batch ?w 9)" by code_simp
  then have "\<forall>jt \<in> set (items_for_batch ?w 9). \<exists>r. runs_get ?w (bi_run_id jt) = Some r \<and> run_status r = RCancelled"
    by (auto simp: list_all_iff split: option.splits)
  from queued_batch_stuck [OF ba(1,2) ed it this] show ?thesis by simp
qed

subsection \<open>Retries and creation\<close>

lemma all_artifact_stages_listed: "a \<in> set (production_artifact_stages None)"
  by (cases a) (simp_all add: production_artifact_stages_def artifacts_of_def production_pipeline_def
      production_stages_simps all_stages_def map_filter_simps)

lemma stale_set:
  assumes "s \<in> set (production_stages k)" and "downstream_artifacts_from_pipeline_stage s False k = Inr ds"
  shows "artifact_value a \<in> insert (stage_value s) (artifact_value ` set ds) \<longleftrightarrow>
    s \<noteq> Assembly \<and> list_ex (\<lambda>s'. artifact_or_none s' = Some a) (dropWhile (\<lambda>y. y \<noteq> s) (production_stages k))"
  using route_kinds [of k]
proof
  assume "production_stages k = all_stages"
  then show ?thesis using assms(2) unfolding downstream_full_2 [OF \<open>production_stages k = all_stages\<close>]
    by (cases s; cases a; auto simp: eval_nat_numeral next_stage_full_route map_filter_simps artifact_or_none_def all_stages_def)
next
  assume k: "k = Some Brief"
  then have "s \<noteq> Editorial_Enrichment" using assms(1) by (auto simp: production_stages_simps)
  then show ?thesis using assms(2) unfolding k
    by (cases s; cases a; auto simp: downstream_compute production_stages_simps)
qed

lemma mark_stages_stale_rows:
  "pw_artifacts (snd (mark_stages_stale i xs w)) = map (\<lambda>x.
     if art_production_run_id x = i \<and> artifact_value (art_stage x) \<in> xs then x\<lparr>art_status := Stale\<rparr> else x)
     (pw_artifacts w)"
proof -
  have "x\<lparr>art_status := Stale\<rparr> = x" if "art_status x = Stale" for x :: production_artifact
    using that by (cases x) simp
  then show ?thesis by (simp add: mark_stages_stale_def Let_def all_artifact_stages_listed)
qed

text \<open>
  C17. What a retry invalidates: an accepted retry leaves the run running in the next generation. Unless it is a
  retry of ASSEMBLY, it turns stale exactly the artifacts of the run whose stage is the retried stage or comes
  after it in the route, and keeps the artifacts of earlier stages and of other runs. A retry of ASSEMBLY
  invalidates nothing, not even the publication which that stage produces.
\<close>

theorem retry_invalidates:
  assumes "retry_from_stage_in_uow env t s f i w = Inr (res, w')" and "runs_get w i = Some r"
  shows "(\<exists>r'. runs_get w' i = Some r' \<and> run_status r' = RRunning \<and> run_current_stage r' = s
      \<and> run_pipeline_generation r' = run_pipeline_generation r + 1)
    \<and> pw_artifacts w' = map (\<lambda>x.
        if art_production_run_id x = i \<and> s \<noteq> Assembly \<and> list_ex (\<lambda>s'. artifact_or_none s' = Some (art_stage x))
             (dropWhile (\<lambda>y. y \<noteq> s) (production_stages (route_kind env r)))
        then x\<lparr>art_status := Stale\<rparr> else x) (pw_artifacts w)
    \<and> (s = Assembly \<longrightarrow> pw_artifacts w' = pw_artifacts w)"
proof -
  obtain r' ds where check: "check_retry_prerequisite env s r w = Inr ()"
    and m: "run_retry_from_stage s f t r = Inr r'"
    and ds: "downstream_artifacts_from_pipeline_stage s False (route_kind env r) = Inr ds"
    and save: "runs_save r' (snd (mark_stages_stale i (insert (stage_value s) (artifact_value ` set ds)) w)) = Inr w'"
    using assms(1)
  proof (rule retry_in_uow_cases)
    fix r0 r1 d
    assume h: "runs_get w i = Some r0" "check_retry_prerequisite env s r0 w = Inr ()"
      "run_retry_from_stage s f t r0 = Inr r1" "downstream_artifacts_from_pipeline_stage s False (route_kind env r0) = Inr d"
      "runs_save r1 (snd (mark_stages_stale i (insert (stage_value s) (artifact_value ` set d)) w)) = Inr w'"
    then have "r0 = r" using assms(2) by simp
    with h show thesis using that by blast
  qed
  have mem: "s \<in> set (production_stages (route_kind env r))"
    using check by (auto simp: check_retry_prerequisite_def Let_def split: if_splits)
  have id: "run_id r' = i" using activating_methods(2) [OF m] runs_get_id [OF assms(2)] by simp
  have same: "runs_get (snd (mark_stages_stale i xs w)) = runs_get w" for xs
    by (simp add: mark_stages_stale_def Let_def runs_get_def fun_eq_iff)
  have "runs_get w' i = Some (run_saved_columns r' r)"
    using runs_save_get [OF save, of i] id same assms(2) by simp
  moreover have "run_status r' = RRunning" "run_current_stage r' = s"
    "run_pipeline_generation r' = run_pipeline_generation r + 1"
    using m by (auto simp: run_retry_from_stage_def and_then_Inr split: if_splits)
  ultimately show ?thesis
    using runs_save_frame [OF save] stale_set [OF mem ds]
    by (simp add: mark_stages_stale_rows run_saved_columns_def)
qed

text \<open>
  C18. The route outlives the retry: the retried run the service returns has dropped the routing decision of
  the previous generation, but the stored row keeps it, because \<open>save\<close> does not write that column; the
  next reader of the row is in the new generation with the old route.
\<close>

theorem retry_keeps_route:
  assumes "retry_from_stage_in_uow env t s f i w = Inr (res, w')" and "runs_get w i = Some r"
  shows "run_routing_decision_id (rr_run res) = None
    \<and> (\<exists>r'. runs_get w' i = Some r' \<and> run_routing_decision_id r' = run_routing_decision_id r
      \<and> run_pipeline_generation r' = run_pipeline_generation (rr_run res) \<and> route_kind env r' = route_kind env r)"
proof -
  obtain r0 r1 xs where h: "runs_get w i = Some r0" "run_retry_from_stage s f t r0 = Inr r1"
    "runs_save r1 (snd (mark_stages_stale i xs w)) = Inr w'" "rr_run res = r1"
    using assms(1) by (rule retry_in_uow_cases)
  have r: "r0 = r" using h(1) assms(2) by simp
  have id: "run_id r1 = i" using activating_methods(2) [OF h(2)] runs_get_id [OF h(1)] by simp
  have "runs_get w' i = Some (run_saved_columns r1 r)"
    using runs_save_get [OF h(3), of i] id assms(2)
    by (simp add: mark_stages_stale_def Let_def runs_get_def)
  moreover have "run_routing_decision_id r1 = None"
    using h(2) by (auto simp: run_retry_from_stage_def and_then_Inr split: if_splits)
  ultimately show ?thesis by (simp add: h(4) run_saved_columns_def route_kind_def)
qed

definition demo_failed :: prod_world where
  "demo_failed = drive prod_exec (demo_ops [demo_create, OpStartNext (utc 1) 9,
     OpAdoptRoute (utc 2) 11 77 2 0, OpFail ''x'' ''m'' None (utc 3) 11]) empty_world"

lemma demo_failed_retry:
  obtains res w' r where "retry_from_stage_in_uow demo_env (utc 4) Sources True 11 demo_failed = Inr (res, w')"
    "runs_get demo_failed 11 = Some r" "run_routing_decision_id r = Some 77"
proof -
  have "case retry_from_stage_in_uow demo_env (utc 4) Sources True 11 demo_failed of Inl e \<Rightarrow> False | Inr x \<Rightarrow> True"
    "case runs_get demo_failed 11 of None \<Rightarrow> False | Some r \<Rightarrow> run_routing_decision_id r = Some 77" by code_simp+
  then show thesis using that by (auto split: sum.splits option.splits)
qed

theorem retry_invalidates_witness:
  "\<exists>res w' r'. retry_from_stage_in_uow demo_env (utc 4) Sources True 11 demo_failed = Inr (res, w')
     \<and> runs_get w' 11 = Some r' \<and> run_status r' = RRunning"
proof -
  obtain res w' r where r: "retry_from_stage_in_uow demo_env (utc 4) Sources True 11 demo_failed = Inr (res, w')"
    "runs_get demo_failed 11 = Some r" by (rule demo_failed_retry)
  from retry_invalidates [OF r] r(1) show ?thesis by blast
qed

theorem retry_keeps_route_witness:
  "\<exists>res w' r'. retry_from_stage_in_uow demo_env (utc 4) Sources True 11 demo_failed = Inr (res, w')
     \<and> runs_get w' 11 = Some r' \<and> run_routing_decision_id (rr_run res) = None \<and> run_routing_decision_id r' = Some 77"
proof -
  obtain res w' r where r: "retry_from_stage_in_uow demo_env (utc 4) Sources True 11 demo_failed = Inr (res, w')"
    "runs_get demo_failed 11 = Some r" and d: "run_routing_decision_id r = Some 77" by (rule demo_failed_retry)
  from retry_keeps_route [OF r] r(1) d show ?thesis by (metis (no_types))
qed

text \<open>
  Creating a batch is idempotent on its key: repeating an accepted creation with the same key and the
  same ordered payload returns the same batch and writes nothing, whatever identifiers and clock the second
  call draws; the same key with a payload of another fingerprint is refused.
\<close>

theorem batch_create_idempotent:
  assumes "create_batch env b run_of item_of t e ss key actor corr w = Inr ((ba, created), w')"
    and "ss' \<noteq> []" and "distinct ss'"
  shows "create_batch env b' run_of' item_of' t' e ss key actor' corr' w' = Inr ((ba, False), w')
    \<and> (batch_request_fingerprint (env_sha256 env) e ss' \<noteq> batch_request_fingerprint (env_sha256 env) e ss \<longrightarrow>
       create_batch env b' run_of' item_of' t' e ss' key actor' corr' w'
         = Inl (BatchRequestConflict ''production_idempotency_conflict'' []))"
proof -
  have ok: "\<not> blank key" "ss \<noteq> []" "distinct ss" "env_editions env e = Some EditionOpen"
    using assms(1) by (auto simp: create_batch_def Let_def split: if_splits option.splits edition_status.splits)
  have found: "batch_by_idempotency_key w' e key = Some ba
      \<and> ba_request_fingerprint ba = batch_request_fingerprint (env_sha256 env) e ss"
  proof (cases "batch_by_idempotency_key w e key")
    case (Some x)
    then show ?thesis using assms(1) ok by (auto simp: create_batch_def Let_def split: if_splits)
  next
    case None
    then obtain active rs w1 w2 where new: "new_batch env b t e key ss actor corr = Inr ba"
      and adds: "batches_add ba w = Inr w1" "add_runs rs w1 = Inr w2"
        "items_append_many (new_items b t item_of 1 rs) w2 = Inr w'"
      using assms(1) ok by (auto simp: create_batch_def Let_def and_then_Inr split: if_splits)
    have ba: "ba_edition_id ba = e" "ba_idempotency_key ba = key"
      "ba_request_fingerprint ba = batch_request_fingerprint (env_sha256 env) e ss"
      using new by (auto simp: new_batch_def batch_post_init_def validated_Inr)
    have "pw_batches w1 = pw_batches w @ [ba]" using batches_add_effect [OF adds(1)] by simp
    moreover have "pw_batches w2 = pw_batches w1" using add_runs_effect [OF adds(2)] by simp
    moreover have "pw_batches w' = pw_batches w2" using items_append_batches [OF adds(3)] .
    ultimately show ?thesis using None ba by (simp add: batch_by_idempotency_key_def find_append)
  qed
  with ok assms(2,3) show ?thesis by (simp add: create_batch_def Let_def)
qed

theorem batch_create_idempotent_witness:
  "\<exists>ba w'. create_batch demo_env 9 (\<lambda>s. s + 10) (\<lambda>s. s + 20) (utc 0) 2 [1, 3] ''k'' ''ana'' ''-'' empty_world
       = Inr ((ba, True), w')
     \<and> create_batch demo_env 8 (\<lambda>s. s) (\<lambda>s. s) (utc 5) 2 [1, 3] ''k'' ''bob'' ''-'' w' = Inr ((ba, False), w')"
proof -
  have "case create_batch demo_env 9 (\<lambda>s. s + 10) (\<lambda>s. s + 20) (utc 0) 2 [1, 3] ''k'' ''ana'' ''-'' empty_world of
      Inr ((ba, True), w') \<Rightarrow> True | _ \<Rightarrow> False" by code_simp
  then obtain ba w' where w': "create_batch demo_env 9 (\<lambda>s. s + 10) (\<lambda>s. s + 20) (utc 0) 2 [1, 3] ''k'' ''ana'' ''-''
      empty_world = Inr ((ba, True), w')" by (auto split: sum.splits prod.splits bool.splits)
  have "[1::uuid, 3] \<noteq> []" "distinct [1::uuid, 3]" by simp_all
  from batch_create_idempotent [OF w' this] w' show ?thesis by blast
qed

end
