(* ===== verification/Texts.thy ===== *)
theory Texts
  imports Prelude "HOL-Library.Char_ord" "HOL-Library.List_Lexorder"
begin

text \<open>
  Text and byte operations of the submission components: case folding over the code points the
  model has, UTF-8, unpadded URL-safe base64 and the hexadecimal form of a UUID.
\<close>

subsection \<open>Case folding\<close>

text \<open>
  \<open>str.casefold\<close> on the code points 0 to 255: the Latin capitals are lowered and the sharp s
  becomes two letters. The micro sign, which Python folds to a code point above 255, is kept.
\<close>

definition fold_char :: "char \<Rightarrow> string" where
  "fold_char c = (let n = of_char c :: nat in
     if (65 \<le> n \<and> n \<le> 90) \<or> (192 \<le> n \<and> n \<le> 222 \<and> n \<noteq> 215) then [char_of (n + 32)]
     else if n = 223 then ''ss'' else [c])"

definition casefold :: "string \<Rightarrow> string" where
  "casefold s = concat (map fold_char s)"

lemma casefold_simps [simp]: "casefold [] = []" "casefold (c # s) = fold_char c @ casefold s"
  by (simp_all add: casefold_def)

lemma casefold_append: "casefold (s @ t) = casefold s @ casefold t"
  by (simp add: casefold_def)

subsection \<open>Decimal numbers\<close>

fun digits_rev :: "nat \<Rightarrow> nat \<Rightarrow> string" where
  "digits_rev 0 n = []"
| "digits_rev (Suc fuel) n = char_of (48 + n mod 10) # (if n < 10 then [] else digits_rev fuel (n div 10))"

text \<open>\<open>str(int)\<close>; a number has at most as many decimal digits as its value plus one.\<close>

definition int_text :: "int \<Rightarrow> string" where
  "int_text i = (let n = nat \<bar>i\<bar> in (if i < 0 then ''-'' else []) @ rev (digits_rev (n + 1) n))"

definition digit :: "char \<Rightarrow> bool" where
  "digit c = (let n = of_char c :: nat in 48 \<le> n \<and> n \<le> 57)"

text \<open>The digits determine the number; a reader proves it.\<close>

definition read_digits :: "string \<Rightarrow> nat" where
  "read_digits s = foldr (\<lambda>c v. (of_char c - 48) + 10 * v) s 0"

lemma read_digits_rev: "n < fuel \<Longrightarrow> read_digits (digits_rev fuel n) = n"
proof (induction fuel arbitrary: n)
  case (Suc fuel)
  show ?case
  proof (cases "n < 10")
    case False
    then have "n div 10 < fuel" using Suc.prems by linarith
    from Suc.IH [OF this] False show ?thesis
      by (simp add: read_digits_def of_char_of)
  qed (simp add: read_digits_def of_char_of)
qed simp

lemma digits_rev_digits: "list_all digit (digits_rev fuel n)"
proof (induction fuel arbitrary: n)
  case (Suc fuel)
  have "n mod 10 \<le> 9" by linarith
  with Suc show ?case by (simp add: digit_def of_char_of Let_def)
qed simp

lemma digits_rev_Nil: "digits_rev (Suc fuel) n \<noteq> []"
  by simp

lemma int_text_shape: "\<exists>ds. int_text i = (if i < 0 then ''-'' else []) @ ds \<and> list_all digit ds \<and> ds \<noteq> []
    \<and> read_digits (rev ds) = nat \<bar>i\<bar>"
proof -
  let ?n = "nat \<bar>i\<bar>"
  let ?ds = "rev (digits_rev (?n + 1) ?n)"
  have "int_text i = (if i < 0 then ''-'' else []) @ ?ds" by (simp add: int_text_def Let_def)
  moreover have "list_all digit ?ds" using digits_rev_digits by (simp add: list_all_iff del: digits_rev.simps)
  moreover have "?ds \<noteq> []" by simp
  moreover have "read_digits (rev ?ds) = ?n" using read_digits_rev [of ?n "?n + 1"] by (simp del: digits_rev.simps)
  ultimately show ?thesis by blast
qed

subsection \<open>UTF-8\<close>

definition utf8_char :: "char \<Rightarrow> string" where
  "utf8_char c = (let n = of_char c :: nat in
     if n < 128 then [c] else [char_of (192 + n div 64), char_of (128 + n mod 64)])"

definition utf8 :: "string \<Rightarrow> string" where
  "utf8 s = concat (map utf8_char s)"

lemma utf8_simps [simp]: "utf8 [] = []" "utf8 (c # s) = utf8_char c @ utf8 s"
  by (simp_all add: utf8_def)

text \<open>A reader of the two forms of a code point below 256; it proves the encoding injective.\<close>

fun utf8_read :: "string \<Rightarrow> string" where
  "utf8_read (a # b # s) = (if of_char a < (128 :: nat) then a # utf8_read (b # s)
     else char_of ((of_char a - 192) * 64 + (of_char b - 128 :: nat)) # utf8_read s)"
| "utf8_read s = s"

lemma utf8_read_ascii: "of_char c < (128 :: nat) \<Longrightarrow> utf8_read (c # s) = c # utf8_read s"
  by (cases s) simp_all

lemma utf8_read_char: "utf8_read (utf8_char c @ s) = c # utf8_read s"
proof (cases "of_char c < (128 :: nat)")
  case True
  then show ?thesis by (simp add: utf8_char_def utf8_read_ascii)
next
  case False
  let ?n = "of_char c :: nat"
  have "?n < 256" using nat_of_char_less_256 by simp
  then have small: "192 + ?n div 64 < 256" "128 + ?n mod 64 < 256" by linarith+
  have "?n div 64 * 64 + ?n mod 64 = ?n" by (rule div_mult_mod_eq)
  with small False show ?thesis by (simp add: utf8_char_def Let_def of_char_of)
qed

lemma utf8_read: "utf8_read (utf8 s) = s"
  by (induction s) (simp_all add: utf8_read_char)

lemma utf8_inj: "utf8 s = utf8 t \<longleftrightarrow> s = t"
  by (metis utf8_read)

subsection \<open>Unpadded URL-safe base64\<close>

definition base64_alphabet :: string where
  "base64_alphabet = ''ABCDEFGHIJKLMNOPQRSTUVWXYZabcdefghijklmnopqrstuvwxyz0123456789-_''"

definition sextet :: "nat \<Rightarrow> char" where
  "sextet n = base64_alphabet ! n"

fun b64url :: "string \<Rightarrow> string" where
  "b64url (x # y # z # s) = (let a = of_char x :: nat; b = of_char y :: nat; c = of_char z :: nat in
     [sextet (a div 4), sextet (a mod 4 * 16 + b div 16), sextet (b mod 16 * 4 + c div 64), sextet (c mod 64)]
     @ b64url s)"
| "b64url [x, y] = (let a = of_char x :: nat; b = of_char y :: nat in
     [sextet (a div 4), sextet (a mod 4 * 16 + b div 16), sextet (b mod 16 * 4)])"
| "b64url [x] = (let a = of_char x :: nat in [sextet (a div 4), sextet (a mod 4 * 16)])"
| "b64url [] = []"

lemma sextet_eq: "m < 64 \<Longrightarrow> n < 64 \<Longrightarrow> sextet m = sextet n \<longleftrightarrow> m = n"
proof -
  have "distinct base64_alphabet" "length base64_alphabet = 64" by code_simp+
  then show "m < 64 \<Longrightarrow> n < 64 \<Longrightarrow> sextet m = sextet n \<longleftrightarrow> m = n"
    by (simp add: sextet_def nth_eq_iff_index_eq)
qed

lemma byte_less: "(of_char c :: nat) < 256"
  using nat_of_char_less_256 by simp

lemma byte_eq: "(of_char c :: nat) = of_char d \<longleftrightarrow> c = d"
  by (rule of_char_eq_iff)

lemma mixed_radix:
  fixes x y k :: nat
  assumes "x * k + y = x' * k + y'" and "y < k" and "y' < k"
  shows "x = x' \<and> y = y'"
proof -
  have "(x * k + y) div k = x" "(x' * k + y') div k = x'" "(x * k + y) mod k = y" "(x' * k + y') mod k = y'"
    using assms(2,3) by simp_all
  with assms(1) show ?thesis by metis
qed

lemma bytes3:
  fixes a b c a' b' c' :: nat
  assumes "a < 256" "b < 256" "c < 256" "a' < 256" "b' < 256" "c' < 256"
    and "sextet (a div 4) = sextet (a' div 4)" "sextet (a mod 4 * 16 + b div 16) = sextet (a' mod 4 * 16 + b' div 16)"
    and "sextet (b mod 16 * 4 + c div 64) = sextet (b' mod 16 * 4 + c' div 64)" "sextet (c mod 64) = sextet (c' mod 64)"
  shows "a = a' \<and> b = b' \<and> c = c'"
proof -
  have "a div 4 < 64" "a' div 4 < 64" "a mod 4 * 16 + b div 16 < 64" "a' mod 4 * 16 + b' div 16 < 64"
    "b mod 16 * 4 + c div 64 < 64" "b' mod 16 * 4 + c' div 64 < 64" "c mod 64 < 64" "c' mod 64 < 64"
    using assms(1-6) by linarith+
  with assms(7-10) have eq: "a div 4 = a' div 4" "a mod 4 * 16 + b div 16 = a' mod 4 * 16 + b' div 16"
    "b mod 16 * 4 + c div 64 = b' mod 16 * 4 + c' div 64" "c mod 64 = c' mod 64"
    by (simp_all add: sextet_eq)
  have "b div 16 < 16" "b' div 16 < 16" "c div 64 < 4" "c' div 64 < 4" using assms(2,3,5,6) by linarith+
  then have "a mod 4 = a' mod 4 \<and> b div 16 = b' div 16" "b mod 16 = b' mod 16 \<and> c div 64 = c' div 64"
    using mixed_radix [OF eq(2)] mixed_radix [OF eq(3)] by blast+
  with eq show ?thesis by (metis div_mult_mod_eq)
qed

lemma b64url_inj: "b64url s = b64url t \<Longrightarrow> s = t"
proof (induction s arbitrary: t rule: b64url.induct)
  case (1 x y z s)
  then obtain x' y' z' t' where t: "t = x' # y' # z' # t'"
    by (cases t rule: b64url.cases) (auto simp: Let_def)
  from 1(2) have "of_char x = (of_char x' :: nat) \<and> of_char y = (of_char y' :: nat) \<and> of_char z = (of_char z' :: nat)"
    unfolding t by (intro bytes3 byte_less) (simp_all add: Let_def)
  moreover have "s = t'" using 1(1) [OF refl refl refl, of t'] 1(2) by (simp add: t Let_def)
  ultimately show ?case by (simp add: t byte_eq)
next
  case (2 x y)
  then obtain x' y' where t: "t = [x', y']"
    by (cases t rule: b64url.cases) (auto simp: Let_def)
  have "of_char x = (of_char x' :: nat) \<and> of_char y = (of_char y' :: nat) \<and> (0 :: nat) = 0"
    by (rule bytes3) (use 2 in \<open>simp_all add: t Let_def byte_less\<close>)
  then show ?case by (simp add: t byte_eq)
next
  case (3 x)
  then obtain x' where t: "t = [x']"
    by (cases t rule: b64url.cases) (auto simp: Let_def)
  have "of_char x = (of_char x' :: nat) \<and> (0 :: nat) = 0 \<and> (0 :: nat) = 0"
    by (rule bytes3) (use 3 in \<open>simp_all add: t Let_def byte_less\<close>)
  then show ?case by (simp add: t byte_eq)
next
  case 4
  then show ?case by (cases t rule: b64url.cases) (simp_all add: Let_def)
qed

subsection \<open>The text of a UUID\<close>

fun hex_text :: "nat \<Rightarrow> nat \<Rightarrow> string" where
  "hex_text 0 n = []"
| "hex_text (Suc k) n = hex_text k (n div 16) @ [hex_digits ! (n mod 16)]"

definition uuid_text :: "uuid \<Rightarrow> string" where
  "uuid_text u = (let h = hex_text 32 u in
     take 8 h @ ''-'' @ take 4 (drop 8 h) @ ''-'' @ take 4 (drop 12 h) @ ''-'' @ take 4 (drop 16 h) @ ''-'' @ drop 20 h)"

lemma length_hex_text [simp]: "length (hex_text k n) = k"
  by (induction k arbitrary: n) simp_all

lemma hex_text_inj: "m < 16 ^ k \<Longrightarrow> n < 16 ^ k \<Longrightarrow> hex_text k m = hex_text k n \<Longrightarrow> m = n"
proof (induction k arbitrary: m n)
  case (Suc k)
  have "distinct hex_digits" "length hex_digits = 16" by code_simp+
  then have "m mod 16 = n mod 16" using Suc.prems(3) by (simp add: nth_eq_iff_index_eq)
  moreover have "m div 16 < 16 ^ k" "n div 16 < 16 ^ k" using Suc.prems by (simp_all add: less_mult_imp_div_less mult.commute)
  then have "m div 16 = n div 16" using Suc by simp
  ultimately show ?case by (metis div_mult_mod_eq)
qed simp

lemma uuid_text_inj:
  assumes "m < 2 ^ 128" and "n < 2 ^ 128" and "uuid_text m = uuid_text n"
  shows "m = n"
proof -
  let ?m = "hex_text 32 m" and ?n = "hex_text 32 n"
  have pieces: "take 8 ?m = take 8 ?n" "take 4 (drop 8 ?m) = take 4 (drop 8 ?n)" "take 4 (drop 12 ?m) = take 4 (drop 12 ?n)"
    "take 4 (drop 16 ?m) = take 4 (drop 16 ?n)" "drop 20 ?m = drop 20 ?n"
    using assms(3) by (simp_all add: uuid_text_def Let_def del: hex_text.simps)
  have split: "h = take 8 h @ take 4 (drop 8 h) @ take 4 (drop 12 h) @ take 4 (drop 16 h) @ drop 20 h" for h :: string
    using append_take_drop_id [of 8 h] append_take_drop_id [of 4 "drop 8 h"] append_take_drop_id [of 4 "drop 12 h"]
      append_take_drop_id [of 4 "drop 16 h"] by simp
  have "?m = ?n" by (subst (1 2) split) (simp only: pieces)
  moreover have "(2::nat) ^ 128 = 16 ^ 32" by simp
  ultimately show ?thesis using hex_text_inj [of m 32 n] assms(1,2) by simp
qed

end
