(* ===== verification/ModelRun.thy ===== *)
theory ModelRun
  imports Texts Machines ProductionRun
begin

text \<open>
  One run of a language model, \<open>backend/src/cti_app/domain/model_runs.py\<close>: what is known of the
  run (\<open>status\<close>) and, separately, of the submission made to the provider
  (\<open>submission_state\<close>). Fields no method reads or writes (the citations, the parser diagnostics,
  the normalised output) are left out. The elapsed time of an adoption is a floating-point
  expression of the source and is taken as an argument.
\<close>

subsection \<open>State\<close>

datatype model_provider = Openai | Gemini | Qwen | FakeProvider

datatype model_transport = OpenaiResponses | OpenaiChatCompletions | FakeTransport

datatype model_backend = ChatgptBridge | GeminiWebai | QwenBackend | FakeBackend

datatype model_run_status = MRunning | MWaitingBackground | MNeedsReview | MSucceeded | MFailed | MBlocked

fun model_run_status_value :: "model_run_status \<Rightarrow> string" where
  "model_run_status_value MRunning = ''running''"
| "model_run_status_value MWaitingBackground = ''waiting_background''"
| "model_run_status_value MNeedsReview = ''needs_review''"
| "model_run_status_value MSucceeded = ''succeeded''"
| "model_run_status_value MFailed = ''failed''"
| "model_run_status_value MBlocked = ''blocked''"

fun submission_state_value :: "submission_state \<Rightarrow> string" where
  "submission_state_value NotSubmitted = ''not_submitted''"
| "submission_state_value ExternalStateUnknown = ''external_state_unknown''"
| "submission_state_value SubmissionInProgress = ''submission_in_progress''"
| "submission_state_value ResultObtained = ''result_obtained''"
| "submission_state_value VerifiedTerminalFailure = ''verified_terminal_failure''"

record model_usage =
  us_input_tokens :: int
  us_output_tokens :: int
  us_total_tokens :: int
  us_estimated :: bool

definition usage_post_init :: "model_usage \<Rightarrow> model_usage result" where
  "usage_post_init u = validated
     [(min (min (us_input_tokens u) (us_output_tokens u)) (us_total_tokens u) < 0,
        ValueError ''Token usage cannot be negative''),
      (us_total_tokens u < us_input_tokens u + us_output_tokens u,
        ValueError ''Total token usage is inconsistent'')] u"

record model_run =
  mr_provider :: model_provider
  mr_requested_model :: string
  mr_prompt_template_id :: string
  mr_prompt_template_version :: string
  mr_authorized_input_hash :: string
  mr_evidence_pack_hash :: string
  mr_backend :: model_backend
  mr_transport :: model_transport
  mr_id :: uuid
  mr_actual_model_version :: "string option"
  mr_duration_ms :: "int option"
  mr_usage :: "model_usage option"
  mr_status :: model_run_status
  mr_submission_state :: submission_state
  mr_submission_attempt :: int
  mr_bridge_request_id :: "string option"
  mr_response_id :: "string option"
  mr_output_references :: "string list"
  mr_error_code :: "string option"
  mr_error_message :: "string option"
  mr_error_details :: "details option"
  mr_raw_output_reference :: "string option"
  mr_raw_output_sha256 :: "string option"
  mr_raw_output_chars :: "int option"
  mr_started_at :: datetime
  mr_finished_at :: "datetime option"
  mr_updated_at :: datetime

fun expected_route :: "model_provider \<Rightarrow> model_backend \<times> model_transport" where
  "expected_route Openai = (ChatgptBridge, OpenaiResponses)"
| "expected_route Gemini = (GeminiWebai, OpenaiChatCompletions)"
| "expected_route Qwen = (QwenBackend, OpenaiChatCompletions)"
| "expected_route FakeProvider = (FakeBackend, FakeTransport)"

text \<open>The default backend and transport of another provider are replaced by its own.\<close>

definition with_default_route :: "model_run \<Rightarrow> model_run" where
  "with_default_route r =
     (if mr_backend r = ChatgptBridge \<and> mr_transport r = OpenaiResponses \<and> mr_provider r \<noteq> Openai
      then r\<lparr>mr_backend := fst (expected_route (mr_provider r)),
             mr_transport := snd (expected_route (mr_provider r))\<rparr> else r)"

definition model_run_post_init :: "model_run \<Rightarrow> model_run result" where
  "model_run_post_init r0 = (let r = with_default_route r0 in validated
     [((mr_backend r, mr_transport r) \<noteq> expected_route (mr_provider r),
        ValueError ''Model provider, backend and transport are inconsistent''),
      (blank (mr_requested_model r), ValueError ''Requested model must not be empty''),
      (blank (mr_prompt_template_id r) \<or> blank (mr_prompt_template_version r),
        ValueError ''Prompt template identity and version are required''),
      (mr_submission_attempt r < 0, ValueError ''Submission attempt cannot be negative''),
      (\<not> is_sha256 (mr_authorized_input_hash r), ValueError ''authorized_input_hash must be a lowercase SHA-256''),
      (\<not> is_sha256 (mr_evidence_pack_hash r), ValueError ''evidence_pack_hash must be a lowercase SHA-256'')] r)"

subsection \<open>Operations\<close>

definition run_open :: "model_run \<Rightarrow> bool" where
  "run_open r = (mr_status r \<in> {MRunning, MWaitingBackground})"

definition require_active :: "model_run \<Rightarrow> unit result" where
  "require_active r = (if run_open r then Inr ()
     else Inl (ValueError (''Model run is already terminal: '' @ model_run_status_value (mr_status r))))"

definition wait_for_background ::
  "string \<Rightarrow> string option \<Rightarrow> model_usage option \<Rightarrow> datetime \<Rightarrow> model_run \<Rightarrow> model_run result" where
  [op_defs]: "wait_for_background response_id version usage t r = and_then (require_active r) (\<lambda>_.
     if response_id = [] then Inl (ValueError ''A background response id is required'')
     else Inr (r\<lparr>mr_status := MWaitingBackground, mr_submission_state := SubmissionInProgress,
       mr_response_id := Some response_id, mr_actual_model_version := version, mr_usage := usage,
       mr_updated_at := t\<rparr>))"

definition model_succeed ::
  "string option \<Rightarrow> int \<Rightarrow> model_usage \<Rightarrow> string list \<Rightarrow> string option \<Rightarrow> datetime \<Rightarrow> model_run \<Rightarrow> model_run result" where
  [op_defs]: "model_succeed version duration usage outputs response_id t r = and_then (require_active r) (\<lambda>_.
     if duration < 0 \<or> outputs = []
     then Inl (ValueError ''A completed run requires duration and stored output'')
     else Inr (r\<lparr>mr_status := MSucceeded, mr_submission_state := ResultObtained,
       mr_actual_model_version := version, mr_duration_ms := Some duration, mr_usage := Some usage,
       mr_response_id := str_or response_id (mr_response_id r), mr_output_references := outputs,
       mr_error_code := None, mr_error_message := None, mr_error_details := None,
       mr_finished_at := Some t, mr_updated_at := t\<rparr>))"

definition model_fail ::
  "string \<Rightarrow> string \<Rightarrow> bool \<Rightarrow> details option \<Rightarrow> datetime \<Rightarrow> model_run \<Rightarrow> model_run result" where
  [op_defs]: "model_fail code message blocked d t r = and_then (require_active r) (\<lambda>_.
     Inr (r\<lparr>mr_status := (if blocked then MBlocked else MFailed), mr_error_code := Some (take 64 code),
       mr_error_message := Some (public_text message), mr_error_details := d,
       mr_finished_at := Some t, mr_updated_at := t\<rparr>))"

definition require_review ::
  "string \<Rightarrow> string \<Rightarrow> details option \<Rightarrow> string option \<Rightarrow> datetime \<Rightarrow> model_run \<Rightarrow> model_run result" where
  [op_defs]: "require_review code message d response_id t r = and_then (require_active r) (\<lambda>_.
     Inr (r\<lparr>mr_status := MNeedsReview, mr_error_code := Some (take 64 code),
       mr_error_message := Some (public_text message), mr_error_details := d,
       mr_response_id := str_or response_id (mr_response_id r),
       mr_finished_at := Some t, mr_updated_at := t\<rparr>))"

definition unresolved_submission :: "submission_state \<Rightarrow> bool" where
  "unresolved_submission s = (s \<in> {SubmissionInProgress, ExternalStateUnknown})"

definition reviewable :: "model_run \<Rightarrow> bool" where
  "reviewable r = (mr_status r \<in> {MRunning, MWaitingBackground, MNeedsReview, MFailed})"

definition e_acute :: string where "e_acute = [CHR 0xE9]"

definition mark_orphaned_running_turn :: "datetime \<Rightarrow> model_run \<Rightarrow> model_run result" where
  [op_defs]: "mark_orphaned_running_turn t r =
     (if \<not> reviewable r then Inl (ValueError ''ModelRun is not eligible for orphaned-turn review'')
      else Inr (r\<lparr>mr_submission_state := (if unresolved_submission (mr_submission_state r)
           then ExternalStateUnknown else mr_submission_state r),
         mr_status := MNeedsReview, mr_error_code := Some ''orphaned_running_turn'',
         mr_error_message := Some (''Le job propri'' @ e_acute @ ''taire s'' @ [CHR 0x27] @ ''est termin'' @ e_acute
           @ '' sans sortie Bridge persist'' @ e_acute @ ''e.''),
         mr_error_details := Some (put ''recovery'' (JStr ''distinct_attempt_after_terminal_owner'')
           (details_or_empty (mr_error_details r))),
         mr_finished_at := Some t, mr_updated_at := t\<rparr>))"

definition no_handoff_code :: string where
  "no_handoff_code = ''bridge_pre_submission_failure''"

definition mark_pre_submission_retryable :: "datetime \<Rightarrow> model_run \<Rightarrow> model_run result" where
  [op_defs]: "mark_pre_submission_retryable t r =
     (if mr_submission_state r \<noteq> NotSubmitted then Inl (ValueError ''ModelRun submission is not proven absent'')
      else if \<not> reviewable r then Inl (ValueError ''ModelRun is not eligible for pre-submission recovery'')
      else Inr (r\<lparr>mr_status := MFailed, mr_error_code := Some no_handoff_code,
         mr_error_message := Some (''Le ModelRun confirme que le fournisseur n'' @ [CHR 0x27] @ ''a pas re''
           @ [CHR 0xE7] @ ''u ce tour.''),
         mr_error_details := Some [(''pre_submission_proof'', JObj
           [(''submission_state'', JStr (submission_state_value (mr_submission_state r))),
            (''submission_attempt'', JInt (mr_submission_attempt r))])],
         mr_finished_at := Some t, mr_updated_at := t\<rparr>))"

definition has_output :: "model_run \<Rightarrow> bool" where
  "has_output r = (mr_response_id r \<noteq> None \<or> mr_output_references r \<noteq> [] \<or> truthy (mr_raw_output_reference r)
     \<or> mr_raw_output_sha256 r \<noteq> None \<or> mr_raw_output_chars r \<notin> {None, Some 0})"

definition no_handoff_proof :: "uuid \<Rightarrow> json" where
  "no_handoff_proof claim = JObj [(''source'', JStr ''external_effect_claim''), (''claim_id'', JUuid claim)]"

definition seal_verified_no_handoff :: "uuid \<Rightarrow> datetime \<Rightarrow> model_run \<Rightarrow> model_run result" where
  [op_defs]: "seal_verified_no_handoff claim t r =
     (if \<not> reviewable r then Inl (ValueError ''ModelRun is not eligible for no-handoff reconciliation'')
      else if has_output r
      then Inl (ValueError ''ModelRun has provider output and cannot be sealed as unsubmitted'')
      else if mr_status r = MFailed \<and> mr_error_code r = Some no_handoff_code
        \<and> map_of (details_or_empty (mr_error_details r)) ''pre_submission_proof'' = Some (no_handoff_proof claim)
        \<and> mr_submission_state r = NotSubmitted
      then Inr r
      else Inr (r\<lparr>mr_status := MFailed, mr_submission_state := NotSubmitted,
         mr_error_code := Some no_handoff_code,
         mr_error_message := Some (''Une preuve serveur confirme que Bridge n'' @ [CHR 0x27] @ ''a pas re''
           @ [CHR 0xE7] @ ''u ce tour.''),
         mr_error_details := Some [(''pre_submission_proof'', no_handoff_proof claim)],
         mr_finished_at := Some t, mr_updated_at := t\<rparr>))"

record adoption =
  ad_output_reference :: string
  ad_output_sha256 :: string
  ad_output_chars :: int
  ad_provenance :: string
  ad_actor_id :: string
  ad_reason :: "string option"
  ad_bridge_response_id :: "string option"
  ad_source_model_run_id :: "uuid option"

definition recovery_record :: "adoption \<Rightarrow> datetime \<Rightarrow> details" where
  "recovery_record a t =
     [(''provenance'', JStr (ad_provenance a)), (''actor_id'', JStr (ad_actor_id a)), (''adopted_at'', JTime t),
      (''source_model_run_id'', case ad_source_model_run_id a of None \<Rightarrow> JNull | Some i \<Rightarrow> JUuid i)]
     @ (case ad_reason a of None \<Rightarrow> []
        | Some reason \<Rightarrow> [(''reason'', JStr (take 512 reason)), (''sha256'', JStr (ad_output_sha256 a))])"

definition estimated_usage :: model_usage where
  "estimated_usage = \<lparr>us_input_tokens = 0, us_output_tokens = 0, us_total_tokens = 0, us_estimated = True\<rparr>"

definition adopt_recovery :: "adoption \<Rightarrow> int \<Rightarrow> datetime \<Rightarrow> model_run \<Rightarrow> model_run result" where
  [op_defs]: "adopt_recovery a elapsed_ms t r =
     (if mr_status r \<noteq> MNeedsReview
         \<and> \<not> (ad_provenance a \<in> {''manual_import'', ''visible_recovery''} \<and> mr_status r \<in> {MWaitingBackground, MFailed})
      then Inl (ValueError ''Model run is not eligible for this recovery'')
      else if truthy (ad_bridge_response_id a) \<and> truthy (mr_response_id r)
         \<and> mr_response_id r \<noteq> ad_bridge_response_id a
      then Inl (ValueError ''Recovered response identity does not match the ModelRun'')
      else Inr (r\<lparr>mr_status := MSucceeded, mr_submission_state := ResultObtained,
         mr_response_id := str_or (ad_bridge_response_id a) (mr_response_id r),
         mr_output_references := mr_output_references r @ [ad_output_reference a],
         mr_raw_output_reference := Some (ad_output_reference a),
         mr_raw_output_sha256 := Some (ad_output_sha256 a), mr_raw_output_chars := Some (ad_output_chars a),
         mr_error_code := None, mr_error_message := None,
         mr_error_details := Some (put ''recovery'' (JObj (recovery_record a t)) (details_or_empty (mr_error_details r))),
         mr_duration_ms := Some (max 0 elapsed_ms),
         mr_usage := Some (case mr_usage r of None \<Rightarrow> estimated_usage | Some u \<Rightarrow> u),
         mr_finished_at := Some t, mr_updated_at := t\<rparr>))"

definition abandonment :: "string \<Rightarrow> string \<Rightarrow> datetime \<Rightarrow> string \<times> json \<Rightarrow> json" where
  "abandonment actor reason t outcome = JObj
     [(''actor_id'', JStr actor), (''reason'', JStr (take 512 (squeeze reason))),
      (''disposition'', JStr ''operator_asserted_not_executed''), outcome, (''abandoned_at'', JTime t)]"

definition abandoned_message :: string where
  "abandoned_message = ''L'' @ [CHR 0x27] @ ''op'' @ e_acute @ ''rateur a abandonn'' @ e_acute
     @ '' cette tentative ambigu'' @ [CHR 0xEB] @ ''e.''"

definition abandon_uncertain_submission :: "string \<Rightarrow> string \<Rightarrow> datetime \<Rightarrow> model_run \<Rightarrow> model_run result" where
  [op_defs]: "abandon_uncertain_submission actor reason t r =
     (if mr_status r \<noteq> MNeedsReview then Inl (ValueError ''Only a ModelRun needing review can be abandoned'')
      else Inr (r\<lparr>mr_status := MFailed, mr_error_code := Some ''operator_abandoned'',
         mr_error_message := Some abandoned_message,
         mr_error_details := Some (put ''operator_abandonment''
           (abandonment actor reason t (''external_outcome'', JStr (submission_state_value (mr_submission_state r))))
           (details_or_empty (mr_error_details r))),
         mr_finished_at := Some t, mr_updated_at := t\<rparr>))"

definition succeed_manual_import ::
  "string \<Rightarrow> string \<Rightarrow> int \<Rightarrow> string \<Rightarrow> datetime \<Rightarrow> model_run \<Rightarrow> model_run result" where
  [op_defs]: "succeed_manual_import output sha chars actor t r =
     (if mr_status r \<noteq> MRunning then Inl (ValueError ''A manual import can only complete a running run'')
      else Inr (r\<lparr>mr_status := MSucceeded, mr_output_references := mr_output_references r @ [output],
         mr_raw_output_reference := Some output, mr_raw_output_sha256 := Some sha,
         mr_raw_output_chars := Some chars, mr_duration_ms := Some 0, mr_usage := Some estimated_usage,
         mr_error_code := None, mr_error_message := None,
         mr_error_details := Some [(''recovery'', JObj
           [(''provenance'', JStr ''manual_import''), (''actor_id'', JStr actor), (''adopted_at'', JTime t),
            (''source_model_run_id'', JNull)])],
         mr_finished_at := Some t, mr_updated_at := t\<rparr>))"

definition restart_pre_submission :: "datetime \<Rightarrow> model_run \<Rightarrow> model_run result" where
  [op_defs]: "restart_pre_submission t r =
     (if mr_status r \<noteq> MFailed then Inl (ValueError ''Only failed ModelRuns can restart'')
      else if mr_submission_state r \<noteq> NotSubmitted
      then Inl (ValueError ''ModelRun failure is not proven pre-submission'')
      else Inr (r\<lparr>mr_status := MRunning, mr_error_code := None, mr_error_message := None,
         mr_finished_at := None, mr_updated_at := t\<rparr>))"

definition mark_verified_terminal_failure ::
  "string option \<Rightarrow> datetime \<Rightarrow> model_run \<Rightarrow> model_run result" where
  [op_defs]: "mark_verified_terminal_failure response_id t r =
     (if \<not> run_open r then Inl (ValueError ''Only active ModelRuns can record a terminal provider failure'')
      else if \<not> unresolved_submission (mr_submission_state r)
      then Inl (ValueError ''ModelRun has no unresolved provider submission'')
      else Inr (r\<lparr>mr_status := MRunning, mr_submission_state := VerifiedTerminalFailure,
         mr_response_id := str_or response_id (mr_response_id r), mr_updated_at := t\<rparr>))"

definition mark_external_state_unknown :: "datetime \<Rightarrow> model_run \<Rightarrow> model_run result" where
  [op_defs]: "mark_external_state_unknown t r = Inr (if unresolved_submission (mr_submission_state r)
     then r\<lparr>mr_submission_state := ExternalStateUnknown, mr_updated_at := t\<rparr> else r)"

definition reopen_after_confirmed_terminal_failure :: "datetime \<Rightarrow> model_run \<Rightarrow> model_run result" where
  [op_defs]: "reopen_after_confirmed_terminal_failure t r =
     (if mr_status r \<noteq> MRunning then Inl (ValueError ''Only running ModelRuns can reopen a submission'')
      else if mr_submission_state r \<noteq> VerifiedTerminalFailure
      then Inl (ValueError ''ModelRun terminal failure was not verified'')
      else Inr (r\<lparr>mr_submission_state := NotSubmitted, mr_updated_at := t\<rparr>))"

definition terminal_bridge_states :: "string list" where
  "terminal_bridge_states = [''failed'', ''error'', ''cancelled'', ''canceled'', ''rejected'', ''not_found'']"

definition reopen_after_verified_reconciliation_failure ::
  "(string \<Rightarrow> string) \<Rightarrow> string \<Rightarrow> datetime \<Rightarrow> model_run \<Rightarrow> model_run result" where
  [op_defs]: "reopen_after_verified_reconciliation_failure sha256 bridge_status t r =
     (if mr_status r \<noteq> MNeedsReview
      then Inl (ValueError ''Only a ModelRun needing review can resolve a submission'')
      else if mr_submission_state r \<noteq> ExternalStateUnknown
      then Inl (ValueError ''ModelRun has no unresolved external submission'')
      else let status = casefold (squeeze bridge_status) in
        if status \<notin> set terminal_bridge_states
        then Inl (ValueError ''Bridge did not confirm a terminal failure'')
        else reopen_after_confirmed_terminal_failure t
          (r\<lparr>mr_status := MRunning, mr_submission_state := VerifiedTerminalFailure,
             mr_error_code := None, mr_error_message := None,
             mr_error_details := Some (put ''verified_terminal_failure'' (JObj
               [(''bridge_status'', JStr status),
                (''bridge_request_id_sha256'', if truthy (mr_bridge_request_id r)
                   then JStr (sha256 (the (mr_bridge_request_id r))) else JNull),
                (''response_id'', case mr_response_id r of None \<Rightarrow> JNull | Some i \<Rightarrow> JStr i),
                (''verified_at'', JTime t)]) (details_or_empty (mr_error_details r))),
             mr_finished_at := None, mr_updated_at := t, mr_response_id := None\<rparr>))"

definition begin_submission_attempt :: "string option \<Rightarrow> datetime \<Rightarrow> model_run \<Rightarrow> model_run result" where
  [op_defs]: "begin_submission_attempt request t r =
     (if mr_status r \<noteq> MRunning then Inl (ValueError ''Only running ModelRuns can be submitted'')
      else if mr_submission_state r \<noteq> NotSubmitted
      then Inl (ValueError ''ModelRun submission is already claimed'')
      else Inr (r\<lparr>mr_submission_attempt := mr_submission_attempt r + 1,
         mr_submission_state := ExternalStateUnknown, mr_bridge_request_id := request, mr_updated_at := t\<rparr>))"

subsection \<open>The model run as a machine\<close>

datatype model_op =
    MWait string "string option" "model_usage option" datetime
  | MSucceed "string option" int model_usage "string list" "string option" datetime
  | MFail string string bool "details option" datetime
  | MReview string string "details option" "string option" datetime
  | MOrphan datetime
  | MRetryable datetime
  | MSeal uuid datetime
  | MAdopt adoption int datetime
  | MAbandon string string datetime
  | MImport string string int string datetime
  | MRestart datetime
  | MTerminalFailure "string option" datetime
  | MUnknown datetime
  | MReopen datetime
  | MReconcile "string \<Rightarrow> string" string datetime
  | MBegin "string option" datetime

fun model_exec :: "model_op \<Rightarrow> model_run \<Rightarrow> model_run result" where
  "model_exec (MWait i v u t) r = wait_for_background i v u t r"
| "model_exec (MSucceed v d u os i t) r = model_succeed v d u os i t r"
| "model_exec (MFail c m b d t) r = model_fail c m b d t r"
| "model_exec (MReview c m d i t) r = require_review c m d i t r"
| "model_exec (MOrphan t) r = mark_orphaned_running_turn t r"
| "model_exec (MRetryable t) r = mark_pre_submission_retryable t r"
| "model_exec (MSeal c t) r = seal_verified_no_handoff c t r"
| "model_exec (MAdopt a e t) r = adopt_recovery a e t r"
| "model_exec (MAbandon a x t) r = abandon_uncertain_submission a x t r"
| "model_exec (MImport q h n a t) r = succeed_manual_import q h n a t r"
| "model_exec (MRestart t) r = restart_pre_submission t r"
| "model_exec (MTerminalFailure i t) r = mark_verified_terminal_failure i t r"
| "model_exec (MUnknown t) r = mark_external_state_unknown t r"
| "model_exec (MReopen t) r = reopen_after_confirmed_terminal_failure t r"
| "model_exec (MReconcile sha s t) r = reopen_after_verified_reconciliation_failure sha s t r"
| "model_exec (MBegin q t) r = begin_submission_attempt q t r"

text \<open>
  What the methods keep: a run is finished exactly when it is not open, an obtained result belongs
  to a succeeded run, a succeeded run has stored output, and a run waiting in the background holds
  the response identity of an unresolved submission.
\<close>

definition model_inv :: "model_run \<Rightarrow> bool" where
  "model_inv r \<longleftrightarrow> 0 \<le> mr_submission_attempt r \<and> (run_open r \<longleftrightarrow> mr_finished_at r = None)
     \<and> (mr_submission_state r = ResultObtained \<longrightarrow> mr_status r = MSucceeded)
     \<and> (mr_status r = MSucceeded \<longrightarrow> mr_output_references r \<noteq> [] \<and> mr_duration_ms r \<noteq> None)
     \<and> (mr_status r = MWaitingBackground \<longrightarrow> unresolved_submission (mr_submission_state r) \<and> mr_response_id r \<noteq> None)"

lemmas model_shapes = model_inv_def run_open_def reviewable_def unresolved_submission_def require_active_def

lemma model_exec_inv: "model_inv r \<Longrightarrow> model_exec op r = Inr r' \<Longrightarrow> model_inv r'"
  by (cases op; clarsimp simp: op_defs model_shapes Let_def and_then_Inr has_output_def split: if_splits)

text \<open>
  The transitions that release a run for another submission. The seal says the previous submission did not
  happen; the other two follow a terminal failure of a submission that may well have happened, verified
  on the run or confirmed by the provider.
\<close>

fun releases_submission :: "model_op \<Rightarrow> bool" where
  "releases_submission (MSeal _ _) = True"
| "releases_submission (MReopen _) = True"
| "releases_submission (MReconcile _ _ _) = True"
| "releases_submission _ = False"

fun release_evidence :: "model_op \<Rightarrow> model_run \<Rightarrow> bool" where
  "release_evidence (MSeal _ _) r = (reviewable r \<and> \<not> has_output r)"
| "release_evidence (MReopen _) r = (mr_status r = MRunning \<and> mr_submission_state r = VerifiedTerminalFailure)"
| "release_evidence (MReconcile _ status _) r = (mr_status r = MNeedsReview \<and> mr_submission_state r = ExternalStateUnknown
     \<and> casefold (squeeze status) \<in> set terminal_bridge_states)"
| "release_evidence _ _ = False"

fun begins_submission :: "model_op \<Rightarrow> bool" where
  "begins_submission (MBegin _ _) = True"
| "begins_submission _ = False"

definition submission_level :: "model_run \<Rightarrow> int" where
  "submission_level r = mr_submission_attempt r + (if mr_submission_state r = NotSubmitted then 1 else 0)"

lemma submission_metered:
  "model_exec op r = Inr r' \<Longrightarrow> submission_level r' \<le> submission_level r + (if releases_submission op then 1 else 0)"
  by (cases op) (auto simp: op_defs submission_level_def Let_def and_then_Inr split: if_splits)

lemma released_with_evidence:
  "model_exec op r = Inr r' \<Longrightarrow> mr_submission_state r \<noteq> NotSubmitted \<Longrightarrow> mr_submission_state r' = NotSubmitted \<Longrightarrow>
   release_evidence op r"
  by (cases op) (auto simp: op_defs Let_def and_then_Inr split: if_splits)

lemma attempts_counted:
  "model_exec op r = Inr r' \<Longrightarrow> mr_submission_attempt r' = mr_submission_attempt r + (if begins_submission op then 1 else 0)"
  by (cases op) (auto simp: op_defs Let_def and_then_Inr split: if_splits)

interpretation model_machine: metered_machine model_exec model_inv submission_level
  "\<lambda>op. if releases_submission op then 1 else 0"
  by unfold_locales (blast intro: model_exec_inv, rule submission_metered)

definition model_outcome where
  "model_outcome r = (mr_status r, mr_output_references r, mr_raw_output_sha256 r, mr_submission_attempt r,
     mr_usage r, mr_error_details r, mr_finished_at r)"

lemma succeeded_kept:
  "mr_status r = MSucceeded \<Longrightarrow> \<not> False \<Longrightarrow> model_exec op r = Inr r' \<Longrightarrow>
   mr_status r' = MSucceeded \<and> model_outcome r' = model_outcome r"
  by (cases op) (auto simp: op_defs model_shapes model_outcome_def Let_def and_then_Inr split: if_splits)

interpretation model_settled: absorbing_machine model_exec "\<lambda>r. mr_status r = MSucceeded" model_outcome "\<lambda>_. False"
  by unfold_locales (rule succeeded_kept)

lemma count_releases: "sum_list (map (\<lambda>op. if P op then 1 else (0::int)) xs) = int (length (filter P xs))"
  by (induction xs) auto

lemma drive_attempts:
  "mr_submission_attempt (drive model_exec ops r)
    = mr_submission_attempt r + int (length (filter begins_submission (accepted model_exec ops r)))"
proof (induction ops arbitrary: r)
  case (Cons op ops)
  then show ?case using attempts_counted [of op r] by (cases "model_exec op r") (auto simp: step_def)
qed simp

lemma sealed_shape:
  assumes "seal_verified_no_handoff c t r = Inr r'"
  shows "mr_status r' = MFailed \<and> mr_submission_state r' = NotSubmitted \<and> mr_error_code r' = Some no_handoff_code
    \<and> \<not> has_output r' \<and> mr_submission_attempt r' = mr_submission_attempt r
    \<and> map_of (details_or_empty (mr_error_details r')) ''pre_submission_proof'' = Some (no_handoff_proof c)"
  using assms
  by (clarsimp simp: seal_verified_no_handoff_def has_output_def details_or_empty_def split: if_splits)

subsection \<open>Properties\<close>

definition demo_model_run :: model_run where
  "demo_model_run = \<lparr>mr_provider = Openai, mr_requested_model = ''m'', mr_prompt_template_id = ''p'',
     mr_prompt_template_version = ''1'', mr_authorized_input_hash = replicate 64 CHR ''a'',
     mr_evidence_pack_hash = replicate 64 CHR ''b'', mr_backend = ChatgptBridge, mr_transport = OpenaiResponses,
     mr_id = 1, mr_actual_model_version = None, mr_duration_ms = None, mr_usage = None, mr_status = MRunning,
     mr_submission_state = NotSubmitted, mr_submission_attempt = 0, mr_bridge_request_id = None,
     mr_response_id = None, mr_output_references = [], mr_error_code = None, mr_error_message = None,
     mr_error_details = None, mr_raw_output_reference = None, mr_raw_output_sha256 = None,
     mr_raw_output_chars = None, mr_started_at = utc 0, mr_finished_at = None, mr_updated_at = utc 0\<rparr>"

lemma demo_model_inv: "model_inv demo_model_run"
  by (simp add: model_shapes demo_model_run_def)

lemma demo_model_new: "model_run_post_init demo_model_run = Inr demo_model_run"
  by code_simp

text \<open>
  C29. One submission per release: along any sequence of transitions, a provider submission is claimed at most
  once more than the number of accepted releases, and the attempt counter counts exactly the claims. A run is
  released only by the seal of a run without output (the previous submission did not happen), by the reopening
  of a verified terminal failure, or by a reconciliation for which the provider answered with a terminal
  status; after the last two the previous submission may have happened.
\<close>

theorem submissions_need_release:
  assumes "model_inv r" and "done = accepted model_exec ops r"
  shows "int (length (filter begins_submission done))
      \<le> int (length (filter releases_submission done)) + (if mr_submission_state r = NotSubmitted then 1 else 0)
    \<and> mr_submission_attempt (drive model_exec ops r)
      = mr_submission_attempt r + int (length (filter begins_submission done))
    \<and> (\<forall>op r0 r1. model_exec op r0 = Inr r1 \<and> mr_submission_state r0 \<noteq> NotSubmitted
        \<and> mr_submission_state r1 = NotSubmitted \<longrightarrow> release_evidence op r0)"
  using model_machine.drive_metered [OF assms(1), of ops] drive_attempts [of ops r] assms(2) released_with_evidence
  by (auto simp: submission_level_def count_releases split: if_splits)

theorem submissions_need_release_witness:
  "mr_submission_attempt (drive model_exec
     [MBegin (Some ''q'') (utc 1), MBegin (Some ''q2'') (utc 2), MReview ''x'' ''y'' None None (utc 3),
      MReconcile (\<lambda>s. s) ''FAILED'' (utc 4), MBegin (Some ''q3'') (utc 5), MBegin None (utc 6)] demo_model_run) = 2"
proof -
  let ?ops = "[MBegin (Some ''q'') (utc 1), MBegin (Some ''q2'') (utc 2), MReview ''x'' ''y'' None None (utc 3),
      MReconcile (\<lambda>s. s) ''FAILED'' (utc 4), MBegin (Some ''q3'') (utc 5), MBegin None (utc 6)]"
  have "length (filter begins_submission (accepted model_exec ?ops demo_model_run)) = 2" by code_simp
  moreover have "mr_submission_attempt demo_model_run = 0" by (simp add: demo_model_run_def)
  ultimately show ?thesis using submissions_need_release [OF demo_model_inv refl, of ?ops] by simp
qed

text \<open>
  A result is final: whatever transitions are attempted on a succeeded run, its status, outputs,
  digest, usage, provenance and end time stay, and it is never submitted again.
\<close>

theorem succeeded_run_final:
  assumes "mr_status r = MSucceeded"
  shows "model_outcome (drive model_exec ops r) = model_outcome r \<and> mr_status (drive model_exec ops r) = MSucceeded"
  using model_settled.drive_absorb [OF assms, of ops] by (simp add: list_all_iff)

theorem succeeded_run_final_witness:
  "model_outcome (drive model_exec [MFail ''a'' ''b'' True None (utc 9), MRestart (utc 10)]
     (drive model_exec [MImport ''blob'' ''h'' 3 ''me'' (utc 1)] demo_model_run))
   = model_outcome (drive model_exec [MImport ''blob'' ''h'' 3 ''me'' (utc 1)] demo_model_run)"
proof -
  have "mr_status (drive model_exec [MImport ''blob'' ''h'' 3 ''me'' (utc 1)] demo_model_run) = MSucceeded"
    by (simp add: step_def succeed_manual_import_def demo_model_run_def)
  then show ?thesis using succeeded_run_final by blast
qed

text \<open>
  Sealing a run on the proof of its effect claim is idempotent and reopens it: a second seal with the
  same claim changes nothing, not even a time stamp, and the sealed run can be restarted and
  submitted once more, as the next attempt.
\<close>

theorem sealed_run_resubmits:
  assumes "seal_verified_no_handoff c t r = Inr r'"
  shows "seal_verified_no_handoff c u r' = Inr r'
    \<and> (\<exists>r2 r3. restart_pre_submission u r' = Inr r2 \<and> begin_submission_attempt q v r2 = Inr r3
        \<and> mr_submission_attempt r3 = mr_submission_attempt r + 1 \<and> mr_submission_state r3 = ExternalStateUnknown)"
  using sealed_shape [OF assms]
  by (simp add: seal_verified_no_handoff_def restart_pre_submission_def begin_submission_attempt_def reviewable_def)

theorem sealed_run_resubmits_witness:
  "\<exists>r'. seal_verified_no_handoff 7 (utc 3)
     (drive model_exec [MBegin (Some ''q'') (utc 1), MReview ''x'' ''y'' None None (utc 2)] demo_model_run) = Inr r'
   \<and> seal_verified_no_handoff 7 (utc 4) r' = Inr r'"
proof -
  let ?r = "drive model_exec [MBegin (Some ''q'') (utc 1), MReview ''x'' ''y'' None None (utc 2)] demo_model_run"
  have "case seal_verified_no_handoff 7 (utc 3) ?r of Inl e \<Rightarrow> False | Inr x \<Rightarrow> True" by code_simp
  then obtain r' where r: "seal_verified_no_handoff 7 (utc 3) ?r = Inr r'" by (auto split: sum.splits)
  from sealed_run_resubmits [OF r] r show ?thesis by blast
qed

end
