(* ===== verification/Conversation.thy ===== *)
theory Conversation
  imports ModelRun
begin

text \<open>
  The conversation with a model and its turns, \<open>backend/src/cti_app/domain/model_conversations.py\<close>,
  and the two service transactions that close a turn from a recovered answer
  (\<open>application/model_gateway.py\<close>) and archive the conversation
  (\<open>application/model_conversations.py\<close>).
\<close>

subsection \<open>The conversation\<close>

datatype conversation_purpose = PDiscovery | PAnalystAssistance | PPivotResearch | PSubjectResearch
  | PDrafting | PCritic

datatype conversation_status = CPending | CReady | CBusy | CNeedsReview | CUnavailable | CArchived

datatype conversation_mode = Fresh | Continue | Fork

datatype turn_status = TRunning | TSucceeded | TFailed | TNeedsReview | TBlocked

definition continuable_purposes :: "conversation_purpose list" where
  "continuable_purposes = [PAnalystAssistance, PPivotResearch, PSubjectResearch, PDrafting]"

record conversation =
  cv_purpose :: conversation_purpose
  cv_title :: string
  cv_status :: conversation_status
  cv_external_locator :: "string option"
  cv_head_turn_id :: "uuid option"
  cv_turn_count :: int
  cv_id :: uuid
  cv_updated_at :: datetime
  cv_last_used_at :: "datetime option"
  cv_version :: int

definition conversation_post_init :: "conversation \<Rightarrow> conversation result" where
  "conversation_post_init c0 = (let c = c0\<lparr>cv_title := squeeze (cv_title c0)\<rparr> in validated
     [(cv_title c = [], ValueError ''Conversation title is required''),
      (cv_turn_count c < 0 \<or> cv_version c < 1, ValueError ''Conversation counters are invalid'')] c)"

definition start_turn :: "conversation_mode \<Rightarrow> datetime \<Rightarrow> conversation \<Rightarrow> conversation result" where
  [op_defs]: "start_turn mode t c =
     (if mode = Fork then Inl (ValueError ''Conversation fork mode is not implemented'')
      else if cv_status c = CArchived then Inl (ValueError ''Conversation is archived'')
      else if cv_status c = CBusy then Inl (ValueError ''conversation_busy'')
      else if mode = Continue \<and> cv_purpose c \<notin> set continuable_purposes
      then Inl (ValueError ''Conversation purpose requires fresh mode'')
      else if mode = Continue \<and> cv_head_turn_id c = None
      then Inl (ValueError ''Conversation has no verified head to continue'')
      else Inr (c\<lparr>cv_status := CBusy, cv_turn_count := cv_turn_count c + 1, cv_updated_at := t,
        cv_version := cv_version c + 1\<rparr>))"

definition finish_turn :: "uuid \<Rightarrow> string option \<Rightarrow> datetime \<Rightarrow> conversation \<Rightarrow> conversation" where
  [op_defs]: "finish_turn turn locator t c =
     c\<lparr>cv_status := CReady, cv_external_locator := str_or locator (cv_external_locator c),
       cv_head_turn_id := Some turn, cv_last_used_at := Some t, cv_updated_at := t,
       cv_version := cv_version c + 1\<rparr>"

definition mark_problem :: "bool \<Rightarrow> datetime \<Rightarrow> conversation \<Rightarrow> conversation" where
  [op_defs]: "mark_problem uncertain t c =
     c\<lparr>cv_status := (if uncertain then CNeedsReview else CUnavailable), cv_updated_at := t,
       cv_version := cv_version c + 1\<rparr>"

definition archive_conversation :: "datetime \<Rightarrow> conversation \<Rightarrow> conversation result" where
  [op_defs]: "archive_conversation t c =
     (if cv_status c = CBusy then Inl (ValueError ''conversation_busy'')
      else Inr (c\<lparr>cv_status := CArchived, cv_updated_at := t, cv_version := cv_version c + 1\<rparr>))"

subsection \<open>The turn\<close>

record turn =
  tn_conversation_id :: uuid
  tn_sequence :: int
  tn_model_run_id :: uuid
  tn_input_sha256 :: string
  tn_idempotency_key :: string
  tn_output_blob_reference :: "string option"
  tn_output_sha256 :: "string option"
  tn_status :: turn_status
  tn_external_turn_id :: "string option"
  tn_error_code :: "string option"
  tn_error_message :: "string option"
  tn_error_details :: "details option"
  tn_correlation_id :: string
  tn_id :: uuid
  tn_finished_at :: "datetime option"

definition turn_post_init :: "turn \<Rightarrow> turn result" where
  "turn_post_init n = validated
     [(tn_sequence n < 1 \<or> tn_idempotency_key n = [] \<or> tn_correlation_id n = [],
        ValueError ''Turn sequence and idempotency key are required''),
      (\<not> is_sha256 (tn_input_sha256 n)
         \<or> (case tn_output_sha256 n of None \<Rightarrow> False | Some h \<Rightarrow> \<not> is_sha256 h),
        ValueError ''Turn hashes must be lowercase SHA-256'')] n"

definition turn_succeed :: "string \<Rightarrow> string \<Rightarrow> string option \<Rightarrow> datetime \<Rightarrow> turn \<Rightarrow> turn result" where
  [op_defs]: "turn_succeed blob sha external t n =
     (if tn_status n \<noteq> TRunning then Inl (ValueError ''Conversation turn is already terminal'')
      else Inr (n\<lparr>tn_output_blob_reference := Some blob, tn_output_sha256 := Some sha,
        tn_external_turn_id := external, tn_status := TSucceeded, tn_finished_at := Some t\<rparr>))"

definition turn_recoverable :: "turn \<Rightarrow> bool" where
  "turn_recoverable n = (tn_status n \<in> {TRunning, TNeedsReview}
     \<or> (tn_status n = TFailed \<and> tn_error_code n = Some ''operator_abandoned''))"

definition turn_adopt_recovery_output ::
  "string \<Rightarrow> string \<Rightarrow> string option \<Rightarrow> details \<Rightarrow> datetime \<Rightarrow> turn \<Rightarrow> turn result" where
  [op_defs]: "turn_adopt_recovery_output blob sha external audit t n =
     (if \<not> turn_recoverable n then Inl (ValueError ''Conversation turn is not recoverable'')
      else Inr (n\<lparr>tn_output_blob_reference := Some blob, tn_output_sha256 := Some sha,
        tn_external_turn_id := external, tn_status := TSucceeded, tn_error_code := None,
        tn_error_message := None,
        tn_error_details := (if audit = [] then None else Some [(''recovery'', JObj audit)]),
        tn_finished_at := Some t\<rparr>))"

definition turn_abandon :: "string \<Rightarrow> string \<Rightarrow> datetime \<Rightarrow> turn \<Rightarrow> turn result" where
  [op_defs]: "turn_abandon actor reason t n =
     (if tn_status n \<noteq> TNeedsReview
      then Inl (ValueError ''Only a conversation turn needing review can be abandoned'')
      else Inr (n\<lparr>tn_status := TFailed, tn_error_code := Some ''operator_abandoned'',
        tn_error_message := Some abandoned_message,
        tn_error_details := Some [(''operator_abandonment'',
          abandonment actor reason t (''external_turn_id'', JNull))],
        tn_finished_at := Some t\<rparr>))"

text \<open>A failure reported on a turn that is already closed is ignored.\<close>

definition turn_fail :: "string \<Rightarrow> string \<Rightarrow> bool \<Rightarrow> bool \<Rightarrow> details option \<Rightarrow> datetime \<Rightarrow> turn \<Rightarrow> turn result" where
  [op_defs]: "turn_fail code message uncertain blocked d t n =
     (if tn_status n \<noteq> TRunning then Inr n
      else Inr (n\<lparr>tn_status := (if blocked then TBlocked else if uncertain then TNeedsReview else TFailed),
        tn_error_code := Some (take 64 code), tn_error_message := Some (public_text message),
        tn_error_details := d, tn_finished_at := Some t\<rparr>))"

definition turn_mark_orphaned :: "datetime \<Rightarrow> turn \<Rightarrow> turn result" where
  [op_defs]: "turn_mark_orphaned t n =
     (if tn_status n \<notin> {TRunning, TNeedsReview}
      then Inl (ValueError ''Only an unresolved conversation turn can be marked orphaned'')
      else Inr (n\<lparr>tn_status := TNeedsReview, tn_error_code := Some ''orphaned_running_turn'',
        tn_error_message := Some (''Le job propri'' @ e_acute @ ''taire est termin'' @ e_acute
           @ '' sans sortie Bridge persist'' @ e_acute @ ''e.''),
        tn_error_details := Some (put ''orphaned_running_turn'' (JBool True) (details_or_empty (tn_error_details n))),
        tn_finished_at := Some t\<rparr>))"

definition turn_mark_pre_submission_retryable :: "uuid \<Rightarrow> int \<Rightarrow> datetime \<Rightarrow> turn \<Rightarrow> turn result" where
  [op_defs]: "turn_mark_pre_submission_retryable run attempt t n =
     (if tn_status n \<notin> {TRunning, TNeedsReview}
      then Inl (ValueError ''Only an unresolved conversation turn can be sealed pre-submission'')
      else if attempt < 0 then Inl (ValueError ''Submission attempt cannot be negative'')
      else Inr (n\<lparr>tn_status := TFailed, tn_error_code := Some no_handoff_code,
        tn_error_message := Some (''Le ModelRun confirme que le fournisseur n'' @ [CHR 0x27] @ ''a pas re''
           @ [CHR 0xE7] @ ''u ce tour.''),
        tn_error_details := Some [(''pre_submission_proof'', JObj [(''model_run_id'', JUuid run),
          (''submission_attempt'', JInt attempt), (''submission_state'', JStr ''not_submitted'')])],
        tn_finished_at := Some t\<rparr>))"

definition turn_seal_no_handoff :: "uuid \<Rightarrow> uuid \<Rightarrow> datetime \<Rightarrow> turn \<Rightarrow> turn result" where
  [op_defs]: "turn_seal_no_handoff run claim t n =
     (if tn_status n \<noteq> TNeedsReview then Inl (ValueError ''Only an unresolved conversation turn can be sealed'')
      else Inr (n\<lparr>tn_status := TFailed, tn_error_code := Some no_handoff_code,
        tn_error_message := Some (''Une preuve serveur confirme que Bridge n'' @ [CHR 0x27] @ ''a pas re''
           @ [CHR 0xE7] @ ''u ce tour.''),
        tn_error_details := Some [(''pre_submission_proof'', JObj [(''source'', JStr ''external_effect_claim''),
          (''claim_id'', JUuid claim), (''model_run_id'', JUuid run)])],
        tn_finished_at := Some t\<rparr>))"

subsection \<open>The turn as a machine\<close>

datatype turn_op =
    TurnSucceed string string "string option" datetime
  | TurnAdopt string string "string option" details datetime
  | TurnAbandon string string datetime
  | TurnFail string string bool bool "details option" datetime
  | TurnOrphan datetime
  | TurnRetryable uuid int datetime
  | TurnSeal uuid uuid datetime

fun turn_exec :: "turn_op \<Rightarrow> turn \<Rightarrow> turn result" where
  "turn_exec (TurnSucceed b h x t) n = turn_succeed b h x t n"
| "turn_exec (TurnAdopt b h x a t) n = turn_adopt_recovery_output b h x a t n"
| "turn_exec (TurnAbandon a r t) n = turn_abandon a r t n"
| "turn_exec (TurnFail c m u b d t) n = turn_fail c m u b d t n"
| "turn_exec (TurnOrphan t) n = turn_mark_orphaned t n"
| "turn_exec (TurnRetryable r k t) n = turn_mark_pre_submission_retryable r k t n"
| "turn_exec (TurnSeal r c t) n = turn_seal_no_handoff r c t n"

text \<open>
  A turn no method changes any more: answered, blocked, or failed for a reason other than the
  operator's abandonment.
\<close>

definition turn_closed :: "turn \<Rightarrow> bool" where
  "turn_closed n = (tn_status n \<in> {TSucceeded, TBlocked} \<or> (tn_status n = TFailed \<and> \<not> turn_recoverable n))"

lemma closed_kept: "turn_closed n \<Longrightarrow> \<not> False \<Longrightarrow> turn_exec op n = Inr n' \<Longrightarrow> turn_closed n' \<and> n' = n"
  by (cases op) (auto simp: op_defs turn_closed_def turn_recoverable_def split: if_splits)

interpretation turn_machine: absorbing_machine turn_exec turn_closed "\<lambda>n. n" "\<lambda>_. False"
  by unfold_locales (drule (2) closed_kept, simp)

subsection \<open>Service transactions\<close>

text \<open>
  \<open>adopt_recovery_output\<close> of the gateway: the run adopts the archived bytes, then the turn that
  pre-persisted the run is closed from them and its conversation finished.
\<close>

definition gateway_adopt ::
  "adoption \<Rightarrow> int \<Rightarrow> string option \<Rightarrow> datetime \<Rightarrow> model_run \<times> turn \<times> conversation \<Rightarrow>
   (model_run \<times> turn \<times> conversation) result" where
  "gateway_adopt a elapsed external t w = (case w of (r, n, c) \<Rightarrow>
     and_then (adopt_recovery a elapsed t r) (\<lambda>r'.
       if tn_status n \<in> {TRunning, TNeedsReview} then
         and_then (turn_adopt_recovery_output (ad_output_reference a) (ad_output_sha256 a) external
             (case ad_reason a of None \<Rightarrow> []
              | Some x \<Rightarrow> [(''provenance'', JStr (ad_provenance a)), (''actor_id'', JStr (ad_actor_id a)),
                  (''reason'', JStr x), (''sha256'', JStr (ad_output_sha256 a))]) t n) (\<lambda>n'.
           Inr (r', n', finish_turn (tn_id n) (cv_external_locator c) t c))
       else Inr (r', n, c)))"

text \<open>Archiving is idempotent on an archived conversation and refused while a question is running.\<close>

definition service_archive :: "datetime \<Rightarrow> conversation \<Rightarrow> conversation result" where
  "service_archive t c = (if cv_status c = CArchived then Inr c else archive_conversation t c)"

subsection \<open>Properties\<close>

definition demo_turn :: turn where
  "demo_turn = \<lparr>tn_conversation_id = 5, tn_sequence = 1, tn_model_run_id = 1,
     tn_input_sha256 = replicate 64 CHR ''a'', tn_idempotency_key = ''k'', tn_output_blob_reference = None,
     tn_output_sha256 = None, tn_status = TRunning, tn_external_turn_id = None, tn_error_code = None,
     tn_error_message = None, tn_error_details = None, tn_correlation_id = ''-'', tn_id = 6, tn_finished_at = None\<rparr>"

definition demo_conversation :: conversation where
  "demo_conversation = \<lparr>cv_purpose = PSubjectResearch, cv_title = ''q'', cv_status = CBusy,
     cv_external_locator = None, cv_head_turn_id = None, cv_turn_count = 1, cv_id = 5, cv_updated_at = utc 0,
     cv_last_used_at = None, cv_version = 2\<rparr>"

text \<open>
  C33. A closed turn is frozen: once a turn has its answer, is blocked, or has failed for a reason other
  than the operator's abandonment, no sequence of method calls changes anything of it; a late
  failure report is absorbed silently.
\<close>

theorem closed_turn_frozen:
  assumes "turn_closed n"
  shows "drive turn_exec ops n = n"
  using turn_machine.drive_absorb [OF assms, of ops] by (simp add: list_all_iff)

theorem closed_turn_frozen_witness:
  "tn_output_sha256 (drive turn_exec [TurnSucceed ''b'' ''h'' None (utc 1), TurnFail ''c'' ''m'' True False None (utc 2),
     TurnAdopt ''z'' ''w'' None [] (utc 3)] demo_turn) = Some ''h''"
proof -
  let ?n = "demo_turn\<lparr>tn_output_blob_reference := Some ''b'', tn_output_sha256 := Some ''h'',
     tn_external_turn_id := None, tn_status := TSucceeded, tn_finished_at := Some (utc 1)\<rparr>"
  have "turn_exec (TurnSucceed ''b'' ''h'' None (utc 1)) demo_turn = Inr ?n"
    by (simp add: turn_succeed_def demo_turn_def)
  moreover have "drive turn_exec [TurnFail ''c'' ''m'' True False None (utc 2), TurnAdopt ''z'' ''w'' None [] (utc 3)] ?n = ?n"
    by (rule closed_turn_frozen) (simp add: turn_closed_def)
  ultimately show ?thesis by (simp only: drive.simps step_def sum.case) simp
qed

text \<open>
  Adopting a late answer reopens an archived conversation: when an uncertain turn leaves the
  conversation for review, the conversation is archived and the answer of that turn is adopted
  afterwards, the conversation is ready again and accepts a new turn.
\<close>

theorem adoption_reopens_archived:
  assumes "service_archive t c = Inr c1" and "gateway_adopt a e x u (r, n, c1) = Inr (r', n', c2)"
    and "tn_status n = TNeedsReview"
  shows "cv_status c1 = CArchived \<and> start_turn Fresh v c1 = Inl (ValueError ''Conversation is archived'')
    \<and> cv_status c2 = CReady \<and> cv_head_turn_id c2 = Some (tn_id n)
    \<and> (\<exists>c3. start_turn Fresh v c2 = Inr c3 \<and> cv_status c3 = CBusy)"
proof -
  have "cv_status c1 = CArchived"
    using assms(1) by (auto simp: service_archive_def archive_conversation_def split: if_splits)
  moreover have "c2 = finish_turn (tn_id n) (cv_external_locator c1) u c1"
    using assms(2,3) by (auto simp: gateway_adopt_def and_then_Inr)
  ultimately show ?thesis by (simp add: finish_turn_def start_turn_def)
qed

theorem adoption_reopens_archived_witness:
  "\<exists>r' n' c2. gateway_adopt \<lparr>ad_output_reference = ''b'', ad_output_sha256 = ''h'', ad_output_chars = 1,
      ad_provenance = ''visible_recovery'', ad_actor_id = ''me'', ad_reason = None, ad_bridge_response_id = None,
      ad_source_model_run_id = None\<rparr> 0 None (utc 9)
     (drive model_exec [MBegin (Some ''q'') (utc 1), MReview ''x'' ''y'' None None (utc 2)] demo_model_run,
      drive turn_exec [TurnFail ''c'' ''m'' True False None (utc 2)] demo_turn,
      case service_archive (utc 5) (mark_problem True (utc 2) demo_conversation) of Inr c \<Rightarrow> c | Inl e \<Rightarrow> demo_conversation)
     = Inr (r', n', c2) \<and> cv_status c2 = CReady"
proof -
  let ?a = "\<lparr>ad_output_reference = ''b'', ad_output_sha256 = ''h'', ad_output_chars = 1,
      ad_provenance = ''visible_recovery'', ad_actor_id = ''me'', ad_reason = None, ad_bridge_response_id = None,
      ad_source_model_run_id = None\<rparr>"
  let ?r = "drive model_exec [MBegin (Some ''q'') (utc 1), MReview ''x'' ''y'' None None (utc 2)] demo_model_run"
  let ?n = "drive turn_exec [TurnFail ''c'' ''m'' True False None (utc 2)] demo_turn"
  obtain c1 where c1: "service_archive (utc 5) (mark_problem True (utc 2) demo_conversation) = Inr c1"
    by (simp add: service_archive_def archive_conversation_def mark_problem_def)
  have "tn_status ?n = TNeedsReview" "mr_status ?r = MNeedsReview \<and> mr_response_id ?r = None" by code_simp+
  moreover from this obtain r' n' c2 where g: "gateway_adopt ?a 0 None (utc 9) (?r, ?n, c1) = Inr (r', n', c2)"
    by (simp add: gateway_adopt_def adopt_recovery_def turn_adopt_recovery_output_def turn_recoverable_def truthy_def
        del: drive.simps)
  ultimately have "cv_status c2 = CReady" using adoption_reopens_archived [OF c1] by blast
  with g c1 show ?thesis by auto
qed

end
