(* ===== verification/InvestigationBudget.thy ===== *)
theory InvestigationBudget
  imports Machines
begin

text \<open>
  The multidimensional budget of an investigation, \<open>backend/src/cti_app/domain/investigation.py\<close>:
  caps per dimension and one reservation per operation key, reserved, then committed or released.
  A mapping of amounts is the list of its items in insertion order; two mappings are compared as
  Python compares dictionaries, item by item and without the order.
\<close>

subsection \<open>State\<close>

datatype budget_dimension = BridgeTurns | VtUnits | ShodanCredits | Downloads | ToolSeconds
  | ContextTokens | ContextBytes

definition budget_dimensions :: "budget_dimension list" where
  "budget_dimensions = [BridgeTurns, VtUnits, ShodanCredits, Downloads, ToolSeconds, ContextTokens, ContextBytes]"

lemma set_budget_dimensions [simp]: "d \<in> set budget_dimensions"
  by (cases d) (simp_all add: budget_dimensions_def)

fun dimension_value :: "budget_dimension \<Rightarrow> string" where
  "dimension_value BridgeTurns = ''bridge_turns''"
| "dimension_value VtUnits = ''vt_units''"
| "dimension_value ShodanCredits = ''shodan_credits''"
| "dimension_value Downloads = ''downloads''"
| "dimension_value ToolSeconds = ''tool_seconds''"
| "dimension_value ContextTokens = ''context_tokens''"
| "dimension_value ContextBytes = ''context_bytes''"

type_synonym amounts = "(budget_dimension \<times> int) list"

definition amount :: "amounts \<Rightarrow> budget_dimension \<Rightarrow> int" where
  "amount a d = (case map_of a d of None \<Rightarrow> 0 | Some n \<Rightarrow> n)"

definition same_amounts :: "amounts \<Rightarrow> amounts \<Rightarrow> bool" where
  "same_amounts a b = list_all (\<lambda>d. map_of a d = map_of b d) budget_dimensions"

definition budget_values :: "amounts \<Rightarrow> amounts result" where
  "budget_values a = (if list_ex (\<lambda>(_, n). n < 0) a
     then Inl (ValueError ''Budget amounts must be non-negative integers'') else Inr a)"

datatype reservation_status = Reserved | Committed | Released

record reservation =
  br_operation_key :: string
  br_amounts :: amounts
  br_status :: reservation_status
  br_committed_amounts :: amounts

text \<open>Tool time is recorded and may run over; no other dimension may.\<close>

definition exceeds :: "amounts \<Rightarrow> amounts \<Rightarrow> bool" where
  "exceeds actual reserved = list_ex (\<lambda>(d, n). d \<noteq> ToolSeconds \<and> amount reserved d < n) actual"

definition reservation_post_init :: "reservation \<Rightarrow> reservation result" where
  "reservation_post_init r =
     (if blank (br_operation_key r) then Inl (ValueError ''operation_key must not be empty'')
      else and_then (budget_values (br_amounts r)) (\<lambda>_.
      and_then (budget_values (br_committed_amounts r)) (\<lambda>_.
        if exceeds (br_committed_amounts r) (br_amounts r)
        then Inl (ValueError ''Committed budget cannot exceed its reservation'') else Inr r)))"

record inv_budget =
  ib_limits :: amounts
  ib_reservations :: "reservation list"

definition new_budget :: "amounts \<Rightarrow> inv_budget result" where
  "new_budget limits = and_then (budget_values limits) (\<lambda>l. Inr \<lparr>ib_limits = l, ib_reservations = []\<rparr>)"

definition reservation_of :: "inv_budget \<Rightarrow> string \<Rightarrow> reservation option" where
  "reservation_of b k = find (\<lambda>r. br_operation_key r = k) (ib_reservations b)"

text \<open>\<open>self._reservations[key] = reservation\<close>: in place, or at the end.\<close>

definition put_reservation :: "reservation \<Rightarrow> inv_budget \<Rightarrow> inv_budget" where
  "put_reservation r b =
     (if reservation_of b (br_operation_key r) = None
      then b\<lparr>ib_reservations := ib_reservations b @ [r]\<rparr>
      else b\<lparr>ib_reservations := map (\<lambda>x. if br_operation_key x = br_operation_key r then r else x) (ib_reservations b)\<rparr>)"

definition consumed :: "inv_budget \<Rightarrow> budget_dimension \<Rightarrow> int" where
  "consumed b d = sum_list (map (\<lambda>r. amount (br_committed_amounts r) d) (ib_reservations b))"

definition reserved :: "inv_budget \<Rightarrow> budget_dimension \<Rightarrow> int" where
  "reserved b d = sum_list (map (\<lambda>r. if br_status r = Reserved then amount (br_amounts r) d else 0) (ib_reservations b))"

definition remaining :: "inv_budget \<Rightarrow> budget_dimension \<Rightarrow> int option" where
  "remaining b d = map_option (\<lambda>limit. max 0 (limit - consumed b d - reserved b d)) (map_of (ib_limits b) d)"

definition uncapped :: "budget_dimension list" where
  "uncapped = [ContextBytes, ToolSeconds]"

subsection \<open>Operations\<close>

definition budget_exceeded :: "budget_dimension \<Rightarrow> error" where
  "budget_exceeded d = BudgetExceeded (dimension_value d)"

definition reserve_check :: "inv_budget \<Rightarrow> amounts \<Rightarrow> (bool \<times> error) list" where
  "reserve_check b requested = map (\<lambda>(d, n).
     (d \<notin> set uncapped \<and> (case map_of (ib_limits b) d of None \<Rightarrow> False
        | Some limit \<Rightarrow> limit < consumed b d + reserved b d + n), budget_exceeded d)) requested"

definition reserve :: "string \<Rightarrow> amounts \<Rightarrow> inv_budget \<Rightarrow> (reservation \<times> inv_budget) result" where
  "reserve key a b = and_then (budget_values a) (\<lambda>requested.
     case reservation_of b key of
       Some existing \<Rightarrow>
         if \<not> same_amounts (br_amounts existing) requested
         then Inl (ValueError ''An operation key cannot be reused with a different reservation'')
         else Inr (existing, b)
     | None \<Rightarrow> and_then (validated (reserve_check b requested) ()) (\<lambda>_.
         and_then (reservation_post_init \<lparr>br_operation_key = key, br_amounts = requested,
             br_status = Reserved, br_committed_amounts = []\<rparr>) (\<lambda>r.
           Inr (r, put_reservation r b))))"

text \<open>The restoration of a canonical record: no cap is checked.\<close>

definition same_reservation :: "reservation \<Rightarrow> reservation \<Rightarrow> bool" where
  "same_reservation x y = (br_operation_key x = br_operation_key y \<and> same_amounts (br_amounts x) (br_amounts y)
     \<and> br_status x = br_status y \<and> same_amounts (br_committed_amounts x) (br_committed_amounts y))"

definition restore_reservation :: "reservation \<Rightarrow> inv_budget \<Rightarrow> (reservation \<times> inv_budget) result" where
  "restore_reservation r b = (case reservation_of b (br_operation_key r) of
     None \<Rightarrow> Inr (r, put_reservation r b)
   | Some existing \<Rightarrow>
       if same_reservation existing r then Inr (existing, b)
       else if br_status existing \<noteq> Reserved \<or> br_status r \<noteq> Reserved
       then Inl (ValueError ''Only a reserved operation can be restored'')
       else if list_ex (\<lambda>(d, n). map_of (br_amounts r) d \<noteq> Some n) (br_amounts existing)
       then Inl (ValueError ''A restored reservation cannot change existing amounts'')
       else Inr (r, put_reservation r b))"

definition adjust_check :: "inv_budget \<Rightarrow> reservation \<Rightarrow> amounts \<Rightarrow> (bool \<times> error) list" where
  "adjust_check b existing requested = map (\<lambda>(d, limit).
     (d \<notin> set uncapped \<and>
        limit < consumed b d + (reserved b d - amount (br_amounts existing) d) + amount requested d,
      budget_exceeded d)) (ib_limits b)"

definition adjust_reservation :: "string \<Rightarrow> amounts \<Rightarrow> inv_budget \<Rightarrow> (reservation \<times> inv_budget) result" where
  "adjust_reservation key a b = (case reservation_of b key of
     None \<Rightarrow> Inl (KeyErr key)
   | Some existing \<Rightarrow>
       if br_status existing \<noteq> Reserved then Inl (ValueError ''Only an active reservation can be adjusted'')
       else and_then (budget_values a) (\<lambda>requested.
         and_then (validated (adjust_check b existing requested) ()) (\<lambda>_.
         and_then (reservation_post_init (existing\<lparr>br_amounts := requested\<rparr>)) (\<lambda>r.
           Inr (r, put_reservation r b)))))"

definition commit :: "string \<Rightarrow> amounts option \<Rightarrow> inv_budget \<Rightarrow> (reservation \<times> inv_budget) result" where
  "commit key c b = (case reservation_of b key of
     None \<Rightarrow> Inl (KeyErr key)
   | Some existing \<Rightarrow>
       if br_status existing = Committed then Inr (existing, b)
       else if br_status existing = Released
       then Inl (ValueError ''A released reservation cannot be committed'')
       else and_then (budget_values (case c of None \<Rightarrow> br_amounts existing | Some x \<Rightarrow> x)) (\<lambda>actual.
         if exceeds actual (br_amounts existing)
         then Inl (ValueError ''Consumed budget cannot exceed the reservation'')
         else and_then (reservation_post_init
             (existing\<lparr>br_status := Committed, br_committed_amounts := actual\<rparr>)) (\<lambda>r.
           Inr (r, put_reservation r b))))"

definition release :: "string \<Rightarrow> inv_budget \<Rightarrow> (reservation option \<times> inv_budget) result" where
  "release key b = (case reservation_of b key of
     None \<Rightarrow> Inr (None, b)
   | Some existing \<Rightarrow>
       if br_status existing \<noteq> Reserved then Inr (Some existing, b)
       else and_then (reservation_post_init (existing\<lparr>br_status := Released\<rparr>)) (\<lambda>r.
         Inr (Some r, put_reservation r b)))"

definition release_confirmed_non_submission :: "string \<Rightarrow> inv_budget \<Rightarrow> (reservation option \<times> inv_budget) result" where
  "release_confirmed_non_submission key b = (case reservation_of b key of
     None \<Rightarrow> Inr (None, b)
   | Some existing \<Rightarrow>
       if br_status existing = Released then Inr (Some existing, b)
       else and_then (reservation_post_init
           (existing\<lparr>br_status := Released, br_committed_amounts := []\<rparr>)) (\<lambda>r.
         Inr (Some r, put_reservation r b)))"

subsection \<open>The budget as a machine\<close>

datatype budget_op =
    BudgetReserve string amounts
  | BudgetAdjust string amounts
  | BudgetCommit string "amounts option"
  | BudgetRelease string
  | BudgetReleaseUnsent string

definition budget_of :: "('r \<times> inv_budget) result \<Rightarrow> inv_budget result" where
  "budget_of r = and_then r (\<lambda>(_, b). Inr b)"

lemma budget_of_Inr: "budget_of r = Inr b \<longleftrightarrow> (\<exists>x. r = Inr (x, b))"
  by (auto simp: budget_of_def and_then_Inr)

fun budget_exec :: "budget_op \<Rightarrow> inv_budget \<Rightarrow> inv_budget result" where
  "budget_exec (BudgetReserve k a) b = budget_of (reserve k a b)"
| "budget_exec (BudgetAdjust k a) b = budget_of (adjust_reservation k a b)"
| "budget_exec (BudgetCommit k c) b = budget_of (commit k c b)"
| "budget_exec (BudgetRelease k) b = budget_of (release k b)"
| "budget_exec (BudgetReleaseUnsent k) b = budget_of (release_confirmed_non_submission k b)"

text \<open>What a reservation charges against a dimension, and the total charged.\<close>

definition charge :: "budget_dimension \<Rightarrow> reservation \<Rightarrow> int" where
  "charge d r = amount (br_committed_amounts r) d + (if br_status r = Reserved then amount (br_amounts r) d else 0)"

definition charged :: "inv_budget \<Rightarrow> budget_dimension \<Rightarrow> int" where
  "charged b d = sum_list (map (charge d) (ib_reservations b))"

lemma charged_split: "charged b d = consumed b d + reserved b d"
  by (simp add: charged_def consumed_def reserved_def charge_def [abs_def] sum_list_addf)

definition keys_unique :: "inv_budget \<Rightarrow> bool" where
  "keys_unique b = distinct (map br_operation_key (ib_reservations b))"

definition natural :: "amounts \<Rightarrow> bool" where
  "natural a = (\<forall>(d, n) \<in> set a. 0 \<le> n)"

lemma budget_values_Inr: "budget_values a = Inr x \<longleftrightarrow> x = a \<and> natural a"
  by (force simp: budget_values_def natural_def list_ex_iff not_less)

lemma amount_natural: "natural a \<Longrightarrow> 0 \<le> amount a d"
  by (auto simp: amount_def natural_def split: option.splits dest!: map_of_SomeD)

lemma not_exceeds: "\<not> exceeds a r \<Longrightarrow> natural r \<Longrightarrow> d \<noteq> ToolSeconds \<Longrightarrow> amount a d \<le> amount r d"
  using amount_natural [of r d]
  by (auto simp: exceeds_def amount_def [of a] list_ex_iff split: option.splits dest!: map_of_SomeD)

definition budget_inv :: "inv_budget \<Rightarrow> bool" where
  "budget_inv b \<longleftrightarrow> keys_unique b
     \<and> (\<forall>r \<in> set (ib_reservations b). natural (br_amounts r) \<and> natural (br_committed_amounts r))
     \<and> (\<forall>d limit. d \<notin> set uncapped \<longrightarrow> map_of (ib_limits b) d = Some limit \<longrightarrow> charged b d \<le> limit)"

lemma new_budget_inv: "new_budget limits = Inr b \<Longrightarrow> budget_inv b"
  by (auto simp: new_budget_def and_then_Inr budget_values_Inr budget_inv_def keys_unique_def charged_def
      natural_def dest!: map_of_SomeD)

lemma reservation_of_Some: "reservation_of b k = Some r \<Longrightarrow> r \<in> set (ib_reservations b) \<and> br_operation_key r = k"
  unfolding reservation_of_def by (drule find_member) simp

lemma reservation_of_None: "reservation_of b k = None \<longleftrightarrow> k \<notin> br_operation_key ` set (ib_reservations b)"
  by (auto simp: reservation_of_def find_None_iff)

lemma sum_replace:
  fixes f :: "'a \<Rightarrow> int"
  assumes "distinct (map g xs)" and "x \<in> set xs" and "g x = k"
  shows "sum_list (map f (map (\<lambda>y. if g y = k then z else y) xs)) = sum_list (map f xs) - f x + f z"
  using assms
proof (induction xs)
  case (Cons y ys)
  show ?case
  proof (cases "y = x")
    case True
    have "k \<notin> g ` set ys" using Cons.prems(1,3) True by auto
    then have "map (\<lambda>y. if g y = k then z else y) ys = ys"
      by (intro map_idI) auto
    with True Cons.prems show ?thesis by simp
  next
    case False
    then have "g y \<noteq> k" using Cons.prems by auto
    with False Cons show ?thesis by simp
  qed
qed simp

text \<open>Storing a reservation moves every total by the difference of the two records.\<close>

lemma put_reservation_sum:
  fixes f :: "reservation \<Rightarrow> int"
  assumes "keys_unique b"
  shows "sum_list (map f (ib_reservations (put_reservation r b))) = sum_list (map f (ib_reservations b))
    - (case reservation_of b (br_operation_key r) of None \<Rightarrow> 0 | Some x \<Rightarrow> f x) + f r"
proof (cases "reservation_of b (br_operation_key r)")
  case (Some x)
  from reservation_of_Some [OF Some] assms
  have "sum_list (map f (map (\<lambda>y. if br_operation_key y = br_operation_key r then r else y) (ib_reservations b)))
    = sum_list (map f (ib_reservations b)) - f x + f r"
    by (intro sum_replace) (auto simp: keys_unique_def)
  with Some show ?thesis by (simp add: put_reservation_def)
qed (simp add: put_reservation_def)

lemmas put_reservation_charged = put_reservation_sum [of _ "charge d" for d, folded charged_def]

lemma find_put_reservation:
  "g z = k \<Longrightarrow> k \<in> g ` set xs \<Longrightarrow> find (\<lambda>x. g x = k) (map (\<lambda>y. if g y = k then z else y) xs) = Some z"
  by (induction xs) auto

lemma put_reservation_get: "reservation_of (put_reservation r b) (br_operation_key r) = Some r"
proof (cases "reservation_of b (br_operation_key r)")
  case None
  then show ?thesis by (simp add: put_reservation_def) (simp add: reservation_of_def find_append)
next
  case (Some x)
  then have "br_operation_key r \<in> br_operation_key ` set (ib_reservations b)"
    using reservation_of_None [of b "br_operation_key r"] by auto
  with Some find_put_reservation [of br_operation_key r "br_operation_key r" "ib_reservations b"]
  show ?thesis by (simp add: put_reservation_def reservation_of_def [of "_\<lparr>ib_reservations := _\<rparr>"])
qed

lemma put_reservation_keys: "keys_unique b \<Longrightarrow> keys_unique (put_reservation r b)"
proof -
  have "map br_operation_key (map (\<lambda>y. if br_operation_key y = br_operation_key r then r else y) (ib_reservations b))
    = map br_operation_key (ib_reservations b)" by simp
  moreover assume "keys_unique b"
  ultimately show ?thesis
    by (auto simp: keys_unique_def put_reservation_def reservation_of_None simp del: map_map)
qed

lemma put_reservation_set: "set (ib_reservations (put_reservation r b)) \<subseteq> insert r (set (ib_reservations b))"
  by (auto simp: put_reservation_def)

lemma put_reservation_limits [simp]: "ib_limits (put_reservation r b) = ib_limits b"
  by (simp add: put_reservation_def)

lemma put_reservation_inv:
  assumes "budget_inv b" and "natural (br_amounts r)" and "natural (br_committed_amounts r)"
    and "\<And>d limit. d \<notin> set uncapped \<Longrightarrow> map_of (ib_limits b) d = Some limit \<Longrightarrow>
      charged b d - (case reservation_of b (br_operation_key r) of None \<Rightarrow> 0 | Some x \<Rightarrow> charge d x) + charge d r \<le> limit"
  shows "budget_inv (put_reservation r b)"
  using assms put_reservation_keys [of b r] put_reservation_set [of r b] put_reservation_charged [of b r]
  unfolding budget_inv_def by (auto simp: subset_iff)

lemma post_init_Inr: "reservation_post_init r = Inr x \<longleftrightarrow> x = r \<and> \<not> blank (br_operation_key r)
    \<and> natural (br_amounts r) \<and> natural (br_committed_amounts r) \<and> \<not> exceeds (br_committed_amounts r) (br_amounts r)"
  by (auto simp: reservation_post_init_def and_then_Inr budget_values_Inr)

text \<open>A stored record that charges no more than the one it replaces keeps the caps.\<close>

lemma lower_charge_inv:
  assumes "budget_inv b" and "reservation_of b (br_operation_key r) = Some x"
    and "natural (br_amounts r)" and "natural (br_committed_amounts r)"
    and "\<And>d. d \<notin> set uncapped \<Longrightarrow> charge d r \<le> charge d x"
  shows "budget_inv (put_reservation r b)"
proof (rule put_reservation_inv [OF assms(1,3,4)])
  fix d limit
  assume d: "d \<notin> set uncapped" and l: "map_of (ib_limits b) d = Some limit"
  have "charged b d \<le> limit" using assms(1) d l by (auto simp: budget_inv_def)
  with assms(5) [OF d] assms(2)
  show "charged b d - (case reservation_of b (br_operation_key r) of None \<Rightarrow> 0 | Some x \<Rightarrow> charge d x) + charge d r \<le> limit"
    by simp
qed


lemma reserve_inv: "budget_inv b \<Longrightarrow> reserve k a b = Inr (r, b') \<Longrightarrow> budget_inv b'"
proof (cases "reservation_of b k")
  case None
  assume inv: "budget_inv b" and "reserve k a b = Inr (r, b')"
  with None have a: "natural a" and check: "\<forall>c \<in> set (reserve_check b a). \<not> fst c"
    and r: "r = \<lparr>br_operation_key = k, br_amounts = a, br_status = Reserved, br_committed_amounts = []\<rparr>"
    and b': "b' = put_reservation r b"
    by (auto simp: reserve_def and_then_Inr budget_values_Inr validated_Inr post_init_Inr)
  show "budget_inv b'"
    unfolding b'
  proof (rule put_reservation_inv [OF inv])
    fix d limit
    assume d: "d \<notin> set uncapped" "map_of (ib_limits b) d = Some limit"
    then have old: "charged b d \<le> limit" using inv by (auto simp: budget_inv_def)
    have "charged b d + amount a d \<le> limit"
    proof (cases "map_of a d")
      case None
      with old show ?thesis by (simp add: amount_def)
    next
      case (Some n)
      then have "(d, n) \<in> set a" by (rule map_of_SomeD)
      with check d Some show ?thesis
        by (fastforce simp: reserve_check_def charged_split amount_def)
    qed
    with r None show "charged b d - (case reservation_of b (br_operation_key r) of None \<Rightarrow> 0 | Some x \<Rightarrow> charge d x)
        + charge d r \<le> limit" by (simp add: charge_def amount_def)
  qed (use a r in \<open>auto simp: natural_def\<close>)
next
  case (Some x)
  assume "budget_inv b" and "reserve k a b = Inr (r, b')"
  with Some show "budget_inv b'" by (auto simp: reserve_def and_then_Inr split: if_splits)
qed

lemma adjust_inv:
  assumes inv: "budget_inv b" and adj: "adjust_reservation k a b = Inr (r, b')"
  shows "budget_inv b'"
proof -
  obtain x where x: "reservation_of b k = Some x" "br_status x = Reserved"
    and a: "natural a" and check: "\<forall>c \<in> set (adjust_check b x a). \<not> fst c"
    and r: "r = x\<lparr>br_amounts := a\<rparr>" "natural (br_committed_amounts r)" and b': "b' = put_reservation r b"
    using adj by (auto simp: adjust_reservation_def and_then_Inr budget_values_Inr validated_Inr post_init_Inr
        split: option.splits if_splits)
  have key: "br_operation_key r = k" using reservation_of_Some [OF x(1)] r by simp
  show ?thesis
    unfolding b'
  proof (rule put_reservation_inv [OF inv])
    fix d limit
    assume d: "d \<notin> set uncapped" "map_of (ib_limits b) d = Some limit"
    from map_of_SomeD [OF d(2)] check d(1)
    have "consumed b d + (reserved b d - amount (br_amounts x) d) + amount a d \<le> limit"
      by (fastforce simp: adjust_check_def)
    with x key r show "charged b d - (case reservation_of b (br_operation_key r) of None \<Rightarrow> 0 | Some x \<Rightarrow> charge d x)
        + charge d r \<le> limit" by (simp add: charge_def charged_split)
  qed (use a r in auto)
qed

text \<open>Settling a reservation never raises its charge on a capped dimension.\<close>

lemma settle_inv:
  assumes "budget_inv b" and "reservation_of b k = Some x" and "br_status x = Reserved \<or> c = []"
    and "s \<noteq> Reserved" and "c = br_committed_amounts x \<or> \<not> exceeds c (br_amounts x)"
    and "reservation_post_init (x\<lparr>br_status := s, br_committed_amounts := c\<rparr>) = Inr r"
  shows "budget_inv (put_reservation r b)"
proof (rule lower_charge_inv [OF assms(1)])
  have r: "r = x\<lparr>br_status := s, br_committed_amounts := c\<rparr>" using assms(6) by (simp add: post_init_Inr)
  have x: "natural (br_amounts x)" "natural (br_committed_amounts x)"
    using assms(1) reservation_of_Some [OF assms(2)] by (auto simp: budget_inv_def)
  show "reservation_of b (br_operation_key r) = Some x" using assms(2) reservation_of_Some [OF assms(2)] r by simp
  show "natural (br_amounts r)" "natural (br_committed_amounts r)" using assms(6) by (simp_all add: post_init_Inr)
  fix d :: budget_dimension
  assume "d \<notin> set uncapped"
  then have d: "d \<noteq> ToolSeconds" by (auto simp: uncapped_def)
  have "amount c d \<le> charge d x"
  proof -
    consider "c = []" | "br_status x = Reserved" "c = br_committed_amounts x"
      | "br_status x = Reserved" "\<not> exceeds c (br_amounts x)" using assms(3,5) by blast
    then show ?thesis
    proof cases
      case 1
      then show ?thesis using amount_natural [OF x(1), of d] amount_natural [OF x(2), of d]
        by (simp add: charge_def amount_def [of "[]"])
    next
      case 2
      then show ?thesis using amount_natural [OF x(1), of d] by (simp add: charge_def)
    next
      case 3
      then show ?thesis using not_exceeds [OF 3(2) x(1) d] amount_natural [OF x(2), of d] by (simp add: charge_def)
    qed
  qed
  with assms(4) show "charge d r \<le> charge d x" by (simp add: r charge_def)
qed

lemma commit_cases:
  assumes "commit k c b = Inr (r, b')"
  obtains x where "reservation_of b k = Some x" "br_status x = Committed" "r = x" "b' = b"
  | x where "reservation_of b k = Some x" "br_status x = Reserved" "b' = put_reservation r b"
      "\<not> exceeds (case c of None \<Rightarrow> br_amounts x | Some y \<Rightarrow> y) (br_amounts x)"
      "reservation_post_init (x\<lparr>br_status := Committed,
         br_committed_amounts := (case c of None \<Rightarrow> br_amounts x | Some y \<Rightarrow> y)\<rparr>) = Inr r"
proof (cases "reservation_of b k")
  case None
  with assms show thesis by (simp add: commit_def)
next
  case (Some x)
  define actual where "actual = (case c of None \<Rightarrow> br_amounts x | Some y \<Rightarrow> y)"
  consider "br_status x = Committed" | "br_status x = Released" | "br_status x = Reserved" by (cases "br_status x") auto
  then show thesis
  proof cases
    case 1
    with assms Some show thesis by (intro that(1) [of x]) (simp_all add: commit_def)
  next
    case 2
    with assms Some show thesis by (simp add: commit_def)
  next
    case 3
    with assms Some obtain "\<not> exceeds actual (br_amounts x)" "b' = put_reservation r b"
      "reservation_post_init (x\<lparr>br_status := Committed, br_committed_amounts := actual\<rparr>) = Inr r"
      by (auto simp: commit_def and_then_Inr budget_values_Inr actual_def [symmetric] split: if_splits)
    with Some 3 show thesis unfolding actual_def by (intro that(2) [of x])
  qed
qed

lemma commit_inv: "budget_inv b \<Longrightarrow> commit k c b = Inr (r, b') \<Longrightarrow> budget_inv b'"
  by (erule commit_cases) (auto intro: settle_inv)

lemma release_inv:
  assumes inv: "budget_inv b" and rel: "release k b = Inr (x, b')"
  shows "budget_inv b'"
proof (cases "reservation_of b k")
  case None
  with assms show ?thesis by (simp add: release_def)
next
  case (Some y)
  show ?thesis
  proof (cases "br_status y = Reserved")
    case True
    let ?y = "y\<lparr>br_status := Released, br_committed_amounts := br_committed_amounts y\<rparr>"
    from rel Some True obtain r where r: "reservation_post_init ?y = Inr r" and b': "b' = put_reservation r b"
      by (auto simp: release_def and_then_Inr)
    show ?thesis unfolding b' by (rule settle_inv [OF inv Some _ _ _ r]) (simp_all add: True)
  next
    case False
    with rel Some inv show ?thesis by (simp add: release_def)
  qed
qed

lemma release_unsent_inv:
  assumes inv: "budget_inv b" and rel: "release_confirmed_non_submission k b = Inr (x, b')"
  shows "budget_inv b'"
proof (cases "reservation_of b k")
  case None
  with assms show ?thesis by (simp add: release_confirmed_non_submission_def)
next
  case (Some y)
  show ?thesis
  proof (cases "br_status y = Released")
    case False
    with rel Some obtain r where r: "reservation_post_init (y\<lparr>br_status := Released, br_committed_amounts := []\<rparr>) = Inr r"
      and b': "b' = put_reservation r b" by (auto simp: release_confirmed_non_submission_def and_then_Inr)
    show ?thesis unfolding b' by (rule settle_inv [OF inv Some _ _ _ r]) (simp_all add: exceeds_def)
  next
    case True
    with rel Some inv show ?thesis by (simp add: release_confirmed_non_submission_def)
  qed
qed

text \<open>A release leaves the budget alone or stores the released record.\<close>

lemma released_again:
  assumes "release k b = Inr (x, b') \<or> release_confirmed_non_submission k b = Inr (x, b')"
  shows "b' = b \<or> (\<exists>r. reservation_of b' k = Some r \<and> br_status r = Released)"
proof (cases "reservation_of b k")
  case None
  with assms show ?thesis by (auto simp: release_def release_confirmed_non_submission_def)
next
  case (Some y)
  then have "br_operation_key y = k" using reservation_of_Some by blast
  with assms Some put_reservation_get [of "y\<lparr>br_status := Released\<rparr>" b]
    put_reservation_get [of "y\<lparr>br_status := Released, br_committed_amounts := []\<rparr>" b]
  show ?thesis
    by (auto simp: release_def release_confirmed_non_submission_def and_then_Inr post_init_Inr split: if_splits)
qed

lemma same_amounts_refl [simp]: "same_amounts a a"
  by (simp add: same_amounts_def list_all_iff)

lemma reserve_again:
  assumes "reserve k a b = Inr (r, b')"
  shows "reserve k a b' = Inr (r, b')"
proof (cases "reservation_of b k")
  case None
  with assms have a: "natural a" and r: "br_operation_key r = k" "br_amounts r = a" and b': "b' = put_reservation r b"
    by (auto simp: reserve_def and_then_Inr budget_values_Inr post_init_Inr)
  have "reservation_of b' k = Some r" using put_reservation_get [of r b] r b' by simp
  with a r show ?thesis by (simp add: reserve_def budget_values_Inr [THEN iffD2])
next
  case (Some x)
  with assms have "b' = b" by (auto simp: reserve_def and_then_Inr split: if_splits)
  with assms show ?thesis by simp
qed

lemma adjust_again:
  assumes "adjust_reservation k a b = Inr (r, b')" and "budget_inv b"
  shows "adjust_reservation k a b' = Inr (r, b')"
proof -
  obtain x where x: "reservation_of b k = Some x" "br_status x = Reserved"
    and a: "natural a" and check: "\<forall>c \<in> set (adjust_check b x a). \<not> fst c"
    and r: "r = x\<lparr>br_amounts := a\<rparr>" "reservation_post_init r = Inr r" and b': "b' = put_reservation r b"
    using assms(1) by (auto simp: adjust_reservation_def and_then_Inr budget_values_Inr validated_Inr post_init_Inr
        split: option.splits if_splits)
  have key: "br_operation_key r = k" using reservation_of_Some [OF x(1)] r by simp
  have uniq: "keys_unique b" using assms(2) by (simp add: budget_inv_def)
  have "consumed b' d = consumed b d" for d
    using put_reservation_sum [OF uniq, of "\<lambda>r. amount (br_committed_amounts r) d" r] x key r
    by (simp add: consumed_def b')
  moreover have "reserved b' d = reserved b d - amount (br_amounts x) d + amount a d" for d
    using put_reservation_sum [OF uniq, of "\<lambda>r. if br_status r = Reserved then amount (br_amounts r) d else 0" r] x key r
    by (simp add: reserved_def b')
  ultimately have "adjust_check b' r a = adjust_check b x a"
    by (simp add: adjust_check_def b' r)
  with check have "validated (adjust_check b' r a) () = Inr ()" by (simp add: validated_Inr)
  moreover have "reservation_of b' k = Some r" using put_reservation_get [of r b] key b' by simp
  moreover have "put_reservation r b' = b'"
  proof -
    have "map (\<lambda>y. if br_operation_key y = k then r else y) (ib_reservations b') = ib_reservations b'"
      using key x(1) by (auto simp: b' put_reservation_def reservation_of_def)
    with \<open>reservation_of b' k = Some r\<close> key show ?thesis by (simp add: put_reservation_def)
  qed
  ultimately show ?thesis using a x r by (simp add: adjust_reservation_def budget_values_Inr [THEN iffD2])
qed

interpretation budget_machine: guarded_machine budget_exec budget_inv
proof unfold_locales
  fix b op b'
  assume "budget_inv b" and "budget_exec op b = Inr b'"
  then show "budget_inv b'"
    by (cases op) (auto simp: budget_of_Inr intro: reserve_inv adjust_inv commit_inv release_inv release_unsent_inv)
qed

subsection \<open>Properties\<close>

text \<open>
  C30. The budget is never overrun: along any sequence of reservations, adjustments, commits and releases,
  refused ones included, what is consumed and what is still reserved of every capped dimension
  together stay within its limit, whatever the operation keys and amounts.
\<close>

theorem budget_within_limits:
  assumes "new_budget limits = Inr b0" and "b = drive budget_exec ops b0"
    and "d \<notin> {ContextBytes, ToolSeconds}" and "map_of (ib_limits b) d = Some limit"
  shows "consumed b d + reserved b d \<le> limit \<and> remaining b d = Some (limit - consumed b d - reserved b d)"
proof -
  have "budget_inv b" unfolding assms(2) by (rule budget_machine.drive_inv) (rule new_budget_inv [OF assms(1)])
  with assms(3,4) have "consumed b d + reserved b d \<le> limit"
    by (auto simp: budget_inv_def charged_split uncapped_def)
  with assms(4) show ?thesis by (simp add: remaining_def)
qed

theorem budget_within_limits_witness:
  "let b = drive budget_exec [BudgetReserve ''a'' [(VtUnits, 3)], BudgetReserve ''b'' [(VtUnits, 3)],
      BudgetCommit ''a'' (Some [(VtUnits, 2)]), BudgetReserve ''b'' [(VtUnits, 3)]]
      \<lparr>ib_limits = [(VtUnits, 5)], ib_reservations = []\<rparr>
   in consumed b VtUnits + reserved b VtUnits \<le> 5 \<and> consumed b VtUnits = 2 \<and> reserved b VtUnits = 3"
proof -
  let ?b = "drive budget_exec [BudgetReserve ''a'' [(VtUnits, 3)], BudgetReserve ''b'' [(VtUnits, 3)],
      BudgetCommit ''a'' (Some [(VtUnits, 2)]), BudgetReserve ''b'' [(VtUnits, 3)]]
      \<lparr>ib_limits = [(VtUnits, 5)], ib_reservations = []\<rparr>"
  have new: "new_budget [(VtUnits, 5)] = Inr \<lparr>ib_limits = [(VtUnits, 5)], ib_reservations = []\<rparr>"
    by (simp add: new_budget_def budget_values_def)
  have "map_of (ib_limits ?b) VtUnits = Some 5" "consumed ?b VtUnits = 2" "reserved ?b VtUnits = 3" by code_simp+
  with budget_within_limits [OF new refl, of VtUnits] show ?thesis by (simp add: Let_def del: drive.simps)
qed

text \<open>
  Every operation is idempotent on its key: an accepted call repeated with the same arguments is
  accepted and leaves the budget as it is, so a replayed operation is never charged twice.
\<close>

theorem budget_replay_is_free:
  assumes "budget_inv b" and "budget_exec op b = Inr b'"
  shows "budget_exec op b' = Inr b'"
proof (cases op)
  case (BudgetReserve k a)
  with assms obtain r where "reserve k a b = Inr (r, b')" by (auto simp: budget_of_Inr)
  then have "reserve k a b' = Inr (r, b')" by (rule reserve_again)
  with BudgetReserve show ?thesis by (simp add: budget_of_Inr)
next
  case (BudgetAdjust k a)
  with assms obtain r where "adjust_reservation k a b = Inr (r, b')" by (auto simp: budget_of_Inr)
  then have "adjust_reservation k a b' = Inr (r, b')" using assms(1) by (intro adjust_again)
  with BudgetAdjust show ?thesis by (simp add: budget_of_Inr)
next
  case (BudgetCommit k c)
  with assms obtain r where r: "commit k c b = Inr (r, b')" by (auto simp: budget_of_Inr)
  then obtain "reservation_of b' k = Some r" "br_status r = Committed"
  proof (rule commit_cases)
    fix x
    assume h: "reservation_of b k = Some x" "b' = put_reservation r b"
      "reservation_post_init (x\<lparr>br_status := Committed,
         br_committed_amounts := (case c of None \<Rightarrow> br_amounts x | Some y \<Rightarrow> y)\<rparr>) = Inr r"
    then have "br_operation_key r = k" "br_status r = Committed"
      using reservation_of_Some by (auto simp: post_init_Inr)
    with put_reservation_get [of r b] h(2) show thesis using that by simp
  qed (use that in auto)
  with BudgetCommit show ?thesis by (simp add: budget_of_Inr commit_def)
next
  case (BudgetRelease k)
  with assms obtain x where x: "release k b = Inr (x, b')" by (auto simp: budget_of_Inr)
  then have "b' = b \<or> (\<exists>y. release k b' = Inr (y, b'))" using released_again [of k b x b'] by (auto simp: release_def)
  with BudgetRelease assms(2) show ?thesis by (auto simp: budget_of_Inr)
next
  case (BudgetReleaseUnsent k)
  with assms obtain x where x: "release_confirmed_non_submission k b = Inr (x, b')" by (auto simp: budget_of_Inr)
  then have "b' = b \<or> (\<exists>y. release_confirmed_non_submission k b' = Inr (y, b'))"
    using released_again [of k b x b'] by (auto simp: release_confirmed_non_submission_def)
  with BudgetReleaseUnsent assms(2) show ?thesis by (auto simp: budget_of_Inr)
qed

theorem budget_replay_is_free_witness:
  "\<exists>b. budget_exec (BudgetReserve ''a'' [(VtUnits, 3)]) \<lparr>ib_limits = [(VtUnits, 5)], ib_reservations = []\<rparr> = Inr b
     \<and> budget_exec (BudgetReserve ''a'' [(VtUnits, 3)]) b = Inr b \<and> reserved b VtUnits = 3"
proof -
  let ?b = "\<lparr>ib_limits = [(VtUnits, 5)], ib_reservations = []\<rparr>"
  have "new_budget [(VtUnits, 5)] = Inr ?b" by (simp add: new_budget_def budget_values_def)
  note inv = new_budget_inv [OF this]
  have "case budget_exec (BudgetReserve ''a'' [(VtUnits, 3)]) ?b of Inl e \<Rightarrow> False | Inr b \<Rightarrow> reserved b VtUnits = 3"
    by code_simp
  then obtain b where b: "budget_exec (BudgetReserve ''a'' [(VtUnits, 3)]) ?b = Inr b" "reserved b VtUnits = 3"
    by (auto split: sum.splits)
  from budget_replay_is_free [OF inv b(1)] b show ?thesis by blast
qed

text \<open>
  Restoring a canonical record is the one operation that checks no cap: a reservation made under a
  larger cap and restored after the policy snapshot lowered it stands above the limit, and the
  remaining amount the context shows is zero.
\<close>

theorem restore_ignores_limits:
  assumes "budget_inv b" and "reservation_of b (br_operation_key r) = None" and "br_status r = Reserved"
    and "map_of (ib_limits b) d = Some limit" and "limit < amount (br_amounts r) d"
    and "natural (br_committed_amounts r)"
  shows "\<exists>b'. restore_reservation r b = Inr (r, b') \<and> limit < consumed b' d + reserved b' d \<and> remaining b' d = Some 0"
proof -
  let ?b = "put_reservation r b"
  have "0 \<le> charge d x" if "x \<in> set (ib_reservations b)" for x
    using that assms(1) amount_natural by (auto simp: budget_inv_def charge_def)
  then have "0 \<le> charged b d" unfolding charged_def by (intro sum_list_nonneg) auto
  moreover have "charged ?b d = charged b d + charge d r"
    using put_reservation_charged [of b r d] assms(1,2) by (simp add: budget_inv_def)
  ultimately have "limit < charged ?b d"
    using assms(3,5) amount_natural [OF assms(6), of d] by (simp add: charge_def)
  then show ?thesis using assms(2,4) by (simp add: restore_reservation_def charged_split remaining_def)
qed

theorem restore_ignores_limits_witness:
  "\<exists>b'. restore_reservation \<lparr>br_operation_key = ''k'', br_amounts = [(VtUnits, 9)], br_status = Reserved,
      br_committed_amounts = []\<rparr> \<lparr>ib_limits = [(VtUnits, 5)], ib_reservations = []\<rparr> =
     Inr (\<lparr>br_operation_key = ''k'', br_amounts = [(VtUnits, 9)], br_status = Reserved,
      br_committed_amounts = []\<rparr>, b') \<and> 5 < consumed b' VtUnits + reserved b' VtUnits"
proof -
  let ?b = "\<lparr>ib_limits = [(VtUnits, 5)], ib_reservations = []\<rparr>"
  let ?r = "\<lparr>br_operation_key = ''k'', br_amounts = [(VtUnits, 9)], br_status = Reserved, br_committed_amounts = []\<rparr>"
  have "new_budget [(VtUnits, 5)] = Inr ?b" by (simp add: new_budget_def budget_values_def)
  note inv = new_budget_inv [OF this]
  have "reservation_of ?b (br_operation_key ?r) = None" by (simp add: reservation_of_def)
  from restore_ignores_limits [OF inv this, of VtUnits 5]
  obtain b' where "restore_reservation ?r ?b = Inr (?r, b')" "5 < consumed b' VtUnits + reserved b' VtUnits"
    by (auto simp: amount_def natural_def)
  then show ?thesis by blast
qed

end
