(* ===== verification/Investigation.thy ===== *)
theory Investigation
  imports InvestigationBudget Repair
begin

text \<open>
  The analyst investigation: the aggregate and its loop budget (\<open>domain/production.py\<close>), the direct writes
  of three services to it (\<open>analyst_handoff.py\<close>, \<open>investigation_governance.py\<close> and
  \<open>investigation_service.py\<close> under \<open>application\<close>), tool invocations and sample associations
  (\<open>domain/investigation.py\<close>). All under \<open>backend/src/cti_app\<close>.
\<close>

subsection \<open>The loop budget\<close>

datatype loop_category = PivotRuns | HitsAcquired | NewSamples | VtReadUnits

fun loop_category_value :: "loop_category \<Rightarrow> string" where
  "loop_category_value PivotRuns = ''pivot_runs''"
| "loop_category_value HitsAcquired = ''hits_acquired''"
| "loop_category_value NewSamples = ''new_samples''"
| "loop_category_value VtReadUnits = ''vt_read_units''"

record loop_budget =
  lb_max_cycles :: int
  lb_max_pivot_runs :: int
  lb_max_hits_acquired :: int
  lb_max_new_samples :: int
  lb_max_vt_read_units :: int
  lb_consumed_pivot_runs :: int
  lb_consumed_hits_acquired :: int
  lb_consumed_new_samples :: int
  lb_consumed_vt_read_units :: int

fun loop_maximum :: "loop_budget \<Rightarrow> loop_category \<Rightarrow> int" where
  "loop_maximum b PivotRuns = lb_max_pivot_runs b"
| "loop_maximum b HitsAcquired = lb_max_hits_acquired b"
| "loop_maximum b NewSamples = lb_max_new_samples b"
| "loop_maximum b VtReadUnits = lb_max_vt_read_units b"

fun loop_consumed :: "loop_budget \<Rightarrow> loop_category \<Rightarrow> int" where
  "loop_consumed b PivotRuns = lb_consumed_pivot_runs b"
| "loop_consumed b HitsAcquired = lb_consumed_hits_acquired b"
| "loop_consumed b NewSamples = lb_consumed_new_samples b"
| "loop_consumed b VtReadUnits = lb_consumed_vt_read_units b"

fun add_consumed :: "loop_category \<Rightarrow> int \<Rightarrow> loop_budget \<Rightarrow> loop_budget" where
  "add_consumed PivotRuns n b = b\<lparr>lb_consumed_pivot_runs := lb_consumed_pivot_runs b + n\<rparr>"
| "add_consumed HitsAcquired n b = b\<lparr>lb_consumed_hits_acquired := lb_consumed_hits_acquired b + n\<rparr>"
| "add_consumed NewSamples n b = b\<lparr>lb_consumed_new_samples := lb_consumed_new_samples b + n\<rparr>"
| "add_consumed VtReadUnits n b = b\<lparr>lb_consumed_vt_read_units := lb_consumed_vt_read_units b + n\<rparr>"

definition loop_budget_post_init :: "loop_budget \<Rightarrow> loop_budget result" where
  "loop_budget_post_init b =
     (if lb_max_cycles b < 1 \<or> list_ex (\<lambda>c. loop_maximum b c < 0 \<or> loop_consumed b c < 0)
           [PivotRuns, HitsAcquired, NewSamples, VtReadUnits]
      then Inl (ValueError ''Budget limits must be non-negative and max_cycles must be >= 1'') else Inr b)"

definition loop_consume :: "loop_category \<Rightarrow> int \<Rightarrow> loop_budget \<Rightarrow> loop_budget result" where
  "loop_consume c units b =
     (if units < 1 then Inl (ValueError ''Budget consumption must be positive'')
      else if loop_maximum b c < loop_consumed b c + units
      then Inl (ValueError (''Budget exceeded for '' @ loop_category_value c))
      else Inr (add_consumed c units b))"

subsection \<open>The investigation\<close>

datatype investigation_status = IQueued | IRunning | IAwaitingReview | ICompleted | IExhausted | IFailed | ICancelled

datatype investigation_stage = Seeds | Features | Tooling | Invariants | Pivots | Corpus | Detection | Note

definition investigation_stages :: "investigation_stage list" where
  "investigation_stages = [Seeds, Features, Tooling, Invariants, Pivots, Corpus, Detection, Note]"

datatype stop_reason = AgentFinished | BudgetExhausted | NoNewInformation | UserInterrupt | ModelUnavailable
  | PermissionRequired | SubmissionNeedsReview

record investigation =
  iv_production_run_id :: uuid
  iv_subject_id :: uuid
  iv_synthesis_artifact_id :: uuid
  iv_budget :: loop_budget
  iv_status :: investigation_status
  iv_current_stage :: investigation_stage
  iv_cycle_number :: int
  iv_input_pack_blob_id :: "uuid option"
  iv_input_sha256 :: "string option"
  iv_started_at :: "datetime option"
  iv_finished_at :: "datetime option"
  iv_id :: uuid
  iv_updated_at :: datetime
  iv_version :: int

definition investigation_post_init :: "investigation \<Rightarrow> investigation result" where
  "investigation_post_init i = validated
     [(iv_version i < 1 \<or> iv_cycle_number i < 1, ValueError ''version and cycle_number must be >= 1''),
      ((iv_input_pack_blob_id i = None) \<noteq> (iv_input_sha256 i = None),
        ValueError ''input pack blob and SHA-256 must be supplied together''),
      (truthy (iv_input_sha256 i) \<and> \<not> is_sha256 (the (iv_input_sha256 i)),
        ValueError ''input_sha256 must be lowercase SHA-256'')] i"

definition from_verified_synthesis :: "production_artifact \<Rightarrow> loop_budget \<Rightarrow> uuid \<Rightarrow> datetime \<Rightarrow> investigation result" where
  "from_verified_synthesis a budget i t =
     (if art_stage a \<noteq> A_Synthesis \<or> art_status a \<noteq> Verified
      then Inl (ValueError ''Analyst investigation requires a verified SYNTHESIS artifact'')
      else investigation_post_init \<lparr>iv_production_run_id = art_production_run_id a,
        iv_subject_id = art_subject_id a, iv_synthesis_artifact_id = art_id a, iv_budget = budget,
        iv_status = IQueued, iv_current_stage = Seeds, iv_cycle_number = 1, iv_input_pack_blob_id = None,
        iv_input_sha256 = None, iv_started_at = None, iv_finished_at = None, iv_id = i, iv_updated_at = t,
        iv_version = 1\<rparr>)"

definition bump :: "datetime \<Rightarrow> investigation \<Rightarrow> investigation" where
  "bump t i = i\<lparr>iv_updated_at := t, iv_version := iv_version i + 1\<rparr>"

definition inv_start :: "datetime \<Rightarrow> investigation \<Rightarrow> investigation result" where
  [op_defs]: "inv_start t i =
     (if iv_status i \<noteq> IQueued then Inl (ValueError ''Can only start a queued investigation'')
      else Inr (bump t (i\<lparr>iv_status := IRunning, iv_started_at := Some t\<rparr>)))"

definition inv_advance_stage :: "datetime \<Rightarrow> investigation \<Rightarrow> investigation result" where
  [op_defs]: "inv_advance_stage t i = (case index_of (iv_current_stage i) investigation_stages of
     None \<Rightarrow> Inl (ValueError ''tuple.index(x): x not in tuple'')
   | Some k \<Rightarrow> Inr (bump t (if k + 1 < length investigation_stages
        then i\<lparr>iv_current_stage := investigation_stages ! (k + 1)\<rparr> else i)))"

definition inv_consume_budget :: "loop_category \<Rightarrow> int \<Rightarrow> datetime \<Rightarrow> investigation \<Rightarrow> investigation result" where
  [op_defs]: "inv_consume_budget c units t i =
     and_then (loop_consume c units (iv_budget i)) (\<lambda>b. Inr (bump t (i\<lparr>iv_budget := b\<rparr>)))"

text \<open>The result also says whether the configured turn budget is spent.\<close>

definition inv_record_turn :: "datetime \<Rightarrow> investigation \<Rightarrow> (bool \<times> investigation) result" where
  [op_defs]: "inv_record_turn t i =
     (if iv_status i \<noteq> IRunning then Inl (ValueError ''Only a running investigation can record a turn'')
      else let i' = (if iv_cycle_number i < lb_max_cycles (iv_budget i)
          then i\<lparr>iv_cycle_number := iv_cycle_number i + 1\<rparr> else i) in
        Inr (lb_max_cycles (iv_budget i') \<le> iv_cycle_number i', bump t i'))"

definition inv_active :: "investigation \<Rightarrow> bool" where
  "inv_active i = (iv_status i \<in> {IRunning, IAwaitingReview})"

definition inv_finish :: "investigation_status \<Rightarrow> datetime \<Rightarrow> investigation \<Rightarrow> investigation" where
  "inv_finish s t i = bump t (i\<lparr>iv_status := s, iv_finished_at := Some t\<rparr>)"

definition inv_complete :: "datetime \<Rightarrow> investigation \<Rightarrow> investigation result" where
  [op_defs]: "inv_complete t i =
     (if \<not> inv_active i then Inl (ValueError ''Only an active investigation can complete'')
      else Inr (inv_finish ICompleted t i))"

definition inv_fail_technical :: "datetime \<Rightarrow> investigation \<Rightarrow> investigation result" where
  [op_defs]: "inv_fail_technical t i =
     (if \<not> inv_active i then Inl (ValueError ''Only an active investigation can fail'')
      else Inr (inv_finish IFailed t i))"

definition inv_cancel :: "datetime \<Rightarrow> investigation \<Rightarrow> investigation result" where
  [op_defs]: "inv_cancel t i = Inr (inv_finish ICancelled t i)"

definition inv_await_review :: "datetime \<Rightarrow> investigation \<Rightarrow> investigation result" where
  [op_defs]: "inv_await_review t i =
     (if iv_status i \<noteq> IRunning then Inl (ValueError ''Only a running investigation can await review'')
      else Inr (bump t (i\<lparr>iv_status := IAwaitingReview\<rparr>)))"

definition inv_conclude :: "stop_reason \<Rightarrow> datetime \<Rightarrow> investigation \<Rightarrow> investigation result" where
  [op_defs]: "inv_conclude reason t i =
     (if reason = AgentFinished \<and> iv_status i = ICompleted then Inr i
      else if reason = UserInterrupt \<and> iv_status i = ICancelled then Inr i
      else if reason \<in> {PermissionRequired, SubmissionNeedsReview} \<and> iv_status i = IAwaitingReview then Inr i
      else if reason \<notin> {AgentFinished, UserInterrupt, PermissionRequired, SubmissionNeedsReview}
          \<and> iv_status i = IExhausted then Inr i
      else if reason = AgentFinished then inv_complete t i
      else if reason = UserInterrupt then inv_cancel t i
      else if reason \<in> {PermissionRequired, SubmissionNeedsReview} then inv_await_review t i
      else if \<not> inv_active i then Inl (ValueError ''Only an active investigation can conclude'')
      else Inr (inv_finish IExhausted t i))"

definition inv_finish_cycle :: "int \<Rightarrow> datetime \<Rightarrow> investigation \<Rightarrow> investigation result" where
  [op_defs]: "inv_finish_cycle members t i =
     (if members < 0 then Inl (ValueError ''validated_new_members must be non-negative'')
      else and_then (inv_record_turn t i) (\<lambda>(_, i'). Inr i'))"

text \<open>
  Three services write fields of the aggregate directly: the hand-off attaches the input pack, the approval and
  the extension of an envelope raise the acquisition caps, and \<open>resume\<close> reopens a concluded investigation.
\<close>

definition attach_input_pack :: "uuid \<Rightarrow> string \<Rightarrow> investigation \<Rightarrow> investigation" where
  "attach_input_pack blob sha i = i\<lparr>iv_input_pack_blob_id := Some blob, iv_input_sha256 := Some sha\<rparr>"

definition raise_caps :: "int \<Rightarrow> loop_budget \<Rightarrow> loop_budget" where
  "raise_caps downloads b =
     b\<lparr>lb_max_hits_acquired := (if lb_max_hits_acquired b < downloads then downloads else lb_max_hits_acquired b),
       lb_max_new_samples := (if lb_max_new_samples b < downloads then downloads else lb_max_new_samples b),
       lb_max_vt_read_units := (if lb_max_vt_read_units b < downloads then downloads else lb_max_vt_read_units b)\<rparr>"

definition synchronize_loop_budget_downloads :: "int \<Rightarrow> datetime \<Rightarrow> investigation \<Rightarrow> bool \<times> investigation" where
  "synchronize_loop_budget_downloads downloads t i =
     (let changed = (lb_max_hits_acquired (iv_budget i) < downloads \<or> lb_max_new_samples (iv_budget i) < downloads
          \<or> lb_max_vt_read_units (iv_budget i) < downloads);
          i' = i\<lparr>iv_budget := raise_caps downloads (iv_budget i)\<rparr> in
      (changed, if changed then bump t i' else i'))"

definition inv_resume :: "datetime \<Rightarrow> investigation \<Rightarrow> investigation" where
  "inv_resume t i = (if iv_status i \<in> {IAwaitingReview, ICompleted, IExhausted, ICancelled}
     then bump t (i\<lparr>iv_status := IRunning, iv_finished_at := None\<rparr>) else i)"

datatype inv_op =
    InvStart datetime
  | InvAdvance datetime
  | InvConsume loop_category int datetime
  | InvTurn datetime
  | InvConclude stop_reason datetime
  | InvFail datetime
  | InvComplete datetime
  | InvCancel datetime
  | InvAwaitReview datetime
  | InvFinishCycle int datetime
  | InvAttach uuid string
  | InvRaise int datetime
  | InvResume datetime

fun inv_exec :: "inv_op \<Rightarrow> investigation \<Rightarrow> investigation result" where
  "inv_exec (InvStart t) i = inv_start t i"
| "inv_exec (InvAdvance t) i = inv_advance_stage t i"
| "inv_exec (InvConsume c n t) i = inv_consume_budget c n t i"
| "inv_exec (InvTurn t) i = and_then (inv_record_turn t i) (\<lambda>(_, i'). Inr i')"
| "inv_exec (InvConclude r t) i = inv_conclude r t i"
| "inv_exec (InvFail t) i = inv_fail_technical t i"
| "inv_exec (InvComplete t) i = inv_complete t i"
| "inv_exec (InvCancel t) i = inv_cancel t i"
| "inv_exec (InvAwaitReview t) i = inv_await_review t i"
| "inv_exec (InvFinishCycle n t) i = inv_finish_cycle n t i"
| "inv_exec (InvAttach b s) i = Inr (attach_input_pack b s i)"
| "inv_exec (InvRaise n t) i = Inr (snd (synchronize_loop_budget_downloads n t i))"
| "inv_exec (InvResume t) i = Inr (inv_resume t i)"

text \<open>
  Within its limits: no category over its maximum, the cycle number within the turn budget, an end time exactly
  when the investigation is closed, no start time and no second turn while it is queued, and the input pack with
  its hash.
\<close>

definition loop_ok :: "loop_budget \<Rightarrow> bool" where
  "loop_ok b \<longleftrightarrow> (\<forall>c. 0 \<le> loop_consumed b c \<and> loop_consumed b c \<le> loop_maximum b c)"

definition inv_wf :: "investigation \<Rightarrow> bool" where
  "inv_wf i \<longleftrightarrow> 1 \<le> iv_cycle_number i \<and> 1 \<le> iv_version i \<and> iv_cycle_number i \<le> lb_max_cycles (iv_budget i)
     \<and> loop_ok (iv_budget i)
     \<and> (iv_status i \<in> {ICompleted, IExhausted, IFailed, ICancelled} \<longleftrightarrow> iv_finished_at i \<noteq> None)
     \<and> (iv_status i = IQueued \<longrightarrow> iv_started_at i = None \<and> iv_cycle_number i = 1)
     \<and> (iv_input_pack_blob_id i = None \<longleftrightarrow> iv_input_sha256 i = None)"

lemma add_consumed_fields:
  "loop_maximum (add_consumed c n b) c' = loop_maximum b c'"
  "loop_consumed (add_consumed c n b) c' = loop_consumed b c' + (if c' = c then n else 0)"
  "lb_max_cycles (add_consumed c n b) = lb_max_cycles b"
  by (cases c; cases c'; simp)+

lemma loop_consume_ok: "loop_consume c n b = Inr b' \<Longrightarrow> loop_ok b \<Longrightarrow> loop_ok b' \<and> lb_max_cycles b' = lb_max_cycles b"
  by (auto simp: loop_consume_def loop_ok_def add_consumed_fields split: if_splits)

lemma raise_caps_fields:
  "loop_maximum b c \<le> loop_maximum (raise_caps n b) c" "loop_consumed (raise_caps n b) c = loop_consumed b c"
  "lb_max_cycles (raise_caps n b) = lb_max_cycles b"
  by (cases c; simp add: raise_caps_def)+

lemma raise_caps_ok: "loop_ok b \<Longrightarrow> loop_ok (raise_caps n b)"
  unfolding loop_ok_def by (metis raise_caps_fields(1,2) order.trans)

lemma synchronize_wf: "inv_wf i \<Longrightarrow> inv_wf (snd (synchronize_loop_budget_downloads n t i))"
proof -
  assume "inv_wf i"
  then have raised: "inv_wf (i\<lparr>iv_budget := raise_caps n (iv_budget i)\<rparr>)"
    by (simp add: inv_wf_def raise_caps_fields(3) raise_caps_ok)
  moreover have "inv_wf j \<Longrightarrow> inv_wf (bump t j)" for j by (simp add: inv_wf_def bump_def)
  ultimately show ?thesis by (simp add: synchronize_loop_budget_downloads_def Let_def)
qed

lemma inv_exec_wf: "inv_wf i \<Longrightarrow> inv_exec op i = Inr i' \<Longrightarrow> inv_wf i'"
proof (cases op)
  case (InvConsume c n t)
  assume "inv_wf i" and "inv_exec op i = Inr i'"
  with InvConsume show ?thesis
    by (clarsimp simp: inv_consume_budget_def and_then_Inr inv_wf_def bump_def) (drule (1) loop_consume_ok, simp)
next
  case (InvConclude r t)
  assume "inv_wf i" and "inv_exec op i = Inr i'"
  with InvConclude show ?thesis
    by (cases r; cases "iv_status i"; clarsimp simp: op_defs inv_wf_def bump_def inv_finish_def inv_active_def)
next
  case (InvRaise n t)
  assume "inv_wf i" and "inv_exec op i = Inr i'"
  with InvRaise show ?thesis by (auto simp: synchronize_wf)
next
  case (InvResume t)
  assume "inv_wf i" and "inv_exec op i = Inr i'"
  with InvResume show ?thesis by (cases "iv_status i") (auto simp: inv_resume_def inv_wf_def bump_def)
qed (clarsimp simp: op_defs inv_wf_def bump_def inv_finish_def inv_active_def Let_def and_then_Inr attach_input_pack_def
  split: option.splits if_splits)+

interpretation inv_machine: guarded_machine inv_exec inv_wf
  by unfold_locales (rule inv_exec_wf)

text \<open>What an investigation is about never changes.\<close>

definition inv_origin :: "investigation \<Rightarrow> uuid \<times> uuid \<times> uuid \<times> uuid" where
  "inv_origin i = (iv_id i, iv_production_run_id i, iv_subject_id i, iv_synthesis_artifact_id i)"

lemma inv_origin_updates [simp]:
  "inv_origin (bump t i) = inv_origin i" "inv_origin (inv_finish s t i) = inv_origin i"
  "inv_origin (i\<lparr>iv_status := s\<rparr>) = inv_origin i" "inv_origin (i\<lparr>iv_budget := b\<rparr>) = inv_origin i"
  "inv_origin (i\<lparr>iv_cycle_number := n\<rparr>) = inv_origin i" "inv_origin (i\<lparr>iv_current_stage := g\<rparr>) = inv_origin i"
  "inv_origin (i\<lparr>iv_started_at := v\<rparr>) = inv_origin i" "inv_origin (i\<lparr>iv_finished_at := v\<rparr>) = inv_origin i"
  "inv_origin (attach_input_pack p h i) = inv_origin i" "inv_origin (inv_resume t i) = inv_origin i"
  "inv_origin (snd (synchronize_loop_budget_downloads d t i)) = inv_origin i"
  by (simp_all add: inv_origin_def bump_def inv_finish_def attach_input_pack_def inv_resume_def
      synchronize_loop_budget_downloads_def Let_def)

lemma inv_exec_origin: "inv_exec op i = Inr i' \<Longrightarrow> inv_origin i' = inv_origin i"
proof (cases op)
  case (InvConclude r t)
  assume "inv_exec op i = Inr i'"
  with InvConclude show ?thesis
    by (cases r) (auto simp: inv_conclude_def inv_complete_def inv_cancel_def inv_await_review_def split: if_splits)
qed (clarsimp simp: op_defs Let_def and_then_Inr split: option.splits if_splits)+

interpretation inv_identity: guarded_machine inv_exec "\<lambda>i. inv_origin i = k"
  by unfold_locales (simp add: inv_exec_origin)

lemma synthesis_wf:
  assumes "from_verified_synthesis a b k t = Inr i" and "loop_ok b" and "1 \<le> lb_max_cycles b"
  shows "inv_wf i" and "inv_origin i = (k, art_production_run_id a, art_subject_id a, art_id a)"
  using assms by (auto simp: from_verified_synthesis_def investigation_post_init_def validated_Inr inv_wf_def
      inv_origin_def split: if_splits)

subsection \<open>Tool invocations\<close>

datatype invocation_status = Pending | InvRunning | InvSucceeded | InvEmpty | InvUnavailable | PolicyDenied
  | InvNeedsReview | InvFailed | InvPartial

record invocation =
  in_status :: invocation_status
  in_consumed_budget :: amounts
  in_response_refs :: "uuid list"
  in_updated_at :: datetime
  in_version :: int

definition invocation_terminal :: "invocation_status \<Rightarrow> bool" where
  "invocation_terminal s = (s \<noteq> Pending \<and> s \<noteq> InvRunning)"

definition transition_allowed :: "invocation_status \<Rightarrow> invocation_status \<Rightarrow> bool" where
  "transition_allowed old new = (old = new \<or> (old = Pending \<and> (invocation_terminal new \<or> new = InvRunning))
     \<or> (old = InvRunning \<and> invocation_terminal new))"

definition invocation_transition ::
  "invocation_status \<Rightarrow> uuid list option \<Rightarrow> amounts option \<Rightarrow> datetime \<Rightarrow> invocation \<Rightarrow> invocation result" where
  "invocation_transition s refs c t i =
     (if \<not> transition_allowed (in_status i) s then Inl (ValueError ''Invalid tool invocation transition'')
      else if s = in_status i \<and> refs = None \<and> c = None then Inr i
      else and_then (case c of None \<Rightarrow> Inr (in_consumed_budget i) | Some x \<Rightarrow> budget_values x) (\<lambda>budget.
        Inr (i\<lparr>in_status := s, in_response_refs := (case refs of None \<Rightarrow> in_response_refs i | Some r \<Rightarrow> r),
          in_consumed_budget := budget, in_updated_at := t, in_version := in_version i + 1\<rparr>)))"

definition resolve_pre_submission_failure :: "datetime \<Rightarrow> invocation \<Rightarrow> invocation result" where
  "resolve_pre_submission_failure t i =
     (if in_status i \<noteq> InvNeedsReview
      then Inl (ValueError ''Only a needs-review invocation can be resolved as unsubmitted'')
      else Inr (i\<lparr>in_status := InvFailed, in_consumed_budget := [], in_updated_at := t,
        in_version := in_version i + 1\<rparr>))"

datatype invocation_op =
    InvocationMove invocation_status "uuid list option" "amounts option" datetime
  | InvocationUnsent datetime

fun invocation_exec :: "invocation_op \<Rightarrow> invocation \<Rightarrow> invocation result" where
  "invocation_exec (InvocationMove s r c t) i = invocation_transition s r c t i"
| "invocation_exec (InvocationUnsent t) i = resolve_pre_submission_failure t i"

lemma invocation_settled_kept:
  "invocation_terminal (in_status i) \<Longrightarrow> \<not> (case op of InvocationUnsent _ \<Rightarrow> True | _ \<Rightarrow> False) \<Longrightarrow>
   invocation_exec op i = Inr i' \<Longrightarrow> invocation_terminal (in_status i') \<and> in_status i' = in_status i"
  by (cases op) (auto simp: invocation_transition_def transition_allowed_def invocation_terminal_def and_then_Inr
      split: if_splits)

interpretation invocation_machine: absorbing_machine invocation_exec "\<lambda>i. invocation_terminal (in_status i)"
  in_status "\<lambda>op. case op of InvocationUnsent _ \<Rightarrow> True | _ \<Rightarrow> False"
  by unfold_locales (rule invocation_settled_kept)

subsection \<open>Sample associations\<close>

datatype sample_qualification = Candidate | Related | Confirmed | Rejected | Uncertain

datatype qualification_actor = HumanActor | AgentActor | SystemActor

record qualification_change =
  qc_from :: sample_qualification
  qc_to :: sample_qualification
  qc_actor_kind :: qualification_actor
  qc_actor_id :: "string option"
  qc_reason :: string
  qc_changed_at :: datetime

definition anonymous :: "string option \<Rightarrow> bool" where
  "anonymous a = (case a of None \<Rightarrow> True | Some s \<Rightarrow> blank s)"

definition change_post_init :: "qualification_change \<Rightarrow> qualification_change result" where
  "change_post_init c = validated
     [(blank (qc_reason c), ValueError ''Qualification change requires a reason''),
      (qc_to c = Confirmed \<and> (qc_actor_kind c \<noteq> HumanActor \<or> anonymous (qc_actor_id c)),
        ValueError ''Only an identified human actor can confirm a sample association''),
      (anonymous (qc_actor_id c), ValueError ''Qualification changes require an actor identity''),
      (\<not> aware (qc_changed_at c), ValueError ''changed_at must be timezone-aware'')] c"

record association =
  sa_sample_sha256 :: string
  sa_qualification :: sample_qualification
  sa_changes :: "qualification_change list"
  sa_related_sample_sha256 :: "string list"
  sa_version :: int

fun continuous :: "qualification_change list \<Rightarrow> bool" where
  "continuous (a # b # cs) = (qc_to a = qc_from b \<and> continuous (b # cs))"
| "continuous _ = True"

definition association_post_init :: "association \<Rightarrow> association result" where
  "association_post_init a = validated
     [(\<not> is_sha256 (sa_sample_sha256 a), ValueError ''sample_sha256 must be lowercase SHA-256''),
      (list_ex (\<lambda>s. \<not> is_sha256 s) (sa_related_sample_sha256 a),
        ValueError ''related_sample_sha256 must be lowercase SHA-256''),
      (sa_version a < 1 \<or> sa_version a \<noteq> int (length (sa_changes a)) + 1,
        ValueError ''Sample association version must match its append-only change history''),
      (sa_changes a \<noteq> [] \<and> qc_to (last (sa_changes a)) \<noteq> sa_qualification a,
        ValueError ''Current qualification must match the last qualification change''),
      (\<not> continuous (sa_changes a), ValueError ''Qualification changes must form one continuous history''),
      (sa_qualification a = Confirmed \<and> sa_changes a = [],
        ValueError ''Confirmed qualification requires an identified human change'')] a"

definition change_qualification ::
  "sample_qualification \<Rightarrow> qualification_actor \<Rightarrow> string option \<Rightarrow> string \<Rightarrow> datetime \<Rightarrow> association \<Rightarrow> association result" where
  "change_qualification q kind actor reason t a =
     (if q = sa_qualification a then Inr a
      else and_then (change_post_init \<lparr>qc_from = sa_qualification a, qc_to = q, qc_actor_kind = kind,
          qc_actor_id = actor, qc_reason = reason, qc_changed_at = t\<rparr>) (\<lambda>c.
        association_post_init (a\<lparr>sa_qualification := q, sa_changes := sa_changes a @ [c],
          sa_version := sa_version a + 1\<rparr>)))"

datatype association_op = Qualify sample_qualification qualification_actor "string option" string datetime

fun association_exec :: "association_op \<Rightarrow> association \<Rightarrow> association result" where
  "association_exec (Qualify q k i r t) a = change_qualification q k i r t a"

definition association_wf :: "association \<Rightarrow> bool" where
  "association_wf a \<longleftrightarrow> association_post_init a = Inr a
     \<and> (\<forall>c \<in> set (sa_changes a). change_post_init c = Inr c)"

lemma change_qualification_wf:
  "association_wf a \<Longrightarrow> change_qualification q k i r t a = Inr a' \<Longrightarrow> association_wf a'"
proof (cases "q = sa_qualification a")
  case False
  assume wf: "association_wf a" and h: "change_qualification q k i r t a = Inr a'"
  with False obtain c where c: "change_post_init c = Inr c"
    and a': "association_post_init (a\<lparr>sa_qualification := q, sa_changes := sa_changes a @ [c],
          sa_version := sa_version a + 1\<rparr>) = Inr a'"
    by (auto simp: change_qualification_def and_then_Inr) (metis change_post_init_def validated_Inr)
  from a' have "a' = a\<lparr>sa_qualification := q, sa_changes := sa_changes a @ [c], sa_version := sa_version a + 1\<rparr>"
    by (simp add: association_post_init_def validated_Inr)
  with a' c wf show ?thesis by (auto simp: association_wf_def)
qed (simp add: change_qualification_def)

interpretation association_machine: guarded_machine association_exec association_wf
proof unfold_locales
  fix a op a'
  assume "association_wf a" "association_exec op a = Inr a'"
  then show "association_wf a'" by (cases op) (auto intro: change_qualification_wf)
qed

lemma association_exec_history:
  "association_exec op a = Inr a' \<Longrightarrow> \<exists>cs. sa_changes a' = sa_changes a @ cs"
  by (cases op) (auto simp: change_qualification_def and_then_Inr association_post_init_def validated_Inr split: if_splits)

lemma drive_history: "\<exists>cs. sa_changes (drive association_exec ops a) = sa_changes a @ cs"
proof (induction ops arbitrary: a)
  case (Cons op ops)
  show ?case
  proof (cases "association_exec op a")
    case (Inr a')
    from association_exec_history [OF this] Cons [of a'] Inr show ?thesis by (auto simp: step_def)
  qed (use Cons in \<open>simp add: step_def\<close>)
qed simp

subsection \<open>Properties\<close>

definition demo_loop_budget :: loop_budget where
  "demo_loop_budget = \<lparr>lb_max_cycles = 2, lb_max_pivot_runs = 1, lb_max_hits_acquired = 1, lb_max_new_samples = 0,
     lb_max_vt_read_units = 2, lb_consumed_pivot_runs = 0, lb_consumed_hits_acquired = 0,
     lb_consumed_new_samples = 0, lb_consumed_vt_read_units = 0\<rparr>"

lemma demo_loop_ok: "loop_ok demo_loop_budget"
proof -
  have "0 \<le> loop_consumed demo_loop_budget c \<and> loop_consumed demo_loop_budget c \<le> loop_maximum demo_loop_budget c" for c
    by (cases c) (simp_all add: demo_loop_budget_def)
  then show ?thesis by (simp add: loop_ok_def)
qed

definition demo_investigation :: investigation where
  "demo_investigation = \<lparr>iv_production_run_id = 1, iv_subject_id = 2, iv_synthesis_artifact_id = 3,
     iv_budget = demo_loop_budget, iv_status = IQueued, iv_current_stage = Seeds, iv_cycle_number = 1,
     iv_input_pack_blob_id = None, iv_input_sha256 = None, iv_started_at = None, iv_finished_at = None, iv_id = 4,
     iv_updated_at = utc 0, iv_version = 1\<rparr>"

definition demo_synthesis :: production_artifact where
  "demo_synthesis = \<lparr>art_production_run_id = 1, art_subject_id = 2, art_stage = A_Synthesis,
     art_version = 1, art_input_hash = replicate 64 CHR ''a'', art_status = Verified, art_rendered_blob_id = None, art_model_run_id = None,
     art_reused_from_artifact_id = None, art_metadata = [], art_id = 3, art_created_at = utc 0\<rparr>"

text \<open>
  C31. An investigation stays within its loop budget and consistent: from its creation on a verified synthesis,
  whatever is attempted on it (its transitions, the reopening of a concluded investigation, the raised acquisition
  caps and the attached input pack included), no category is consumed beyond its maximum and the cycle number
  stays between one and the turn budget; it has an end time exactly when it is completed, exhausted, failed or
  cancelled, no start time and no second turn while it is queued, an input pack exactly with its hash, and it
  keeps its identity, its run, its subject and its synthesis.
\<close>

theorem investigation_within_budget:
  assumes "from_verified_synthesis a budget k t = Inr i0" and "loop_budget_post_init budget = Inr budget"
    and "\<forall>c. loop_consumed budget c \<le> loop_maximum budget c" and "i = drive inv_exec ops i0"
  shows "loop_consumed (iv_budget i) c \<le> loop_maximum (iv_budget i) c
    \<and> 1 \<le> iv_cycle_number i \<and> iv_cycle_number i \<le> lb_max_cycles (iv_budget i)
    \<and> (iv_finished_at i \<noteq> None \<longleftrightarrow> iv_status i \<in> {ICompleted, IExhausted, IFailed, ICancelled})
    \<and> (iv_status i = IQueued \<longrightarrow> iv_started_at i = None \<and> iv_cycle_number i = 1)
    \<and> (iv_input_pack_blob_id i = None \<longleftrightarrow> iv_input_sha256 i = None)
    \<and> (iv_id i, iv_production_run_id i, iv_subject_id i, iv_synthesis_artifact_id i)
        = (k, art_production_run_id a, art_subject_id a, art_id a)"
proof -
  have "0 \<le> loop_consumed budget c" for c
    using assms(2) by (cases c) (auto simp: loop_budget_post_init_def split: if_splits)
  then have "loop_ok budget" using assms(3) by (simp add: loop_ok_def)
  moreover have "1 \<le> lb_max_cycles budget" using assms(2) by (auto simp: loop_budget_post_init_def split: if_splits)
  ultimately have i0: "inv_wf i0" "inv_origin i0 = (k, art_production_run_id a, art_subject_id a, art_id a)"
    using synthesis_wf [OF assms(1)] by blast+
  from inv_machine.drive_inv [OF i0(1)] have "inv_wf i" unfolding assms(4) .
  moreover have "inv_origin i = (k, art_production_run_id a, art_subject_id a, art_id a)"
    unfolding assms(4) by (rule inv_identity.drive_inv [OF i0(2)])
  ultimately show ?thesis by (auto simp: inv_wf_def loop_ok_def inv_origin_def)
qed

theorem investigation_within_budget_witness:
  "loop_consumed (iv_budget (drive inv_exec [InvStart (utc 1), InvConsume VtReadUnits 2 (utc 2),
      InvConsume VtReadUnits 1 (utc 3), InvTurn (utc 4), InvTurn (utc 5), InvConclude BudgetExhausted (utc 6),
      InvResume (utc 7)] demo_investigation)) VtReadUnits \<le> 2"
proof -
  let ?ops = "[InvStart (utc 1), InvConsume VtReadUnits 2 (utc 2), InvConsume VtReadUnits 1 (utc 3), InvTurn (utc 4),
     InvTurn (utc 5), InvConclude BudgetExhausted (utc 6), InvResume (utc 7)]"
  have "loop_maximum (iv_budget (drive inv_exec ?ops demo_investigation)) VtReadUnits = 2" by code_simp
  moreover have "from_verified_synthesis demo_synthesis demo_loop_budget 4 (utc 0) = Inr demo_investigation"
    by (simp add: from_verified_synthesis_def investigation_post_init_def validated_def demo_synthesis_def
        demo_investigation_def truthy_def)
  moreover have "loop_budget_post_init demo_loop_budget = Inr demo_loop_budget" by code_simp
  moreover have "\<forall>c. loop_consumed demo_loop_budget c \<le> loop_maximum demo_loop_budget c"
    using demo_loop_ok by (simp add: loop_ok_def)
  ultimately show ?thesis
    using investigation_within_budget [OF _ _ _ refl, of demo_synthesis demo_loop_budget 4 "utc 0" demo_investigation ?ops VtReadUnits]
    by (simp del: drive.simps)
qed

text \<open>
  Only an identified human confirms a sample: after any sequence of qualification requests, by agents,
  humans or the system, a confirmed association ends with a change an identified human made for a
  stated reason; the history only grows, forms one chain and counts the version.
\<close>

theorem confirmed_by_human:
  assumes "association_wf a" and "a' = drive association_exec ops a"
  shows "(sa_qualification a' = Confirmed \<longrightarrow> (\<exists>c. last (sa_changes a') = c \<and> c \<in> set (sa_changes a')
      \<and> qc_to c = Confirmed \<and> qc_actor_kind c = HumanActor \<and> \<not> anonymous (qc_actor_id c) \<and> \<not> blank (qc_reason c)))
    \<and> (\<exists>cs. sa_changes a' = sa_changes a @ cs) \<and> continuous (sa_changes a')
    \<and> sa_version a' = int (length (sa_changes a')) + 1"
proof -
  have wf: "association_wf a'" unfolding assms(2) by (rule association_machine.drive_inv [OF assms(1)])
  then have "\<exists>c. last (sa_changes a') = c \<and> c \<in> set (sa_changes a') \<and> qc_to c = Confirmed
      \<and> change_post_init c = Inr c" if "sa_qualification a' = Confirmed"
    using that by (auto simp: association_wf_def association_post_init_def validated_Inr)
  then show ?thesis
    using wf drive_history [of ops a]
    by (auto simp: association_wf_def association_post_init_def change_post_init_def validated_Inr assms(2))
qed

theorem confirmed_by_human_witness:
  "qc_actor_kind (last (sa_changes (drive association_exec
      [Qualify Confirmed AgentActor (Some ''bot'') ''x'' (utc 1), Qualify Related AgentActor (Some ''bot'') ''x'' (utc 2),
       Qualify Confirmed HumanActor (Some ''ana'') ''seen'' (utc 3)]
      \<lparr>sa_sample_sha256 = replicate 64 CHR ''a'', sa_qualification = Candidate, sa_changes = [],
       sa_related_sample_sha256 = [], sa_version = 1\<rparr>))) = HumanActor"
proof -
  let ?a = "\<lparr>sa_sample_sha256 = replicate 64 CHR ''a'', sa_qualification = Candidate, sa_changes = [],
       sa_related_sample_sha256 = [], sa_version = 1\<rparr>"
  let ?ops = "[Qualify Confirmed AgentActor (Some ''bot'') ''x'' (utc 1), Qualify Related AgentActor (Some ''bot'') ''x'' (utc 2),
       Qualify Confirmed HumanActor (Some ''ana'') ''seen'' (utc 3)]"
  have "is_sha256 (replicate 64 CHR ''a'')" by code_simp
  then have "association_wf ?a" by (simp add: association_wf_def association_post_init_def validated_def)
  moreover have "sa_qualification (drive association_exec ?ops ?a) = Confirmed" by code_simp
  ultimately show ?thesis using confirmed_by_human [OF _ refl, of ?a ?ops] by blast
qed

end
