(* ===== verification/AgentLoop.thy ===== *)
theory AgentLoop
  imports Texts Investigation
begin

text \<open>
  The working state of the agent loop, \<open>domain/investigation_state.py\<close>, and the service steps over
  it, \<open>application/investigation_service.py\<close> (both under \<open>backend/src/cti_app\<close>): the conclusion and the
  last steps of the resumption of an investigation, the numbering of bridge attempts, and the rebase of a job's update over
  the row another writer saved in the meantime. The agenda and the hypotheses are carried as the
  payloads they serialise to.
\<close>

subsection \<open>State\<close>

datatype execution_mode = BridgeLed | OperatorLed

record working_state =
  ws_investigation_id :: uuid
  ws_agenda :: json
  ws_hypotheses :: "json list"
  ws_turn_index :: int
  ws_last_context_sha256 :: "string option"
  ws_last_decision_sha256 :: "string option"
  ws_pending_context_snapshot_id :: "uuid option"
  ws_pending_context_sha256 :: "string option"
  ws_stop_reason :: "stop_reason option"
  ws_no_progress_streak :: int
  ws_deduplicated_findings :: int
  ws_last_seen_evidence_ids :: "uuid list"
  ws_last_seen_finding_ids :: "uuid list"
  ws_base_publication_artifact_id :: "uuid option"
  ws_base_publication_sha256 :: "string option"
  ws_execution_mode :: execution_mode
  ws_version :: int
  ws_recent_actions :: "string list"

definition recent_actions_limit :: nat where "recent_actions_limit = 32"

definition hash_shape :: "string option \<Rightarrow> bool" where
  "hash_shape h = (case h of None \<Rightarrow> True | Some x \<Rightarrow> is_sha256 x)"

definition working_state_post_init :: "working_state \<Rightarrow> working_state result" where
  "working_state_post_init s = validated
     [(ws_version s < 1 \<or> ws_turn_index s < 0 \<or> ws_no_progress_streak s < 0 \<or> ws_deduplicated_findings s < 0,
        ValueError ''Investigation state counters are invalid''),
      ((ws_base_publication_artifact_id s = None) \<noteq> (ws_base_publication_sha256 s = None),
        ValueError ''Base publication identity and SHA-256 must be supplied together''),
      ((ws_pending_context_snapshot_id s = None) \<noteq> (ws_pending_context_sha256 s = None),
        ValueError ''Pending context snapshot identity and SHA-256 must be supplied together''),
      (\<not> hash_shape (ws_last_context_sha256 s), ValueError ''last_context_sha256 must be lowercase SHA-256''),
      (\<not> hash_shape (ws_last_decision_sha256 s), ValueError ''last_decision_sha256 must be lowercase SHA-256''),
      (\<not> hash_shape (ws_pending_context_sha256 s), ValueError ''pending_context_sha256 must be lowercase SHA-256''),
      (\<not> hash_shape (ws_base_publication_sha256 s), ValueError ''base_publication_sha256 must be lowercase SHA-256'')]
     (s\<lparr>ws_recent_actions := last_n recent_actions_limit (ws_recent_actions s)\<rparr>)"

subsection \<open>Operations\<close>

text \<open>\<open>replace\<close> builds a new state, so every operation passes the constructor's checks.\<close>

definition with_turn ::
  "string \<Rightarrow> string \<Rightarrow> bool \<Rightarrow> uuid list \<Rightarrow> uuid list \<Rightarrow> string list \<Rightarrow> json list option \<Rightarrow> working_state \<Rightarrow>
   working_state result" where
  "with_turn context decision progress evidence findings actions hypotheses s = working_state_post_init
     (s\<lparr>ws_version := ws_version s + 1,
        ws_hypotheses := (case hypotheses of None \<Rightarrow> ws_hypotheses s | Some h \<Rightarrow> h),
        ws_turn_index := ws_turn_index s + 1, ws_last_context_sha256 := Some context,
        ws_last_decision_sha256 := Some decision, ws_pending_context_snapshot_id := None,
        ws_pending_context_sha256 := None,
        ws_no_progress_streak := (if progress then 0 else ws_no_progress_streak s + 1),
        ws_last_seen_evidence_ids := fromkeys evidence, ws_last_seen_finding_ids := fromkeys findings,
        ws_recent_actions := last_n recent_actions_limit (ws_recent_actions s @ actions),
        ws_stop_reason := None\<rparr>)"

definition append_action :: "string \<Rightarrow> working_state \<Rightarrow> working_state result" where
  "append_action action s = working_state_post_init
     (s\<lparr>ws_version := ws_version s + 1,
        ws_recent_actions := last_n recent_actions_limit (ws_recent_actions s @ [action])\<rparr>)"

definition with_operator_tool_action :: "string \<Rightarrow> working_state \<Rightarrow> working_state result" where
  "with_operator_tool_action action s =
     (if \<not> starts_with action ''operator_tool:'' \<or> 256 < length action
      then Inl (ValueError ''Operator tool action summary is invalid'') else append_action action s)"

definition with_pending_context :: "uuid \<Rightarrow> string \<Rightarrow> working_state \<Rightarrow> working_state result" where
  "with_pending_context snapshot context s =
     (if ws_pending_context_snapshot_id s = Some snapshot \<and> ws_pending_context_sha256 s = Some context then Inr s
      else working_state_post_init (s\<lparr>ws_version := ws_version s + 1,
        ws_pending_context_snapshot_id := Some snapshot, ws_pending_context_sha256 := Some context\<rparr>))"

definition with_bridge_validation_failure :: "string \<Rightarrow> working_state \<Rightarrow> working_state result" where
  "with_bridge_validation_failure detail s =
     (let cut = take 512 (py_strip detail);
          summary = (if cut = [] then ''Bridge returned output that failed decision schema validation.'' else cut)
      in append_action (''bridge_invalid_output:'' @ summary)
           (s\<lparr>ws_pending_context_snapshot_id := None, ws_pending_context_sha256 := None\<rparr>))"

definition ws_conclude :: "stop_reason \<Rightarrow> working_state \<Rightarrow> working_state result" where
  "ws_conclude reason s = (if ws_stop_reason s \<noteq> None then Inr s
     else working_state_post_init (s\<lparr>ws_version := ws_version s + 1, ws_stop_reason := Some reason\<rparr>))"


subsection \<open>Bridge attempts\<close>

definition decimal_value :: "string \<Rightarrow> nat" where
  "decimal_value s = foldl (\<lambda>v c. 10 * v + (of_char c - 48)) 0 s"

fun before_first :: "string \<Rightarrow> string \<Rightarrow> string" where
  "before_first pat [] = []"
| "before_first pat (c # cs) = (if starts_with (c # cs) pat then [] else c # before_first pat cs)"

definition retry_prefixes :: "int \<Rightarrow> string list" where
  "retry_prefixes turn =
     [''bridge_turn_pre_submission_retry:'' @ int_text turn @ '':next_attempt='',
      ''bridge_turn_pre_submission_retry_exhausted:'' @ int_text turn @ '':next_attempt='']"

definition recorded_attempt :: "int \<Rightarrow> string \<Rightarrow> nat option" where
  "recorded_attempt turn action = (case find (\<lambda>p. starts_with action p) (retry_prefixes turn) of
     None \<Rightarrow> None
   | Some p \<Rightarrow> let raw = before_first '':turn_id='' (drop (length p) action) in
       if raw \<noteq> [] \<and> list_all digit raw then Some (decimal_value raw) else None)"

definition investigation_bridge_attempt :: "string list \<Rightarrow> int \<Rightarrow> nat" where
  "investigation_bridge_attempt actions turn = Max (insert 0 (set (List.map_filter (recorded_attempt turn) actions)))"

subsection \<open>The conclusion and the resumption of the service\<close>

type_synonym loop_rows = "working_state \<times> investigation"

definition service_conclude ::
  "int option \<Rightarrow> stop_reason \<Rightarrow> datetime \<Rightarrow> loop_rows \<Rightarrow> loop_rows result" where
  "service_conclude expected reason t w = (case w of (s, i) \<Rightarrow>
     if expected \<noteq> None \<and> the expected \<noteq> ws_version s
     then Inl (VersionConflict ''Investigation state version changed'') else
     and_then (ws_conclude reason s) (\<lambda>s'.
     and_then (if inv_active i then inv_conclude reason t i else Inr i) (\<lambda>i'. Inr (s', i'))))"




subsection \<open>The rebase of a concurrent update\<close>

definition user_request_prefix :: string where "user_request_prefix = ''user-request:''"

definition operator_request_prefix :: string where "operator_request_prefix = ''api:user-request:''"

definition protected_action :: "string \<Rightarrow> bool" where
  "protected_action a = (starts_with a user_request_prefix \<or> starts_with a operator_request_prefix)"

fun add_missing :: "string list \<Rightarrow> string list \<Rightarrow> string list \<Rightarrow> string list" where
  "add_missing base merged [] = merged"
| "add_missing base merged (a # as) =
     add_missing base (if a \<notin> set base \<and> a \<notin> set merged then merged @ [a] else merged) as"

definition merged_actions :: "string list \<Rightarrow> string list \<Rightarrow> string list \<Rightarrow> string list" where
  "merged_actions base candidate latest =
     add_missing base (filter (\<lambda>a. \<not> (a \<in> set base \<and> a \<notin> set candidate)) latest) candidate"

definition cap_actions :: "string list \<Rightarrow> string list" where
  "cap_actions merged = (let protected = filter protected_action merged;
       history = filter (\<lambda>a. a \<notin> set protected) merged in
     last_n (recent_actions_limit - length protected) history @ last_n recent_actions_limit protected)"

definition merge_recent_actions :: "string list \<Rightarrow> string list \<Rightarrow> string list \<Rightarrow> string list" where
  "merge_recent_actions base candidate latest = cap_actions (merged_actions base candidate latest)"

text \<open>The value of a field after the rebase, and whether two writers disagree on it.\<close>

definition merge3 :: "'a \<Rightarrow> 'a \<Rightarrow> 'a \<Rightarrow> 'a" where
  "merge3 base candidate latest = (if candidate = base then latest else candidate)"

definition conflict3 :: "'a \<Rightarrow> 'a \<Rightarrow> 'a \<Rightarrow> bool" where
  "conflict3 base candidate latest = (candidate \<noteq> base \<and> latest \<noteq> base \<and> latest \<noteq> candidate)"

definition state_conflict :: "working_state \<Rightarrow> working_state \<Rightarrow> working_state \<Rightarrow> bool" where
  "state_conflict b c l =
     (conflict3 (ws_agenda b) (ws_agenda c) (ws_agenda l)
      \<or> conflict3 (ws_hypotheses b) (ws_hypotheses c) (ws_hypotheses l)
      \<or> conflict3 (ws_turn_index b) (ws_turn_index c) (ws_turn_index l)
      \<or> conflict3 (ws_last_context_sha256 b) (ws_last_context_sha256 c) (ws_last_context_sha256 l)
      \<or> conflict3 (ws_last_decision_sha256 b) (ws_last_decision_sha256 c) (ws_last_decision_sha256 l)
      \<or> conflict3 (ws_pending_context_snapshot_id b) (ws_pending_context_snapshot_id c) (ws_pending_context_snapshot_id l)
      \<or> conflict3 (ws_pending_context_sha256 b) (ws_pending_context_sha256 c) (ws_pending_context_sha256 l)
      \<or> conflict3 (ws_stop_reason b) (ws_stop_reason c) (ws_stop_reason l)
      \<or> conflict3 (ws_no_progress_streak b) (ws_no_progress_streak c) (ws_no_progress_streak l)
      \<or> conflict3 (ws_deduplicated_findings b) (ws_deduplicated_findings c) (ws_deduplicated_findings l)
      \<or> conflict3 (ws_last_seen_evidence_ids b) (ws_last_seen_evidence_ids c) (ws_last_seen_evidence_ids l)
      \<or> conflict3 (ws_last_seen_finding_ids b) (ws_last_seen_finding_ids c) (ws_last_seen_finding_ids l)
      \<or> conflict3 (ws_base_publication_artifact_id b) (ws_base_publication_artifact_id c) (ws_base_publication_artifact_id l)
      \<or> conflict3 (ws_base_publication_sha256 b) (ws_base_publication_sha256 c) (ws_base_publication_sha256 l)
      \<or> conflict3 (ws_execution_mode b) (ws_execution_mode c) (ws_execution_mode l))"

definition merged_fields :: "working_state \<Rightarrow> working_state \<Rightarrow> working_state \<Rightarrow> working_state" where
  "merged_fields b c l = \<lparr>ws_investigation_id = ws_investigation_id l,
     ws_agenda = merge3 (ws_agenda b) (ws_agenda c) (ws_agenda l),
     ws_hypotheses = merge3 (ws_hypotheses b) (ws_hypotheses c) (ws_hypotheses l),
     ws_turn_index = merge3 (ws_turn_index b) (ws_turn_index c) (ws_turn_index l),
     ws_last_context_sha256 = merge3 (ws_last_context_sha256 b) (ws_last_context_sha256 c) (ws_last_context_sha256 l),
     ws_last_decision_sha256 = merge3 (ws_last_decision_sha256 b) (ws_last_decision_sha256 c) (ws_last_decision_sha256 l),
     ws_pending_context_snapshot_id =
       merge3 (ws_pending_context_snapshot_id b) (ws_pending_context_snapshot_id c) (ws_pending_context_snapshot_id l),
     ws_pending_context_sha256 =
       merge3 (ws_pending_context_sha256 b) (ws_pending_context_sha256 c) (ws_pending_context_sha256 l),
     ws_stop_reason = merge3 (ws_stop_reason b) (ws_stop_reason c) (ws_stop_reason l),
     ws_no_progress_streak = merge3 (ws_no_progress_streak b) (ws_no_progress_streak c) (ws_no_progress_streak l),
     ws_deduplicated_findings =
       merge3 (ws_deduplicated_findings b) (ws_deduplicated_findings c) (ws_deduplicated_findings l),
     ws_last_seen_evidence_ids =
       merge3 (ws_last_seen_evidence_ids b) (ws_last_seen_evidence_ids c) (ws_last_seen_evidence_ids l),
     ws_last_seen_finding_ids =
       merge3 (ws_last_seen_finding_ids b) (ws_last_seen_finding_ids c) (ws_last_seen_finding_ids l),
     ws_base_publication_artifact_id =
       merge3 (ws_base_publication_artifact_id b) (ws_base_publication_artifact_id c) (ws_base_publication_artifact_id l),
     ws_base_publication_sha256 =
       merge3 (ws_base_publication_sha256 b) (ws_base_publication_sha256 c) (ws_base_publication_sha256 l),
     ws_execution_mode = merge3 (ws_execution_mode b) (ws_execution_mode c) (ws_execution_mode l),
     ws_version = ws_version l + 1,
     ws_recent_actions = merge_recent_actions (ws_recent_actions b) (ws_recent_actions c) (ws_recent_actions l)\<rparr>"

definition rebase_update :: "working_state \<Rightarrow> working_state \<Rightarrow> working_state \<Rightarrow> working_state result" where
  "rebase_update b c l =
     (if ws_investigation_id b \<noteq> ws_investigation_id c \<or> ws_investigation_id b \<noteq> ws_investigation_id l
      then Inl (VersionConflict ''Investigation state identity changed'')
      else if state_conflict b c l then Inl (VersionConflict ''Investigation state changed concurrently'')
      else working_state_post_init (merged_fields b c l))"

subsection \<open>Lemmas on the rebase\<close>

lemma post_init_state:
  "working_state_post_init s = Inr s' \<Longrightarrow> s' = s\<lparr>ws_recent_actions := last_n recent_actions_limit (ws_recent_actions s)\<rparr>"
  by (simp add: working_state_post_init_def validated_Inr)

lemma add_missing_split:
  "\<exists>new. add_missing base merged cs = merged @ new \<and> set new = {a \<in> set cs. a \<notin> set base \<and> a \<notin> set merged}
     \<and> length new \<le> length (filter (\<lambda>a. a \<notin> set base) cs)"
proof (induction cs arbitrary: merged)
  case (Cons c cs)
  let ?m = "if c \<notin> set base \<and> c \<notin> set merged then merged @ [c] else merged"
  obtain new where "add_missing base ?m cs = ?m @ new" "set new = {a \<in> set cs. a \<notin> set base \<and> a \<notin> set ?m}"
    "length new \<le> length (filter (\<lambda>a. a \<notin> set base) cs)" using Cons by blast
  then show ?case
    by (intro exI [of _ "(if c \<notin> set base \<and> c \<notin> set merged then [c] else []) @ new"]) auto
qed simp

lemma in_last_n: "x \<in> set xs \<Longrightarrow> length xs \<le> n \<Longrightarrow> x \<in> set (last_n n xs)"
  by (simp add: last_n_short)

lemma last_n_suffix: "length ys \<le> n \<Longrightarrow> set ys \<subseteq> set (last_n n (xs @ ys))"
  by (simp add: last_n_def)

lemma length_cap_actions: "length (cap_actions merged) \<le> recent_actions_limit"
  by (simp add: cap_actions_def Let_def)

lemma rebase_result:
  assumes "rebase_update b c l = Inr m"
  shows "m = merged_fields b c l \<and> \<not> state_conflict b c l"
  using assms length_cap_actions
  by (auto simp: rebase_update_def merged_fields_def merge_recent_actions_def last_n_short
      dest!: post_init_state split: if_splits)

text \<open>The requests of the merged history: those of the row that the job did not acknowledge, then the job's own.\<close>

lemma filter_fromkeys: "filter P (fromkeys xs) = fromkeys (filter P xs)"
proof (induction xs)
  case (Cons x xs)
  have "filter P (filter (\<lambda>y. y \<noteq> x) (fromkeys xs)) = filter (\<lambda>y. y \<noteq> x) (filter P (fromkeys xs))"
    by (simp add: conj_commute)
  moreover have "filter (\<lambda>y. y \<noteq> x) ys = ys" if "x \<notin> set ys" for ys using that by (induction ys) auto
  ultimately show ?case using Cons by auto
qed simp

lemma add_missing_fromkeys:
  "add_missing base merged cs = merged @ fromkeys (filter (\<lambda>a. a \<notin> set base \<and> a \<notin> set merged) cs)"
proof (induction cs arbitrary: merged)
  case (Cons c cs)
  have "filter (\<lambda>y. y \<noteq> c) (fromkeys (filter (\<lambda>a. a \<notin> set base \<and> a \<notin> set merged) cs))
      = fromkeys (filter (\<lambda>a. a \<notin> set base \<and> a \<notin> set (merged @ [c])) cs)"
    by (simp add: filter_fromkeys) (meson)
  with Cons show ?case by auto
qed simp

definition waiting_requests :: "string list \<Rightarrow> string list \<Rightarrow> string list \<Rightarrow> string list" where
  "waiting_requests base candidate latest =
     filter (\<lambda>a. protected_action a \<and> (a \<in> set base \<longrightarrow> a \<in> set candidate)) latest
     @ fromkeys (filter (\<lambda>a. protected_action a \<and> a \<notin> set base \<and> a \<notin> set latest) candidate)"

lemma merged_requests:
  "filter protected_action (merged_actions base candidate latest) = waiting_requests base candidate latest"
  unfolding merged_actions_def add_missing_fromkeys waiting_requests_def
  by (auto simp: filter_fromkeys intro!: arg_cong2 [where f = append] arg_cong [where f = fromkeys] filter_cong)

lemma capped_requests:
  "filter protected_action (cap_actions merged) = last_n recent_actions_limit (filter protected_action merged)"
proof -
  have "filter protected_action (last_n n (filter (\<lambda>a. a \<notin> set (filter protected_action merged)) merged)) = []" for n
    by (auto simp: filter_empty_conv last_n_def dest!: in_set_dropD)
  moreover have "filter protected_action (last_n n (filter protected_action merged)) = last_n n (filter protected_action merged)" for n
    by (auto simp: filter_id_conv last_n_def dest!: in_set_dropD)
  ultimately show ?thesis by (simp add: cap_actions_def Let_def)
qed

text \<open>A protected action is in the history exactly when it survives the cap of the requests.\<close>

lemma protected_kept:
  assumes "a \<in> set merged" and "protected_action a" and "length (filter protected_action merged) \<le> recent_actions_limit"
  shows "a \<in> set (cap_actions merged)"
  using assms by (auto simp: cap_actions_def Let_def intro!: in_last_n)

lemma history_full:
  assumes "recent_actions_limit \<le> length (filter protected_action merged)" and "\<not> protected_action a"
  shows "a \<notin> set (cap_actions merged)"
  using assms by (auto simp: cap_actions_def Let_def last_n_def dest!: in_set_dropD)

lemma new_action_kept:
  assumes "merged = old @ new" and "length (filter protected_action merged) + length new \<le> recent_actions_limit"
    and "a \<in> set new"
  shows "a \<in> set (cap_actions merged)"
proof (cases "protected_action a")
  case True
  with assms show ?thesis by (intro protected_kept) auto
next
  case False
  let ?P = "filter protected_action merged"
  let ?h = "\<lambda>xs. filter (\<lambda>x. x \<notin> set ?P) xs"
  have "length (?h new) \<le> length new" by simp
  with assms(2) have "length (?h new) \<le> recent_actions_limit - length ?P" by linarith
  from last_n_suffix [OF this, of "?h old"] have "set (?h new) \<subseteq> set (last_n (recent_actions_limit - length ?P) (?h merged))"
    by (simp add: assms(1))
  moreover have "a \<in> set (?h new)" using assms(1,3) False by auto
  ultimately show ?thesis by (auto simp: cap_actions_def Let_def)
qed


subsection \<open>Properties\<close>

definition demo_state :: working_state where
  "demo_state = \<lparr>ws_investigation_id = 4, ws_agenda = JArr [], ws_hypotheses = [], ws_turn_index = 0,
     ws_last_context_sha256 = None, ws_last_decision_sha256 = None, ws_pending_context_snapshot_id = None,
     ws_pending_context_sha256 = None, ws_stop_reason = None, ws_no_progress_streak = 0, ws_deduplicated_findings = 0,
     ws_last_seen_evidence_ids = [], ws_last_seen_finding_ids = [], ws_base_publication_artifact_id = None,
     ws_base_publication_sha256 = None, ws_execution_mode = BridgeLed, ws_version = 1, ws_recent_actions = []\<rparr>"

text \<open>
  C32. A rebased update keeps the newest operator requests: when a job saves over a row another writer changed,
  the requests of the result are the last 32 of those that wait, in order: the requests of the row which the job
  did not itself acknowledge, then the job's new ones. So none is lost while at most 32 wait. The result is the
  next version of the row, has at most 32 actions, and has the stop decision of the other writer unless the
  job changed it itself.
\<close>

theorem rebase_keeps_requests:
  assumes "rebase_update b c l = Inr m"
    and "requests = filter (\<lambda>a. protected_action a \<and> (a \<in> set (ws_recent_actions b) \<longrightarrow> a \<in> set (ws_recent_actions c)))
        (ws_recent_actions l)
      @ fromkeys (filter (\<lambda>a. protected_action a \<and> a \<notin> set (ws_recent_actions b) \<and> a \<notin> set (ws_recent_actions l))
          (ws_recent_actions c))"
  shows "filter protected_action (ws_recent_actions m) = drop (length requests - 32) requests
    \<and> (length requests \<le> 32 \<longrightarrow> set requests \<subseteq> set (ws_recent_actions m))
    \<and> length (ws_recent_actions m) \<le> 32
    \<and> ws_stop_reason m = (if ws_stop_reason c = ws_stop_reason b then ws_stop_reason l else ws_stop_reason c)
    \<and> ws_version m = ws_version l + 1"
proof -
  let ?merged = "merged_actions (ws_recent_actions b) (ws_recent_actions c) (ws_recent_actions l)"
  have m: "m = merged_fields b c l" using rebase_result [OF assms(1)] by simp
  have "filter protected_action ?merged = requests" by (simp add: merged_requests waiting_requests_def assms(2))
  then have kept: "filter protected_action (ws_recent_actions m) = drop (length requests - 32) requests"
    by (simp add: m merged_fields_def merge_recent_actions_def capped_requests last_n_def recent_actions_limit_def)
  moreover from kept have "set requests \<subseteq> set (ws_recent_actions m)" if "length requests \<le> 32"
    using that by (metis diff_is_0_eq drop0 filter_is_subset)
  ultimately show ?thesis using length_cap_actions [of ?merged]
    by (simp add: m merged_fields_def merge_recent_actions_def merge3_def recent_actions_limit_def)
qed

theorem rebase_keeps_requests_witness:
  "\<exists>m. rebase_update demo_state (demo_state\<lparr>ws_turn_index := 1, ws_version := 2, ws_recent_actions := [''done'']\<rparr>)
      (demo_state\<lparr>ws_version := 2, ws_recent_actions := [''user-request:x''], ws_stop_reason := Some UserInterrupt\<rparr>) = Inr m
    \<and> ''user-request:x'' \<in> set (ws_recent_actions m) \<and> ws_stop_reason m = Some UserInterrupt \<and> ws_turn_index m = 1"
proof -
  let ?c = "demo_state\<lparr>ws_turn_index := 1, ws_version := 2, ws_recent_actions := [''done'']\<rparr>"
  let ?l = "demo_state\<lparr>ws_version := 2, ws_recent_actions := [''user-request:x''], ws_stop_reason := Some UserInterrupt\<rparr>"
  have "case rebase_update demo_state ?c ?l of Inl e \<Rightarrow> False | Inr m \<Rightarrow> ws_turn_index m = 1" by code_simp
  then obtain m where m: "rebase_update demo_state ?c ?l = Inr m" "ws_turn_index m = 1" by (auto split: sum.splits)
  have "waiting_requests (ws_recent_actions demo_state) (ws_recent_actions ?c) (ws_recent_actions ?l) = [''user-request:x'']"
    by code_simp
  from rebase_keeps_requests [OF m(1) this [unfolded waiting_requests_def, symmetric]]
  have "set [''user-request:x''] \<subseteq> set (ws_recent_actions m)"
    "ws_stop_reason m = (if ws_stop_reason ?c = ws_stop_reason demo_state then ws_stop_reason ?l else ws_stop_reason ?c)"
    by simp_all
  with m show ?thesis by (intro exI [of _ m]) (simp add: demo_state_def)
qed

text \<open>
  The job's own actions can be lost all the same: its new actions are kept when they fit beside the
  requests, but once 32 requests wait, every plain action of the merged history, the job's included,
  is dropped.
\<close>

theorem requests_crowd_out_actions:
  assumes "rebase_update b c l = Inr m" and "a \<in> set (ws_recent_actions c)" and "a \<notin> set (ws_recent_actions b)"
    and "requests = length (filter protected_action
      (merged_actions (ws_recent_actions b) (ws_recent_actions c) (ws_recent_actions l)))"
    and "added = length (filter (\<lambda>x. x \<notin> set (ws_recent_actions b)) (ws_recent_actions c))"
  shows "(requests + added \<le> 32 \<and> a \<notin> set (ws_recent_actions l) \<longrightarrow> a \<in> set (ws_recent_actions m))
    \<and> (32 \<le> requests \<and> \<not> protected_action a \<longrightarrow> a \<notin> set (ws_recent_actions m))"
proof -
  let ?old = "filter (\<lambda>a. \<not> (a \<in> set (ws_recent_actions b) \<and> a \<notin> set (ws_recent_actions c))) (ws_recent_actions l)"
  let ?merged = "merged_actions (ws_recent_actions b) (ws_recent_actions c) (ws_recent_actions l)"
  have m: "ws_recent_actions m = cap_actions ?merged"
    using rebase_result [OF assms(1)] by (simp add: merged_fields_def merge_recent_actions_def)
  obtain new where new: "?merged = ?old @ new"
      "set new = {x \<in> set (ws_recent_actions c). x \<notin> set (ws_recent_actions b) \<and> x \<notin> set ?old}" "length new \<le> added"
    using add_missing_split [of "ws_recent_actions b" ?old "ws_recent_actions c"] assms(5)
    by (auto simp: merged_actions_def)
  have "a \<in> set (ws_recent_actions m)" if "requests + added \<le> 32" "a \<notin> set (ws_recent_actions l)"
    unfolding m by (rule new_action_kept [OF new(1)])
      (use that new assms(2-4) in \<open>auto simp: recent_actions_limit_def\<close>)
  moreover have "a \<notin> set (ws_recent_actions m)" if "32 \<le> requests" "\<not> protected_action a"
    unfolding m by (rule history_full) (use that assms(4) in \<open>simp_all add: recent_actions_limit_def\<close>)
  ultimately show ?thesis by blast
qed

definition many_requests :: "string list" where
  "many_requests = map (\<lambda>k. ''user-request:'' @ int_text (int k)) [0..<32]"

theorem requests_crowd_out_actions_witness:
  "\<exists>m. rebase_update demo_state (demo_state\<lparr>ws_version := 2,
        ws_recent_actions := [''bridge_turn_pre_submission_retry:0:next_attempt=1'']\<rparr>)
      (demo_state\<lparr>ws_version := 2, ws_recent_actions := many_requests\<rparr>) = Inr m
    \<and> ''bridge_turn_pre_submission_retry:0:next_attempt=1'' \<notin> set (ws_recent_actions m)"
proof -
  let ?a = "''bridge_turn_pre_submission_retry:0:next_attempt=1''"
  let ?c = "demo_state\<lparr>ws_version := 2, ws_recent_actions := [?a]\<rparr>"
  let ?l = "demo_state\<lparr>ws_version := 2, ws_recent_actions := many_requests\<rparr>"
  have "\<not> is_error (rebase_update demo_state ?c ?l)" by code_simp
  then obtain m where m: "rebase_update demo_state ?c ?l = Inr m" by (auto simp: is_error_def split: sum.splits)
  have "32 \<le> length (filter protected_action
      (merged_actions (ws_recent_actions demo_state) (ws_recent_actions ?c) (ws_recent_actions ?l)))"
    "\<not> protected_action ?a" by code_simp+
  with requests_crowd_out_actions [OF m, of ?a] m show ?thesis by (auto simp: demo_state_def)
qed



text \<open>
  A late conclusion splits the two rows: the working state keeps the first stop reason, but the
  investigation follows the last one; a permission request followed by an interruption leaves a
  cancelled investigation whose recorded stop reason is the permission.
\<close>

theorem late_conclusion_splits:
  assumes "iv_status i = IRunning" and "ws_stop_reason s = None"
    and "service_conclude e PermissionRequired t (s, i) = Inr w1" and "service_conclude e' UserInterrupt u w1 = Inr w2"
  shows "ws_stop_reason (fst w2) = Some PermissionRequired \<and> fst w2 = fst w1
    \<and> iv_status (snd w1) = IAwaitingReview \<and> iv_status (snd w2) = ICancelled"
  using assms
  by (auto simp: service_conclude_def and_then_Inr ws_conclude_def inv_active_def inv_conclude_def inv_await_review_def
      inv_cancel_def inv_finish_def bump_def dest!: post_init_state split: if_splits prod.splits)

theorem late_conclusion_splits_witness:
  "\<exists>w1 w2. service_conclude None PermissionRequired (utc 5) (demo_state, demo_investigation\<lparr>iv_status := IRunning\<rparr>) = Inr w1
     \<and> service_conclude None UserInterrupt (utc 6) w1 = Inr w2 \<and> iv_status (snd w2) = ICancelled"
proof -
  let ?i = "demo_investigation\<lparr>iv_status := IRunning\<rparr>"
  have "case service_conclude None PermissionRequired (utc 5) (demo_state, ?i) of Inl e \<Rightarrow> False
    | Inr w1 \<Rightarrow> (case service_conclude None UserInterrupt (utc 6) w1 of Inl e \<Rightarrow> False | Inr w2 \<Rightarrow> True)" by code_simp
  then obtain w1 w2 where w: "service_conclude None PermissionRequired (utc 5) (demo_state, ?i) = Inr w1"
    "service_conclude None UserInterrupt (utc 6) w1 = Inr w2" by (auto split: sum.splits)
  moreover have "iv_status ?i = IRunning" "ws_stop_reason demo_state = None" by (simp_all add: demo_state_def)
  ultimately have "iv_status (snd w2) = ICancelled" using late_conclusion_splits by blast
  with w show ?thesis by blast
qed

end
