(* ===== verification/EffectIdentity.thy ===== *)
theory EffectIdentity
  imports Texts
begin

text \<open>
  The identity of one physical external request, \<open>backend/src/cti_app/domain/external_effects.py\<close>: the
  canonical JSON of the request, the digests of its redacted and exact wire images, and the key that
  identifies the effect. Bytes are strings of code points below 256. SHA-256 is the parameter
  \<open>sha\<close>; the two URL functions of the standard library that decode into full Unicode are
  parameters of the definitions that use them.
\<close>

subsection \<open>Canonical JSON\<close>

text \<open>A value the serialiser accepts: no float, no foreign object, integers within the safe range.\<close>

datatype plain =
    PNull
  | PBool bool
  | PInt int
  | PStr string
  | PArr "plain list"
  | PObj "(string \<times> plain) list"

definition max_safe_integer :: int where "max_safe_integer = 2 ^ 53 - 1"

fun normalize_json :: "json \<Rightarrow> plain result"
  and normalize_items :: "json list \<Rightarrow> plain list result"
  and normalize_members :: "(string \<times> json) list \<Rightarrow> (string \<times> plain) list result" where
  "normalize_json JNull = Inr PNull"
| "normalize_json (JBool b) = Inr (PBool b)"
| "normalize_json (JInt i) = (if max_safe_integer < \<bar>i\<bar>
     then Inl (EffectInvalid ''JSON integers must be safe integers'') else Inr (PInt i))"
| "normalize_json (JStr s) = Inr (PStr s)"
| "normalize_json (JUuid u) = Inl (EffectInvalid ''unsupported JSON value: UUID'')"
| "normalize_json (JTime t) = Inl (EffectInvalid ''unsupported JSON value: datetime'')"
| "normalize_json (JArr xs) = and_then (normalize_items xs) (\<lambda>ys. Inr (PArr ys))"
| "normalize_json (JObj ms) = and_then (normalize_members ms) (\<lambda>ns. Inr (PObj ns))"
| "normalize_items [] = Inr []"
| "normalize_items (x # xs) = and_then (normalize_json x) (\<lambda>y. and_then (normalize_items xs) (\<lambda>ys. Inr (y # ys)))"
| "normalize_members [] = Inr []"
| "normalize_members ((k, x) # ms) =
     and_then (normalize_json x) (\<lambda>y. and_then (normalize_members ms) (\<lambda>ns. Inr ((k, y) # ns)))"

definition quote_mark :: char where "quote_mark = CHR 0x22"
definition backslash :: char where "backslash = CHR 0x5C"

text \<open>\<open>json.dumps(value, ensure_ascii=False)\<close> of a string.\<close>

definition escape_char :: "char \<Rightarrow> string" where
  "escape_char c = (if c = quote_mark then [backslash, quote_mark] else if c = backslash then [backslash, backslash]
     else if c = CHR 0x0A then [backslash, CHR ''n''] else if c = CHR 0x0D then [backslash, CHR ''r'']
     else if c = CHR 0x09 then [backslash, CHR ''t''] else if c = CHR 0x0C then [backslash, CHR ''f'']
     else if c = CHR 0x08 then [backslash, CHR ''b'']
     else let n = of_char c :: nat in
       if n < 32 then [backslash, CHR ''u'', CHR ''0'', CHR ''0'', hex_digits ! (n div 16), hex_digits ! (n mod 16)]
       else [c])"

definition json_string :: "string \<Rightarrow> string" where
  "json_string s = quote_mark # concat (map escape_char s) @ [quote_mark]"

definition member_text :: "string \<times> string \<Rightarrow> string" where
  "member_text m = json_string (fst m) @ '':'' @ snd m"

text \<open>
  The members are written in the order of their keys as UTF-16, which below code point 256 is the
  order of the code points.
\<close>

primrec write_jcs :: "plain \<Rightarrow> string" where
  "write_jcs PNull = ''null''"
| "write_jcs (PBool b) = (if b then ''true'' else ''false'')"
| "write_jcs (PInt i) = int_text i"
| "write_jcs (PStr s) = json_string s"
| "write_jcs (PArr xs) = ''['' @ join_with '','' (map write_jcs xs) @ '']''"
| "write_jcs (PObj ms) = ''{'' @ join_with '',''
     (map member_text (sort_key fst (map (map_prod id write_jcs) ms))) @ ''}''"

definition canonical_json_bytes :: "json \<Rightarrow> string result" where
  "canonical_json_bytes v = and_then (normalize_json v) (\<lambda>p. Inr (utf8 (write_jcs p)))"

text \<open>The same value with its members in key order at every depth.\<close>

primrec canon :: "plain \<Rightarrow> plain" where
  "canon PNull = PNull"
| "canon (PBool b) = PBool b"
| "canon (PInt i) = PInt i"
| "canon (PStr s) = PStr s"
| "canon (PArr xs) = PArr (map canon xs)"
| "canon (PObj ms) = PObj (sort_key fst (map (map_prod id canon) ms))"

lemma insort_key_map_prod:
  "insort_key fst (map_prod id f m) (map (map_prod id f) xs) = map (map_prod id f) (insort_key fst m xs)"
  by (induction xs) auto

lemma sort_key_map_prod: "sort_key fst (map (map_prod id f) ms) = map (map_prod id f) (sort_key fst ms)"
proof (induction ms)
  case (Cons m ms)
  then show ?case by (simp only: sort_key_def list.map foldr.simps comp_def insort_key_map_prod)
qed simp

lemma write_canon: "write_jcs (canon p) = write_jcs p"
proof (induction p)
  case (PArr xs)
  then have "map write_jcs (map canon xs) = map write_jcs xs" by simp
  then show ?case by (simp only: canon.simps write_jcs.simps)
next
  case (PObj ms)
  have eq: "map (map_prod id write_jcs) (map (map_prod id canon) ms) = map (map_prod id write_jcs) ms"
    using PObj by (auto intro: snds.intros)
  have "sort_key fst (map (map_prod id write_jcs) (sort_key fst (map (map_prod id canon) ms)))
      = sort_key fst (sort_key fst (map (map_prod id write_jcs) ms))"
    by (simp only: sort_key_map_prod [symmetric] eq)
  also have "\<dots> = sort_key fst (map (map_prod id write_jcs) ms)" by (rule sort_key_id_if_sorted) simp
  finally show ?case by (simp only: canon.simps write_jcs.simps)
qed simp_all

subsection \<open>The canonical text is uniquely readable\<close>

definition hex_value :: "char \<Rightarrow> nat" where
  "hex_value c = (case index_of c hex_digits of None \<Rightarrow> 0 | Some n \<Rightarrow> n)"

definition unescape :: "char \<Rightarrow> char" where
  "unescape c = (if c = CHR ''n'' then CHR 0x0A else if c = CHR ''r'' then CHR 0x0D
     else if c = CHR ''t'' then CHR 0x09 else if c = CHR ''f'' then CHR 0x0C
     else if c = CHR ''b'' then CHR 0x08 else c)"

definition read_char :: "string \<Rightarrow> char \<times> string" where
  "read_char s = (if hd s \<noteq> backslash then (hd s, tl s)
     else if s ! 1 \<noteq> CHR ''u'' then (unescape (s ! 1), drop 2 s)
     else (char_of (16 * hex_value (s ! 4) + hex_value (s ! 5)), drop 6 s))"

lemma hex_value_digit: "n < 16 \<Longrightarrow> hex_value (hex_digits ! n) = n"
proof -
  have "distinct hex_digits" "length hex_digits = 16" by code_simp+
  then show "n < 16 \<Longrightarrow> hex_value (hex_digits ! n) = n" by (simp add: hex_value_def index_of_nth)
qed

lemma read_escape: "read_char (escape_char c @ r) = (c, r)"
proof (cases "c \<in> {quote_mark, backslash, CHR 0x0A, CHR 0x0D, CHR 0x09, CHR 0x0C, CHR 0x08}")
  case True
  then show ?thesis
    by (elim insertE emptyE) (simp_all add: escape_char_def quote_mark_def backslash_def unescape_def read_char_def)
next
  case plain: False
  then have esc: "escape_char c = (if (of_char c :: nat) < 32
      then [backslash, CHR ''u'', CHR ''0'', CHR ''0'', hex_digits ! (of_char c div 16), hex_digits ! (of_char c mod 16)]
      else [c])"
    by (simp add: escape_char_def Let_def)
  show ?thesis
  proof (cases "(of_char c :: nat) < 32")
    case True
    then have "16 * hex_value (hex_digits ! (of_char c div 16)) + hex_value (hex_digits ! (of_char c mod 16)) = (of_char c :: nat)"
      by (simp add: hex_value_digit)
    with True show ?thesis by (simp add: esc read_char_def)
  next
    case False
    with plain show ?thesis by (simp add: esc read_char_def)
  qed
qed

lemma escape_unique:
  assumes "escape_char c @ r = escape_char d @ q"
  shows "c = d \<and> r = q"
  using arg_cong [OF assms, of read_char] by (simp add: read_escape)

lemma escape_no_quote: "escape_char c @ r \<noteq> quote_mark # q"
  by (simp add: escape_char_def Let_def quote_mark_def backslash_def)

lemma escaped_unique:
  "concat (map escape_char s) @ quote_mark # r = concat (map escape_char t) @ quote_mark # q \<Longrightarrow> s = t \<and> r = q"
proof (induction s arbitrary: t)
  case Nil
  then show ?case using escape_no_quote by (cases t) (simp_all, metis)
next
  case (Cons c s)
  show ?case
  proof (cases t)
    case Nil
    with Cons.prems show ?thesis by (simp add: escape_no_quote)
  next
    case tCons: (Cons d t')
    have "escape_char c @ (concat (map escape_char s) @ quote_mark # r)
        = escape_char d @ (concat (map escape_char t') @ quote_mark # q)"
      using Cons.prems tCons by simp
    from escape_unique [OF this] show ?thesis using Cons.IH tCons by auto
  qed
qed

lemma json_string_unique: "json_string s @ r = json_string t @ q \<Longrightarrow> s = t \<and> r = q"
  using escaped_unique [of s r t q] by (simp add: json_string_def)

text \<open>What may follow a value: nothing, or a separator or a closing bracket.\<close>

definition ends_value :: "string \<Rightarrow> bool" where
  "ends_value r = (case r of [] \<Rightarrow> True | c # _ \<Rightarrow> c \<in> {CHR '','', CHR '']'', CHR ''}''})"

lemma ends_value_simps [simp]: "ends_value []" "ends_value (c # r) \<longleftrightarrow> c \<in> {CHR '','', CHR '']'', CHR ''}''}"
  by (simp_all add: ends_value_def)

lemma takeWhile_digits: "list_all digit ds \<Longrightarrow> ends_value r \<Longrightarrow> takeWhile digit (ds @ r) = ds"
  by (induction ds) (auto simp: ends_value_def digit_def takeWhile_eq_Nil_iff split: list.splits)

lemma int_text_unique:
  assumes eq: "int_text i @ r = int_text j @ q" and r: "ends_value r" and q: "ends_value q"
  shows "i = j \<and> r = q"
proof -
  obtain ds where i: "int_text i = (if i < 0 then ''-'' else []) @ ds" "list_all digit ds" "ds \<noteq> []"
    "read_digits (rev ds) = nat \<bar>i\<bar>" using int_text_shape by blast
  obtain es where j: "int_text j = (if j < 0 then ''-'' else []) @ es" "list_all digit es" "es \<noteq> []"
    "read_digits (rev es) = nat \<bar>j\<bar>" using int_text_shape by blast
  have "\<not> digit CHR ''-''" by (simp add: digit_def)
  then have sign: "i < 0 \<longleftrightarrow> j < 0" using eq i j by (cases ds; cases es) (auto split: if_splits)
  then have tails: "ds @ r = es @ q" using eq i(1) j(1) by (simp split: if_splits)
  then have "ds = es" using takeWhile_digits [OF i(2) r] takeWhile_digits [OF j(2) q] by simp
  with tails i(4) j(4) sign show ?thesis by auto
qed

text \<open>A bracketed sequence is read item by item.\<close>

lemma join_Cons: "join_with sep (w # ws) = w @ (if ws = [] then [] else sep @ join_with sep ws)"
  by (cases ws) simp_all

lemma join_unique:
  assumes item: "\<And>x y r q. x \<in> set xs \<Longrightarrow> y \<in> set ys \<Longrightarrow> ends_value r \<Longrightarrow> ends_value q \<Longrightarrow> w x @ r = w y @ q
      \<Longrightarrow> c x = c y \<and> r = q"
    and start: "\<And>x s t. w x @ s \<noteq> e # t" and e: "e \<in> {CHR '']'', CHR ''}''}"
    and eq: "join_with '','' (map w xs) @ e # r = join_with '','' (map w ys) @ e # q"
  shows "map c xs = map c ys \<and> r = q"
  using item eq
proof (induction xs arbitrary: ys)
  case Nil
  then show ?case
    using start [symmetric] by (cases ys) (auto simp: join_Cons)
next
  case (Cons x xs)
  note prems = Cons.prems
  obtain y ys' where ys: "ys = y # ys'"
    using prems(2) start by (cases ys) (auto simp: join_Cons)
  let ?rest = "\<lambda>zs. if zs = [] then [] else '','' @ join_with '','' (map w zs)"
  have heads: "w x @ (?rest xs @ e # r) = w y @ (?rest ys' @ e # q)"
    using prems(2) by (simp add: ys join_Cons)
  have ends: "ends_value (?rest zs @ e # s)" for zs s using e by auto
  have "c x = c y \<and> ?rest xs @ e # r = ?rest ys' @ e # q"
    using prems(1) [OF _ _ ends ends heads] by (simp add: ys)
  then have x: "c x = c y" and tails: "?rest xs @ e # r = ?rest ys' @ e # q" by auto
  show ?case
  proof (cases "xs = [] \<or> ys' = []")
    case True
    with tails e x ys show ?thesis by (auto split: if_splits)
  next
    case False
    with tails have "join_with '','' (map w xs) @ e # r = join_with '','' (map w ys') @ e # q" by simp
    then have "map c xs = map c ys' \<and> r = q"
    proof (rule Cons.IH [rotated])
      fix x' y' u v
      assume "x' \<in> set xs" "y' \<in> set ys'" "ends_value u" "ends_value v" "w x' @ u = w y' @ v"
      then show "c x' = c y' \<and> u = v" by (intro prems(1)) (simp_all add: ys)
    qed
    with x ys show ?thesis by simp
  qed
qed

lemma write_start: "hd (write_jcs p) \<notin> {CHR '']'', CHR ''}''} \<and> write_jcs p \<noteq> []"
proof (cases p)
  case (PInt i)
  obtain ds where ds: "int_text i = (if i < 0 then ''-'' else []) @ ds" "list_all digit ds" "ds \<noteq> []"
    using int_text_shape by blast
  with PInt show ?thesis by (cases ds) (auto simp: digit_def)
qed (simp_all add: json_string_def quote_mark_def)

lemma write_nonclosing: "e \<in> {CHR '']'', CHR ''}''} \<Longrightarrow> write_jcs p @ s \<noteq> e # t"
  using write_start [of p] by (cases "write_jcs p") auto

lemma member_nonclosing: "e \<in> {CHR '']'', CHR ''}''} \<Longrightarrow> member_text m @ s \<noteq> e # t"
  by (auto simp: member_text_def json_string_def quote_mark_def)

text \<open>The kind of a value is its first character.\<close>

definition first_kind :: "char \<Rightarrow> nat" where
  "first_kind c = (if c = CHR ''n'' then 0 else if c = CHR ''t'' then 1 else if c = CHR ''f'' then 2
     else if c = quote_mark then 3 else if c = CHR ''['' then 4 else if c = CHR ''{'' then 5 else 6)"

fun value_kind :: "plain \<Rightarrow> nat" where
  "value_kind PNull = 0"
| "value_kind (PBool b) = (if b then 1 else 2)"
| "value_kind (PStr s) = 3"
| "value_kind (PArr xs) = 4"
| "value_kind (PObj ms) = 5"
| "value_kind (PInt i) = 6"

lemma first_kind_write: "first_kind (hd (write_jcs p @ r)) = value_kind p"
proof (cases p)
  case (PInt i)
  obtain ds where ds: "int_text i = (if i < 0 then ''-'' else []) @ ds" "list_all digit ds" "ds \<noteq> []"
    using int_text_shape by blast
  then obtain c cs where "ds = c # cs" "digit c" by (cases ds) auto
  then have "first_kind (hd (int_text i @ r)) = 6"
    using ds(1) by (auto simp: first_kind_def quote_mark_def digit_def)
  with PInt show ?thesis by simp
qed (simp_all add: json_string_def quote_mark_def first_kind_def)

lemma sorted_members: "map member_text (sort_key fst (map (map_prod id write_jcs) ms))
    = map (\<lambda>m. member_text (fst m, write_jcs (snd m))) (sort_key fst ms)"
  by (simp add: sort_key_map_prod member_text_def del: sort_key_simps)

lemma write_unique:
  "write_jcs p @ r = write_jcs q @ s \<Longrightarrow> ends_value r \<Longrightarrow> ends_value s \<Longrightarrow> canon p = canon q \<and> r = s"
proof (induction p arbitrary: q r s)
  case (PArr xs)
  then obtain ys where q: "q = PArr ys"
    using arg_cong [OF PArr.prems(1), of "\<lambda>t. first_kind (hd t)"] unfolding first_kind_write
    by (cases q) (auto split: if_splits)
  have "map canon xs = map canon ys \<and> r = s"
  proof (rule join_unique [where w = write_jcs and e = "CHR '']''"])
    show "write_jcs x @ u \<noteq> CHR '']'' # t" for x u t by (rule write_nonclosing) simp
    show "join_with '','' (map write_jcs xs) @ CHR '']'' # r = join_with '','' (map write_jcs ys) @ CHR '']'' # s"
      using PArr.prems(1) by (simp add: q)
  next
    fix x y u v
    assume "x \<in> set xs" "ends_value u" "ends_value v" "write_jcs x @ u = write_jcs y @ v"
    then show "canon x = canon y \<and> u = v" by (intro PArr.IH)
  qed simp
  then show ?case by (simp add: q)
next
  case (PObj ms)
  then obtain ns where q: "q = PObj ns"
    using arg_cong [OF PObj.prems(1), of "\<lambda>t. first_kind (hd t)"] unfolding first_kind_write
    by (cases q) (auto split: if_splits)
  let ?w = "\<lambda>m. member_text (fst m, write_jcs (snd m))" and ?c = "map_prod id canon"
  have "map ?c (sort_key fst ms) = map ?c (sort_key fst ns) \<and> r = s"
  proof (rule join_unique [where w = ?w and e = "CHR ''}''"])
    fix m n u v
    assume m: "m \<in> set (sort_key fst ms)" and u: "ends_value u" "ends_value v" and eq: "?w m @ u = ?w n @ v"
    have "fst m = fst n \<and> '':'' @ write_jcs (snd m) @ u = '':'' @ write_jcs (snd n) @ v"
      using eq json_string_unique [of "fst m" "'':'' @ write_jcs (snd m) @ u"] by (simp add: member_text_def)
    then have keys: "fst m = fst n" and vals: "write_jcs (snd m) @ u = write_jcs (snd n) @ v" by simp_all
    have "canon (snd m) = canon (snd n) \<and> u = v"
      using PObj.IH [of m "snd m", OF _ _ vals u] m by (simp add: snds.intros snds.simps)
    with keys show "?c m = ?c n \<and> u = v" by (simp add: prod_eq_iff)
  next
    show "?w x @ u \<noteq> CHR ''}'' # t" for x u t by (rule member_nonclosing) simp
    show "join_with '','' (map ?w (sort_key fst ms)) @ CHR ''}'' # r = join_with '','' (map ?w (sort_key fst ns)) @ CHR ''}'' # s"
      using PObj.prems(1) by (simp add: q sorted_members del: sort_key_simps)
  qed simp_all
  then show ?case by (simp add: q sort_key_map_prod)
next
  case (PStr a)
  then obtain b where q: "q = PStr b"
    using arg_cong [OF PStr.prems(1), of "\<lambda>t. first_kind (hd t)"] unfolding first_kind_write
    by (cases q) (auto split: if_splits)
  with PStr.prems(1) have "json_string a @ r = json_string b @ s" by simp
  from json_string_unique [OF this] q show ?case by simp
next
  case (PInt i)
  then obtain j where q: "q = PInt j"
    using arg_cong [OF PInt.prems(1), of "\<lambda>t. first_kind (hd t)"] unfolding first_kind_write
    by (cases q) (auto split: if_splits)
  with PInt.prems(1) have "int_text i @ r = int_text j @ s" by simp
  from int_text_unique [OF this PInt.prems(2,3)] q show ?case by simp
next
  case (PBool b)
  then have "q = PBool b"
    using arg_cong [OF PBool.prems(1), of "\<lambda>t. first_kind (hd t)"] unfolding first_kind_write
    by (cases q) (auto split: if_splits)
  with PBool.prems show ?case by (simp split: if_splits)
next
  case PNull
  then have "q = PNull"
    using arg_cong [OF PNull.prems(1), of "\<lambda>t. first_kind (hd t)"] unfolding first_kind_write
    by (cases q) (auto split: if_splits)
  with PNull.prems show ?case by simp
qed

subsection \<open>Objects of strings\<close>

text \<open>The images that are hashed are objects with fixed keys and string values.\<close>

definition string_object :: "(string \<times> string) list \<Rightarrow> json" where
  "string_object ms = JObj (map (map_prod id JStr) ms)"

definition object_bytes :: "(string \<times> string) list \<Rightarrow> string" where
  "object_bytes ms = utf8 (write_jcs (PObj (map (map_prod id PStr) ms)))"

lemma string_object_bytes: "canonical_json_bytes (string_object ms) = Inr (object_bytes ms)"
proof -
  have "normalize_members (map (map_prod id JStr) ms) = Inr (map (map_prod id PStr) ms)"
    by (induction ms) auto
  then show ?thesis by (simp add: canonical_json_bytes_def string_object_def object_bytes_def del: write_jcs.simps)
qed

lemma write_exact: "write_jcs p = write_jcs q \<longleftrightarrow> canon p = canon q"
  using write_unique [of p "[]" q "[]"] write_canon [of p] write_canon [of q] by auto

lemma object_bytes_exact:
  assumes "map fst ms = map fst ns" and "distinct (map fst ms)"
  shows "object_bytes ms = object_bytes ns \<longleftrightarrow> ms = ns"
proof
  have strings: "map (map_prod id canon) (map (map_prod id PStr) zs) = map (map_prod id PStr) zs" for zs :: "(string \<times> string) list"
    by (simp add: prod.map_comp comp_def id_def)
  assume "object_bytes ms = object_bytes ns"
  then have "canon (PObj (map (map_prod id PStr) ms)) = canon (PObj (map (map_prod id PStr) ns))"
    unfolding object_bytes_def utf8_inj write_exact .
  then have "set (sort_key fst (map (map_prod id PStr) ms)) = set (sort_key fst (map (map_prod id PStr) ns))"
    unfolding canon.simps plain.inject strings by (rule arg_cong)
  then have "map_prod id PStr ` set ms = map_prod id PStr ` set ns" by (simp add: id_def)
  moreover have "inj (map_prod (id :: string \<Rightarrow> string) PStr)" by (rule prod.inj_map) (auto intro: injI)
  ultimately have "set ms = set ns" by (simp add: inj_image_eq_iff)
  then have "map_of ms = map_of ns" using assms by (intro map_of_inject_set [THEN iffD2]) auto
  moreover have "map (\<lambda>k. (k, the (map_of zs k))) (map fst zs) = zs" if "distinct (map fst zs)" for zs :: "(string \<times> string) list"
    using that unfolding list.map_comp by (intro map_idI) auto
  ultimately show "ms = ns" using assms by metis
qed simp

text \<open>A list of pairs of strings, as the headers are hashed.\<close>

definition pairs_bytes :: "(string \<times> string) list \<Rightarrow> string" where
  "pairs_bytes ps = utf8 (write_jcs (PArr (map (\<lambda>(a, b). PArr [PStr a, PStr b]) ps)))"

lemma pairs_json_bytes:
  "canonical_json_bytes (JArr (map (\<lambda>(a, b). JArr [JStr a, JStr b]) ps)) = Inr (pairs_bytes ps)"
proof -
  have "normalize_items (map (\<lambda>(a, b). JArr [JStr a, JStr b]) ps) = Inr (map (\<lambda>(a, b). PArr [PStr a, PStr b]) ps)"
    by (induction ps) auto
  then show ?thesis by (simp add: canonical_json_bytes_def pairs_bytes_def del: write_jcs.simps)
qed

lemma pairs_bytes_exact: "pairs_bytes ps = pairs_bytes qs \<longleftrightarrow> ps = qs"
proof
  assume "pairs_bytes ps = pairs_bytes qs"
  then have "map (\<lambda>(a, b). (a, b)) ps = map (\<lambda>(a, b). (a, b)) qs"
    unfolding pairs_bytes_def utf8_inj write_exact
    by (induction ps qs rule: list_induct2') auto
  then show "ps = qs" by simp
qed simp

subsection \<open>Credential names and redaction\<close>

definition without_separators :: "string \<Rightarrow> string" where
  "without_separators s = filter (\<lambda>c. c \<noteq> CHR ''-'' \<and> c \<noteq> CHR ''_'') s"

definition safe_persisted_header_names :: "string list" where
  "safe_persisted_header_names = [''contenttype'', ''contentencoding'', ''accept'', ''acceptencoding'',
     ''contentlength'', ''useragent'', ''idempotencykey'']"

definition credential_parameter_names :: "string list" where
  "credential_parameter_names = map without_separators [''apikey'', ''api_key'', ''access_token'', ''id_token'',
     ''refresh_token'', ''token'', ''client_secret'', ''secret'', ''password'', ''signature'', ''sig'',
     ''x-amz-signature'', ''x-goog-signature'', ''access_key'', ''x_api_key'', ''api-key'', ''auth_token'',
     ''x_auth_token'', ''session_token'', ''private_token'']"

definition token_char :: "char \<Rightarrow> bool" where
  "token_char c = (let n = of_char c :: nat in
     (48 \<le> n \<and> n \<le> 57) \<or> (65 \<le> n \<and> n \<le> 90) \<or> (97 \<le> n \<and> n \<le> 122) \<or> n = 45 \<or> n = 95)"

definition normalize_credential_parameter_name :: "string \<Rightarrow> string result" where
  "normalize_credential_parameter_name name =
     (if name = [] \<or> \<not> list_all token_char name
      then Inl (EffectInvalid ''credential parameter declaration must be a token'')
      else Inr (without_separators (casefold name)))"

text \<open>\<open>bytes.decode("ascii", errors="ignore")\<close>.\<close>

definition ascii_only :: "string \<Rightarrow> string" where
  "ascii_only s = filter (\<lambda>c. of_char c < (128 :: nat)) s"

definition safe_persisted_header_name :: "string \<Rightarrow> bool" where
  "safe_persisted_header_name name =
     (without_separators (casefold (ascii_only name)) \<in> set safe_persisted_header_names)"

text \<open>
  \<open>urllib.parse.unquote_plus\<close> of an ASCII text: a plus is a space, percent escapes are bytes, and the
  bytes are read as UTF-8 with every ill-formed sequence replaced. The result is a list of code points.
\<close>

definition hex_digit_value :: "char \<Rightarrow> int option" where
  "hex_digit_value c = (let n = of_char c :: int in
     if 48 \<le> n \<and> n \<le> 57 then Some (n - 48) else if 65 \<le> n \<and> n \<le> 70 then Some (n - 55)
     else if 97 \<le> n \<and> n \<le> 102 then Some (n - 87) else None)"

fun percent_decode :: "string \<Rightarrow> int list" where
  "percent_decode (c # a # b # s) = (if c = CHR 0x25 \<and> hex_digit_value a \<noteq> None \<and> hex_digit_value b \<noteq> None
     then (16 * the (hex_digit_value a) + the (hex_digit_value b)) # percent_decode s
     else of_char c # percent_decode (a # b # s))"
| "percent_decode s = map of_char s"

definition continuation :: "int \<Rightarrow> int \<Rightarrow> int list \<Rightarrow> bool" where
  "continuation lo hi s = (s \<noteq> [] \<and> lo \<le> hd s \<and> hd s \<le> hi)"

definition second_low :: "int \<Rightarrow> int" where
  "second_low a = (if a = 224 then 160 else if a = 240 then 144 else 128)"

definition second_high :: "int \<Rightarrow> int" where
  "second_high a = (if a = 237 then 159 else if a = 244 then 143 else 191)"

fun utf8_decode :: "nat \<Rightarrow> int list \<Rightarrow> int list" where
  "utf8_decode 0 s = []"
| "utf8_decode (Suc fuel) [] = []"
| "utf8_decode (Suc fuel) (a # s) =
     (if a < 128 then a # utf8_decode fuel s
      else if a < 194 \<or> 244 < a \<or> \<not> continuation (second_low a) (second_high a) s
      then 65533 # utf8_decode fuel s
      else if a < 224 then ((a - 192) * 64 + (hd s - 128)) # utf8_decode fuel (tl s)
      else if \<not> continuation 128 191 (tl s) then 65533 # utf8_decode fuel (tl s)
      else if a < 240
      then ((a - 224) * 4096 + (hd s - 128) * 64 + (hd (tl s) - 128)) # utf8_decode fuel (tl (tl s))
      else if \<not> continuation 128 191 (tl (tl s)) then 65533 # utf8_decode fuel (tl (tl s))
      else ((a - 240) * 262144 + (hd s - 128) * 4096 + (hd (tl s) - 128) * 64 + (hd (tl (tl s)) - 128))
        # utf8_decode fuel (tl (tl (tl s))))"

definition unquote_plus :: "string \<Rightarrow> int list" where
  "unquote_plus s = (let bytes = percent_decode (map (\<lambda>c. if c = CHR ''+'' then CHR '' '' else c) s)
     in utf8_decode (length bytes) bytes)"

text \<open>
  Case folding of a decoded name. The code points outside Latin-1 that fold to ASCII text are listed;
  any other keeps a character outside ASCII, which no credential name has.
\<close>

definition fold_point :: "int \<Rightarrow> int list" where
  "fold_point n = (if (65 \<le> n \<and> n \<le> 90) \<or> (192 \<le> n \<and> n \<le> 222 \<and> n \<noteq> 215) then [n + 32]
     else if n = 223 \<or> n = 7838 then [115, 115] else if n = 383 then [115] else if n = 8490 then [107]
     else if n = 64256 then [102, 102] else if n = 64257 then [102, 105] else if n = 64258 then [102, 108]
     else if n = 64259 then [102, 102, 105] else if n = 64260 then [102, 102, 108]
     else if n = 64261 \<or> n = 64262 then [115, 116] else [n])"

definition normalized_credential_name :: "string \<Rightarrow> int list" where
  "normalized_credential_name raw =
     filter (\<lambda>n. n \<noteq> 45 \<and> n \<noteq> 95) (concat (map fold_point (unquote_plus (ascii_only raw))))"

definition is_credential_parameter_name :: "string list \<Rightarrow> int list \<Rightarrow> bool" where
  "is_credential_parameter_name declared normalized =
     (normalized \<in> set (map (map of_char) (credential_parameter_names @ declared)))"

text \<open>\<open>partition\<close> at the first occurrence of a separator.\<close>

definition before :: "char \<Rightarrow> string \<Rightarrow> string" where
  "before c s = takeWhile (\<lambda>x. x \<noteq> c) s"

definition separator :: "char \<Rightarrow> string \<Rightarrow> string" where
  "separator c s = (if c \<in> set s then [c] else [])"

definition after :: "char \<Rightarrow> string \<Rightarrow> string" where
  "after c s = tl (dropWhile (\<lambda>x. x \<noteq> c) s)"

definition redacted_mark :: string where "redacted_mark = ''<redacted>''"

definition redact_piece :: "string list \<Rightarrow> string \<Rightarrow> string" where
  "redact_piece declared piece = (let name = before CHR ''='' piece in
     if is_credential_parameter_name declared (normalized_credential_name name)
     then name @ separator CHR ''='' piece @ redacted_mark else piece)"

fun param_pieces :: "string \<Rightarrow> string \<times> (char \<times> string) list" where
  "param_pieces [] = ([], [])"
| "param_pieces (c # s) = (case param_pieces s of (p, ps) \<Rightarrow>
     if c = CHR ''&'' \<or> c = CHR '';'' then ([], (c, p) # ps) else (c # p, ps))"

definition redact_parameter_component :: "string list \<Rightarrow> string \<Rightarrow> string" where
  "redact_parameter_component declared s = (case param_pieces s of (p, ps) \<Rightarrow>
     redact_piece declared p @ concat (map (\<lambda>(c, q). c # redact_piece declared q) ps))"

definition redact_target_credentials :: "string list \<Rightarrow> string \<Rightarrow> string" where
  "redact_target_credentials declared target =
     (let before_fragment = before CHR ''#'' target; path = before CHR ''?'' before_fragment in
      path
      @ (if CHR ''?'' \<in> set before_fragment
         then ''?'' @ redact_parameter_component declared (after CHR ''?'' before_fragment) else [])
      @ (if CHR ''#'' \<in> set target
         then ''#'' @ redact_parameter_component declared (after CHR ''#'' target) else []))"

subsection \<open>Wire requests and digests\<close>

record wire_request =
  wr_method :: string
  wr_target :: string
  wr_headers :: "(string \<times> string) list"
  wr_body :: string

definition wire_request_post_init :: "wire_request \<Rightarrow> wire_request result" where
  "wire_request_post_init r = validated
     [(wr_method r = [], EffectInvalid ''wire method must be non-empty bytes''),
      (wr_target r = [], EffectInvalid ''wire target must be non-empty bytes'')] r"

definition wire_image :: "wire_request \<Rightarrow> (string \<times> string) list" where
  "wire_image r = [(''body_b64'', b64url (wr_body r)), (''format'', ''autowork.application-request.v1''),
     (''headers_b64'', b64url (pairs_bytes (map (map_prod b64url b64url) (wr_headers r)))),
     (''method_b64'', b64url (wr_method r)), (''target_b64'', b64url (wr_target r))]"

definition wire_request_sha256 :: "(string \<Rightarrow> string) \<Rightarrow> wire_request \<Rightarrow> string" where
  "wire_request_sha256 sha r = sha (object_bytes (wire_image r))"

text \<open>The request as it may be remembered: no value of a credential parameter or of an unlisted header.\<close>

definition redacted_request :: "string list \<Rightarrow> wire_request \<Rightarrow> wire_request" where
  "redacted_request declared r = r\<lparr>wr_target := redact_target_credentials declared (wr_target r),
     wr_headers := map (\<lambda>(n, v). (n, if safe_persisted_header_name n then v else redacted_mark)) (wr_headers r)\<rparr>"

fun declared_names :: "string list \<Rightarrow> string list result" where
  "declared_names [] = Inr []"
| "declared_names (n # ns) = and_then (normalize_credential_parameter_name n) (\<lambda>m.
     and_then (declared_names ns) (\<lambda>ms. Inr (m # ms)))"

definition application_request_sha256 ::
  "(string \<Rightarrow> string) \<Rightarrow> string list \<Rightarrow> wire_request \<Rightarrow> string result" where
  "application_request_sha256 sha credential_names r = and_then (declared_names credential_names) (\<lambda>declared.
     Inr (sha (object_bytes (wire_image (redacted_request declared r)))))"

lemma wire_image_exact: "wire_image r = wire_image s \<longleftrightarrow> r = s"
proof
  assume eq: "wire_image r = wire_image s"
  then have "b64url (wr_body r) = b64url (wr_body s)" "b64url (wr_method r) = b64url (wr_method s)"
    "b64url (wr_target r) = b64url (wr_target s)"
    "b64url (pairs_bytes (map (map_prod b64url b64url) (wr_headers r)))
      = b64url (pairs_bytes (map (map_prod b64url b64url) (wr_headers s)))"
    unfolding wire_image_def list.inject prod.inject by blast+
  then have "wr_body r = wr_body s" "wr_method r = wr_method s" "wr_target r = wr_target s"
    "map (map_prod b64url b64url) (wr_headers r) = map (map_prod b64url b64url) (wr_headers s)"
    using pairs_bytes_exact b64url_inj by blast+
  moreover have "inj (map_prod b64url b64url)" by (rule prod.inj_map) (auto intro: injI b64url_inj)
  ultimately show "r = s" by (simp add: inj_map_eq_map)
qed simp

lemma image_bytes_exact: "object_bytes (wire_image r) = object_bytes (wire_image s) \<longleftrightarrow> r = s"
proof -
  have "map fst (wire_image r) = map fst (wire_image s)" "distinct (map fst (wire_image r))"
    by (simp_all add: wire_image_def)
  from object_bytes_exact [OF this] show ?thesis by (simp only: wire_image_exact)
qed

subsection \<open>The key of an effect\<close>

text \<open>The bytes of the default occurrence are a constant of the code: the canonical JSON of its object.\<close>

definition occurrence_bytes :: "uuid option \<Rightarrow> string" where
  "occurrence_bytes occ = (case occ of
     None \<Rightarrow> object_bytes [(''kind'', ''default''), (''version'', ''effect-occurrence.v1'')]
   | Some i \<Rightarrow> object_bytes [(''kind'', ''explicit''), (''occurrence_id'', uuid_text i),
       (''version'', ''effect-occurrence.v1'')])"

definition occurrence_sha256 :: "(string \<Rightarrow> string) \<Rightarrow> uuid option \<Rightarrow> string" where
  "occurrence_sha256 sha occ = sha (occurrence_bytes occ)"

record evidence_ref =
  rf_kind :: string
  rf_id :: string
  rf_version :: string
  rf_sha256 :: string

record prepared =
  pe_family :: string
  pe_provider :: string
  pe_provider_scope :: string
  pe_normalizer_version :: string
  pe_canonical_request :: json
  pe_canonical_request_sha256 :: string
  pe_application_request_sha256 :: string
  pe_physical_request_sha256 :: string
  pe_occurrence_id :: "uuid option"
  pe_application_request :: wire_request
  pe_credential_parameter_names :: "string list"
  pe_identity_version :: string
  pe_evidence_refs :: "evidence_ref list"

definition canonical_request_sha256 :: "(string \<Rightarrow> string) \<Rightarrow> json \<Rightarrow> string result" where
  "canonical_request_sha256 sha v = and_then (canonical_json_bytes v) (\<lambda>b. Inr (sha b))"

definition key_payload :: "(string \<Rightarrow> string) \<Rightarrow> uuid \<Rightarrow> prepared \<Rightarrow> (string \<times> string) list" where
  "key_payload sha investigation p =
     [(''canonical_request_sha256'', pe_canonical_request_sha256 p), (''family'', pe_family p),
      (''identity_version'', pe_identity_version p), (''investigation_id'', uuid_text investigation),
      (''normalizer_version'', pe_normalizer_version p),
      (''occurrence_sha256'', occurrence_sha256 sha (pe_occurrence_id p)),
      (''provider'', pe_provider p), (''provider_scope'', pe_provider_scope p)]"

definition key_bytes :: "(string \<Rightarrow> string) \<Rightarrow> uuid \<Rightarrow> prepared \<Rightarrow> string" where
  "key_bytes sha investigation p = ''autowork.effect-key.v1'' @ [CHR 0x00] @ object_bytes (key_payload sha investigation p)"

definition effect_key :: "(string \<Rightarrow> string) \<Rightarrow> uuid \<Rightarrow> prepared \<Rightarrow> string" where
  "effect_key sha investigation p = sha (key_bytes sha investigation p)"

text \<open>
  The digests are recomputed before a request is consumed and before it is handed off; the checks that
  keep credentials out of what is persisted follow in the code and are not part of the model.
\<close>

definition check_digests :: "(string \<Rightarrow> string) \<Rightarrow> prepared \<Rightarrow> unit result" where
  "check_digests sha p = and_then (canonical_request_sha256 sha (pe_canonical_request p)) (\<lambda>c.
     if c \<noteq> pe_canonical_request_sha256 p
     then Inl (EffectInvalid ''canonical request changed after preparation'')
     else and_then (application_request_sha256 sha (pe_credential_parameter_names p) (pe_application_request p)) (\<lambda>a.
       if a \<noteq> pe_application_request_sha256 p
          \<or> wire_request_sha256 sha (pe_application_request p) \<noteq> pe_physical_request_sha256 p
       then Inl (EffectInvalid ''application request changed after preparation'') else Inr ()))"

lemma occurrence_exact:
  assumes "\<And>i. occ = Some i \<Longrightarrow> i < 2 ^ 128" and "\<And>i. occ' = Some i \<Longrightarrow> i < 2 ^ 128"
  shows "occurrence_bytes occ = occurrence_bytes occ' \<longleftrightarrow> occ = occ'"
proof (cases occ; cases occ')
  fix i j assume o: "occ = Some i" "occ' = Some j"
  let ?m = "\<lambda>u. [(''kind'', ''explicit''), (''occurrence_id'', u), (''version'', ''effect-occurrence.v1'')]"
  have "object_bytes (?m (uuid_text i)) = object_bytes (?m (uuid_text j)) \<longleftrightarrow> ?m (uuid_text i) = ?m (uuid_text j)"
    by (rule object_bytes_exact) simp_all
  then show ?thesis using o assms uuid_text_inj by (auto simp: occurrence_bytes_def)
next
  have differ: "occurrence_bytes None \<noteq> occurrence_bytes (Some i)" for i
  proof
    assume "occurrence_bytes None = occurrence_bytes (Some i)"
    then have "canon (PObj (map (map_prod id PStr) [(''kind'', ''default''), (''version'', ''effect-occurrence.v1'')]))
      = canon (PObj (map (map_prod id PStr) [(''kind'', ''explicit''), (''occurrence_id'', uuid_text i),
          (''version'', ''effect-occurrence.v1'')]))"
      by (simp only: occurrence_bytes_def option.case object_bytes_def utf8_inj write_exact)
    then show False using arg_cong [of _ _ "\<lambda>p. case p of PObj ms \<Rightarrow> length ms | _ \<Rightarrow> 0"] by fastforce
  qed
  show ?thesis if "occ = None" "occ' = Some i" for i using differ that by auto
  show ?thesis if "occ = Some i" "occ' = None" for i using differ [of i] that by auto
qed simp

lemma key_bytes_exact:
  "key_bytes sha i p = key_bytes sha j q \<longleftrightarrow> key_payload sha i p = key_payload sha j q"
proof -
  have "map fst (key_payload sha i p) = map fst (key_payload sha j q)" "distinct (map fst (key_payload sha i p))"
    by (simp_all add: key_payload_def)
  from object_bytes_exact [OF this] show ?thesis by (simp add: key_bytes_def)
qed

subsection \<open>Lemmas on redaction\<close>

text \<open>
  The parts of a target: a parameter has a name and perhaps a value, the parameters of a component are separated
  by \<open>&\<close> or \<open>;\<close>, and a target has a path, perhaps a query and perhaps a fragment.
\<close>

type_synonym parameter = "string \<times> string option"
type_synonym parameter_component = "parameter \<times> (char \<times> parameter) list"

definition param_text :: "parameter \<Rightarrow> string" where
  "param_text p = fst p @ (case snd p of None \<Rightarrow> [] | Some v \<Rightarrow> ''='' @ v)"

definition component_text :: "(parameter \<Rightarrow> string) \<Rightarrow> parameter_component \<Rightarrow> string" where
  "component_text f c = f (fst c) @ concat (map (\<lambda>(sep, p). sep # f p) (snd c))"

definition target_text ::
  "(parameter \<Rightarrow> string) \<Rightarrow> string \<Rightarrow> parameter_component option \<Rightarrow> parameter_component option \<Rightarrow> string" where
  "target_text f path query fragment = path
     @ (case query of None \<Rightarrow> [] | Some c \<Rightarrow> ''?'' @ component_text f c)
     @ (case fragment of None \<Rightarrow> [] | Some c \<Rightarrow> ''#'' @ component_text f c)"

text \<open>A credential keeps its name, and its equals sign when it has one.\<close>

definition redacted_param :: "string list \<Rightarrow> parameter \<Rightarrow> string" where
  "redacted_param names p =
     (if is_credential_parameter_name names (normalized_credential_name (fst p))
      then fst p @ (case snd p of None \<Rightarrow> [] | Some v \<Rightarrow> ''='') @ redacted_mark else param_text p)"

definition plain_param :: "string \<Rightarrow> bool" where
  "plain_param s = (CHR ''&'' \<notin> set s \<and> CHR '';'' \<notin> set s)"

definition param_ok :: "parameter \<Rightarrow> bool" where
  "param_ok p = (CHR ''='' \<notin> set (fst p) \<and> plain_param (param_text p))"

definition component_ok :: "parameter_component \<Rightarrow> bool" where
  "component_ok c = (param_ok (fst c) \<and> list_all (\<lambda>(sep, p). sep \<in> {CHR ''&'', CHR '';''} \<and> param_ok p) (snd c))"

definition target_ok :: "string \<Rightarrow> parameter_component option \<Rightarrow> parameter_component option \<Rightarrow> bool" where
  "target_ok path query fragment = (CHR ''?'' \<notin> set path \<and> CHR ''#'' \<notin> set path
     \<and> (case query of None \<Rightarrow> True | Some c \<Rightarrow> component_ok c \<and> CHR ''#'' \<notin> set (component_text param_text c))
     \<and> (case fragment of None \<Rightarrow> True | Some c \<Rightarrow> component_ok c))"

lemma before_append: "c \<notin> set s \<Longrightarrow> before c (s @ c # t) = s" "c \<notin> set s \<Longrightarrow> before c s = s"
  by (induction s) (auto simp: before_def)

lemma after_append: "c \<notin> set s \<Longrightarrow> after c (s @ c # t) = t"
  by (induction s) (auto simp: after_def)

lemma before_after: "c \<in> set s \<Longrightarrow> before c s @ c # after c s = s"
  by (induction s) (auto simp: before_def after_def)

lemma before_free [simp]: "c \<notin> set (before c s)"
  by (auto simp: before_def dest: set_takeWhileD)

lemma param_pieces_plain: "plain_param p \<Longrightarrow> param_pieces p = (p, [])"
  by (induction p) (auto simp: plain_param_def)

lemma param_pieces_append:
  "plain_param p \<Longrightarrow> c \<in> {CHR ''&'', CHR '';''} \<Longrightarrow>
   param_pieces (p @ c # s) = (p, (c, fst (param_pieces s)) # snd (param_pieces s))"
  by (induction p) (auto simp: plain_param_def split: prod.splits)

lemma param_pieces_component:
  "component_ok (p, ps) \<Longrightarrow>
   param_pieces (component_text param_text (p, ps)) = (param_text p, map (\<lambda>(c, q). (c, param_text q)) ps)"
proof (induction ps arbitrary: p)
  case Nil
  then show ?case by (simp add: component_text_def component_ok_def param_ok_def param_pieces_plain)
next
  case (Cons cq ps)
  obtain c q where cq: "cq = (c, q)" by (cases cq)
  have "param_pieces (component_text param_text (q, ps)) = (param_text q, map (\<lambda>(c, q). (c, param_text q)) ps)"
    using Cons by (simp add: cq component_ok_def)
  moreover have "component_text param_text (p, cq # ps) = param_text p @ c # component_text param_text (q, ps)"
    by (simp add: component_text_def cq)
  ultimately show ?case
    using Cons.prems param_pieces_append [of "param_text p" c "component_text param_text (q, ps)"]
    by (simp add: cq component_ok_def param_ok_def)
qed

lemma redact_param: "param_ok p \<Longrightarrow> redact_piece names (param_text p) = redacted_param names p"
  by (cases "snd p") (auto simp: redact_piece_def redacted_param_def param_text_def param_ok_def before_append
      separator_def Let_def)

lemma redact_component:
  "component_ok c \<Longrightarrow> redact_parameter_component names (component_text param_text c) = component_text (redacted_param names) c"
proof (cases c)
  case (Pair p ps)
  assume ok: "component_ok c"
  then have "map (\<lambda>(sep, q). sep # redact_piece names (param_text q)) ps = map (\<lambda>(sep, q). sep # redacted_param names q) ps"
    by (auto simp: Pair component_ok_def list_all_iff redact_param)
  with ok show ?thesis
    using param_pieces_component [of p ps]
    by (simp add: Pair redact_parameter_component_def component_text_def component_ok_def redact_param o_def case_prod_beta'
        cong: map_cong)
qed

text \<open>Every text is a component, every target has its parts.\<close>

lemma param_shape: "plain_param s \<Longrightarrow> \<exists>p. param_ok p \<and> param_text p = s"
proof (cases "CHR ''='' \<in> set s")
  case True
  assume "plain_param s"
  then show ?thesis
    using before_after [OF True]
    by (intro exI [of _ "(before CHR ''='' s, Some (after CHR ''='' s))"]) (simp add: param_ok_def param_text_def)
next
  case False
  assume "plain_param s"
  with False show ?thesis by (intro exI [of _ "(s, None)"]) (simp add: param_ok_def param_text_def)
qed

lemma component_shape: "\<exists>c. component_ok c \<and> component_text param_text c = s"
proof (induction s rule: length_induct)
  case (1 s)
  obtain a r where s: "s = a @ r" "plain_param a" "r \<noteq> [] \<longrightarrow> hd r \<in> {CHR ''&'', CHR '';''}"
  proof
    let ?P = "\<lambda>x. x \<noteq> CHR ''&'' \<and> x \<noteq> CHR '';''"
    show "s = takeWhile ?P s @ dropWhile ?P s" by simp
    show "plain_param (takeWhile ?P s)" by (auto simp: plain_param_def dest: set_takeWhileD)
    show "dropWhile ?P s \<noteq> [] \<longrightarrow> hd (dropWhile ?P s) \<in> {CHR ''&'', CHR '';''}" using hd_dropWhile [of ?P s] by blast
  qed
  obtain p where p: "param_ok p" "param_text p = a" using param_shape [OF s(2)] by blast
  show ?case
  proof (cases r)
    case Nil
    then show ?thesis using p s(1) by (intro exI [of _ "(p, [])"]) (simp add: component_ok_def component_text_def)
  next
    case (Cons c t)
    then have "length t < length s" by (simp add: s(1))
    with 1 obtain d where d: "component_ok d" "component_text param_text d = t" by blast
    have "component_ok (p, (c, fst d) # snd d)" using p(1) d(1) s(3) Cons by (simp add: component_ok_def)
    moreover have "component_text param_text (p, (c, fst d) # snd d) = s"
      using p(2) d(2) by (simp add: component_text_def s(1) Cons)
    ultimately show ?thesis by blast
  qed
qed

lemma target_shape: "\<exists>path query fragment. target_ok path query fragment \<and> target_text param_text path query fragment = s"
proof -
  obtain b f where bf: "s = b @ (case f of None \<Rightarrow> [] | Some t \<Rightarrow> ''#'' @ t)" "CHR ''#'' \<notin> set b"
  proof (cases "CHR ''#'' \<in> set s")
    case True
    with before_after [OF True] that [of "before CHR ''#'' s" "Some (after CHR ''#'' s)"]
    show thesis by simp
  qed (use that [of s None] in simp)
  obtain path q where pq: "b = path @ (case q of None \<Rightarrow> [] | Some t \<Rightarrow> ''?'' @ t)" "CHR ''?'' \<notin> set path"
  proof (cases "CHR ''?'' \<in> set b")
    case True
    with before_after [OF True] that [of "before CHR ''?'' b" "Some (after CHR ''?'' b)"]
    show thesis by simp
  qed (use that [of b None] in simp)
  obtain shape where shape: "component_ok (shape t)" "component_text param_text (shape t) = t" for t
    using component_shape by metis
  show ?thesis
    using bf pq by (intro exI [of _ path] exI [of _ "map_option shape q"] exI [of _ "map_option shape f"])
      (auto simp: target_ok_def target_text_def shape split: option.splits)
qed

lemma redact_shaped:
  assumes "target_ok path query fragment"
  shows "redact_target_credentials names (target_text param_text path query fragment)
    = target_text (redacted_param names) path query fragment"
proof -
  let ?b = "path @ (case query of None \<Rightarrow> [] | Some c \<Rightarrow> ''?'' @ component_text param_text c)"
  have b: "CHR ''#'' \<notin> set ?b" "CHR ''?'' \<notin> set path"
    using assms by (auto simp: target_ok_def split: option.splits)
  have front: "before CHR ''#'' (target_text param_text path query fragment) = ?b"
    using before_append [OF b(1)] by (cases fragment) (simp_all add: target_text_def)
  have query: "before CHR ''?'' ?b = path \<and> (CHR ''?'' \<in> set ?b \<longleftrightarrow> query \<noteq> None)
      \<and> (\<forall>c. query = Some c \<longrightarrow> after CHR ''?'' ?b = component_text param_text c)"
    using before_append [OF b(2)] after_append [OF b(2)] b(2) by (cases query) auto
  have "CHR ''#'' \<in> set (target_text param_text path query fragment) \<longleftrightarrow> fragment \<noteq> None"
    using b(1) by (cases fragment) (auto simp: target_text_def)
  moreover have "after CHR ''#'' (target_text param_text path query fragment) = component_text param_text c"
    if "fragment = Some c" for c
    using after_append [OF b(1), of "component_text param_text c"] that by (simp add: target_text_def)
  ultimately show ?thesis
    unfolding redact_target_credentials_def Let_def front
    using query assms by (auto simp: target_text_def target_ok_def redact_component split: option.splits)
qed

subsection \<open>Properties\<close>

text \<open>
  C20. The canonical JSON is exact: two values have the same canonical bytes if and only if they are the
  same value up to the order of the members of their objects, at every depth.
\<close>

theorem canonical_json_exact:
  assumes "normalize_json v = Inr p" and "normalize_json w = Inr q"
  shows "canonical_json_bytes v = canonical_json_bytes w \<longleftrightarrow> canon p = canon q"
  using assms by (simp add: canonical_json_bytes_def utf8_inj write_exact)

theorem canonical_json_exact_witness:
  "canonical_json_bytes (JObj [(''b'', JArr [JInt (- 7), JNull]), (''a'', JStr ''x'')])
     = canonical_json_bytes (JObj [(''a'', JStr ''x''), (''b'', JArr [JInt (- 7), JNull])])
   \<and> canonical_json_bytes (JArr [JInt 1, JInt 23]) \<noteq> canonical_json_bytes (JArr [JInt 12, JInt 3])"
proof -
  let ?v = "JObj [(''b'', JArr [JInt (- 7), JNull]), (''a'', JStr ''x'')]"
  let ?w = "JObj [(''a'', JStr ''x''), (''b'', JArr [JInt (- 7), JNull])]"
  have "normalize_json ?v = Inr (PObj [(''b'', PArr [PInt (- 7), PNull]), (''a'', PStr ''x'')])"
    "normalize_json ?w = Inr (PObj [(''a'', PStr ''x''), (''b'', PArr [PInt (- 7), PNull])])"
    by (simp_all add: max_safe_integer_def)
  from canonical_json_exact [OF this] have "canonical_json_bytes ?v = canonical_json_bytes ?w" by simp
  moreover have "normalize_json (JArr [JInt 1, JInt 23]) = Inr (PArr [PInt 1, PInt 23])"
    "normalize_json (JArr [JInt 12, JInt 3]) = Inr (PArr [PInt 12, PInt 3])" by (simp_all add: max_safe_integer_def)
  from canonical_json_exact [OF this] have
    "canonical_json_bytes (JArr [JInt 1, JInt 23]) \<noteq> canonical_json_bytes (JArr [JInt 12, JInt 3])" by simp
  ultimately show ?thesis by blast
qed

text \<open>
  C21. What a target keeps after redaction: every target has a path, perhaps a query and perhaps a fragment, the
  latter two made of parameters, with or without a value, between \<open>&\<close> and \<open>;\<close>. Its redaction has the same
  path and the same parameters in the same places between the same separators: a parameter is kept as it is,
  unless its decoded, case-folded name without dashes and underscores is a credential name, however the name
  was percent-encoded; then its name and its equals sign are kept and the value is replaced.
\<close>

theorem redaction_exact:
  "(\<exists>path query fragment. target_ok path query fragment \<and> target_text param_text path query fragment = target)
   \<and> (\<forall>path query fragment. target_ok path query fragment \<and> target_text param_text path query fragment = target \<longrightarrow>
      redact_target_credentials names target = target_text (redacted_param names) path query fragment)"
  using target_shape redact_shaped by blast

theorem redaction_exact_witness:
  "redact_target_credentials [] ''https://h/v3?ApI%5fKey=S3cret;q=1&sig#to%E2%84%AAen=zz''
     = ''https://h/v3?ApI%5fKey=<redacted>;q=1&sig<redacted>#to%E2%84%AAen=<redacted>''
   \<and> redact_target_credentials [] ''/a?token=1'' = ''/a?token=<redacted>''"
proof -
  let ?q = "((''ApI%5fKey'', Some ''S3cret''), [(CHR '';'', (''q'', Some ''1'')), (CHR ''&'', (''sig'', None))])"
  let ?f = "((''to%E2%84%AAen'', Some ''zz''), [])" and ?t = "((''token'', Some ''1''), [])"
  have "target_ok ''https://h/v3'' (Some ?q) (Some ?f)" "target_ok ''/a'' (Some ?t) None" by code_simp+
  moreover have "target_text param_text ''https://h/v3'' (Some ?q) (Some ?f)
      = ''https://h/v3?ApI%5fKey=S3cret;q=1&sig#to%E2%84%AAen=zz''" "target_text param_text ''/a'' (Some ?t) None = ''/a?token=1''"
    "target_text (redacted_param []) ''https://h/v3'' (Some ?q) (Some ?f)
      = ''https://h/v3?ApI%5fKey=<redacted>;q=1&sig<redacted>#to%E2%84%AAen=<redacted>''"
    "target_text (redacted_param []) ''/a'' (Some ?t) None = ''/a?token=<redacted>''" by code_simp+
  ultimately show ?thesis
    using redaction_exact [of "''https://h/v3?ApI%5fKey=S3cret;q=1&sig#to%E2%84%AAen=zz''" "[]"]
      redaction_exact [of "''/a?token=1''" "[]"] by metis
qed

text \<open>
  The two digests of a request say what they are for: when the hash does not collide on the images at
  hand, the physical digest identifies the exact wire request, and the application digest
  identifies it up to credential values and unlisted header values, and nothing else.
\<close>

theorem digests_exact:
  assumes "declared_names names = Inr declared"
    and "inj_on sha ((\<lambda>x. object_bytes (wire_image x)) ` {r, s, redacted_request declared r, redacted_request declared s})"
  shows "(wire_request_sha256 sha r = wire_request_sha256 sha s \<longleftrightarrow> r = s)
    \<and> (application_request_sha256 sha names r = application_request_sha256 sha names s
        \<longleftrightarrow> redacted_request declared r = redacted_request declared s)"
proof -
  have "sha (object_bytes (wire_image x)) = sha (object_bytes (wire_image y)) \<longleftrightarrow> x = y"
    if "x \<in> {r, s, redacted_request declared r, redacted_request declared s}"
      and "y \<in> {r, s, redacted_request declared r, redacted_request declared s}" for x y
    using inj_on_eq_iff [OF assms(2) imageI [OF that(1)] imageI [OF that(2)]] by (simp only: image_bytes_exact)
  then show ?thesis
    using assms(1) by (simp add: wire_request_sha256_def application_request_sha256_def)
qed

definition demo_wire :: "string \<Rightarrow> string \<Rightarrow> wire_request" where
  "demo_wire key body = \<lparr>wr_method = ''POST'', wr_target = ''/v3?apikey='' @ key,
     wr_headers = [(''X-Apikey'', key), (''Accept'', ''*/*'')], wr_body = body\<rparr>"

theorem digests_exact_witness:
  "application_request_sha256 id [] (demo_wire ''k1'' ''b'') = application_request_sha256 id [] (demo_wire ''k2'' ''b'')
   \<and> wire_request_sha256 id (demo_wire ''k1'' ''b'') \<noteq> wire_request_sha256 id (demo_wire ''k2'' ''b'')"
proof -
  have "redacted_request [] (demo_wire ''k1'' ''b'') = redacted_request [] (demo_wire ''k2'' ''b'')" by code_simp
  moreover have "demo_wire ''k1'' ''b'' \<noteq> demo_wire ''k2'' ''b''" by (simp add: demo_wire_def)
  ultimately show ?thesis
    using digests_exact [of "[]" "[]" id "demo_wire ''k1'' ''b''" "demo_wire ''k2'' ''b''"] by simp
qed

text \<open>
  C19. The key of an effect is its identity: when the hash does not collide on the bytes at hand, two checked
  requests have the same key if and only if they belong to the same investigation, family,
  provider, scope and normalizer, ask for the same canonical request up to member order, and are
  the same occurrence. The wire image, the credentials and the evidence play no part.
\<close>

theorem effect_key_identity:
  assumes "i < 2 ^ 128" and "j < 2 ^ 128"
    and "\<forall>x \<in> set_option (pe_occurrence_id p) \<union> set_option (pe_occurrence_id q). x < 2 ^ 128"
    and "check_digests sha p = Inr ()" and "check_digests sha q = Inr ()"
    and "normalize_json (pe_canonical_request p) = Inr a" and "normalize_json (pe_canonical_request q) = Inr b"
    and "inj_on sha {key_bytes sha i p, key_bytes sha j q, occurrence_bytes (pe_occurrence_id p),
        occurrence_bytes (pe_occurrence_id q), utf8 (write_jcs a), utf8 (write_jcs b)}"
  shows "effect_key sha i p = effect_key sha j q \<longleftrightarrow>
      i = j \<and> pe_family p = pe_family q \<and> pe_provider p = pe_provider q
      \<and> pe_provider_scope p = pe_provider_scope q \<and> pe_normalizer_version p = pe_normalizer_version q
      \<and> pe_identity_version p = pe_identity_version q
      \<and> canon a = canon b \<and> pe_occurrence_id p = pe_occurrence_id q"
proof -
  have digest: "pe_canonical_request_sha256 x = sha (utf8 (write_jcs c))"
    if "check_digests sha x = Inr ()" "normalize_json (pe_canonical_request x) = Inr c" for x c
    using that by (auto simp: check_digests_def canonical_request_sha256_def canonical_json_bytes_def and_then_Inr
      split: if_splits)
  have keys: "effect_key sha i p = effect_key sha j q \<longleftrightarrow> key_payload sha i p = key_payload sha j q"
    using inj_on_eq_iff [OF assms(8)] key_bytes_exact by (simp add: effect_key_def)
  have request: "pe_canonical_request_sha256 p = pe_canonical_request_sha256 q \<longleftrightarrow> canon a = canon b"
    using inj_on_eq_iff [OF assms(8)] digest [OF assms(4,6)] digest [OF assms(5,7)]
    by (simp add: utf8_inj write_exact)
  have occurrence: "occurrence_sha256 sha (pe_occurrence_id p) = occurrence_sha256 sha (pe_occurrence_id q)
      \<longleftrightarrow> pe_occurrence_id p = pe_occurrence_id q"
    using inj_on_eq_iff [OF assms(8)] assms(3) occurrence_exact by (simp add: occurrence_sha256_def)
  have "uuid_text i = uuid_text j \<longleftrightarrow> i = j" using assms(1,2) uuid_text_inj by blast
  with keys request occurrence show ?thesis by (auto simp: key_payload_def)
qed

text \<open>A hash that separates the texts of one request, to apply the theorem.\<close>

definition demo_sha :: "string \<Rightarrow> string" where
  "demo_sha s = replicate 64 (s ! 2)"

definition demo_prepared :: "string \<Rightarrow> prepared" where
  "demo_prepared body = \<lparr>pe_family = ''vt'', pe_provider = ''virustotal'', pe_provider_scope = ''public'',
     pe_normalizer_version = ''v1'', pe_canonical_request = JObj [(''hash'', JStr ''ab'')],
     pe_canonical_request_sha256 = demo_sha (object_bytes [(''hash'', ''ab'')]),
     pe_application_request_sha256 =
       (case application_request_sha256 demo_sha [] (demo_wire ''k'' body) of Inr d \<Rightarrow> d | Inl e \<Rightarrow> []),
     pe_physical_request_sha256 = wire_request_sha256 demo_sha (demo_wire ''k'' body),
     pe_occurrence_id = None, pe_application_request = demo_wire ''k'' body,
     pe_credential_parameter_names = [], pe_identity_version = ''effect-key.v1'',
     pe_evidence_refs = []\<rparr>"

theorem effect_key_identity_witness:
  "effect_key demo_sha 3 (demo_prepared ''x'') = effect_key demo_sha 3 (demo_prepared ''another body'')"
proof -
  let ?p = "demo_prepared ''x''" and ?q = "demo_prepared ''another body''"
  let ?a = "PObj [(''hash'', PStr ''ab'')]"
  have "canonical_json_bytes (JObj [(''hash'', JStr ''ab'')]) = Inr (object_bytes [(''hash'', ''ab'')])"
    using string_object_bytes [of "[(''hash'', ''ab'')]"] by (simp add: string_object_def)
  then have checked: "check_digests demo_sha ?p = Inr ()" "check_digests demo_sha ?q = Inr ()"
    by (simp_all add: check_digests_def demo_prepared_def canonical_request_sha256_def application_request_sha256_def)
  have request: "normalize_json (pe_canonical_request ?p) = Inr ?a" "normalize_json (pe_canonical_request ?q) = Inr ?a"
    by (simp_all add: demo_prepared_def)
  have same: "key_bytes demo_sha 3 ?p = key_bytes demo_sha 3 ?q"
    by (simp add: key_bytes_def key_payload_def demo_prepared_def)
  have "demo_sha (key_bytes demo_sha 3 ?p) = replicate 64 CHR ''t''"
    by (simp add: demo_sha_def key_bytes_def)
  moreover have "demo_sha (occurrence_bytes None) = replicate 64 CHR ''k''"
    "demo_sha (utf8 (write_jcs ?a)) = replicate 64 CHR ''h''" by code_simp+
  moreover have "replicate 64 CHR ''t'' \<noteq> replicate 64 CHR ''k'' \<and> replicate 64 CHR ''t'' \<noteq> replicate 64 CHR ''h''
      \<and> replicate 64 CHR ''k'' \<noteq> replicate 64 CHR ''h''" by simp
  ultimately have "inj_on demo_sha {key_bytes demo_sha 3 ?p, key_bytes demo_sha 3 ?q,
      occurrence_bytes (pe_occurrence_id ?p), occurrence_bytes (pe_occurrence_id ?q), utf8 (write_jcs ?a), utf8 (write_jcs ?a)}"
    unfolding same [symmetric] by (auto simp: demo_prepared_def inj_on_def simp del: write_jcs.simps)
  from effect_key_identity [OF _ _ _ checked request this] show ?thesis by (simp add: demo_prepared_def)
qed

end
