(* ===== verification/EffectRows.thy ===== *)
theory EffectRows
  imports EffectIdentity Investigation Conversation
begin

text \<open>
  The rows the external effects read and write, with the columns their transactions use, the registered
  families, and what the claim store is composed with: the policy guard, the hash, the content of the
  blob store and the check that keeps credentials out of what is persisted.
\<close>

subsection \<open>Rows\<close>

datatype claim_state = ClaimConsumed | ClaimCompleted | ClaimNeedsReview | ClaimNotSubmitted

datatype authority_kind = HumanG2 | OsintPolicy

datatype use_kind = UseSent | UseReused

record authority =
  au_investigation_id :: uuid
  au_invocation_id :: "uuid option"
  au_operation_key :: string
  au_reservation_amounts :: "(string \<times> int) list"
  au_expected_envelope_version :: int
  au_approval_decision_id :: uuid
  au_invocation_arguments_sha256 :: "string option"
  au_bridge_turn_id :: "uuid option"
  au_model_run_id :: "uuid option"
  au_acquisition_attempt_id :: "uuid option"
  au_acquisition_dispatch_attempt_id :: "uuid option"
  au_retrohunt_reservation_id :: "uuid option"
  au_authority_kind :: authority_kind
  au_policy_event_id :: "uuid option"
  au_policy_version :: "string option"
  au_pinned_subject_id :: "uuid option"

definition digest_shape :: "string option \<Rightarrow> bool" where
  "digest_shape d = (case d of None \<Rightarrow> False | Some s \<Rightarrow> is_sha256 s)"

definition authority_post_init :: "authority \<Rightarrow> authority result" where
  "authority_post_init a = validated
     [(blank (au_operation_key a), EffectInvalid ''operation_key is required''),
      (au_expected_envelope_version a < 1, EffectInvalid ''expected_envelope_version must be positive''),
      ((au_invocation_id a \<noteq> None \<or> au_invocation_arguments_sha256 a \<noteq> None)
         \<and> \<not> digest_shape (au_invocation_arguments_sha256 a),
        EffectInvalid ''invocation_arguments_sha256 must be lowercase SHA-256 hex''),
      (au_authority_kind a = OsintPolicy
         \<and> (au_policy_event_id a = None \<or> \<not> truthy (au_policy_version a) \<or> au_pinned_subject_id a = None),
        EffectInvalid ''OSINT_POLICY authority requires policy bindings''),
      (au_authority_kind a \<noteq> OsintPolicy \<and> (au_policy_event_id a \<noteq> None \<or> au_policy_version a \<noteq> None),
        EffectInvalid ''policy bindings require OSINT_POLICY authority''),
      (au_acquisition_attempt_id a \<noteq> None \<and> au_acquisition_dispatch_attempt_id a \<noteq> None,
        EffectInvalid ''terminal and pre-send acquisition identities are mutually exclusive''),
      (list_ex (\<lambda>(d, n). blank d) (au_reservation_amounts a), EffectInvalid ''budget dimension must be non-empty text''),
      (list_ex (\<lambda>(d, n). n < 0) (au_reservation_amounts a),
        EffectInvalid ''reservation amounts must be non-negative integers'')]
     (a\<lparr>au_reservation_amounts := sort_key fst (au_reservation_amounts a)\<rparr>)"

record claim_row =
  ec_id :: uuid
  ec_investigation_id :: uuid
  ec_invocation_id :: "uuid option"
  ec_bridge_turn_id :: "uuid option"
  ec_model_run_id :: "uuid option"
  ec_acquisition_attempt_id :: "uuid option"
  ec_retrohunt_reservation_id :: "uuid option"
  ec_provider :: string
  ec_provider_scope :: string
  ec_family :: string
  ec_effect_key :: string
  ec_canonical_request_sha256 :: string
  ec_application_request_sha256 :: string
  ec_operation_key :: string
  ec_envelope_version :: int
  ec_approval_decision_id :: uuid
  ec_state :: claim_state
  ec_handoff_permit_nonce :: "uuid option"
  ec_version :: int
  ec_evidence_refs :: "evidence_ref list"
  ec_result_ref :: "string option"
  ec_last_error_code :: "string option"
  ec_updated_at :: datetime

record use_row =
  eu_id :: uuid
  eu_claim_id :: uuid
  eu_invocation_id :: uuid
  eu_use_kind :: use_kind
  eu_observation_refs :: "evidence_ref list"
  eu_result_ref :: "string option"
  eu_budget_delta :: "(string \<times> int) list"

record investigation_row =
  ir_id :: uuid
  ir_subject_id :: uuid
  ir_status :: investigation_status
  ir_stop_reason :: "stop_reason option"

record envelope_row =
  en_investigation_id :: uuid
  en_version :: int
  en_approval_decision_id :: uuid
  en_allowed_providers :: "string list"
  en_disclosure_tlp :: "string option"
  en_do_not_submit :: bool
  en_external_llm_allowed :: bool
  en_acquire_hits_allowed :: bool
  en_budget_snapshot :: "inv_budget option"
  en_updated_at :: datetime

record invocation_row =
  ti_id :: uuid
  ti_investigation_id :: uuid
  ti_operation_key :: string
  ti_status :: invocation_status
  ti_normalized_parameters :: json
  ti_passive_read_retry_trusted :: "bool option"
  ti_tool_name :: string
  ti_schema_version :: string
  ti_version :: int
  ti_updated_at :: datetime

record reservation_row =
  rr_investigation_id :: uuid
  rr_operation_key :: string
  rr_status :: reservation_status
  rr_amounts :: "(string \<times> int) list"

datatype dispatch_state = DispatchPrepared | DispatchInProgress | DispatchCompleted | DispatchNotSubmitted
  | DispatchNeedsReview

record dispatch_row =
  sd_id :: uuid
  sd_association_id :: uuid
  sd_investigation_id :: uuid
  sd_invocation_id :: "uuid option"
  sd_operation_key :: string
  sd_requested_hash :: string
  sd_state :: dispatch_state
  sd_version :: int
  sd_updated_at :: datetime

record association_row =
  sr_id :: uuid
  sr_investigation_id :: uuid
  sr_sample_id :: "uuid option"
  sr_sample_sha256 :: string

record retrohunt_row =
  rh_id :: uuid
  rh_investigation_id :: uuid
  rh_subject_id :: uuid
  rh_operation_key :: string
  rh_rule_version_id :: uuid
  rh_rule_source_sha256 :: string
  rh_corpus_id :: string
  rh_corpus_sha256 :: string
  rh_parameters :: json
  rh_state :: string
  rh_version :: int
  rh_updated_at :: datetime

record turn_row =
  tr_id :: uuid
  tr_conversation_id :: uuid
  tr_model_run_id :: uuid
  tr_status :: turn_status
  tr_input_sha256 :: string
  tr_error_code :: "string option"
  tr_finished_at :: "datetime option"

record conversation_row =
  cr_id :: uuid
  cr_subject_id :: "uuid option"
  cr_provider :: string

record model_run_row =
  xr_id :: uuid
  xr_provider :: string
  xr_status :: model_run_status
  xr_submission_state :: submission_state
  xr_submission_attempt :: int
  xr_bridge_request_id :: "string option"
  xr_parameters :: json
  xr_authorized_input_hash :: string
  xr_error_code :: "string option"
  xr_updated_at :: datetime

text \<open>The labels a source carries, shared by samples and documents.\<close>

record source_labels =
  sl_subject_id :: uuid
  sl_tlp :: string
  sl_do_not_submit :: bool
  sl_license_restriction :: "string option"
  sl_external_llm_allowed :: bool

record sample_row = source_labels +
  sm_id :: uuid
  sm_blob_id :: uuid
  sm_expected_hash :: "string option"
  sm_source_object_id :: "string option"

record document_row = source_labels +
  do_id :: uuid

record blob_row =
  bl_id :: uuid
  bl_sha256 :: string

record observation_row =
  ob_id :: uuid
  ob_investigation_id :: uuid
  ob_kind :: string
  ob_blob_id :: uuid
  ob_sha256 :: string
  ob_source :: string
  ob_source_version :: string
  ob_object_type :: string
  ob_object_id :: string

record effect_world =
  xw_claims :: "claim_row list"
  xw_uses :: "use_row list"
  xw_investigations :: "investigation_row list"
  xw_envelopes :: "envelope_row list"
  xw_invocations :: "invocation_row list"
  xw_reservations :: "reservation_row list"
  xw_dispatches :: "dispatch_row list"
  xw_dispatch_links :: "(uuid \<times> uuid) list"
  xw_acquisition_attempts :: "(uuid \<times> uuid) list"
  xw_associations :: "association_row list"
  xw_retrohunts :: "retrohunt_row list"
  xw_turns :: "turn_row list"
  xw_conversations :: "conversation_row list"
  xw_runs :: "model_run_row list"
  xw_subjects :: "uuid list"
  xw_samples :: "sample_row list"
  xw_documents :: "document_row list"
  xw_blobs :: "blob_row list"
  xw_observations :: "observation_row list"

text \<open>The row with a key, and the update of the rows that satisfy a condition.\<close>

definition row_with :: "('r \<Rightarrow> 'k) \<Rightarrow> 'k \<Rightarrow> 'r list \<Rightarrow> 'r option" where
  "row_with key k rows = find (\<lambda>r. key r = k) rows"

definition update_where :: "('r \<Rightarrow> bool) \<Rightarrow> ('r \<Rightarrow> 'r) \<Rightarrow> 'r list \<Rightarrow> 'r list" where
  "update_where cond f rows = map (\<lambda>r. if cond r then f r else r) rows"

subsection \<open>Families and the environment of the store\<close>

record family_binding =
  fb_provider :: string
  fb_provider_scopes :: "string list"
  fb_normalizer_versions :: "string list"
  fb_invocation_tool_binding :: "(string \<times> string) option"
  fb_model_submission :: bool
  fb_requires_model_lineage :: bool
  fb_model_run_provider :: "string option"
  fb_requires_source_refs :: bool
  fb_source_reference_resolver :: "(json \<Rightarrow> evidence_ref list option) option"
  fb_credential_parameter_names :: "string list"

definition family_binding_post_init :: "family_binding \<Rightarrow> family_binding result" where
  "family_binding_post_init f = (case declared_names (fb_credential_parameter_names f) of
     Inl e \<Rightarrow> Inl (ValueError ''invalid family credential parameter declaration'')
   | Inr names \<Rightarrow> validated
       [(fb_requires_source_refs f \<and> fb_source_reference_resolver f = None,
          ValueError ''source-dependent families require a trusted source resolver''),
        (fb_requires_model_lineage f \<and> fb_model_run_provider f = None,
          ValueError ''model-lineage families require a persisted model provider binding'')]
       (f\<lparr>fb_credential_parameter_names := names\<rparr>))"

text \<open>
  The guard answers \<open>None\<close> when it raises, a source resolver likewise. \<open>ev_report\<close> is the content of a
  blob as the blob store gives it back, verified and read by \<open>json.loads\<close> without duplicate members:
  \<open>None\<close> when it cannot be read or parsed. \<open>ev_safe_ref\<close> says that a cited reference is a valid
  \<open>EvidenceReference\<close>.
\<close>

record policy_guard =
  pg_lock :: "authority \<Rightarrow> effect_world \<Rightarrow> bool option"
  pg_authorize :: "authority \<Rightarrow> prepared \<Rightarrow> string \<Rightarrow> effect_world \<Rightarrow> bool option"
  pg_authorize_source :: "authority \<Rightarrow> prepared \<Rightarrow> string \<Rightarrow> effect_world \<Rightarrow> bool option"

record effect_env =
  ev_sha :: "string \<Rightarrow> string"
  ev_families :: "(string \<times> family_binding) list"
  ev_guard :: "policy_guard option"
  ev_permissive :: bool
  ev_persistable :: "prepared \<Rightarrow> bool"
  ev_persistable_ref :: "string \<Rightarrow> bool"
  ev_safe_ref :: "evidence_ref \<Rightarrow> bool"
  ev_report :: "blob_row \<Rightarrow> json option"

definition denied :: "string \<Rightarrow> 'a result" where
  "denied reason = Inl (EffectRefused reason None)"

definition deny_if :: "bool \<Rightarrow> string \<Rightarrow> unit result" where
  "deny_if bad reason = (if bad then denied reason else Inr ())"

definition denied_for :: "string \<Rightarrow> string \<Rightarrow> 'a result" where
  "denied_for reason detail = Inl (EffectRefused reason (Some detail))"

definition has_prefix :: "string list \<Rightarrow> string \<Rightarrow> bool" where
  "has_prefix prefixes family = list_ex (starts_with family) prefixes"

definition model_submission_providers :: "string list" where
  "model_submission_providers =
     [''openai'', ''gemini'', ''qwen'', ''bridge'', ''chatgpt_bridge'', ''openai_chatgpt_bridge'']"

definition model_lineage_prefixes :: "string list" where
  "model_lineage_prefixes = [''bridge.'', ''advisor.'']"

definition acquisition_prefixes :: "string list" where
  "acquisition_prefixes = [''acquisition.'', ''vt.download'']"

definition is_model_submission :: "prepared \<Rightarrow> family_binding \<Rightarrow> bool" where
  "is_model_submission p f = (casefold (pe_provider p) \<in> set model_submission_providers
     \<or> fb_model_submission f \<or> has_prefix model_lineage_prefixes (pe_family p))"

definition requires_model_lineage :: "string \<Rightarrow> family_binding \<Rightarrow> bool" where
  "requires_model_lineage family f = (fb_requires_model_lineage f \<or> has_prefix model_lineage_prefixes family)"

definition family_credentials_match :: "prepared \<Rightarrow> family_binding \<Rightarrow> bool" where
  "family_credentials_match p f =
     (set (pe_credential_parameter_names p) = set (fb_credential_parameter_names f))"

definition ignores_restriction_labels :: "bool \<Rightarrow> string \<Rightarrow> bool" where
  "ignores_restriction_labels permissive family =
     (permissive \<and> has_prefix (model_lineage_prefixes @ [''vt.'']) family)"

definition do_not_submit_blocks :: "string \<Rightarrow> bool \<Rightarrow> bool" where
  "do_not_submit_blocks family flag = (flag \<and> \<not> has_prefix (''vt.'' # model_lineage_prefixes) family)"

definition invocation_arguments_digest ::
  "(string \<Rightarrow> string) \<Rightarrow> json \<Rightarrow> bool option \<Rightarrow> string result" where
  "invocation_arguments_digest sha arguments trusted = and_then
     (canonical_json_bytes (case trusted of None \<Rightarrow> arguments
        | Some b \<Rightarrow> JObj [(''arguments'', arguments), (''passive_read_retry_trusted'', JBool b)]))
     (\<lambda>b. Inr (sha b))"

end
