(* ===== verification/SourcePolicy.thy ===== *)
theory SourcePolicy
  imports EffectRows
begin

text \<open>
  The policies \<open>application/external_effects.py\<close> applies to the sources an external effect cites: the
  labels that keep a source inside, which observed hashes may ground an effect, and how the file
  report of a provider is tied to the hash it was asked for. The texts the policies read out of a
  request are at the head of \<open>infrastructure/database/repositories/external_effects.py\<close>.
\<close>

subsection \<open>Texts\<close>

definition hex_of_length :: "nat list \<Rightarrow> string \<Rightarrow> bool" where
  "hex_of_length ns s = (length s \<in> set ns \<and> all_hex s)"

definition ascii_text :: "string \<Rightarrow> bool" where
  "ascii_text s = list_all (\<lambda>c. (of_char c :: nat) < 128) s"

fun split_at_char :: "char \<Rightarrow> string \<Rightarrow> string list" where
  "split_at_char d [] = [[]]"
| "split_at_char d (c # s) = (if c = d then [] # split_at_char d s
     else case split_at_char d s of [] \<Rightarrow> [[c]] | p # ps \<Rightarrow> (c # p) # ps)"

definition strip_chars :: "char list \<Rightarrow> string \<Rightarrow> string" where
  "strip_chars cs s = rev (dropWhile (\<lambda>c. c \<in> set cs) (rev (dropWhile (\<lambda>c. c \<in> set cs) s)))"

definition ends_with :: "string \<Rightarrow> string \<Rightarrow> bool" where
  "ends_with s p = starts_with (rev s) (rev p)"

function remove_text :: "string \<Rightarrow> string \<Rightarrow> string" where
  "remove_text p s = (if p = [] \<or> s = [] then s
     else if starts_with s p then remove_text p (drop (length p) s) else hd s # remove_text p (tl s))"
  by pat_completeness auto
termination
  by (relation "measure (\<lambda>(p, s). length s)") auto

text \<open>\<open>int(s, 16)\<close>, then \<open>uuid.UUID(s)\<close>.\<close>

definition int_space :: "char \<Rightarrow> bool" where
  "int_space c = (let n = of_char c :: nat in (9 \<le> n \<and> n \<le> 13) \<or> n \<in> {32, 133, 160})"

fun hex_digits_value :: "int \<Rightarrow> string \<Rightarrow> int option" where
  "hex_digits_value n [] = Some n"
| "hex_digits_value n (c # s) = (case (if c = CHR ''_'' then s else c # s) of
     [] \<Rightarrow> None
   | d # r \<Rightarrow> (case hex_digit_value d of None \<Rightarrow> None
       | Some v \<Rightarrow> hex_digits_value (16 * n + v) (if c = CHR ''_'' then tl s else s)))"

definition hex_number :: "string \<Rightarrow> int option" where
  "hex_number s = (case s of [] \<Rightarrow> None
     | c # r \<Rightarrow> (case hex_digit_value c of None \<Rightarrow> None | Some v \<Rightarrow> hex_digits_value v r))"

definition int_base16 :: "string \<Rightarrow> int option" where
  "int_base16 s =
     (let t = rev (dropWhile int_space (rev (dropWhile int_space s)));
          negative = starts_with t ''-''; u = (if negative \<or> starts_with t ''+'' then tl t else t);
          prefixed = starts_with u ''0x'' \<or> starts_with u ''0X'';
          d = (if prefixed then drop 2 u else u);
          v = hex_number (if prefixed \<and> starts_with d ''_'' then tl d else d) in
      map_option (\<lambda>i. if negative then - i else i) v)"

definition parse_uuid :: "string \<Rightarrow> uuid option" where
  "parse_uuid s =
     (let h = filter (\<lambda>c. c \<noteq> CHR ''-'') (strip_chars ''{}'' (remove_text ''uuid:'' (remove_text ''urn:'' s))) in
      if length h \<noteq> 32 then None
      else case int_base16 h of None \<Rightarrow> None | Some i \<Rightarrow> if i < 0 then None else Some (nat i))"

subsection \<open>Labels\<close>

text \<open>\<open>sample\<close>: the source is a sample, otherwise a document.\<close>

definition source_restriction_reason ::
  "bool \<Rightarrow> bool \<Rightarrow> uuid \<Rightarrow> string \<Rightarrow> bool \<Rightarrow> 'a source_labels_scheme \<Rightarrow> string option" where
  "source_restriction_reason permissive sample subject family model s =
     (let ignores = ignores_restriction_labels permissive family;
          restricted = (if sample then ''sample_source_restricted'' else ''source_document_restricted'') in
      if sl_subject_id s \<noteq> subject then Some restricted
      else if \<not> ignores \<and> (casefold (sl_tlp s) = ''red'' \<or> do_not_submit_blocks family (sl_do_not_submit s))
      then Some restricted
      else if sample \<and> \<not> ignores
      then (if \<not> blank (case sl_license_restriction s of None \<Rightarrow> [] | Some x \<Rightarrow> x) then Some ''sample_source_restricted''
        else if model \<and> \<not> sl_external_llm_allowed s then Some ''sample_source_restricted'' else None)
      else if \<not> sample \<and> truthy (sl_license_restriction s) \<and> \<not> ignores then Some ''source_document_restricted''
      else if \<not> sample \<and> model \<and> \<not> sl_external_llm_allowed s \<and> \<not> ignores
      then Some ''source_document_external_llm_not_allowed''
      else None)"

subsection \<open>Observed hashes\<close>

definition is_bridge_family :: "string \<Rightarrow> bool" where
  "is_bridge_family family = has_prefix model_lineage_prefixes family"

definition vt_short_hash_families :: "string list" where
  "vt_short_hash_families = [''vt.file_report'', ''vt.relationships'']"

definition vt_sha256_observation_families :: "string list" where
  "vt_sha256_observation_families = [''vt.file_report'', ''vt.behaviour'', ''vt.behaviour_pcap'', ''vt.relationships'']"

definition base_file_object_types :: "string list" where
  "base_file_object_types = [''sample'', ''file'', ''sample_observation'']"

definition hash_type_aliases :: "string list" where
  "hash_type_aliases = [''md5'', ''sha1'', ''sha256'']"

datatype hash_policy = HashSha256 | HashShortOrSha256 | HashProviderReport | HashReject

definition observation_hash_policy :: "string \<Rightarrow> string \<Rightarrow> string \<Rightarrow> hash_policy option" where
  "observation_hash_policy family source object_type =
     (let t = casefold object_type; bridge = is_bridge_family family in
      if bridge \<and> t \<in> {''md5'', ''sha1''} then Some HashReject
      else if bridge \<and> t = ''file'' \<and> object_type \<noteq> ''file'' then Some HashReject
      else if bridge \<and> t = ''file'' \<and> source = ''VirusTotal'' then Some HashProviderReport
      else let allowed = base_file_object_types
             @ (if family \<in> set vt_short_hash_families then hash_type_aliases
                else if family \<in> set vt_sha256_observation_families \<or> bridge then [''sha256''] else []) in
        if t \<notin> set allowed then None
        else if family \<in> set vt_short_hash_families then Some HashShortOrSha256
        else Some HashSha256)"

definition vt_file_hash_read :: "string \<Rightarrow> bool" where
  "vt_file_hash_read family = (family \<in> set vt_sha256_observation_families)"

definition validate_observation_hash :: "string \<Rightarrow> hash_policy \<Rightarrow> string option" where
  "validate_observation_hash value policy = (case policy of
     HashReject \<Rightarrow> None
   | HashProviderReport \<Rightarrow>
       if \<not> ascii_text value then None
       else if length value = 64 then (if hex_of_length [64] (casefold value) then Some (casefold value) else None)
       else if hex_of_length [32, 40] value then Some value else None
   | HashShortOrSha256 \<Rightarrow> if hex_of_length [32, 40, 64] (casefold value) then Some (casefold value) else None
   | HashSha256 \<Rightarrow> if hex_of_length [64] (casefold value) then Some (casefold value) else None)"

definition provider_report_requires_blob :: "string \<Rightarrow> observation_row \<Rightarrow> bool" where
  "provider_report_requires_blob family x = (is_bridge_family family \<and> ob_source x = ''VirusTotal''
     \<and> ob_object_type x = ''file'' \<and> ob_kind x = ''vt_file_report'' \<and> length (ob_object_id x) \<in> {32, 40, 64})"

subsection \<open>Provider reports\<close>

record report_hashes =
  rp_requested :: string
  rp_md5 :: string
  rp_sha1 :: string
  rp_sha256 :: string

definition report_identifiers :: "report_hashes \<Rightarrow> string list" where
  "report_identifiers r = remdups [rp_requested r, rp_md5 r, rp_sha1 r, rp_sha256 r]"

definition object_member :: "json option \<Rightarrow> string \<Rightarrow> json option" where
  "object_member v k = (case v of Some (JObj ms) \<Rightarrow> map_of ms k | _ \<Rightarrow> None)"

definition sha256_of_text :: "json option \<Rightarrow> string option" where
  "sha256_of_text v = (case v of
     Some (JStr s) \<Rightarrow> if ascii_text s \<and> hex_of_length [64] (casefold s) then Some (casefold s) else None
   | _ \<Rightarrow> None)"

definition hex_member :: "nat \<Rightarrow> json option \<Rightarrow> string option" where
  "hex_member n v = (case v of Some (JStr s) \<Rightarrow> if hex_of_length [n] s then Some s else None | _ \<Rightarrow> None)"

definition requested_report_hash :: "string \<Rightarrow> string option" where
  "requested_report_hash i = (let h = (if length i = 64 then casefold i else i) in
     if ascii_text i \<and> hex_of_length [32, 40, 64] h then Some h else None)"

definition resolve_report_hashes :: "string \<Rightarrow> observation_row \<Rightarrow> json option \<Rightarrow> report_hashes option" where
  "resolve_report_hashes family x report =
     (if \<not> provider_report_requires_blob family x then None
      else let data = object_member report ''data''; attributes = object_member data ''attributes'' in
      case (requested_report_hash (ob_object_id x), hex_member 32 (object_member attributes ''md5''),
            hex_member 40 (object_member attributes ''sha1''), sha256_of_text (object_member attributes ''sha256'')) of
        (Some requested, Some md5, Some sha1, Some sha) \<Rightarrow>
          if object_member data ''type'' = Some (JStr ''file'') \<and> sha256_of_text (object_member data ''id'') = Some sha
             \<and> (length requested = 32 \<longrightarrow> md5 = requested) \<and> (length requested = 40 \<longrightarrow> sha1 = requested)
             \<and> (length requested = 64 \<longrightarrow> requested = sha)
          then Some \<lparr>rp_requested = requested, rp_md5 = md5, rp_sha1 = sha1, rp_sha256 = sha\<rparr>
          else None
      | _ \<Rightarrow> None)"

definition bridge_refusal_action :: "string \<Rightarrow> string" where
  "bridge_refusal_action object_type =
     (if casefold object_type \<in> set (base_file_object_types @ hash_type_aliases)
      then ''drop_ref_or_cite_sha256'' else ''drop_ref'')"

definition matches_report :: "sample_row \<Rightarrow> string list \<Rightarrow> string option \<Rightarrow> bool" where
  "matches_report s hashes blob = list_ex (\<lambda>h. sm_expected_hash s = Some h \<or> sm_source_object_id s = Some h
     \<or> blob = Some h) hashes"

definition report_samples_conflict :: "string list \<Rightarrow> string \<Rightarrow> (sample_row \<times> string) list \<Rightarrow> bool" where
  "report_samples_conflict hashes sha samples =
     (let short = filter (\<lambda>h. length h \<in> {32, 40}) hashes;
          blobs = remdups (map snd (filter (\<lambda>(s, b). matches_report s short None) samples)) in
      1 < length blobs \<or> list_ex (\<lambda>b. b \<noteq> sha) blobs)"

definition may_cite_report_without_sample :: "string \<Rightarrow> observation_row \<Rightarrow> bool" where
  "may_cite_report_without_sample family x = (is_bridge_family family \<and> ob_source x = ''VirusTotal''
     \<and> ob_object_type x = ''file'' \<and> ob_kind x = ''vt_file_report'')"

definition osint_search_may_cite_unassociated :: "authority_kind \<Rightarrow> string \<Rightarrow> string \<Rightarrow> bool" where
  "osint_search_may_cite_unassociated kind provider family =
     (kind = OsintPolicy \<and> provider = ''vt'' \<and> family = ''vt.intelligence_search'')"

subsection \<open>What a request names\<close>

fun json_members :: "json \<Rightarrow> details" where
  "json_members (JObj ms) = ms"
| "json_members v = []"

definition text_member :: "json \<Rightarrow> string \<Rightarrow> string option" where
  "text_member v k = (case map_of (json_members v) k of Some (JStr s) \<Rightarrow> Some s | _ \<Rightarrow> None)"

fun resource_of :: "json \<Rightarrow> string option" where
  "resource_of (JArr [JStr k, JStr v]) = (if k = ''resource'' then Some v else None)"
| "resource_of v = None"

fun after_part :: "string \<Rightarrow> string list \<Rightarrow> string option" where
  "after_part k (p # q # ps) = (if p = k then Some q else after_part k (q # ps))"
| "after_part k ps = None"

definition vt_file_hash_from_request :: "prepared \<Rightarrow> string option" where
  "vt_file_hash_from_request p = (case text_member (pe_canonical_request p) ''path'' of
     None \<Rightarrow> None
   | Some path \<Rightarrow> (case after_part ''files'' (split_at_char (CHR ''/'') path) of
       Some candidate \<Rightarrow> if hex_of_length [32, 40, 64] candidate then Some candidate else None
     | None \<Rightarrow>
         if \<not> ends_with (rev (dropWhile (\<lambda>c. c = CHR ''/'') (rev path))) ''/file/report'' then None
         else (case map_of (json_members (pe_canonical_request p)) ''query'' of
             Some (JArr items) \<Rightarrow> (case List.map_filter resource_of items of
                 [r] \<Rightarrow> if hex_of_length [32, 40, 64] r then Some r else None
               | _ \<Rightarrow> None)
           | _ \<Rightarrow> None)))"

definition sandbox_char :: "int \<Rightarrow> bool" where
  "sandbox_char n = ((48 \<le> n \<and> n \<le> 58) \<or> (65 \<le> n \<and> n \<le> 90) \<or> (97 \<le> n \<and> n \<le> 122) \<or> n \<in> {45, 46, 95})"

fun pcap_part :: "string list \<Rightarrow> string option" where
  "pcap_part (p # q # r # ps) =
     (if p = ''file_behaviours'' \<and> r = ''pcap'' \<and> ps = [] then Some q else pcap_part (q # r # ps))"
| "pcap_part ps = None"

text \<open>A text that is not ASCII after unquoting is no sandbox name, so its decoding as UTF-8 does not matter.\<close>

definition vt_pcap_sandbox_from_request :: "prepared \<Rightarrow> string option" where
  "vt_pcap_sandbox_from_request p = (case text_member (pe_canonical_request p) ''path'' of
     None \<Rightarrow> None
   | Some path \<Rightarrow> (case pcap_part (split_at_char (CHR ''/'') (strip_chars ''/'' path)) of
       None \<Rightarrow> None
     | Some q \<Rightarrow> (let d = percent_decode q in
         if list_all sandbox_char d \<and> 1 \<le> length d \<and> length d \<le> 256 then Some (map (\<lambda>n. char_of (nat n)) d) else None)))"

definition safe_name_char :: "char \<Rightarrow> char" where
  "safe_name_char c = (if sandbox_char (of_char c) \<and> c \<noteq> CHR '':'' then c else CHR ''_'')"

definition observation_refusal_detail :: "observation_row \<Rightarrow> string" where
  "observation_refusal_detail x =
     (let t = (if ob_object_type x = [] then ''unknown'' else take 16 (map safe_name_char (ob_object_type x)));
          s = (if ob_source x = [] then ''unknown'' else take 11 (map safe_name_char (ob_source x)));
          n = (if length (ob_object_id x) \<le> 999 then int_text (int (length (ob_object_id x))) else ''large'') in
      ''id='' @ filter (\<lambda>c. c \<noteq> CHR ''-'') (uuid_text (ob_id x)) @ '':t='' @ t @ '':s='' @ s @ '':h='' @ n
        @ '':a='' @ bridge_refusal_action (ob_object_type x))"

end
