(* ===== verification/SourceRestrictions.thy ===== *)
theory SourceRestrictions
  imports SourcePolicy
begin

text \<open>
  The checks of the claim store on what an effect cites, \<open>_validate_external_source_refs\<close> and
  \<open>_check_source_restrictions\<close> in \<open>infrastructure/database/repositories/external_effects.py\<close>. The first
  compares the cited references with those the trusted resolver of the family derives from the
  persisted inputs; the second finds the samples and documents behind them and refuses the effect when
  one of them is missing, belongs elsewhere or carries a label that keeps it inside. Python sets are
  lists of which only the members matter.
\<close>

subsection \<open>The cited references\<close>

definition source_kinds :: "string list" where
  "source_kinds = [''sample'', ''sample_association_sample'', ''sample_association'', ''source_document'',
     ''document'', ''article'', ''evidence_observation'']"

fun check_reference_shapes :: "evidence_ref list \<Rightarrow> unit result" where
  "check_reference_shapes [] = Inr ()"
| "check_reference_shapes (r # rs) =
     (if rf_kind r = ''sample_hash''
      then (if hex_of_length [64] (rf_id r) then check_reference_shapes rs else denied ''malformed_source_reference'')
      else if rf_kind r \<in> set source_kinds
      then (if parse_uuid (rf_id r) = None then denied ''malformed_source_reference'' else check_reference_shapes rs)
      else denied ''unrecognized_source_reference_kind'')"

text \<open>Two lists sort to the same list exactly when they hold the same references as often.\<close>

definition same_references :: "evidence_ref list \<Rightarrow> evidence_ref list \<Rightarrow> bool" where
  "same_references xs ys = list_all (\<lambda>r. count_list xs r = count_list ys r) (xs @ ys)"

definition hash_references :: "prepared \<Rightarrow> evidence_ref list" where
  "hash_references p = filter (\<lambda>r. rf_kind r = ''sample_hash'') (pe_evidence_refs p)"

definition compare_family_source_refs :: "effect_env \<Rightarrow> evidence_ref list \<Rightarrow> prepared \<Rightarrow> unit result" where
  "compare_family_source_refs env expected p =
     (if expected = [] then denied ''source_references_required''
      else if list_ex (\<lambda>r. \<not> ev_safe_ref env r) (expected @ pe_evidence_refs p)
      then denied ''malformed_source_references''
      else and_then (check_reference_shapes (expected @ pe_evidence_refs p)) (\<lambda>_.
        if pe_evidence_refs p = [] \<or> \<not> same_references (pe_evidence_refs p) expected
        then denied ''source_references_mismatch''
        else if pe_family p \<in> {''vt.file_report'', ''vt.behaviour'', ''vt.relationships''} \<and> hash_references p \<noteq> []
          \<and> (length (hash_references p) \<noteq> 1 \<or> vt_file_hash_from_request p \<noteq> Some (rf_id (hd (hash_references p))))
        then denied ''vt_source_hash_request_mismatch''
        else Inr ()))"

definition resolved_refs :: "family_binding \<Rightarrow> json \<Rightarrow> evidence_ref list result" where
  "resolved_refs f inputs = (case fb_source_reference_resolver f of None \<Rightarrow> denied ''trusted_source_inputs_required''
     | Some resolve \<Rightarrow> (case resolve inputs of None \<Rightarrow> denied ''trusted_source_reference_resolution_failed''
         | Some refs \<Rightarrow> Inr refs))"

definition validate_family_source_refs ::
  "effect_env \<Rightarrow> family_binding \<Rightarrow> invocation_row option \<Rightarrow> prepared \<Rightarrow> unit result" where
  "validate_family_source_refs env f v p =
     (if \<not> fb_requires_source_refs f then Inr ()
      else case v of None \<Rightarrow> denied ''trusted_source_inputs_required''
      | Some x \<Rightarrow> and_then (resolved_refs f (ti_normalized_parameters x)) (\<lambda>expected.
          and_then (compare_family_source_refs env expected p) (\<lambda>_.
            if pe_family p = ''vt.behaviour_pcap''
               \<and> (length (hash_references p) \<noteq> 1
                  \<or> text_member (ti_normalized_parameters x) ''file_hash'' \<noteq> Some (rf_id (hd (hash_references p)))
                  \<or> text_member (ti_normalized_parameters x) ''sandbox_id'' = None
                  \<or> vt_pcap_sandbox_from_request p \<noteq> text_member (ti_normalized_parameters x) ''sandbox_id'')
            then denied ''vt_source_hash_request_mismatch'' else Inr ())))"

definition resolver_inputs :: "prepared \<Rightarrow> model_run_row \<Rightarrow> turn_row \<Rightarrow> json" where
  "resolver_inputs p m n = JObj (put ''_bridge_external_effect_turn_input_hash'' (JStr (tr_input_sha256 n))
     (put ''_bridge_external_effect_run_input_hash'' (JStr (xr_authorized_input_hash m))
     (put ''_bridge_external_effect_family'' (JStr (pe_family p)) (json_members (xr_parameters m)))))"

fun is_object :: "json \<Rightarrow> bool" where
  "is_object (JObj ms) = True"
| "is_object v = False"

definition validate_model_source_refs ::
  "effect_env \<Rightarrow> authority \<Rightarrow> family_binding \<Rightarrow> prepared \<Rightarrow> effect_world \<Rightarrow> unit result" where
  "validate_model_source_refs env a f p w =
     (if \<not> fb_requires_source_refs f then Inr ()
      else case (au_bridge_turn_id a, au_model_run_id a, fb_source_reference_resolver f) of
        (Some turn, Some run, Some resolve) \<Rightarrow>
          (case (row_with tr_id turn (xw_turns w), row_with xr_id run (xw_runs w)) of
             (Some n, Some m) \<Rightarrow>
               if tr_model_run_id n \<noteq> xr_id m \<or> \<not> is_object (xr_parameters m)
               then denied ''trusted_source_reference_resolution_failed''
               else and_then (resolved_refs f (resolver_inputs p m n)) (\<lambda>expected.
                 compare_family_source_refs env expected p)
           | _ \<Rightarrow> denied ''trusted_source_reference_resolution_failed'')
      | _ \<Rightarrow> denied ''trusted_source_inputs_required'')"

definition validate_external_source_refs ::
  "effect_env \<Rightarrow> authority \<Rightarrow> family_binding \<Rightarrow> invocation_row option \<Rightarrow> prepared \<Rightarrow> effect_world \<Rightarrow> unit result" where
  "validate_external_source_refs env a f v p w =
     (if fb_requires_model_lineage f then validate_model_source_refs env a f p w
      else validate_family_source_refs env f v p)"

subsection \<open>What the references name\<close>

record cited =
  ci_sample_ids :: "uuid list"
  ci_referenced_sample_ids :: "uuid list"
  ci_association_ids :: "uuid list"
  ci_association_sample_refs :: "(uuid \<times> evidence_ref) list"
  ci_document_ids :: "uuid list"
  ci_sample_hashes :: "string list"
  ci_observations :: "(uuid \<times> evidence_ref) list"

definition nothing_cited :: cited where
  "nothing_cited = \<lparr>ci_sample_ids = [], ci_referenced_sample_ids = [], ci_association_ids = [],
     ci_association_sample_refs = [], ci_document_ids = [], ci_sample_hashes = [], ci_observations = []\<rparr>"

definition cite_by_id :: "bool \<Rightarrow> evidence_ref \<Rightarrow> uuid \<Rightarrow> cited \<Rightarrow> cited result" where
  "cite_by_id bridge r i g =
     (if rf_kind r = ''sample_association_sample'' \<and> bridge
      then (case map_of (ci_association_sample_refs g) i of
          Some old \<Rightarrow> if old \<noteq> r then denied ''conflicting_sample_association_reference'' else Inr g
        | None \<Rightarrow> Inr (g\<lparr>ci_association_sample_refs := (i, r) # ci_association_sample_refs g,
            ci_association_ids := i # ci_association_ids g\<rparr>))
      else if rf_kind r \<in> {''sample'', ''sample_association_sample''}
      then Inr (g\<lparr>ci_sample_ids := i # ci_sample_ids g, ci_referenced_sample_ids := i # ci_referenced_sample_ids g\<rparr>)
      else if rf_kind r = ''sample_association'' then Inr (g\<lparr>ci_association_ids := i # ci_association_ids g\<rparr>)
      else if rf_kind r \<in> {''source_document'', ''document''} then Inr (g\<lparr>ci_document_ids := i # ci_document_ids g\<rparr>)
      else Inr g)"

definition cite :: "bool \<Rightarrow> bool \<Rightarrow> evidence_ref \<Rightarrow> cited \<Rightarrow> cited result" where
  "cite model bridge r g =
     (if rf_kind r = ''sample_hash''
      then (if hex_of_length [64] (rf_id r) then Inr (g\<lparr>ci_sample_hashes := rf_id r # ci_sample_hashes g\<rparr>)
        else denied ''malformed_sample_hash_reference'')
      else if rf_kind r \<notin> set source_kinds
      then (if model then denied ''unrecognized_source_reference_kind'' else Inr g)
      else case parse_uuid (rf_id r) of
        None \<Rightarrow> denied ''malformed_source_reference''
      | Some i \<Rightarrow>
          if rf_kind r = ''evidence_observation''
          then (case map_of (ci_observations g) i of
              Some old \<Rightarrow> if old \<noteq> r then denied ''conflicting_evidence_observation_reference'' else Inr g
            | None \<Rightarrow> Inr (g\<lparr>ci_observations := (i, r) # ci_observations g\<rparr>))
          else cite_by_id bridge r i g)"

fun cite_all :: "bool \<Rightarrow> bool \<Rightarrow> evidence_ref list \<Rightarrow> cited \<Rightarrow> cited result" where
  "cite_all model bridge [] g = Inr g"
| "cite_all model bridge (r # rs) g = and_then (cite model bridge r g) (cite_all model bridge rs)"

subsection \<open>What the observations ground\<close>

text \<open>A provider report: its observation, the hashes that name its file, and the digest it resolves to.\<close>

record cited_report =
  cp_observation :: observation_row
  cp_aliases :: "string list"
  cp_sha256 :: string

record grounds =
  gr_observation_hashes :: "string list"
  gr_file_hashes :: "string list"
  gr_reports :: "cited_report list"
  gr_document_ids :: "uuid list"

definition unresolvable :: "observation_row \<Rightarrow> 'a result" where
  "unresolvable x = denied_for ''unresolvable_evidence_observation_source'' (observation_refusal_detail x)"

definition mixed_provenance :: "bool \<Rightarrow> observation_row \<Rightarrow> bool" where
  "mixed_provenance bridge x = (bridge \<and> ob_source x = ''VirusTotal''
     \<and> (casefold (ob_object_type x) = ''file'' \<or> ob_kind x = ''vt_file_report'')
     \<and> (ob_object_type x \<noteq> ''file'' \<or> ob_kind x \<noteq> ''vt_file_report''))"

definition ground_hash ::
  "string \<Rightarrow> hash_policy \<Rightarrow> json option \<Rightarrow> observation_row \<Rightarrow> grounds \<Rightarrow> grounds result" where
  "ground_hash family policy report x g = (case validate_observation_hash (ob_object_id x) policy of
     None \<Rightarrow> unresolvable x
   | Some h \<Rightarrow>
       if policy = HashProviderReport \<and> length h \<in> {32, 40, 64}
       then (case resolve_report_hashes family x report of
           None \<Rightarrow> unresolvable x
         | Some r \<Rightarrow> Inr (g\<lparr>gr_reports := gr_reports g
             @ [\<lparr>cp_observation = x, cp_aliases = report_identifiers r, cp_sha256 = rp_sha256 r\<rparr>]\<rparr>))
       else let g1 = (if vt_file_hash_read family then g\<lparr>gr_file_hashes := h # gr_file_hashes g\<rparr> else g) in
         Inr (if may_cite_report_without_sample family x
           then g1\<lparr>gr_reports := gr_reports g1 @ [\<lparr>cp_observation = x, cp_aliases = [h], cp_sha256 = h\<rparr>]\<rparr>
           else if length h = 64 then g1\<lparr>gr_observation_hashes := h # gr_observation_hashes g1\<rparr> else g1))"

definition ground_observation ::
  "string \<Rightarrow> bool \<Rightarrow> bool \<Rightarrow> evidence_ref option \<Rightarrow> json option \<Rightarrow> observation_row \<Rightarrow> grounds \<Rightarrow> grounds result" where
  "ground_observation family model bridge r report x g =
     (if r = None \<or> rf_sha256 (the r) \<noteq> ob_sha256 x \<or> rf_version (the r) \<noteq> ob_source_version x
      then denied ''evidence_observation_version_mismatch''
      else if mixed_provenance bridge x then unresolvable x
      else case observation_hash_policy family (ob_source x) (ob_object_type x) of
        Some policy \<Rightarrow> if policy = HashReject then unresolvable x else ground_hash family policy report x g
      | None \<Rightarrow>
          if casefold (ob_object_type x) \<in> {''source_document'', ''document''}
          then (case parse_uuid (ob_object_id x) of None \<Rightarrow> unresolvable x
            | Some i \<Rightarrow> Inr (g\<lparr>gr_document_ids := i # gr_document_ids g\<rparr>))
          else if model \<and> \<not> bridge then unresolvable x else Inr g)"

fun ground_all ::
  "string \<Rightarrow> bool \<Rightarrow> bool \<Rightarrow> (uuid \<Rightarrow> evidence_ref option) \<Rightarrow> (uuid \<Rightarrow> json option) \<Rightarrow> observation_row list \<Rightarrow>
   grounds \<Rightarrow> grounds result" where
  "ground_all family model bridge refs reports [] g = Inr g"
| "ground_all family model bridge refs reports (x # xs) g =
     and_then (ground_observation family model bridge (refs (ob_id x)) (reports (ob_id x)) x g)
       (ground_all family model bridge refs reports xs)"

definition ground_observations ::
  "authority \<Rightarrow> prepared \<Rightarrow> bool \<Rightarrow> bool \<Rightarrow> cited \<Rightarrow> (uuid \<Rightarrow> json option) \<Rightarrow> effect_world \<Rightarrow> grounds result" where
  "ground_observations a p model bridge c reports w =
     (let rows = sort_key ob_id (filter (\<lambda>x. ob_investigation_id x = au_investigation_id a
            \<and> ob_id x \<in> fst ` set (ci_observations c)) (xw_observations w));
          start = \<lparr>gr_observation_hashes = [], gr_file_hashes = [], gr_reports = [], gr_document_ids = []\<rparr> in
      if list_ex (\<lambda>i. i \<notin> ob_id ` set rows) (map fst (ci_observations c)) then denied ''evidence_observation_missing''
      else ground_all (pe_family p) model bridge (map_of (ci_observations c)) reports rows start)"

text \<open>The reports of the bridge families, read before the transaction takes its locks.\<close>

definition report_contents :: "effect_env \<Rightarrow> authority \<Rightarrow> prepared \<Rightarrow> effect_world \<Rightarrow> uuid \<Rightarrow> json option" where
  "report_contents env a p w i =
     (let refs = filter (\<lambda>r. rf_kind r = ''evidence_observation'' \<and> parse_uuid (rf_id r) = Some i) (pe_evidence_refs p) in
      if \<not> is_bridge_family (pe_family p) \<or> refs = [] then None
      else case find (\<lambda>x. ob_investigation_id x = au_investigation_id a \<and> ob_id x = i) (xw_observations w) of
        None \<Rightarrow> None
      | Some x \<Rightarrow> (case row_with bl_id (ob_blob_id x) (xw_blobs w) of
          None \<Rightarrow> None
        | Some b \<Rightarrow>
            if provider_report_requires_blob (pe_family p) x \<and> rf_sha256 (last refs) = ob_sha256 x
               \<and> rf_version (last refs) = ob_source_version x \<and> bl_sha256 b = ob_sha256 x
            then ev_report env b else None))"

subsection \<open>The sources behind them\<close>

definition covers :: "'a list \<Rightarrow> 'a list \<Rightarrow> bool" where
  "covers ys xs = list_all (\<lambda>x. x \<in> set ys) xs"

text \<open>The associations the effect relies on, by their id, a sample of theirs or a hash.\<close>

definition cited_associations ::
  "authority \<Rightarrow> cited \<Rightarrow> string list \<Rightarrow> effect_world \<Rightarrow> association_row list" where
  "cited_associations a c hashes w = sort_key sr_id (filter (\<lambda>s. sr_id s \<in> set (ci_association_ids c)
     \<or> (sr_investigation_id s = au_investigation_id a
        \<and> ((\<exists>i\<in>set (ci_sample_ids c). sr_sample_id s = Some i) \<or> sr_sample_sha256 s \<in> set hashes)))
     (xw_associations w))"

definition follow_association :: "authority \<Rightarrow> bool \<Rightarrow> association_row \<Rightarrow> cited \<Rightarrow> cited result" where
  "follow_association a model s c =
     (if sr_investigation_id s \<noteq> au_investigation_id a then denied ''sample_association_investigation_mismatch''
      else and_then (case map_of (ci_association_sample_refs c) (sr_id s) of
          None \<Rightarrow> Inr c
        | Some r \<Rightarrow>
            if sr_sample_sha256 s \<noteq> rf_sha256 r then denied ''sample_association_hash_mismatch''
            else (case sr_sample_id s of None \<Rightarrow> denied ''sample_association_unresolvable''
              | Some i \<Rightarrow> Inr (c\<lparr>ci_referenced_sample_ids := i # ci_referenced_sample_ids c\<rparr>))) (\<lambda>c1.
        case sr_sample_id s of
          Some i \<Rightarrow> Inr (c1\<lparr>ci_sample_ids := i # ci_sample_ids c1\<rparr>)
        | None \<Rightarrow> if model \<and> sr_id s \<in> set (ci_association_ids c) then denied ''sample_association_unresolvable''
            else Inr c1))"

fun follow_associations :: "authority \<Rightarrow> bool \<Rightarrow> association_row list \<Rightarrow> cited \<Rightarrow> cited result" where
  "follow_associations a model [] c = Inr c"
| "follow_associations a model (s # ss) c = and_then (follow_association a model s c) (follow_associations a model ss)"

definition minus :: "'a list \<Rightarrow> 'a list \<Rightarrow> 'a list" where
  "minus xs ys = filter (\<lambda>x. x \<notin> set ys) xs"

definition unassociated_vt_hash_allowed :: "authority \<Rightarrow> prepared \<Rightarrow> family_binding \<Rightarrow> bool" where
  "unassociated_vt_hash_allowed a p f = (au_authority_kind a = OsintPolicy \<and> pe_provider p = ''vt''
     \<and> fb_provider f = ''vt'' \<and> fb_requires_source_refs f
     \<and> (vt_file_hash_read (pe_family p) \<or> pe_family p = ''vt.download_sample''))"

text \<open>Each hash must be associated with the investigation, and resolvable for a model submission.\<close>

definition check_associations ::
  "authority \<Rightarrow> prepared \<Rightarrow> family_binding \<Rightarrow> bool \<Rightarrow> cited \<Rightarrow> grounds \<Rightarrow> association_row list \<Rightarrow> unit result" where
  "check_associations a p f model c g rows =
     (let read = vt_file_hash_read (pe_family p); found = map sr_sample_sha256 rows;
          hashes = ci_sample_hashes c @ gr_observation_hashes g;
          sources = filter (\<lambda>s. sr_sample_sha256 s \<in> set hashes) rows in
      if \<not> covers (map sr_id rows) (ci_association_ids c) then denied ''sample_association_missing''
      else if minus (ci_sample_hashes c) (found @ (if read then gr_observation_hashes g else [])) \<noteq> []
        \<and> \<not> unassociated_vt_hash_allowed a p f
      then denied ''sample_hash_not_associated_with_investigation''
      else if minus (gr_observation_hashes g) (found @ (if read then ci_sample_hashes c else [])) \<noteq> []
        \<and> \<not> osint_search_may_cite_unassociated (au_authority_kind a) (pe_provider p) (pe_family p)
      then denied ''evidence_observation_not_associated_with_investigation''
      else if model \<and> hashes \<noteq> [] \<and> (list_ex (\<lambda>s. sr_sample_id s = None) sources
        \<or> \<not> covers (map sr_sample_sha256 sources) hashes)
      then denied ''sample_hash_unresolvable''
      else if \<not> covers (List.map_filter sr_sample_id rows) (ci_referenced_sample_ids c)
      then denied ''sample_not_associated_with_investigation''
      else Inr ())"

definition blob_sha :: "effect_world \<Rightarrow> uuid \<Rightarrow> string option" where
  "blob_sha w b = map_option bl_sha256 (row_with bl_id b (xw_blobs w))"

text \<open>The samples of the subject that bear one of the hashes, as their bytes, their expected hash or their source.\<close>

definition samples_with_hash :: "uuid \<Rightarrow> string list \<Rightarrow> effect_world \<Rightarrow> sample_row list" where
  "samples_with_hash subject hashes w = sort_key sm_id (filter (\<lambda>s. sl_subject_id s = subject
     \<and> blob_sha w (sm_blob_id s) \<noteq> None \<and> matches_report s hashes (blob_sha w (sm_blob_id s))) (xw_samples w))"

definition restriction_detail :: "grounds \<Rightarrow> bool \<Rightarrow> effect_world \<Rightarrow> sample_row \<Rightarrow> string option" where
  "restriction_detail g reported w s =
     (if \<not> reported then None
      else case sort_key ob_id (map cp_observation (filter (\<lambda>r. matches_report s (cp_aliases r)
          (blob_sha w (sm_blob_id s))) (gr_reports g))) of
        [] \<Rightarrow> None | x # xs \<Rightarrow> Some (observation_refusal_detail x))"

fun check_samples ::
  "bool \<Rightarrow> uuid \<Rightarrow> string \<Rightarrow> bool \<Rightarrow> grounds \<Rightarrow> sample_row list \<Rightarrow> effect_world \<Rightarrow> sample_row list \<Rightarrow> unit result" where
  "check_samples permissive subject family model g reported w [] = Inr ()"
| "check_samples permissive subject family model g reported w (s # ss) =
     (case source_restriction_reason permissive True subject family model s of
        Some reason \<Rightarrow> Inl (EffectRefused reason (restriction_detail g (sm_id s \<in> sm_id ` set reported) w s))
      | None \<Rightarrow> check_samples permissive subject family model g reported w ss)"

fun check_reports :: "effect_world \<Rightarrow> sample_row list \<Rightarrow> cited_report list \<Rightarrow> unit result" where
  "check_reports w reported [] = Inr ()"
| "check_reports w reported (r # rs) =
     (if report_samples_conflict (cp_aliases r) (cp_sha256 r)
         (map (\<lambda>s. (s, the (blob_sha w (sm_blob_id s)))) (filter (\<lambda>s. blob_sha w (sm_blob_id s) \<noteq> None
            \<and> matches_report s (cp_aliases r) (blob_sha w (sm_blob_id s))) reported))
      then denied_for ''vt_source_observation_hash_mismatch'' (observation_refusal_detail (cp_observation r))
      else check_reports w reported rs)"

fun check_documents :: "bool \<Rightarrow> uuid \<Rightarrow> string \<Rightarrow> bool \<Rightarrow> document_row list \<Rightarrow> unit result" where
  "check_documents permissive subject family model [] = Inr ()"
| "check_documents permissive subject family model (d # ds) =
     (case source_restriction_reason permissive False subject family model d of
        Some reason \<Rightarrow> denied reason
      | None \<Rightarrow> check_documents permissive subject family model ds)"

definition check_sources ::
  "effect_env \<Rightarrow> prepared \<Rightarrow> uuid \<Rightarrow> bool \<Rightarrow> cited \<Rightarrow> grounds \<Rightarrow> effect_world \<Rightarrow> unit result" where
  "check_sources env p subject model c g w =
     (let family = pe_family p; hashes = ci_sample_hashes c @ gr_observation_hashes g;
          aliases = concat (map cp_aliases (gr_reports g));
          reported = (if aliases = [] then [] else samples_with_hash subject aliases w);
          by_hash = (if vt_file_hash_read family \<or> family = ''vt.intelligence_search''
            then map sm_id (samples_with_hash subject hashes w) else []);
          sample_ids = ci_sample_ids c @ by_hash; document_ids = ci_document_ids c @ gr_document_ids g;
          samples = sort_key sm_id (filter (\<lambda>s. sm_id s \<in> set sample_ids) (xw_samples w));
          documents = sort_key do_id (filter (\<lambda>d. do_id d \<in> set document_ids) (xw_documents w)) in
      if aliases \<noteq> [] \<and> subject \<notin> set (xw_subjects w) then denied ''sample_subject_missing''
      else and_then (check_samples (ev_permissive env) subject family model g reported w (samples @ reported)) (\<lambda>_.
        and_then (check_reports w reported (gr_reports g)) (\<lambda>_.
          if \<not> covers (map sm_id samples) sample_ids then denied ''sample_source_missing''
          else and_then (check_documents (ev_permissive env) subject family model documents) (\<lambda>_.
            if \<not> covers (map do_id documents) document_ids then denied ''source_document_missing'' else Inr ()))))"

definition cited_grounds ::
  "authority \<Rightarrow> prepared \<Rightarrow> bool \<Rightarrow> bool \<Rightarrow> cited \<Rightarrow> (uuid \<Rightarrow> json option) \<Rightarrow> effect_world \<Rightarrow> grounds result" where
  "cited_grounds a p model bridge c reports w = (if ci_observations c = []
     then Inr \<lparr>gr_observation_hashes = [], gr_file_hashes = [], gr_reports = [], gr_document_ids = []\<rparr>
     else ground_observations a p model bridge c reports w)"

text \<open>The cited hashes, the observations and the hash of the request of a file read are the same.\<close>

definition hashes_agree :: "prepared \<Rightarrow> cited \<Rightarrow> grounds \<Rightarrow> bool" where
  "hashes_agree p c g = (vt_file_hash_read (pe_family p) \<longrightarrow>
     (ci_sample_hashes c \<noteq> [] \<longrightarrow> covers (ci_sample_hashes c) (gr_observation_hashes g))
     \<and> (case vt_file_hash_from_request p of None \<Rightarrow> True | Some h \<Rightarrow> list_all (\<lambda>x. x = h) (gr_file_hashes g)))"

definition check_source_restrictions ::
  "effect_env \<Rightarrow> authority \<Rightarrow> prepared \<Rightarrow> uuid \<Rightarrow> family_binding \<Rightarrow> (uuid \<Rightarrow> json option) \<Rightarrow> effect_world \<Rightarrow>
   unit result" where
  "check_source_restrictions env a p subject f reports w =
     (let model = is_model_submission p f; bridge = is_bridge_family (pe_family p) in
      and_then (cite_all model bridge (pe_evidence_refs p) nothing_cited) (\<lambda>c.
      and_then (cited_grounds a p model bridge c reports w) (\<lambda>g.
        if \<not> hashes_agree p c g then denied ''vt_source_observation_hash_mismatch''
        else let rows = cited_associations a c (ci_sample_hashes c @ gr_observation_hashes g) w in
          and_then (follow_associations a model rows c) (\<lambda>c1.
          and_then (check_associations a p f model c1 g rows) (\<lambda>_.
            check_sources env p subject model c1 g w)))))"

end
