(* ===== verification/EffectClaims.thy ===== *)
theory EffectClaims
  imports SourceRestrictions
begin

text \<open>
  The claim store of external effects, \<open>infrastructure/database/repositories/external_effects.py\<close>: each
  method of \<open>SqlAlchemyExternalEffectClaimStore\<close> is one transaction over the rows it reads and
  writes, with the locks taken in the code's order read as atomicity.
\<close>

subsection \<open>The authority of a request\<close>

definition same_amount_map :: "(string \<times> int) list \<Rightarrow> (string \<times> int) list \<Rightarrow> bool" where
  "same_amount_map xs ys = (list_all (\<lambda>(d, n). map_of ys d = Some n) xs \<and> list_all (\<lambda>(d, n). map_of xs d = Some n) ys)"

definition lock_authority ::
  "authority \<Rightarrow> effect_world \<Rightarrow> (investigation_row \<times> envelope_row \<times> invocation_row option \<times> reservation_row) result" where
  "lock_authority a w =
     (case row_with en_investigation_id (au_investigation_id a) (xw_envelopes w) of
        None \<Rightarrow> denied ''investigation_envelope_missing''
      | Some e \<Rightarrow>
     (case row_with ir_id (au_investigation_id a) (xw_investigations w) of
        None \<Rightarrow> denied ''investigation_missing''
      | Some i \<Rightarrow>
        if ir_stop_reason i \<noteq> None then denied ''investigation_stopped''
        else if ir_status i \<noteq> IRunning then denied ''investigation_not_running''
        else and_then (case au_invocation_id a of
               None \<Rightarrow> Inr None
             | Some v \<Rightarrow> (case row_with ti_id v (xw_invocations w) of
                   None \<Rightarrow> denied ''invocation_missing'' | Some x \<Rightarrow> Inr (Some x))) (\<lambda>v.
          case find (\<lambda>r. rr_investigation_id r = au_investigation_id a \<and> rr_operation_key r = au_operation_key a)
              (xw_reservations w) of
            None \<Rightarrow> denied ''reservation_not_reserved''
          | Some r \<Rightarrow>
              if au_reservation_amounts a = [] \<or> \<not> same_amount_map (rr_amounts r) (au_reservation_amounts a)
              then denied ''reservation_amounts_mismatch'' else Inr (i, e, v, r))))"

definition guarded :: "bool option \<Rightarrow> string \<Rightarrow> string \<Rightarrow> unit result" where
  "guarded answer raised refused = (case answer of None \<Rightarrow> denied raised
     | Some b \<Rightarrow> if b then Inr () else denied refused)"

definition check_policy ::
  "effect_env \<Rightarrow> authority \<Rightarrow> prepared \<Rightarrow> string \<Rightarrow> family_binding \<Rightarrow> effect_world \<Rightarrow> unit result" where
  "check_policy env a p key f w =
     (if au_authority_kind a = OsintPolicy
      then (case ev_guard env of None \<Rightarrow> denied ''osint_policy_guard_unavailable''
        | Some g \<Rightarrow> guarded (pg_authorize g a p key w) ''osint_policy_guard_error'' ''osint_policy_denied'')
      else if starts_with (pe_family p) ''vt.'' \<and> fb_requires_source_refs f
      then (case ev_guard env of None \<Rightarrow> denied ''vt_source_guard_unavailable''
        | Some g \<Rightarrow> guarded (pg_authorize_source g a p key w) ''vt_source_guard_error'' ''vt_source_disclosure_denied'')
      else Inr ())"

definition check_invocation ::
  "effect_env \<Rightarrow> authority \<Rightarrow> family_binding \<Rightarrow> invocation_row option \<Rightarrow> bool \<Rightarrow> unit result" where
  "check_invocation env a f v allow_nonrunning = (case v of
     None \<Rightarrow> deny_if (au_bridge_turn_id a = None \<and> au_acquisition_attempt_id a = None
         \<and> au_acquisition_dispatch_attempt_id a = None \<and> au_retrohunt_reservation_id a = None)
       ''authority_source_missing''
   | Some x \<Rightarrow>
       if ti_investigation_id x \<noteq> au_investigation_id a then denied ''invocation_investigation_mismatch''
       else if ti_operation_key x \<noteq> au_operation_key a then denied ''invocation_operation_key_mismatch''
       else if ti_status x \<noteq> InvRunning \<and> \<not> allow_nonrunning then denied ''invocation_not_running''
       else if au_invocation_arguments_sha256 a = None then denied ''invocation_arguments_digest_missing''
       else (case invocation_arguments_digest (ev_sha env) (ti_normalized_parameters x) (ti_passive_read_retry_trusted x) of
           Inl e \<Rightarrow> denied ''invocation_arguments_not_canonical''
         | Inr d \<Rightarrow>
             if Some d \<noteq> au_invocation_arguments_sha256 a then denied ''invocation_arguments_digest_mismatch''
             else (case fb_invocation_tool_binding f of
                 None \<Rightarrow> denied ''invocation_family_binding_missing''
               | Some b \<Rightarrow> deny_if ((ti_tool_name x, ti_schema_version x) \<noteq> b) ''invocation_operation_schema_mismatch'')))"

definition check_authority ::
  "effect_env \<Rightarrow> authority \<Rightarrow> prepared \<Rightarrow> string \<Rightarrow> investigation_row \<Rightarrow> envelope_row \<Rightarrow> invocation_row option \<Rightarrow>
   family_binding \<Rightarrow> bool \<Rightarrow> effect_world \<Rightarrow> unit result" where
  "check_authority env a p key i e v f allow_nonrunning w =
     (let tlp = casefold (case en_disclosure_tlp e of None \<Rightarrow> [] | Some s \<Rightarrow> s);
          ignores = ignores_restriction_labels (ev_permissive env) (pe_family p) in
      if en_version e \<noteq> au_expected_envelope_version a then denied ''envelope_version_changed''
      else if en_approval_decision_id e \<noteq> au_approval_decision_id a then denied ''approval_changed''
      else if pe_provider p \<notin> set (en_allowed_providers e) then denied ''provider_not_allowed''
      else if \<not> ignores \<and> tlp \<in> {''amber'', ''red''} then denied (''tlp_'' @ tlp)
      else if \<not> ignores \<and> do_not_submit_blocks (pe_family p) (en_do_not_submit e) then denied ''do_not_submit''
      else if is_model_submission p f \<and> \<not> en_external_llm_allowed e \<and> \<not> ignores
      then denied ''external_llm_not_allowed''
      else if has_prefix acquisition_prefixes (pe_family p) \<and> \<not> en_acquire_hits_allowed e
      then denied ''acquisition_not_allowed''
      else if au_pinned_subject_id a \<noteq> None \<and> au_pinned_subject_id a \<noteq> Some (ir_subject_id i)
      then denied ''pinned_subject_mismatch''
      else and_then (check_policy env a p key f w) (\<lambda>_. check_invocation env a f v allow_nonrunning))"

definition lock_policy :: "effect_env \<Rightarrow> authority \<Rightarrow> effect_world \<Rightarrow> unit result" where
  "lock_policy env a w = (if au_authority_kind a \<noteq> OsintPolicy then Inr ()
     else case ev_guard env of None \<Rightarrow> denied ''osint_policy_guard_unavailable''
       | Some g \<Rightarrow> guarded (pg_lock g a w) ''osint_policy_lock_failed'' ''osint_policy_denied'')"

subsection \<open>The attempt of a family\<close>

text \<open>
  A frozen request holds tuples where the stored parameters hold lists, and in Python a tuple never
  equals a list; a boolean equals the integer it stands for.
\<close>

fun has_array :: "plain \<Rightarrow> bool" where
  "has_array (PArr xs) = True"
| "has_array (PObj ms) = list_ex (\<lambda>m. has_array (snd m)) ms"
| "has_array p = False"

primrec numeric_bools :: "plain \<Rightarrow> plain" where
  "numeric_bools PNull = PNull"
| "numeric_bools (PBool b) = PInt (if b then 1 else 0)"
| "numeric_bools (PInt i) = PInt i"
| "numeric_bools (PStr s) = PStr s"
| "numeric_bools (PArr xs) = PArr (map numeric_bools xs)"
| "numeric_bools (PObj ms) = PObj (map (map_prod id numeric_bools) ms)"

definition frozen_equals :: "json \<Rightarrow> json \<Rightarrow> bool" where
  "frozen_equals frozen stored = (case (normalize_json frozen, normalize_json stored) of
     (Inr p, Inr q) \<Rightarrow> \<not> has_array p \<and> \<not> has_array q \<and> canon (numeric_bools p) = canon (numeric_bools q)
   | _ \<Rightarrow> False)"

definition retrohunt_operation :: "retrohunt_row \<Rightarrow> json" where
  "retrohunt_operation r = JObj [(''schema'', JStr ''vt-retrohunt-operation.v1''),
     (''rule_source_sha256'', JStr (rh_rule_source_sha256 r)), (''corpus_id'', JStr (rh_corpus_id r)),
     (''corpus_sha256'', JStr (rh_corpus_sha256 r)), (''parameters'', rh_parameters r)]"

definition retrohunt_request_matches :: "(string \<Rightarrow> string) \<Rightarrow> retrohunt_row \<Rightarrow> prepared \<Rightarrow> authority \<Rightarrow> bool result" where
  "retrohunt_request_matches sha r p a =
     (let members = json_members (pe_canonical_request p);
          request = filter (\<lambda>(k, v). k \<noteq> ''version_id'') members in
      if blank (au_operation_key a) \<or> map_of members ''version_id'' \<noteq> Some (JStr (uuid_text (rh_rule_version_id r)))
         \<or> \<not> frozen_equals (JObj request) (retrohunt_operation r)
      then Inr False
      else and_then (canonical_json_bytes (retrohunt_operation r)) (\<lambda>b.
        Inr (rh_operation_key r = au_operation_key a \<and> au_operation_key a = sha b)))"

definition consume_dispatch :: "authority \<Rightarrow> prepared \<Rightarrow> datetime \<Rightarrow> effect_world \<Rightarrow> effect_world result" where
  "consume_dispatch a p t w =
     (let expected = map rf_id (filter (\<lambda>r. rf_kind r = ''sample_hash'') (pe_evidence_refs p)) in
      case row_with sd_id (the (au_acquisition_dispatch_attempt_id a)) (xw_dispatches w) of
        None \<Rightarrow> denied ''acquisition_dispatch_mismatch''
      | Some d \<Rightarrow> (case row_with sr_id (sd_association_id d) (xw_associations w) of
            None \<Rightarrow> denied ''acquisition_dispatch_mismatch''
          | Some s \<Rightarrow>
              if sr_investigation_id s \<noteq> sd_investigation_id d \<or> sr_sample_sha256 s \<noteq> sd_requested_hash d
                 \<or> sd_investigation_id d \<noteq> au_investigation_id a \<or> sd_invocation_id d \<noteq> au_invocation_id a
                 \<or> sd_operation_key d \<noteq> au_operation_key a \<or> sd_requested_hash d \<notin> set expected
              then denied ''acquisition_dispatch_mismatch''
              else if sd_state d \<notin> {DispatchPrepared, DispatchInProgress}
              then denied ''acquisition_dispatch_not_sendable''
              else Inr (w\<lparr>xw_dispatches := update_where (\<lambda>x. sd_id x = sd_id d)
                (\<lambda>x. x\<lparr>sd_state := DispatchInProgress, sd_version := sd_version x + 1, sd_updated_at := t\<rparr>)
                (xw_dispatches w)\<rparr>)))"

definition consume_retrohunt ::
  "(string \<Rightarrow> string) \<Rightarrow> authority \<Rightarrow> prepared \<Rightarrow> uuid \<Rightarrow> datetime \<Rightarrow> effect_world \<Rightarrow> effect_world result" where
  "consume_retrohunt sha a p subject t w =
     (case row_with rh_id (the (au_retrohunt_reservation_id a)) (xw_retrohunts w) of
        None \<Rightarrow> denied ''retrohunt_attempt_not_reserved''
      | Some r \<Rightarrow>
          if rh_investigation_id r \<noteq> au_investigation_id a \<or> rh_state r \<noteq> ''reserved'' \<or> rh_subject_id r \<noteq> subject
             \<or> (au_pinned_subject_id a \<noteq> None \<and> au_pinned_subject_id a \<noteq> Some (rh_subject_id r))
          then denied ''retrohunt_attempt_not_reserved''
          else and_then (retrohunt_request_matches sha r p a) (\<lambda>matches.
            if \<not> matches then denied ''retrohunt_attempt_not_reserved''
            else Inr (w\<lparr>xw_retrohunts := update_where (\<lambda>x. rh_id x = rh_id r)
              (\<lambda>x. x\<lparr>rh_state := ''submitting'', rh_version := rh_version x + 1, rh_updated_at := t\<rparr>)
              (xw_retrohunts w)\<rparr>)))"

definition lock_and_consume_family_attempt ::
  "effect_env \<Rightarrow> authority \<Rightarrow> prepared \<Rightarrow> investigation_row \<Rightarrow> family_binding \<Rightarrow> datetime \<Rightarrow> effect_world \<Rightarrow>
   effect_world result" where
  "lock_and_consume_family_attempt env a p i f t w =
     (let is_retrohunt = starts_with (pe_family p) ''retrohunt.'';
          is_acquisition = has_prefix acquisition_prefixes (pe_family p);
          lineage = requires_model_lineage (pe_family p) f;
          acquisition = au_acquisition_attempt_id a \<noteq> None \<or> au_acquisition_dispatch_attempt_id a \<noteq> None;
          retrohunt = au_retrohunt_reservation_id a \<noteq> None;
          model = au_bridge_turn_id a \<noteq> None \<or> au_model_run_id a \<noteq> None in
      if acquisition \<and> retrohunt then denied ''multiple_family_attempts''
      else if acquisition \<and> \<not> is_acquisition then denied ''acquisition_attempt_on_unrelated_family''
      else if retrohunt \<and> \<not> is_retrohunt then denied ''retrohunt_attempt_on_unrelated_family''
      else if model \<and> \<not> lineage then denied ''model_attempt_on_unrelated_family''
      else if lineage \<and> (au_bridge_turn_id a = None \<or> au_model_run_id a = None)
      then denied ''bridge_turn_run_pair_required''
      else if au_acquisition_attempt_id a \<noteq> None
      then (if map_of (xw_acquisition_attempts w) (the (au_acquisition_attempt_id a)) \<noteq> Some (au_investigation_id a)
        then denied ''acquisition_attempt_mismatch'' else denied ''acquisition_dispatch_attempt_required'')
      else and_then
        (if au_acquisition_dispatch_attempt_id a \<noteq> None then consume_dispatch a p t w
         else if is_acquisition then denied ''acquisition_dispatch_attempt_required'' else Inr w) (\<lambda>w1.
        if is_retrohunt \<and> \<not> retrohunt then denied ''retrohunt_attempt_required''
        else if retrohunt then consume_retrohunt (ev_sha env) a p (ir_subject_id i) t w1
        else Inr w1))"

definition lock_and_start_model_attempt ::
  "authority \<Rightarrow> prepared \<Rightarrow> uuid \<Rightarrow> family_binding \<Rightarrow> datetime \<Rightarrow> effect_world \<Rightarrow> effect_world result" where
  "lock_and_start_model_attempt a p subject f t w =
     (if \<not> requires_model_lineage (pe_family p) f
      then (if au_bridge_turn_id a \<noteq> None \<or> au_model_run_id a \<noteq> None
        then denied ''model_attempt_on_unrelated_family'' else Inr w)
      else if au_bridge_turn_id a = None \<or> au_model_run_id a = None then denied ''bridge_turn_run_pair_required''
      else let provider = (case fb_model_run_provider f of None \<Rightarrow> pe_provider p | Some x \<Rightarrow> if x = [] then pe_provider p else x) in
      (case row_with tr_id (the (au_bridge_turn_id a)) (xw_turns w) of
         None \<Rightarrow> denied ''bridge_turn_not_eligible''
       | Some n \<Rightarrow>
         if Some (tr_model_run_id n) \<noteq> au_model_run_id a \<or> tr_status n \<noteq> TRunning
         then denied ''bridge_turn_not_eligible''
         else
      (case row_with cr_id (tr_conversation_id n) (xw_conversations w) of
         None \<Rightarrow> denied ''model_conversation_binding_mismatch''
       | Some c \<Rightarrow>
         if cr_subject_id c \<noteq> Some subject
            \<or> (au_pinned_subject_id a \<noteq> None \<and> cr_subject_id c \<noteq> au_pinned_subject_id a) \<or> cr_provider c \<noteq> provider
         then denied ''model_conversation_binding_mismatch''
         else
      (case row_with xr_id (the (au_model_run_id a)) (xw_runs w) of
         None \<Rightarrow> denied ''model_run_not_eligible''
       | Some r \<Rightarrow>
         if xr_status r \<noteq> MRunning \<or> xr_submission_state r \<noteq> ExternalStateUnknown \<or> xr_submission_attempt r < 1
            \<or> \<not> truthy (text_member (pe_canonical_request p) ''bridge_request_id'')
            \<or> xr_bridge_request_id r \<noteq> text_member (pe_canonical_request p) ''bridge_request_id''
            \<or> xr_provider r \<noteq> provider
            \<or> text_member (pe_canonical_request p) ''model_input_sha256'' \<noteq> Some (tr_input_sha256 n)
            \<or> text_member (pe_canonical_request p) ''authorized_input_hash'' \<noteq> Some (xr_authorized_input_hash r)
         then denied ''model_run_not_eligible''
         else Inr (w\<lparr>xw_runs := update_where (\<lambda>x. xr_id x = xr_id r)
           (\<lambda>x. x\<lparr>xr_submission_state := SubmissionInProgress, xr_updated_at := t\<rparr>) (xw_runs w)\<rparr>)))))"

subsection \<open>Consumption\<close>

datatype consume_result = ConsumeCommitted uuid | ExistingClaim claim_row | ConsumeRefused string "string option"

definition claim_of_key :: "uuid \<Rightarrow> string \<Rightarrow> effect_world \<Rightarrow> claim_row option" where
  "claim_of_key i key w = find (\<lambda>c. ec_investigation_id c = i \<and> ec_effect_key c = key) (xw_claims w)"

definition new_claim :: "uuid \<Rightarrow> datetime \<Rightarrow> authority \<Rightarrow> prepared \<Rightarrow> string \<Rightarrow> claim_row" where
  "new_claim row t a p key = \<lparr>ec_id = row, ec_investigation_id = au_investigation_id a,
     ec_invocation_id = au_invocation_id a, ec_bridge_turn_id = au_bridge_turn_id a,
     ec_model_run_id = au_model_run_id a, ec_acquisition_attempt_id = au_acquisition_attempt_id a,
     ec_retrohunt_reservation_id = au_retrohunt_reservation_id a, ec_provider = pe_provider p,
     ec_provider_scope = pe_provider_scope p, ec_family = pe_family p, ec_effect_key = key,
     ec_canonical_request_sha256 = pe_canonical_request_sha256 p,
     ec_application_request_sha256 = pe_application_request_sha256 p,
     ec_operation_key = au_operation_key a, ec_envelope_version = au_expected_envelope_version a,
     ec_approval_decision_id = au_approval_decision_id a, ec_state = ClaimConsumed,
     ec_handoff_permit_nonce = None, ec_version = 1, ec_evidence_refs = pe_evidence_refs p,
     ec_result_ref = None, ec_last_error_code = None, ec_updated_at = t\<rparr>"

text \<open>The constraints of the table that an insertion can violate: identity, pairing and source.\<close>

definition claim_clash :: "claim_row \<Rightarrow> effect_world \<Rightarrow> bool" where
  "claim_clash c w = (list_ex (\<lambda>d. ec_id d = ec_id c) (xw_claims w)
     \<or> (ec_bridge_turn_id c = None) \<noteq> (ec_model_run_id c = None)
     \<or> (ec_invocation_id c = None \<and> ec_bridge_turn_id c = None \<and> ec_acquisition_attempt_id c = None
        \<and> ec_retrohunt_reservation_id c = None))"

definition validate_prepared :: "effect_env \<Rightarrow> prepared \<Rightarrow> unit result" where
  "validate_prepared env p = and_then (check_digests (ev_sha env) p) (\<lambda>_.
     if ev_persistable env p then Inr () else Inl (EffectInvalid ''secret-bearing field is not persistable''))"

definition admit_family :: "effect_env \<Rightarrow> authority \<Rightarrow> prepared \<Rightarrow> string \<Rightarrow> string \<Rightarrow> family_binding result" where
  "admit_family env a p key occurrence =
     (if au_authority_kind a = OsintPolicy \<and> ev_guard env = None then denied ''osint_policy_guard_unavailable''
      else if pe_identity_version p \<noteq> ''effect-key.v1'' then denied ''unsupported_identity_version''
      else if is_error (validate_prepared env p) then denied ''invalid_prepared_effect''
      else if effect_key (ev_sha env) (au_investigation_id a) p \<noteq> key then denied ''effect_key_mismatch''
      else if occurrence_sha256 (ev_sha env) (pe_occurrence_id p) \<noteq> occurrence then denied ''occurrence_digest_mismatch''
      else case map_of (ev_families env) (pe_family p) of
        None \<Rightarrow> denied ''family_not_registered''
      | Some f \<Rightarrow>
          if fb_provider f \<noteq> pe_provider p \<or> pe_provider_scope p \<notin> set (fb_provider_scopes f)
          then denied ''provider_scope_not_registered''
          else if \<not> family_credentials_match p f then denied ''family_credential_declaration_mismatch''
          else if pe_normalizer_version p \<notin> set (fb_normalizer_versions f) then denied ''unsupported_normalizer_version''
          else Inr f)"

definition insert_claim ::
  "effect_env \<Rightarrow> uuid \<Rightarrow> datetime \<Rightarrow> authority \<Rightarrow> prepared \<Rightarrow> string \<Rightarrow> investigation_row \<Rightarrow> family_binding \<Rightarrow>
   effect_world \<Rightarrow> (consume_result \<times> effect_world) result" where
  "insert_claim env row t a p key i f w =
     (let c = new_claim row t a p key in
      if claim_clash c w then Inl (IntegrityError ''external_effect_claim'')
      else and_then (lock_and_consume_family_attempt env a p i f t (w\<lparr>xw_claims := xw_claims w @ [c]\<rparr>)) (\<lambda>w1.
        let w2 = (case au_acquisition_dispatch_attempt_id a of None \<Rightarrow> w1
          | Some d \<Rightarrow> w1\<lparr>xw_dispatch_links := (row, d) # xw_dispatch_links w1\<rparr>) in
        and_then (check_source_restrictions env a p (ir_subject_id i) f (report_contents env a p w) w2) (\<lambda>_.
        and_then (lock_and_start_model_attempt a p (ir_subject_id i) f t w2) (\<lambda>w3.
        Inr (ConsumeCommitted row, w3)))))"

definition consume_in_transaction ::
  "effect_env \<Rightarrow> uuid \<Rightarrow> datetime \<Rightarrow> authority \<Rightarrow> prepared \<Rightarrow> string \<Rightarrow> family_binding \<Rightarrow>
   effect_world \<Rightarrow> (consume_result \<times> effect_world) result" where
  "consume_in_transaction env row t a p key f w =
     and_then (lock_policy env a w) (\<lambda>_.
     and_then (lock_authority a w) (\<lambda>(i, e, v, r).
       let existing = claim_of_key (au_investigation_id a) key w in
       and_then (check_authority env a p key i e v f (existing \<noteq> None) w) (\<lambda>_.
       and_then (validate_external_source_refs env a f v p w) (\<lambda>_.
         case existing of
           Some c \<Rightarrow>
             if rr_status r = Released \<and> ec_state c \<noteq> ClaimCompleted then denied ''reservation_already_released''
             else Inr (ExistingClaim c, w)
         | None \<Rightarrow>
             if rr_status r \<noteq> Reserved then denied ''reservation_not_reserved''
             else insert_claim env row t a p key i f w))))"

text \<open>A denial rolls the transaction back and is returned; any other exception escapes.\<close>

definition consume ::
  "effect_env \<Rightarrow> uuid \<Rightarrow> datetime \<Rightarrow> authority \<Rightarrow> prepared \<Rightarrow> string \<Rightarrow> string \<Rightarrow>
   effect_world \<Rightarrow> (consume_result \<times> effect_world) result" where
  "consume env row t a p key occurrence w =
     (case and_then (admit_family env a p key occurrence) (\<lambda>f. consume_in_transaction env row t a p key f w) of
        Inl (EffectRefused reason detail) \<Rightarrow> Inr (ConsumeRefused reason detail, w)
      | other \<Rightarrow> other)"

subsection \<open>Transitions of a claim\<close>

definition claim_row_of :: "uuid \<Rightarrow> effect_world \<Rightarrow> claim_row option" where
  "claim_row_of c w = row_with ec_id c (xw_claims w)"

definition put_claim :: "uuid \<Rightarrow> (claim_row \<Rightarrow> claim_row) \<Rightarrow> effect_world \<Rightarrow> effect_world" where
  "put_claim c f w = w\<lparr>xw_claims := update_where (\<lambda>x. ec_id x = c) f (xw_claims w)\<rparr>"

text \<open>\<open>now\<close> is a reading of the monotonic clock.\<close>

definition enter_handoff ::
  "uuid \<Rightarrow> uuid \<Rightarrow> string \<Rightarrow> int \<Rightarrow> int \<Rightarrow> datetime \<Rightarrow> effect_world \<Rightarrow> bool \<times> effect_world" where
  "enter_handoff c nonce digest expires now t w =
     (if \<not> is_sha256 digest then (False, w)
      else case claim_row_of c w of
        None \<Rightarrow> (False, w)
      | Some row \<Rightarrow>
          if ec_state row \<noteq> ClaimConsumed \<or> ec_handoff_permit_nonce row \<noteq> None
             \<or> ec_application_request_sha256 row \<noteq> digest \<or> expires \<le> now
          then (False, w)
          else (True, put_claim c (\<lambda>x. x\<lparr>ec_handoff_permit_nonce := Some nonce,
            ec_version := ec_version x + 1, ec_updated_at := t\<rparr>) w))"

definition add_use :: "use_row \<Rightarrow> effect_world \<Rightarrow> effect_world" where
  "add_use u w = (if list_ex (\<lambda>x. eu_claim_id x = eu_claim_id u \<and> eu_invocation_id x = eu_invocation_id u) (xw_uses w)
     then w else w\<lparr>xw_uses := xw_uses w @ [u]\<rparr>)"

definition safe_outcome_codes :: "string list" where
  "safe_outcome_codes = [''bridge_rate_limited'', ''bridge_rejected'']"

definition complete ::
  "(string \<Rightarrow> bool) \<Rightarrow> uuid \<Rightarrow> uuid \<Rightarrow> string option \<Rightarrow> evidence_ref list \<Rightarrow> string option \<Rightarrow> datetime \<Rightarrow>
   effect_world \<Rightarrow> (bool \<times> effect_world) result" where
  "complete persistable_ref c use result_ref refs outcome t w =
     (if outcome \<noteq> None \<and> the outcome \<notin> set safe_outcome_codes then Inr (False, w)
      else case claim_row_of c w of
        None \<Rightarrow> Inr (False, w)
      | Some row \<Rightarrow>
          if result_ref \<noteq> None \<and> \<not> persistable_ref (the result_ref)
          then Inl (EffectInvalid ''credential-bearing URL is not persistable: result_ref'')
          else if ec_state row \<noteq> ClaimConsumed \<or> ec_handoff_permit_nonce row = None then Inr (False, w)
          else let w1 = put_claim c (\<lambda>x. x\<lparr>ec_state := ClaimCompleted, ec_version := ec_version x + 1,
              ec_evidence_refs := ec_evidence_refs x @ refs,
              ec_result_ref := (case result_ref of None \<Rightarrow> ec_result_ref x | Some r \<Rightarrow> Some r),
              ec_last_error_code := outcome, ec_updated_at := t\<rparr>) w;
            w2 = (case ec_invocation_id row of None \<Rightarrow> w1
              | Some v \<Rightarrow> add_use \<lparr>eu_id = use, eu_claim_id = c, eu_invocation_id = v, eu_use_kind = UseSent,
                  eu_observation_refs = refs, eu_result_ref = result_ref, eu_budget_delta = []\<rparr> w1) in
            Inr (True, case ec_model_run_id row of None \<Rightarrow> w2
              | Some m \<Rightarrow> w2\<lparr>xw_runs := update_where (\<lambda>x. xr_id x = m \<and> xr_submission_state x = SubmissionInProgress)
                  (\<lambda>x. x\<lparr>xr_submission_state := ResultObtained, xr_updated_at := t\<rparr>) (xw_runs w2)\<rparr>))"

text \<open>\<open>str.isalnum\<close> on the code points below 256.\<close>

definition py_alnum :: "char \<Rightarrow> bool" where
  "py_alnum c = (let n = of_char c :: nat in (48 \<le> n \<and> n \<le> 57) \<or> (65 \<le> n \<and> n \<le> 90) \<or> (97 \<le> n \<and> n \<le> 122)
     \<or> n \<in> {170, 178, 179, 181, 185, 186, 188, 189, 190} \<or> (192 \<le> n \<and> n \<noteq> 215 \<and> n \<noteq> 247))"

definition safe_code :: "string \<Rightarrow> string" where
  "safe_code s = (if s = [] \<or> 64 < length s \<or> \<not> list_all (\<lambda>c. py_alnum c \<or> c = CHR ''_'' \<or> c = CHR ''-'') s
     then ''external_effect_error'' else s)"

definition fail_invocation ::
  "uuid option \<Rightarrow> invocation_status \<Rightarrow> datetime \<Rightarrow> effect_world \<Rightarrow> effect_world" where
  "fail_invocation v status t w = (case v of None \<Rightarrow> w
     | Some i \<Rightarrow> w\<lparr>xw_invocations := update_where (\<lambda>x. ti_id x = i \<and> ti_status x = InvRunning)
         (\<lambda>x. x\<lparr>ti_status := status, ti_version := ti_version x + 1, ti_updated_at := t\<rparr>) (xw_invocations w)\<rparr>)"

text \<open>\<open>proven\<close>: the proof token was minted by the bound coordinator for this claim and is used once.\<close>

definition definitely_not_submitted ::
  "bool \<Rightarrow> uuid \<Rightarrow> string \<Rightarrow> datetime \<Rightarrow> effect_world \<Rightarrow> bool \<times> effect_world" where
  "definitely_not_submitted proven c reason t w =
     (if \<not> proven then (False, w)
      else case claim_row_of c w of
        None \<Rightarrow> (False, w)
      | Some row \<Rightarrow>
          if ec_state row \<noteq> ClaimConsumed \<or> ec_handoff_permit_nonce row \<noteq> None then (False, w)
          else (True, fail_invocation (ec_invocation_id row) InvFailed t
            (put_claim c (\<lambda>x. x\<lparr>ec_state := ClaimNotSubmitted, ec_version := ec_version x + 1,
              ec_last_error_code := Some (safe_code reason), ec_updated_at := t\<rparr>) w)))"

definition review_dispatch :: "uuid \<Rightarrow> datetime \<Rightarrow> effect_world \<Rightarrow> effect_world" where
  "review_dispatch c t w = (case map_of (xw_dispatch_links w) c of None \<Rightarrow> w
     | Some d \<Rightarrow> w\<lparr>xw_dispatches := update_where (\<lambda>x. sd_id x = d \<and> sd_state x = DispatchInProgress)
         (\<lambda>x. x\<lparr>sd_state := DispatchNeedsReview, sd_version := sd_version x + 1, sd_updated_at := t\<rparr>)
         (xw_dispatches w)\<rparr>)"

definition review_retrohunt :: "uuid option \<Rightarrow> datetime \<Rightarrow> effect_world \<Rightarrow> effect_world" where
  "review_retrohunt r t w = (case r of None \<Rightarrow> w
     | Some i \<Rightarrow> w\<lparr>xw_retrohunts := update_where (\<lambda>x. rh_id x = i \<and> rh_state x = ''submitting'')
         (\<lambda>x. x\<lparr>rh_state := ''reconciliation_required'', rh_version := rh_version x + 1, rh_updated_at := t\<rparr>)
         (xw_retrohunts w)\<rparr>)"

definition review_model :: "uuid option \<Rightarrow> uuid option \<Rightarrow> string \<Rightarrow> datetime \<Rightarrow> effect_world \<Rightarrow> effect_world" where
  "review_model turn run reason t w = (case (turn, run) of
       (Some n, Some m) \<Rightarrow> w\<lparr>
         xw_turns := update_where (\<lambda>x. tr_id x = n \<and> tr_status x = TRunning)
           (\<lambda>x. x\<lparr>tr_status := TNeedsReview, tr_finished_at := Some t, tr_error_code := Some reason\<rparr>) (xw_turns w),
         xw_runs := update_where (\<lambda>x. xr_id x = m)
           (\<lambda>x. x\<lparr>xr_status := MNeedsReview, xr_submission_state := ExternalStateUnknown,
             xr_error_code := Some reason, xr_updated_at := t\<rparr>) (xw_runs w)\<rparr>
     | _ \<Rightarrow> w)"

definition needs_review :: "uuid \<Rightarrow> string \<Rightarrow> bool \<Rightarrow> datetime \<Rightarrow> effect_world \<Rightarrow> bool \<times> effect_world" where
  "needs_review c reason mark_invocation t w =
     (case claim_row_of c w of
        None \<Rightarrow> (False, w)
      | Some row \<Rightarrow>
          if ec_state row \<noteq> ClaimConsumed then (False, w)
          else let w1 = put_claim c (\<lambda>x. x\<lparr>ec_state := ClaimNeedsReview, ec_version := ec_version x + 1,
              ec_last_error_code := Some (safe_code reason), ec_updated_at := t\<rparr>) w;
            w2 = review_dispatch c t w1;
            w3 = (if mark_invocation then fail_invocation (ec_invocation_id row) InvNeedsReview t w2 else w2);
            w4 = review_retrohunt (ec_retrohunt_reservation_id row) t w3 in
            (True, review_model (ec_bridge_turn_id row) (ec_model_run_id row) (safe_code reason) t w4))"

subsection \<open>Reuse of a completed effect\<close>

definition registered_family :: "effect_env \<Rightarrow> prepared \<Rightarrow> family_binding option" where
  "registered_family env p = (case map_of (ev_families env) (pe_family p) of
     None \<Rightarrow> None
   | Some f \<Rightarrow> if fb_provider f \<noteq> pe_provider p \<or> pe_provider_scope p \<notin> set (fb_provider_scopes f)
         \<or> pe_normalizer_version p \<notin> set (fb_normalizer_versions f) \<or> \<not> family_credentials_match p f
       then None else Some f)"

definition release_reservation :: "authority \<Rightarrow> effect_world \<Rightarrow> effect_world" where
  "release_reservation a w = w\<lparr>xw_reservations := update_where
     (\<lambda>r. rr_investigation_id r = au_investigation_id a \<and> rr_operation_key r = au_operation_key a)
     (\<lambda>r. r\<lparr>rr_status := Released\<rparr>) (xw_reservations w)\<rparr>"

definition reused_use :: "uuid \<Rightarrow> uuid \<Rightarrow> uuid \<Rightarrow> evidence_ref list \<Rightarrow> authority \<Rightarrow> use_row" where
  "reused_use use claim invocation refs a = \<lparr>eu_id = use, eu_claim_id = claim, eu_invocation_id = invocation,
     eu_use_kind = UseReused, eu_observation_refs = refs, eu_result_ref = None,
     eu_budget_delta = map (\<lambda>(d, n). (d, 0)) (au_reservation_amounts a)\<rparr>"

definition use_of :: "uuid \<Rightarrow> uuid \<Rightarrow> effect_world \<Rightarrow> use_row option" where
  "use_of c v w = find (\<lambda>u. eu_claim_id u = c \<and> eu_invocation_id u = v) (xw_uses w)"

definition claim_still_matches :: "claim_row \<Rightarrow> prepared \<Rightarrow> claim_row option \<Rightarrow> bool" where
  "claim_still_matches c p current = (case current of None \<Rightarrow> False
     | Some x \<Rightarrow> ec_state x = ClaimCompleted \<and> ec_effect_key x = ec_effect_key c
         \<and> ec_application_request_sha256 x = pe_application_request_sha256 p
         \<and> ec_canonical_request_sha256 x = pe_canonical_request_sha256 p)"

text \<open>The end of the transaction, once the claim is known to be completed and its sources to be free.\<close>

definition settle_reuse ::
  "uuid \<Rightarrow> claim_row \<Rightarrow> authority \<Rightarrow> uuid \<Rightarrow> evidence_ref list \<Rightarrow> reservation_row \<Rightarrow> effect_world \<Rightarrow>
   uuid option \<times> effect_world" where
  "settle_reuse use c a v refs r w =
     (if rr_status r = Released
      then (case use_of (ec_id c) v w of None \<Rightarrow> None
          | Some u \<Rightarrow> if eu_use_kind u = UseReused then Some (eu_id u) else None, w)
      else if rr_status r \<noteq> Reserved then (None, w)
      else case use_of (ec_id c) v w of
        None \<Rightarrow> (Some use, release_reservation a (add_use (reused_use use (ec_id c) v refs a) w))
      | Some u \<Rightarrow> if eu_use_kind u \<noteq> UseReused then (None, w) else (Some (eu_id u), release_reservation a w))"

definition reuse_transaction ::
  "effect_env \<Rightarrow> uuid \<Rightarrow> claim_row \<Rightarrow> authority \<Rightarrow> prepared \<Rightarrow> uuid \<Rightarrow> evidence_ref list \<Rightarrow> family_binding \<Rightarrow>
   effect_world \<Rightarrow> (uuid option \<times> effect_world) result" where
  "reuse_transaction env use c a p v refs f w =
     and_then (lock_authority a w) (\<lambda>(i, e, x, r).
     and_then (check_authority env a p (ec_effect_key c) i e x f False w) (\<lambda>_.
     and_then (validate_external_source_refs env a f x p w) (\<lambda>_.
       if \<not> claim_still_matches c p (claim_row_of (ec_id c) w) then Inr (None, w)
       else and_then (check_source_restrictions env a p (ir_subject_id i) f (report_contents env a p w) w) (\<lambda>_.
         Inr (settle_reuse use c a v refs r w)))))"

definition record_reuse ::
  "effect_env \<Rightarrow> uuid \<Rightarrow> claim_row \<Rightarrow> authority \<Rightarrow> prepared \<Rightarrow> uuid option \<Rightarrow> evidence_ref list \<Rightarrow>
   effect_world \<Rightarrow> (uuid option \<times> effect_world) result" where
  "record_reuse env use c a p source refs w =
     (if au_authority_kind a = OsintPolicy \<and> ev_guard env = None then Inr (None, w)
      else case (au_invocation_id a, registered_family env p) of
        (Some v, Some f) \<Rightarrow>
          if requires_model_lineage (pe_family p) f \<or> au_acquisition_attempt_id a \<noteq> None
             \<or> au_acquisition_dispatch_attempt_id a \<noteq> None \<or> au_retrohunt_reservation_id a \<noteq> None
             \<or> (ec_invocation_id c \<noteq> None \<and> source \<noteq> ec_invocation_id c)
          then Inr (None, w)
          else (case (if au_authority_kind a = OsintPolicy then pg_lock (the (ev_guard env)) a w else Some True) of
              None \<Rightarrow> Inl (RuntimeErr ''policy guard'')
            | Some False \<Rightarrow> Inr (None, w)
            | Some True \<Rightarrow> (case reuse_transaction env use c a p v refs f w of
                  Inl (EffectRefused reason detail) \<Rightarrow> Inr (None, w)
                | other \<Rightarrow> other))
      | _ \<Rightarrow> Inr (None, w))"

definition release_claimed ::
  "claim_row \<Rightarrow> authority \<Rightarrow> prepared \<Rightarrow> reservation_row \<Rightarrow> claim_row option \<Rightarrow> bool" where
  "release_claimed c a p r current = (case current of None \<Rightarrow> False
     | Some x \<Rightarrow> ec_id x = ec_id c \<and> ec_state x = ClaimCompleted \<and> ec_invocation_id x = ec_invocation_id c
         \<and> ec_application_request_sha256 x = pe_application_request_sha256 p
         \<and> ec_canonical_request_sha256 x = pe_canonical_request_sha256 p \<and> rr_status r = Reserved)"

definition release_budget ::
  "authority \<Rightarrow> datetime \<Rightarrow> inv_budget option \<Rightarrow> effect_world \<Rightarrow> (bool \<times> effect_world) result" where
  "release_budget a t budget w = (case budget of None \<Rightarrow> Inr (False, w)
     | Some b \<Rightarrow> (case reservation_of b (au_operation_key a) of None \<Rightarrow> Inr (False, w)
         | Some x \<Rightarrow> if br_status x \<noteq> Reserved then Inr (False, w)
             else and_then (release (au_operation_key a) b) (\<lambda>(_, b').
               Inr (True, release_reservation a (w\<lparr>xw_envelopes := update_where
                 (\<lambda>x. en_investigation_id x = au_investigation_id a)
                 (\<lambda>x. x\<lparr>en_budget_snapshot := Some b', en_version := en_version x + 1, en_updated_at := t\<rparr>)
                 (xw_envelopes w)\<rparr>)))))"

definition release_transaction ::
  "effect_env \<Rightarrow> claim_row \<Rightarrow> authority \<Rightarrow> prepared \<Rightarrow> family_binding \<Rightarrow> datetime \<Rightarrow> effect_world \<Rightarrow>
   (bool \<times> effect_world) result" where
  "release_transaction env c a p f t w =
     and_then (lock_policy env a w) (\<lambda>_.
     and_then (lock_authority a w) (\<lambda>(i, e, x, r).
     and_then (check_authority env a p (ec_effect_key c) i e x f True w) (\<lambda>_.
     and_then (validate_external_source_refs env a f x p w) (\<lambda>_.
       if \<not> release_claimed c a p r (claim_of_key (au_investigation_id a) (ec_effect_key c) w) then Inr (False, w)
       else release_budget a t (en_budget_snapshot e) w))))"

definition release_refused_reuse_reservation ::
  "effect_env \<Rightarrow> claim_row \<Rightarrow> authority \<Rightarrow> prepared \<Rightarrow> datetime \<Rightarrow> effect_world \<Rightarrow> (bool \<times> effect_world) result" where
  "release_refused_reuse_reservation env c a p t w =
     (if ec_state c \<noteq> ClaimCompleted \<or> ec_investigation_id c \<noteq> au_investigation_id a \<or> au_invocation_id a = None
         \<or> au_invocation_id a = ec_invocation_id c \<or> (au_authority_kind a = OsintPolicy \<and> ev_guard env = None)
      then Inr (False, w)
      else case registered_family env p of None \<Rightarrow> Inr (False, w)
      | Some f \<Rightarrow> (case release_transaction env c a p f t w of
           Inl (EffectRefused reason detail) \<Rightarrow> Inr (False, w)
         | other \<Rightarrow> other))"

end
