(* ===== verification/EffectAdmission.thy ===== *)
theory EffectAdmission
  imports EffectClaims
begin

text \<open>
  What the transactions of the claim store do to the claims: which rows each adds or rewrites, how a
  claim may evolve, and what an admission found to hold.
\<close>

subsection \<open>What a transaction does to the claims\<close>

named_theorems keeps_claims

lemma update_where_map: "(\<And>x. g (f x) = g x) \<Longrightarrow> map g (update_where cond f rows) = map g rows"
  by (simp add: update_where_def)

lemma find_update_where:
  assumes "\<And>x. P (f x) = P x"
  shows "find P (update_where cond f rows) = map_option (\<lambda>x. if cond x then f x else x) (find P rows)"
  by (induction rows) (auto simp: update_where_def assms)

lemma row_with_update:
  assumes "\<And>x. key (f x) = key x"
  shows "row_with key k (update_where cond f rows) = map_option (\<lambda>x. if cond x then f x else x) (row_with key k rows)"
  unfolding row_with_def by (rule find_update_where) (simp add: assms)

lemma row_with_key: "row_with key k rows = Some r \<Longrightarrow> key r = k \<and> r \<in> set rows"
  by (simp add: row_with_def find_Some_iff) auto

lemma row_with_append: "row_with key k (rows @ [r]) =
    (case row_with key k rows of None \<Rightarrow> if key r = k then Some r else None | x \<Rightarrow> x)"
  by (induction rows) (auto simp: row_with_def)

lemma put_claim_row:
  assumes "\<And>x. ec_id (f x) = ec_id x"
  shows "claim_row_of d (put_claim c f w) = (if d = c then map_option f (claim_row_of d w) else claim_row_of d w)"
proof -
  have "map_option (\<lambda>x. if ec_id x = c then f x else x) (row_with ec_id d (xw_claims w))
      = (if d = c then map_option f (row_with ec_id d (xw_claims w)) else row_with ec_id d (xw_claims w))"
    by (cases "row_with ec_id d (xw_claims w)") (auto dest: row_with_key)
  then show ?thesis by (simp add: claim_row_of_def put_claim_def row_with_update assms)
qed

lemma keeps_claims_simps [keeps_claims]:
  "xw_claims (fail_invocation v st t w) = xw_claims w" "xw_claims (review_dispatch c t w) = xw_claims w"
  "xw_claims (review_retrohunt r t w) = xw_claims w" "xw_claims (review_model n m reason t w) = xw_claims w"
  "xw_claims (add_use u w) = xw_claims w" "xw_claims (release_reservation a w) = xw_claims w"
  by (simp_all add: fail_invocation_def review_dispatch_def review_retrohunt_def review_model_def add_use_def
    release_reservation_def split: option.splits)

lemma family_attempt_claims:
  "lock_and_consume_family_attempt env a p i f t w = Inr w' \<Longrightarrow> xw_claims w' = xw_claims w"
  by (auto simp: lock_and_consume_family_attempt_def consume_dispatch_def consume_retrohunt_def denied_def Let_def
    and_then_Inr split: if_splits option.splits)

lemma model_attempt_claims:
  "lock_and_start_model_attempt a p subject f t w = Inr w' \<Longrightarrow> xw_claims w' = xw_claims w"
  by (auto simp: lock_and_start_model_attempt_def denied_def Let_def split: if_splits option.splits)

lemma insert_claim_effect:
  assumes "insert_claim env row t a p key i f w = Inr (x, w')"
  shows "x = ConsumeCommitted row \<and> xw_claims w' = xw_claims w @ [new_claim row t a p key]
    \<and> \<not> claim_clash (new_claim row t a p key) w"
  using assms
  by (auto simp: insert_claim_def Let_def and_then_Inr dest!: family_attempt_claims model_attempt_claims
    split: if_splits option.splits)

lemma consume_in_transaction_cases:
  assumes "consume_in_transaction env row t a p key f w = Inr (x, w')"
  obtains (existing) c where "x = ExistingClaim c" "claim_of_key (au_investigation_id a) key w = Some c" "w' = w"
  | (committed) i e v r where "claim_of_key (au_investigation_id a) key w = None"
      "lock_authority a w = Inr (i, e, v, r)" "check_authority env a p key i e v f False w = Inr ()"
      "rr_status r = Reserved" "insert_claim env row t a p key i f w = Inr (x, w')"
proof (cases "claim_of_key (au_investigation_id a) key w")
  case None
  with assms obtain i e v r where "lock_authority a w = Inr (i, e, v, r)" "check_authority env a p key i e v f False w = Inr ()"
    "rr_status r = Reserved" "insert_claim env row t a p key i f w = Inr (x, w')"
    by (auto simp: consume_in_transaction_def and_then_Inr denied_def split: if_splits)
  with None show ?thesis by (rule committed)
next
  case (Some c)
  with assms have "x = ExistingClaim c" "w' = w"
    by (auto simp: consume_in_transaction_def and_then_Inr denied_def split: if_splits)
  with Some show ?thesis using existing by simp
qed

lemma consume_Inr_cases:
  assumes "consume env row t a p key occurrence w = Inr (x, w')"
  obtains (refused) reason detail where "x = ConsumeRefused reason detail" "w' = w"
  | (admitted) f where "admit_family env a p key occurrence = Inr f"
      "consume_in_transaction env row t a p key f w = Inr (x, w')"
  using assms by (auto simp: consume_def and_then_def split: sum.splits error.splits)

text \<open>A claim only moves forward: its identity is fixed, its handoff marker and its settled state stay.\<close>

definition claim_evolves :: "claim_row \<Rightarrow> claim_row \<Rightarrow> bool" where
  "claim_evolves c c' = (ec_id c' = ec_id c \<and> ec_investigation_id c' = ec_investigation_id c
     \<and> ec_effect_key c' = ec_effect_key c \<and> ec_application_request_sha256 c' = ec_application_request_sha256 c
     \<and> (ec_handoff_permit_nonce c \<noteq> None \<longrightarrow> ec_handoff_permit_nonce c' = ec_handoff_permit_nonce c)
     \<and> (ec_state c \<noteq> ClaimConsumed \<longrightarrow> c' = c))"

definition claims_evolve :: "effect_world \<Rightarrow> effect_world \<Rightarrow> bool" where
  "claims_evolve w w' = (\<forall>i c. claim_row_of i w = Some c \<longrightarrow> (\<exists>c'. claim_row_of i w' = Some c' \<and> claim_evolves c c'))"

lemma claim_evolves_refl [simp]: "claim_evolves c c"
  by (simp add: claim_evolves_def)

lemma claims_evolveD: "claims_evolve w w' \<Longrightarrow> claim_row_of i w = Some c \<Longrightarrow> \<exists>c'. claim_row_of i w' = Some c' \<and> claim_evolves c c'"
  by (simp add: claims_evolve_def)

lemma same_claims_row: "xw_claims w' = xw_claims w \<Longrightarrow> claim_row_of i w' = claim_row_of i w"
  by (simp add: claim_row_of_def)

lemma same_claims_evolve:
  assumes "xw_claims w' = xw_claims w"
  shows "claims_evolve w w'"
  unfolding claims_evolve_def same_claims_row [OF assms] by simp

lemma put_claim_evolves:
  assumes "claim_row_of c w = Some row" and "claim_evolves row (f row)" and "\<And>x. ec_id (f x) = ec_id x"
    and "xw_claims w' = xw_claims (put_claim c f w)"
  shows "claims_evolve w w'"
proof -
  have "claim_row_of i w' = (if i = c then map_option f (claim_row_of i w) else claim_row_of i w)" for i
    using same_claims_row [OF assms(4)] put_claim_row [OF assms(3)] by simp
  with assms(1,2) have "\<exists>d'. claim_row_of i w' = Some d' \<and> claim_evolves d d'" if "claim_row_of i w = Some d" for i d
    using that by (cases "i = c") simp_all
  then show ?thesis unfolding claims_evolve_def by blast
qed

text \<open>The keys of the claims: one claim per investigation and effect.\<close>

definition claim_identity :: "claim_row \<Rightarrow> uuid \<times> string" where
  "claim_identity c = (ec_investigation_id c, ec_effect_key c)"

definition claims_distinct :: "effect_world \<Rightarrow> bool" where
  "claims_distinct w = (distinct (map ec_id (xw_claims w)) \<and> distinct (map claim_identity (xw_claims w)))"

lemma put_claim_distinct:
  assumes "\<And>x. ec_id (f x) = ec_id x" and "\<And>x. claim_identity (f x) = claim_identity x"
    and "xw_claims w' = xw_claims (put_claim c f w)"
  shows "claims_distinct w' = claims_distinct w"
  by (simp add: claims_distinct_def assms(3) put_claim_def update_where_map assms(1,2))

lemma claim_of_key_None: "claim_of_key i key w = None \<longleftrightarrow> (i, key) \<notin> claim_identity ` set (xw_claims w)"
  by (auto simp: claim_of_key_def find_None_iff claim_identity_def)

lemma claim_of_key_Some:
  assumes "claims_distinct w"
  shows "claim_of_key i key w = Some c \<longleftrightarrow> c \<in> set (xw_claims w) \<and> claim_identity c = (i, key)"
proof -
  have "claim_of_key i key w = Some c \<Longrightarrow> c \<in> set (xw_claims w) \<and> claim_identity c = (i, key)" for c
    by (auto simp: claim_of_key_def find_Some_iff claim_identity_def)
  moreover have "c = d" if "c \<in> set (xw_claims w)" "d \<in> set (xw_claims w)" "claim_identity c = claim_identity d" for c d
    using assms that by (auto simp: claims_distinct_def distinct_map dest: inj_onD)
  moreover have "c \<in> set (xw_claims w) \<Longrightarrow> claim_identity c = (i, key) \<Longrightarrow> claim_of_key i key w \<noteq> None"
    by (auto simp: claim_of_key_None intro: rev_image_eqI)
  ultimately show ?thesis by (metis not_None_eq)
qed

lemma claim_row_of_Some:
  assumes "claims_distinct w"
  shows "claim_row_of i w = Some c \<longleftrightarrow> c \<in> set (xw_claims w) \<and> ec_id c = i"
proof
  assume "claim_row_of i w = Some c"
  then show "c \<in> set (xw_claims w) \<and> ec_id c = i" using row_with_key [of ec_id i "xw_claims w" c] by (simp add: claim_row_of_def)
next
  assume c: "c \<in> set (xw_claims w) \<and> ec_id c = i"
  then have "claim_row_of i w \<noteq> None" by (auto simp: claim_row_of_def row_with_def find_None_iff)
  then obtain e where e: "claim_row_of i w = Some e" by blast
  then have "e \<in> set (xw_claims w)" "ec_id e = ec_id c"
    using c row_with_key [of ec_id i "xw_claims w" e] by (simp_all add: claim_row_of_def)
  moreover have "inj_on ec_id (set (xw_claims w))" using assms by (simp add: claims_distinct_def distinct_map)
  ultimately have "e = c" using c inj_onD [of ec_id "set (xw_claims w)" e c] by simp
  with e show "claim_row_of i w = Some c" by simp
qed

lemma consume_claims:
  assumes "consume env row t a p key occurrence w = Inr (x, w')"
  obtains (same) "xw_claims w' = xw_claims w" "\<And>i. x \<noteq> ConsumeCommitted i"
      "\<And>c. x = ExistingClaim c \<Longrightarrow> claim_of_key (au_investigation_id a) key w = Some c"
  | (new) "x = ConsumeCommitted row" "xw_claims w' = xw_claims w @ [new_claim row t a p key]"
      "\<not> claim_clash (new_claim row t a p key) w" "claim_of_key (au_investigation_id a) key w = None"
  using assms
proof (cases rule: consume_Inr_cases)
  case (admitted f)
  from admitted(2) show ?thesis
    by (cases rule: consume_in_transaction_cases) (auto dest!: insert_claim_effect intro: same new)
qed (auto intro: same)

lemma consume_evolves:
  assumes "consume env row t a p key occurrence w = Inr (x, w')"
  shows "claims_evolve w w' \<and> (claims_distinct w \<longrightarrow> claims_distinct w')"
  using assms
proof (cases rule: consume_claims)
  case same
  then show ?thesis by (simp add: same_claims_evolve claims_distinct_def)
next
  case new
  let ?c = "new_claim row t a p key"
  have id: "ec_id ?c \<notin> ec_id ` set (xw_claims w)" using new(3) by (auto simp: claim_clash_def list_ex_iff)
  have "claim_identity ?c \<notin> claim_identity ` set (xw_claims w)"
    using new(4) by (simp add: claim_of_key_None claim_identity_def new_claim_def)
  with id new(2) have "claims_distinct w \<longrightarrow> claims_distinct w'" by (simp add: claims_distinct_def)
  moreover have "claims_evolve w w'"
    by (auto simp: claims_evolve_def claim_row_of_def new(2) row_with_append)
  ultimately show ?thesis by blast
qed

text \<open>
  What each transition does to the claims: it fails and leaves them, or it rewrites the one row of its
  claim, which it found consumed.
\<close>

lemma put_claim_claims: "xw_claims (put_claim c f w) = update_where (\<lambda>x. ec_id x = c) f (xw_claims w)"
  by (simp add: put_claim_def)

lemma put_claim_all:
  assumes "claims_distinct w" and "claim_row_of c w = Some row"
    and "\<And>x. x \<in> set (xw_claims w) \<Longrightarrow> P x" and "P (f row)"
    and "xw_claims w' = xw_claims (put_claim c f w)" and "d \<in> set (xw_claims w')"
  shows "P d"
proof -
  from assms(5,6) obtain x where x: "x \<in> set (xw_claims w)" "d = (if ec_id x = c then f x else x)"
    by (auto simp: put_claim_claims update_where_def)
  show ?thesis
  proof (cases "ec_id x = c")
    case True
    with x(1) have "x = row" using assms(2) claim_row_of_Some [OF assms(1), of c x] by simp
    with True x(2) assms(4) show ?thesis by simp
  next
    case False
    with x assms(3) show ?thesis by simp
  qed
qed

definition claim_moves :: "uuid \<Rightarrow> claim_row \<Rightarrow> (claim_row \<Rightarrow> claim_row) \<Rightarrow> effect_world \<Rightarrow> effect_world \<Rightarrow> bool" where
  "claim_moves c row f w w' = (claim_row_of c w = Some row \<and> ec_state row = ClaimConsumed
     \<and> (\<forall>x. ec_id (f x) = ec_id x \<and> claim_identity (f x) = claim_identity x
          \<and> ec_application_request_sha256 (f x) = ec_application_request_sha256 x)
     \<and> (ec_handoff_permit_nonce row \<noteq> None \<longrightarrow> ec_handoff_permit_nonce (f row) = ec_handoff_permit_nonce row)
     \<and> xw_claims w' = xw_claims (put_claim c f w))"

lemma claim_moves_row: "claim_moves c row f w w' \<Longrightarrow> claim_row_of c w' = Some (f row)"
  unfolding claim_moves_def using same_claims_row [of w' "put_claim c f w" c] by (auto simp: put_claim_row)

lemma claim_moves_evolves: "claim_moves c row f w w' \<Longrightarrow> claims_evolve w w'"
  unfolding claim_moves_def
  by (elim conjE, rule put_claim_evolves) (auto simp: claim_evolves_def claim_identity_def)

lemma claim_moves_distinct: "claim_moves c row f w w' \<Longrightarrow> claims_distinct w' = claims_distinct w"
  unfolding claim_moves_def by (elim conjE, rule put_claim_distinct) auto

lemma enter_handoff_cases:
  assumes "enter_handoff c nonce digest expires now t w = (b, w')"
  obtains (refused) "\<not> b" "w' = w"
  | (entered) row f where "b" "claim_moves c row f w w'" "ec_application_request_sha256 row = digest"
      "ec_handoff_permit_nonce (f row) = Some nonce" "ec_state (f row) = ClaimConsumed"
      "ec_handoff_permit_nonce row = None" "now < expires"
proof (cases "claim_row_of c w")
  case None
  with assms refused show ?thesis by (auto simp: enter_handoff_def split: if_splits)
next
  case (Some row)
  show ?thesis
  proof (cases b)
    case False
    with assms Some refused show ?thesis by (auto simp: enter_handoff_def split: if_splits)
  next
    case True
    let ?f = "\<lambda>x. x\<lparr>ec_handoff_permit_nonce := Some nonce, ec_version := ec_version x + 1, ec_updated_at := t\<rparr>"
    have "claim_moves c row ?f w w'" and "ec_application_request_sha256 row = digest"
      and "ec_handoff_permit_nonce row = None" and "now < expires" and "ec_state row = ClaimConsumed"
      using assms Some True
      by (auto simp: enter_handoff_def claim_moves_def claim_identity_def split: if_splits)
    with True entered [of row ?f] show ?thesis by simp
  qed
qed

lemma complete_cases:
  assumes "complete persistable c use result_ref refs outcome t w = Inr (b, w')"
  obtains (refused) "\<not> b" "w' = w"
  | (completed) row f where "b" "claim_moves c row f w w'" "ec_handoff_permit_nonce row \<noteq> None"
      "ec_state (f row) = ClaimCompleted" "ec_handoff_permit_nonce (f row) = ec_handoff_permit_nonce row"
proof (cases "claim_row_of c w")
  case None
  with assms refused show ?thesis by (auto simp: complete_def split: if_splits)
next
  case (Some row)
  show ?thesis
  proof (cases b)
    case False
    with assms Some refused show ?thesis by (auto simp: complete_def Let_def split: if_splits)
  next
    case True
    let ?f = "\<lambda>x. x\<lparr>ec_state := ClaimCompleted, ec_version := ec_version x + 1,
      ec_evidence_refs := ec_evidence_refs x @ refs,
      ec_result_ref := (case result_ref of None \<Rightarrow> ec_result_ref x | Some r \<Rightarrow> Some r),
      ec_last_error_code := outcome, ec_updated_at := t\<rparr>"
    have "xw_claims w' = xw_claims (put_claim c ?f w)" and row: "ec_state row = ClaimConsumed" "ec_handoff_permit_nonce row \<noteq> None"
      using assms Some True by (auto simp: complete_def Let_def keeps_claims split: if_splits option.splits)
    then have "claim_moves c row ?f w w'" using Some by (simp add: claim_moves_def claim_identity_def)
    with True row completed [of row ?f] show ?thesis by simp
  qed
qed

lemma definitely_not_submitted_cases:
  assumes "definitely_not_submitted proven c reason t w = (b, w')"
  obtains (refused) "\<not> b" "w' = w"
  | (sealed) row f where "b" "claim_moves c row f w w'" "ec_handoff_permit_nonce row = None"
      "ec_state (f row) = ClaimNotSubmitted" "ec_handoff_permit_nonce (f row) = None"
proof (cases "claim_row_of c w")
  case None
  with assms refused show ?thesis by (auto simp: definitely_not_submitted_def split: if_splits)
next
  case (Some row)
  show ?thesis
  proof (cases b)
    case False
    with assms Some refused show ?thesis by (auto simp: definitely_not_submitted_def split: if_splits)
  next
    case True
    let ?f = "\<lambda>x. x\<lparr>ec_state := ClaimNotSubmitted, ec_version := ec_version x + 1,
      ec_last_error_code := Some (safe_code reason), ec_updated_at := t\<rparr>"
    have "xw_claims w' = xw_claims (put_claim c ?f w)" and row: "ec_state row = ClaimConsumed" "ec_handoff_permit_nonce row = None"
      using assms Some True by (auto simp: definitely_not_submitted_def keeps_claims split: if_splits)
    then have "claim_moves c row ?f w w'" using Some by (simp add: claim_moves_def claim_identity_def)
    with True row sealed [of row ?f] show ?thesis by simp
  qed
qed

lemma needs_review_cases:
  assumes "needs_review c reason mark t w = (b, w')"
  obtains (refused) "\<not> b" "w' = w"
  | (sealed) row f where "b" "claim_moves c row f w w'" "ec_state (f row) = ClaimNeedsReview"
proof (cases "claim_row_of c w")
  case None
  with assms refused show ?thesis by (auto simp: needs_review_def)
next
  case (Some row)
  show ?thesis
  proof (cases "ec_state row = ClaimConsumed")
    case False
    with assms Some refused show ?thesis by (auto simp: needs_review_def)
  next
    case True
    let ?f = "\<lambda>x. x\<lparr>ec_state := ClaimNeedsReview, ec_version := ec_version x + 1,
      ec_last_error_code := Some (safe_code reason), ec_updated_at := t\<rparr>"
    have b: b and "xw_claims w' = xw_claims (put_claim c ?f w)"
      using assms Some True by (auto simp: needs_review_def keeps_claims Let_def)
    then have "claim_moves c row ?f w w'" using Some True by (simp add: claim_moves_def claim_identity_def)
    with b sealed [of row ?f] show ?thesis by simp
  qed
qed

lemma record_reuse_claims:
  assumes "record_reuse env use c a p source refs w = Inr (x, w')"
  shows "xw_claims w' = xw_claims w \<and> (x \<noteq> None \<longrightarrow> (\<exists>d. claim_row_of (ec_id c) w = Some d \<and> ec_state d = ClaimCompleted))"
proof -
  have settled: "xw_claims (snd (settle_reuse use c a v refs r w)) = xw_claims w" for v r
    by (simp add: settle_reuse_def keeps_claims split: option.splits)
  have recorded: "xw_claims w' = xw_claims w \<and> (x \<noteq> None \<longrightarrow> claim_still_matches c p (claim_row_of (ec_id c) w))"
    if "reuse_transaction env use c a p v refs f w = Inr (x, w')" for v f
    using that settled [of v] by (auto simp: reuse_transaction_def and_then_Inr split: if_splits) (metis snd_conv)+
  from assms have "x = None \<and> w' = w \<or> (\<exists>v f. reuse_transaction env use c a p v refs f w = Inr (x, w'))"
    by (auto simp: record_reuse_def split: if_splits option.splits bool.splits sum.splits error.splits)
  with recorded show ?thesis
    by (cases "claim_row_of (ec_id c) w") (auto simp: claim_still_matches_def)
qed

lemma release_transaction_claims:
  assumes "release_transaction env c a p f t w = Inr (b, w')"
  shows "xw_claims w' = xw_claims w"
proof -
  have "xw_claims w' = xw_claims w" if "release_budget a t budget w = Inr (b, w')" for budget
    using that by (auto simp: release_budget_def and_then_Inr keeps_claims split: if_splits option.splits)
  with assms show ?thesis by (auto simp: release_transaction_def and_then_Inr split: if_splits)
qed

lemma release_refused_claims:
  "release_refused_reuse_reservation env c a p t w = Inr (b, w') \<Longrightarrow> xw_claims w' = xw_claims w"
  by (auto simp: release_refused_reuse_reservation_def dest: release_transaction_claims
    split: if_splits option.splits sum.splits error.splits)

lemma row_with_Some: "row_with key k rows = Some r \<Longrightarrow> r \<in> set rows \<and> key r = k"
  using row_with_key by fast

lemma lock_authority_Inr:
  assumes "lock_authority a w = Inr (i, e, v, r)"
  shows "i \<in> set (xw_investigations w) \<and> ir_id i = au_investigation_id a \<and> ir_status i = IRunning \<and> ir_stop_reason i = None"
    and "e \<in> set (xw_envelopes w) \<and> en_investigation_id e = au_investigation_id a"
    and "r \<in> set (xw_reservations w) \<and> rr_investigation_id r = au_investigation_id a
      \<and> rr_operation_key r = au_operation_key a \<and> same_amount_map (rr_amounts r) (au_reservation_amounts a)"
  using assms
  by (auto simp: lock_authority_def denied_def and_then_Inr find_Some_iff dest!: row_with_Some
    split: option.splits if_splits)

lemma lock_authority_invocation:
  assumes "lock_authority a w = Inr (i, e, v, r)" and "au_invocation_id a = Some n"
  shows "\<exists>x. v = Some x \<and> x \<in> set (xw_invocations w) \<and> ti_id x = n"
proof (cases "row_with ti_id n (xw_invocations w)")
  case None
  with assms show ?thesis by (auto simp: lock_authority_def denied_def split: option.splits if_splits)
next
  case (Some x)
  with assms have "v = Some x"
    by (auto simp: lock_authority_def denied_def and_then_Inr split: option.splits if_splits)
  with row_with_Some [OF Some] show ?thesis by simp
qed

lemma check_invocation_Inr:
  assumes "check_invocation env a f (Some x) False = Inr ()"
  shows "ti_investigation_id x = au_investigation_id a \<and> ti_status x = InvRunning
    \<and> (\<exists>d. au_invocation_arguments_sha256 a = Some d
        \<and> invocation_arguments_digest (ev_sha env) (ti_normalized_parameters x) (ti_passive_read_retry_trusted x) = Inr d)"
  using assms by (auto simp: check_invocation_def denied_def split: if_splits sum.splits option.splits)

lemma check_authority_Inr:
  assumes "check_authority env a p key i e v f allow w = Inr ()"
  shows "en_version e = au_expected_envelope_version a \<and> en_approval_decision_id e = au_approval_decision_id a
    \<and> pe_provider p \<in> set (en_allowed_providers e) \<and> check_invocation env a f v allow = Inr ()"
  using assms by (auto simp: check_authority_def Let_def denied_def and_then_Inr split: if_splits)

lemma admit_family_Inr:
  assumes "admit_family env a p key occurrence = Inr f"
  shows "map_of (ev_families env) (pe_family p) = Some f \<and> fb_provider f = pe_provider p
    \<and> pe_provider_scope p \<in> set (fb_provider_scopes f) \<and> check_digests (ev_sha env) p = Inr ()
    \<and> key = effect_key (ev_sha env) (au_investigation_id a) p"
  using assms
  by (auto simp: admit_family_def denied_def is_error_def validate_prepared_def and_then_def
    split: if_splits option.splits sum.splits)

text \<open>
  Two behaviours worth knowing. The review of a consumed claim writes its model run whatever the status of the
  run is: a run that succeeded meanwhile, by the adoption of a recovered answer, needs review again.
  And a retrohunt whose stored parameters hold a list anywhere is never admitted, as the frozen
  request it is compared with holds a tuple there.
\<close>

lemma review_overwrites_run:
  assumes "claim_row_of c w = Some row" and "ec_state row = ClaimConsumed"
    and "ec_bridge_turn_id row = Some n" and "ec_model_run_id row = Some m"
    and "r \<in> set (xw_runs w)" and "xr_id r = m"
  shows "\<exists>r'\<in>set (xw_runs (snd (needs_review c reason mark t w))). xr_id r' = m \<and> xr_status r' = MNeedsReview"
proof -
  have runs: "xw_runs (fail_invocation v st t u) = xw_runs u" "xw_runs (review_dispatch c t u) = xw_runs u"
    "xw_runs (review_retrohunt q t u) = xw_runs u" "xw_runs (put_claim c f u) = xw_runs u" for v st u q f
    by (simp_all add: fail_invocation_def review_dispatch_def review_retrohunt_def put_claim_def split: option.splits)
  have "\<exists>r'\<in>set (xw_runs (review_model (Some n) (Some m) code t u)). xr_id r' = m \<and> xr_status r' = MNeedsReview"
    if "xw_runs u = xw_runs w" for code u
  proof -
    let ?f = "\<lambda>x. x\<lparr>xr_status := MNeedsReview, xr_submission_state := ExternalStateUnknown,
      xr_error_code := Some code, xr_updated_at := t\<rparr>"
    have "?f r \<in> set (xw_runs (review_model (Some n) (Some m) code t u))"
      using assms(5,6) that by (force simp: review_model_def update_where_def)
    with assms(6) show ?thesis by (intro bexI [of _ "?f r"]) simp_all
  qed
  then show ?thesis using assms(1-4) by (simp add: needs_review_def Let_def runs)
qed

lemma retrohunt_list_refused:
  assumes "normalize_json (retrohunt_operation r) = Inr q" and "has_array q"
  shows "retrohunt_request_matches sha r p a \<noteq> Inr True"
  using assms by (auto simp: retrohunt_request_matches_def frozen_equals_def Let_def split: sum.splits)

subsection \<open>A small world\<close>

definition plain_sha :: "string \<Rightarrow> string" where
  "plain_sha s = replicate 64 CHR ''a''"

definition small_prepared :: prepared where
  "small_prepared = \<lparr>pe_family = ''vt'', pe_provider = ''virustotal'', pe_provider_scope = ''public'',
     pe_normalizer_version = ''v1'', pe_canonical_request = JObj [(''hash'', JStr ''ab'')],
     pe_canonical_request_sha256 = plain_sha [], pe_application_request_sha256 = plain_sha [],
     pe_physical_request_sha256 = plain_sha [], pe_occurrence_id = None,
     pe_application_request = demo_wire ''k'' ''x'', pe_credential_parameter_names = [],
     pe_identity_version = ''effect-key.v1'',
     pe_evidence_refs = [\<lparr>rf_kind = ''sample'', rf_id = ''00000000-0000-0000-0000-000000000007'', rf_version = ''1'',
       rf_sha256 = plain_sha []\<rparr>]\<rparr>"

definition small_family :: family_binding where
  "small_family = \<lparr>fb_provider = ''virustotal'', fb_provider_scopes = [''public''], fb_normalizer_versions = [''v1''],
     fb_invocation_tool_binding = Some (''vt_report'', ''1''), fb_model_submission = False,
     fb_requires_model_lineage = False, fb_model_run_provider = None, fb_requires_source_refs = False,
     fb_source_reference_resolver = None, fb_credential_parameter_names = []\<rparr>"

definition small_env :: effect_env where
  "small_env = \<lparr>ev_sha = plain_sha, ev_families = [(''vt'', small_family)], ev_guard = None, ev_permissive = False,
     ev_persistable = (\<lambda>p. True), ev_persistable_ref = (\<lambda>r. True), ev_safe_ref = (\<lambda>r. True),
     ev_report = (\<lambda>b. None)\<rparr>"

definition small_authority :: authority where
  "small_authority = \<lparr>au_investigation_id = 1, au_invocation_id = Some 5, au_operation_key = ''op'',
     au_reservation_amounts = [(''vt_requests'', 1)], au_expected_envelope_version = 1, au_approval_decision_id = 9,
     au_invocation_arguments_sha256 = Some (plain_sha []), au_bridge_turn_id = None, au_model_run_id = None,
     au_acquisition_attempt_id = None, au_acquisition_dispatch_attempt_id = None,
     au_retrohunt_reservation_id = None, au_authority_kind = HumanG2, au_policy_event_id = None,
     au_policy_version = None, au_pinned_subject_id = None\<rparr>"

definition small_sample :: sample_row where
  "small_sample = \<lparr>sl_subject_id = 2, sl_tlp = ''GREEN'', sl_do_not_submit = False, sl_license_restriction = None,
     sl_external_llm_allowed = False, sm_id = 7, sm_blob_id = 8, sm_expected_hash = None,
     sm_source_object_id = None\<rparr>"

definition small_world :: effect_world where
  "small_world = \<lparr>xw_claims = [], xw_uses = [],
     xw_investigations = [\<lparr>ir_id = 1, ir_subject_id = 2, ir_status = IRunning, ir_stop_reason = None\<rparr>],
     xw_envelopes = [\<lparr>en_investigation_id = 1, en_version = 1, en_approval_decision_id = 9,
       en_allowed_providers = [''virustotal''], en_disclosure_tlp = Some ''GREEN'', en_do_not_submit = False,
       en_external_llm_allowed = False, en_acquire_hits_allowed = False, en_budget_snapshot = None,
       en_updated_at = utc 0\<rparr>],
     xw_invocations = [\<lparr>ti_id = 5, ti_investigation_id = 1, ti_operation_key = ''op'', ti_status = InvRunning,
       ti_normalized_parameters = JObj [], ti_passive_read_retry_trusted = None, ti_tool_name = ''vt_report'',
       ti_schema_version = ''1'', ti_version = 1, ti_updated_at = utc 0\<rparr>],
     xw_reservations = [\<lparr>rr_investigation_id = 1, rr_operation_key = ''op'', rr_status = Reserved,
       rr_amounts = [(''vt_requests'', 1)]\<rparr>],
     xw_dispatches = [], xw_dispatch_links = [], xw_acquisition_attempts = [], xw_associations =
       [\<lparr>sr_id = 6, sr_investigation_id = 1, sr_sample_id = Some 7, sr_sample_sha256 = plain_sha []\<rparr>],
     xw_retrohunts = [], xw_turns = [], xw_conversations = [], xw_runs = [],
     xw_subjects = [2], xw_samples = [small_sample],
     xw_documents = [], xw_blobs = [\<lparr>bl_id = 8, bl_sha256 = plain_sha []\<rparr>], xw_observations = []\<rparr>"

definition small_claim :: claim_row where
  "small_claim = new_claim 100 (utc 1) small_authority small_prepared (plain_sha [])"

definition claimed_world :: "claim_row \<Rightarrow> effect_world" where
  "claimed_world c = small_world\<lparr>xw_claims := [c]\<rparr>"

lemma small_digests:
  "effect_key plain_sha i p = plain_sha []" "occurrence_sha256 plain_sha o' = plain_sha []"
  "wire_request_sha256 plain_sha r = plain_sha []"
  by (simp_all add: effect_key_def occurrence_sha256_def wire_request_sha256_def plain_sha_def)

lemma small_valid: "validate_prepared small_env small_prepared = Inr ()"
proof -
  have "canonical_json_bytes (JObj [(''hash'', JStr ''ab'')]) = Inr (object_bytes [(''hash'', ''ab'')])"
    using string_object_bytes [of "[(''hash'', ''ab'')]"] by (simp add: string_object_def)
  then show ?thesis
    by (simp add: validate_prepared_def check_digests_def small_prepared_def small_env_def
      canonical_request_sha256_def application_request_sha256_def small_digests) (simp add: plain_sha_def)
qed

lemma small_prepared_fields:
  "pe_family small_prepared = ''vt''" "pe_provider small_prepared = ''virustotal''"
  "pe_provider_scope small_prepared = ''public''"
  by (simp_all add: small_prepared_def)

lemma small_family_attempts:
  "lock_and_consume_family_attempt small_env small_authority small_prepared i small_family t w = Inr w"
  "lock_and_start_model_attempt small_authority small_prepared subject small_family t w = Inr w"
proof -
  have "\<not> starts_with (pe_family small_prepared) ''retrohunt.''" "\<not> has_prefix acquisition_prefixes (pe_family small_prepared)"
    "\<not> requires_model_lineage (pe_family small_prepared) small_family" unfolding small_prepared_fields by code_simp+
  then show "lock_and_consume_family_attempt small_env small_authority small_prepared i small_family t w = Inr w"
    "lock_and_start_model_attempt small_authority small_prepared subject small_family t w = Inr w"
    by (simp_all add: lock_and_consume_family_attempt_def lock_and_start_model_attempt_def Let_def small_authority_def)
qed

lemma small_sources:
  "check_source_restrictions small_env small_authority small_prepared 2 small_family
     (report_contents small_env small_authority small_prepared small_world) (claimed_world c) = Inr ()"
proof -
  have kind: "\<not> is_model_submission small_prepared small_family" "\<not> is_bridge_family (pe_family small_prepared)"
    "\<not> vt_file_hash_read (pe_family small_prepared)"
    unfolding is_model_submission_def small_prepared_fields by code_simp+
  have refs: "pe_evidence_refs small_prepared = [\<lparr>rf_kind = ''sample'', rf_id = ''00000000-0000-0000-0000-000000000007'',
      rf_version = ''1'', rf_sha256 = plain_sha []\<rparr>]" by (simp add: small_prepared_def)
  have "parse_uuid ''00000000-0000-0000-0000-000000000007'' = Some 7" by code_simp
  then have cite: "cite_all False False (pe_evidence_refs small_prepared) nothing_cited
    = Inr (nothing_cited\<lparr>ci_sample_ids := [7], ci_referenced_sample_ids := [7]\<rparr>)"
    by (simp add: refs cite_def cite_by_id_def nothing_cited_def source_kinds_def)
  have "source_restriction_reason False True 2 ''vt'' False small_sample = None" by code_simp
  moreover have "cited_associations small_authority (nothing_cited\<lparr>ci_sample_ids := [7], ci_referenced_sample_ids := [7]\<rparr>) []
      (claimed_world c) = xw_associations small_world"
    by (simp add: cited_associations_def claimed_world_def small_world_def small_authority_def nothing_cited_def)
  ultimately show ?thesis
    using kind cite
    by (simp add: check_source_restrictions_def cited_grounds_def hashes_agree_def Let_def nothing_cited_def claimed_world_def small_prepared_fields)
      (simp add: small_world_def follow_association_def check_associations_def check_sources_def covers_def minus_def
        small_authority_def small_sample_def small_env_def small_prepared_fields List.map_filter_def)
qed

lemma small_consumed:
  "consume small_env 100 (utc 1) small_authority small_prepared (plain_sha []) (plain_sha []) small_world
   = Inr (ConsumeCommitted 100, claimed_world small_claim)"
proof -
  have family: "admit_family small_env small_authority small_prepared (plain_sha []) (plain_sha []) = Inr small_family"
    by (simp add: admit_family_def small_valid is_error_def)
      (simp add: small_env_def small_authority_def small_family_def small_prepared_def
        small_digests family_credentials_match_def)
  obtain i e v r where world: "lock_authority small_authority small_world = Inr (i, e, v, r)" "rr_status r = Reserved"
      "ir_subject_id i = 2"
      "check_authority small_env small_authority small_prepared (plain_sha []) i e v small_family False small_world = Inr ()"
  proof
    show "lock_authority small_authority small_world = Inr (hd (xw_investigations small_world),
      hd (xw_envelopes small_world), Some (hd (xw_invocations small_world)), hd (xw_reservations small_world))" by code_simp
    show "rr_status (hd (xw_reservations small_world)) = Reserved" by code_simp
    show "ir_subject_id (hd (xw_investigations small_world)) = 2" by code_simp
    show "check_authority small_env small_authority small_prepared (plain_sha []) (hd (xw_investigations small_world))
      (hd (xw_envelopes small_world)) (Some (hd (xw_invocations small_world))) small_family False small_world = Inr ()"
    proof -
      have "casefold ''GREEN'' \<notin> {''amber'', ''red''}" "\<not> is_model_submission small_prepared small_family"
        "\<not> has_prefix acquisition_prefixes (pe_family small_prepared)" "\<not> starts_with (pe_family small_prepared) ''vt.''"
        unfolding is_model_submission_def small_prepared_fields by (code_simp, code_simp, code_simp, code_simp)
      moreover have "invocation_arguments_digest plain_sha (JObj []) None = Inr (plain_sha [])" by code_simp
      ultimately show ?thesis
        by (simp add: check_authority_def Let_def small_world_def small_authority_def small_prepared_fields do_not_submit_blocks_def
          check_policy_def check_invocation_def small_family_def small_env_def deny_if_def)
    qed
  qed
  have "claim_of_key (au_investigation_id small_authority) (plain_sha []) small_world = None" by code_simp
  moreover have "lock_policy small_env small_authority small_world = Inr ()" by code_simp
  moreover have "insert_claim small_env 100 (utc 1) small_authority small_prepared (plain_sha []) i small_family small_world
      = Inr (ConsumeCommitted 100, claimed_world small_claim)"
  proof -
    have "\<not> claim_clash (new_claim 100 (utc 1) small_authority small_prepared (plain_sha [])) small_world"
      by (simp add: claim_clash_def new_claim_def small_world_def small_authority_def)
    then show ?thesis
      using small_sources [of small_claim]
      by (simp add: insert_claim_def Let_def small_family_attempts claimed_world_def small_claim_def world(3))
        (simp add: small_authority_def small_world_def)
  qed
  ultimately show ?thesis
    using family world
    by (simp add: consume_def consume_in_transaction_def validate_external_source_refs_def validate_family_source_refs_def)
      (simp add: small_family_def)
qed

subsection \<open>Properties\<close>

text \<open>
  C8. No effect is admitted without its authority. A committed consumption found the investigation running and not
  stopped, its envelope at the version and the approval the authority names and open to the
  provider, the budget reservation still reserved with exactly the amounts claimed, the invocation
  (when there is one) running with the digest of its very arguments, the family registered for the
  provider and scope, the digests of the request intact and its key computed from it, and no
  earlier claim of that effect; it then adds that one claim, not handed off.
\<close>

theorem consume_admits_only_authorised:
  assumes "consume env row t a p key occurrence w = Inr (ConsumeCommitted c, w')"
  shows "(\<exists>i\<in>set (xw_investigations w). ir_id i = au_investigation_id a \<and> ir_status i = IRunning \<and> ir_stop_reason i = None)
    \<and> (\<exists>e\<in>set (xw_envelopes w). en_investigation_id e = au_investigation_id a
        \<and> en_version e = au_expected_envelope_version a \<and> en_approval_decision_id e = au_approval_decision_id a
        \<and> pe_provider p \<in> set (en_allowed_providers e))
    \<and> (\<exists>r\<in>set (xw_reservations w). rr_investigation_id r = au_investigation_id a \<and> rr_operation_key r = au_operation_key a
        \<and> rr_status r = Reserved \<and> same_amount_map (rr_amounts r) (au_reservation_amounts a))
    \<and> (\<forall>v. au_invocation_id a = Some v \<longrightarrow> (\<exists>x\<in>set (xw_invocations w). ti_id x = v
        \<and> ti_investigation_id x = au_investigation_id a \<and> ti_status x = InvRunning
        \<and> (\<exists>d. au_invocation_arguments_sha256 a = Some d
            \<and> invocation_arguments_digest (ev_sha env) (ti_normalized_parameters x) (ti_passive_read_retry_trusted x) = Inr d)))
    \<and> (\<exists>f. map_of (ev_families env) (pe_family p) = Some f \<and> fb_provider f = pe_provider p
        \<and> pe_provider_scope p \<in> set (fb_provider_scopes f))
    \<and> check_digests (ev_sha env) p = Inr () \<and> key = effect_key (ev_sha env) (au_investigation_id a) p
    \<and> claim_of_key (au_investigation_id a) key w = None
    \<and> c = row \<and> xw_claims w' = xw_claims w @ [new_claim row t a p key]
    \<and> ec_state (new_claim row t a p key) = ClaimConsumed \<and> ec_handoff_permit_nonce (new_claim row t a p key) = None"
proof -
  from assms obtain f where f: "admit_family env a p key occurrence = Inr f"
      "consume_in_transaction env row t a p key f w = Inr (ConsumeCommitted c, w')"
    by (rule consume_Inr_cases) auto
  from f(2) obtain i e v r where r: "claim_of_key (au_investigation_id a) key w = None"
      "lock_authority a w = Inr (i, e, v, r)" "check_authority env a p key i e v f False w = Inr ()"
      "rr_status r = Reserved" "insert_claim env row t a p key i f w = Inr (ConsumeCommitted c, w')"
    by (rule consume_in_transaction_cases) auto
  note locked = lock_authority_Inr [OF r(2)] and checked = check_authority_Inr [OF r(3)]
  have "\<exists>x\<in>set (xw_invocations w). ti_id x = n \<and> ti_investigation_id x = au_investigation_id a \<and> ti_status x = InvRunning
      \<and> (\<exists>d. au_invocation_arguments_sha256 a = Some d
          \<and> invocation_arguments_digest (ev_sha env) (ti_normalized_parameters x) (ti_passive_read_retry_trusted x) = Inr d)"
    if "au_invocation_id a = Some n" for n
    using lock_authority_invocation [OF r(2) that] checked check_invocation_Inr by fastforce
  then show ?thesis
    using locked(1-3) checked r(1,4) admit_family_Inr [OF f(1)] insert_claim_effect [OF r(5)]
    by (intro conjI) (blast | simp add: new_claim_def)+
qed

theorem consume_admits_only_authorised_witness:
  "claim_of_key (au_investigation_id small_authority) (plain_sha []) small_world = None
   \<and> xw_claims (claimed_world small_claim) = xw_claims small_world @ [small_claim]
   \<and> check_digests plain_sha small_prepared = Inr ()"
proof -
  have sha: "ev_sha small_env = plain_sha" by (simp add: small_env_def)
  show ?thesis using consume_admits_only_authorised [OF small_consumed] unfolding sha small_claim_def by blast
qed

end
