(* ===== verification/EffectCoordinator.thy ===== *)
theory EffectCoordinator
  imports EffectAdmission Machines
begin

text \<open>
  The coordinator of external effects, \<open>application/external_effects.py\<close>. Each call of \<open>send_one\<close> is a
  task; a step is what happens between two points where other tasks may run: one store transaction,
  one use of the physical send capability, the return or the failure of the transport. Any number
  of tasks of any number of processes interleave, a store call may fail before or after it
  committed, a task may be cancelled or die anywhere, and any other transaction may change the rows
  other than the claims. The log of physical sends is a ghost: it records every authorised send.
\<close>

subsection \<open>Permits\<close>

record permit =
  pm_claim_id :: uuid
  pm_investigation_id :: uuid
  pm_invocation_id :: "uuid option"
  pm_effect_key :: string
  pm_family :: string
  pm_provider :: string
  pm_provider_scope :: string
  pm_request_digest :: string
  pm_envelope_version :: int
  pm_approval_decision_id :: uuid
  pm_nonce :: uuid
  pm_expires :: int

definition issue_permit :: "uuid \<Rightarrow> authority \<Rightarrow> prepared \<Rightarrow> string \<Rightarrow> uuid \<Rightarrow> int \<Rightarrow> permit" where
  "issue_permit c a p key nonce expires = \<lparr>pm_claim_id = c, pm_investigation_id = au_investigation_id a,
     pm_invocation_id = au_invocation_id a, pm_effect_key = key, pm_family = pe_family p,
     pm_provider = pe_provider p, pm_provider_scope = pe_provider_scope p,
     pm_request_digest = pe_physical_request_sha256 p, pm_envelope_version = au_expected_envelope_version a,
     pm_approval_decision_id = au_approval_decision_id a, pm_nonce = nonce, pm_expires = expires\<rparr>"

definition permit_matches ::
  "(string \<Rightarrow> string) \<Rightarrow> permit \<Rightarrow> authority \<Rightarrow> prepared \<Rightarrow> string \<Rightarrow> int \<Rightarrow> bool" where
  "permit_matches sha m a p key now =
     (now < pm_expires m \<and> pm_investigation_id m = au_investigation_id a \<and> pm_invocation_id m = au_invocation_id a
      \<and> pm_effect_key m = key \<and> pm_family m = pe_family p \<and> pm_provider m = pe_provider p
      \<and> pm_provider_scope m = pe_provider_scope p \<and> pm_request_digest m = pe_physical_request_sha256 p
      \<and> pm_envelope_version m = au_expected_envelope_version a
      \<and> pm_approval_decision_id m = au_approval_decision_id a
      \<and> wire_request_sha256 sha (pe_application_request p) = pm_request_digest m)"

text \<open>The registry holds the permits issued and not yet burnt.\<close>

definition permit_valid ::
  "(string \<Rightarrow> string) \<Rightarrow> permit list \<Rightarrow> permit \<Rightarrow> authority \<Rightarrow> prepared \<Rightarrow> string \<Rightarrow> int \<Rightarrow> bool" where
  "permit_valid sha issued m a p key now = (m \<in> set issued \<and> permit_matches sha m a p key now)"

definition forget_permit :: "permit \<Rightarrow> permit list \<Rightarrow> permit list" where
  "forget_permit m issued = filter (\<lambda>x. pm_nonce x \<noteq> pm_nonce m) issued"

definition burn_and_validate ::
  "(string \<Rightarrow> string) \<Rightarrow> permit list \<Rightarrow> permit \<Rightarrow> authority \<Rightarrow> prepared \<Rightarrow> string \<Rightarrow> int \<Rightarrow> bool \<times> permit list" where
  "burn_and_validate sha issued m a p key now =
     (if m \<notin> set issued then (False, issued)
      else if \<not> permit_matches sha m a p key now
      then (False, if pm_expires m \<le> now then forget_permit m issued else issued)
      else (True, forget_permit m issued))"

subsection \<open>Tasks\<close>

datatype outcome = Completed uuid | Reused uuid uuid | Refused string | DefinitelyNotSubmitted uuid
  | Ambiguous uuid bool "string option" | Escaped

record response =
  rs_result_ref :: "string option"
  rs_evidence_refs :: "evidence_ref list"
  rs_outcome_code :: "string option"

text \<open>Where a task stands: the store or transport call it is about to make, or its outcome.\<close>

datatype stage =
    AtConsume
  | AtExisting claim_row
  | AtGate permit
  | InTransport permit bool bool
  | AtComplete permit response
  | AtSealZero uuid string
  | AtSealReview uuid string bool outcome
  | Settled outcome

record task =
  tk_authority :: authority
  tk_prepared :: prepared
  tk_mark_invocation :: bool
  tk_passive :: bool
  tk_stage :: stage

record send =
  sn_claim :: uuid
  sn_nonce :: uuid
  sn_investigation :: uuid
  sn_key :: string
  sn_prepared :: prepared

record system =
  sy_world :: effect_world
  sy_tasks :: "task list"
  sy_issued :: "permit list"
  sy_nonces :: "uuid list"
  sy_sends :: "send list"

text \<open>How a store call ends for its caller, and whether a call that did not return had committed.\<close>

datatype reply = Returned | Raised bool | Cancelled bool

definition reply_commits :: "reply \<Rightarrow> bool" where
  "reply_commits r = (case r of Returned \<Rightarrow> True | Raised b \<Rightarrow> b | Cancelled b \<Rightarrow> b)"

datatype failure = SafeFailure string | NamedFailure string | GateFailure

definition ascii_alpha :: "char \<Rightarrow> bool" where
  "ascii_alpha c = (let n = of_char c :: nat in (65 \<le> n \<and> n \<le> 90) \<or> (97 \<le> n \<and> n \<le> 122))"

definition passive_read_failure_stage :: "failure \<Rightarrow> string" where
  "passive_read_failure_stage f = (case f of
     SafeFailure s \<Rightarrow> s
   | GateFailure \<Rightarrow> ''handoff_gate_failed''
   | NamedFailure name \<Rightarrow> ''transport_exception_'' @ take 40
       (if name = [] \<or> list_ex (\<lambda>c. of_char c \<ge> (128 :: nat)) name \<or> \<not> ascii_alpha (hd name)
           \<or> \<not> list_all (\<lambda>c. py_alnum c \<or> c = CHR ''_'') name
        then ''Unknown'' else name))"

definition transport_stage :: "task \<Rightarrow> failure \<Rightarrow> string" where
  "transport_stage k f = (if tk_passive k then passive_read_failure_stage f else ''transport_outcome_unknown'')"

definition named_stage :: "task \<Rightarrow> string \<Rightarrow> string \<Rightarrow> string" where
  "named_stage k passive other = (if tk_passive k then passive else other)"

definition seal_review :: "task \<Rightarrow> uuid \<Rightarrow> string \<Rightarrow> stage" where
  "seal_review k c stage = AtSealReview c stage (tk_mark_invocation k)
     (Ambiguous c True (if tk_passive k then Some stage else None))"

definition seal_cancelled :: "task \<Rightarrow> uuid \<Rightarrow> stage" where
  "seal_cancelled k c = AtSealReview c ''cancelled_during_transport'' True
     (Ambiguous c False (if tk_passive k then Some ''cancelled_during_transport'' else None))"

definition task_key :: "effect_env \<Rightarrow> task \<Rightarrow> string" where
  "task_key env k = effect_key (ev_sha env) (au_investigation_id (tk_authority k)) (tk_prepared k)"

text \<open>The checks before anything is stored.\<close>

definition prepared_refused :: "effect_env \<Rightarrow> authority \<Rightarrow> prepared \<Rightarrow> bool" where
  "prepared_refused env a p = (is_error (validate_prepared env p)
     \<or> (au_bridge_turn_id a = None) \<noteq> (au_model_run_id a = None)
     \<or> (au_authority_kind a = OsintPolicy \<and> au_policy_event_id a = None))"

definition new_task :: "effect_env \<Rightarrow> authority \<Rightarrow> prepared \<Rightarrow> bool \<Rightarrow> bool \<Rightarrow> task" where
  "new_task env a p mark passive = \<lparr>tk_authority = a, tk_prepared = p, tk_mark_invocation = mark, tk_passive = passive,
     tk_stage = (if prepared_refused env a p then Settled (Refused ''invalid_prepared_effect'') else AtConsume)\<rparr>"

text \<open>Passive reads: the families that may be retried, and the task of \<open>send_passive_read\<close>.\<close>

definition retryable_vt_read_families :: "string list" where
  "retryable_vt_read_families = [''vt.file_report'', ''vt.object_report'', ''vt.relationships'',
     ''vt.intelligence_search'', ''vt.behaviour'', ''vt.behaviour_pcap'']"

definition byte_upper :: "char \<Rightarrow> char" where
  "byte_upper c = (let n = of_char c :: nat in if 97 \<le> n \<and> n \<le> 122 then char_of (n - 32) else c)"

definition is_retryable_vt_passive_read :: "prepared \<Rightarrow> bool" where
  "is_retryable_vt_passive_read p = (pe_provider p = ''vt'' \<and> pe_family p \<in> set retryable_vt_read_families
     \<and> map byte_upper (wr_method (pe_application_request p)) = ''GET'')"

definition passive_read_task :: "effect_env \<Rightarrow> authority \<Rightarrow> prepared \<Rightarrow> bool \<Rightarrow> task" where
  "passive_read_task env a p defer_review =
     (let k = new_task env a p (\<not> defer_review) True in
      if is_retryable_vt_passive_read p then k
      else k\<lparr>tk_stage := Settled (Refused ''passive_read_retry_not_allowed'')\<rparr>)"

definition refusal_text :: "string \<Rightarrow> string option \<Rightarrow> string" where
  "refusal_text reason detail = (case detail of None \<Rightarrow> reason | Some d \<Rightarrow> reason @ '':'' @ d)"

text \<open>The consumption, then the permit when the claim was committed by this very call.\<close>

definition after_consume ::
  "effect_env \<Rightarrow> int \<Rightarrow> task \<Rightarrow> uuid \<Rightarrow> int \<Rightarrow> int \<Rightarrow> consume_result \<Rightarrow> stage \<times> permit list" where
  "after_consume env ttl k nonce issued_at now r = (case r of
     ConsumeRefused reason detail \<Rightarrow> (Settled (Refused (refusal_text reason detail)), [])
   | ExistingClaim c \<Rightarrow> (AtExisting c, [])
   | ConsumeCommitted c \<Rightarrow>
       let m = issue_permit c (tk_authority k) (tk_prepared k) (task_key env k) nonce (issued_at + ttl) in
       (if permit_matches (ev_sha env) m (tk_authority k) (tk_prepared k) (task_key env k) now
        then AtGate m else AtSealZero c ''permit_validation_failed'', [m]))"

definition claim_outcome_code :: "claim_row \<Rightarrow> string option" where
  "claim_outcome_code c = (if ec_state c = ClaimCompleted \<and> ec_last_error_code c \<noteq> None
     \<and> the (ec_last_error_code c) \<in> set safe_outcome_codes then ec_last_error_code c else None)"

text \<open>A claim of the same effect exists: its binding is compared, then its state decides.\<close>

type_synonym reuse_policies =
  "(string \<times> (claim_row \<Rightarrow> authority \<Rightarrow> prepared \<Rightarrow> (uuid option \<times> evidence_ref list) option)) list"

definition binding_conflict :: "effect_env \<Rightarrow> task \<Rightarrow> claim_row \<Rightarrow> bool" where
  "binding_conflict env k c = (ec_investigation_id c \<noteq> au_investigation_id (tk_authority k)
     \<or> ec_effect_key c \<noteq> task_key env k \<or> ec_family c \<noteq> pe_family (tk_prepared k)
     \<or> ec_provider c \<noteq> pe_provider (tk_prepared k) \<or> ec_provider_scope c \<noteq> pe_provider_scope (tk_prepared k)
     \<or> ec_canonical_request_sha256 c \<noteq> pe_canonical_request_sha256 (tk_prepared k)
     \<or> ec_application_request_sha256 c \<noteq> pe_application_request_sha256 (tk_prepared k))"

definition kept_world :: "reply \<Rightarrow> ('a \<times> effect_world) result \<Rightarrow> effect_world \<Rightarrow> effect_world" where
  "kept_world r call w = (if reply_commits r then (case call of Inl e \<Rightarrow> w | Inr (x, w') \<Rightarrow> w') else w)"

definition refuse_reuse ::
  "effect_env \<Rightarrow> task \<Rightarrow> claim_row \<Rightarrow> datetime \<Rightarrow> reply \<Rightarrow> effect_world \<Rightarrow> outcome \<times> effect_world" where
  "refuse_reuse env k c t r w =
     (case r of Cancelled b \<Rightarrow> Escaped | _ \<Rightarrow> Refused ''effect_occurrence_required'',
      kept_world r (release_refused_reuse_reservation env c (tk_authority k) (tk_prepared k) t w) w)"

definition reuse_completed ::
  "effect_env \<Rightarrow> task \<Rightarrow> claim_row \<Rightarrow> uuid \<Rightarrow> uuid option \<times> evidence_ref list \<Rightarrow> reply \<Rightarrow> effect_world \<Rightarrow>
   outcome \<times> effect_world" where
  "reuse_completed env k c use decision r w =
     (let call = record_reuse env use c (tk_authority k) (tk_prepared k) (fst decision) (snd decision) w in
      (case r of Cancelled b \<Rightarrow> Escaped | Raised b \<Rightarrow> Refused ''reuse_record_failed''
        | Returned \<Rightarrow> (case call of Inr (Some u, w') \<Rightarrow> Reused (ec_id c) u | _ \<Rightarrow> Refused ''reuse_record_failed''),
       kept_world r call w))"

definition handle_existing ::
  "effect_env \<Rightarrow> reuse_policies \<Rightarrow> task \<Rightarrow> claim_row \<Rightarrow> uuid \<Rightarrow> datetime \<Rightarrow> reply \<Rightarrow> effect_world \<Rightarrow>
   outcome \<times> effect_world" where
  "handle_existing env policies k c use t r w =
     (if binding_conflict env k c then (Refused ''effect_binding_conflict'', w)
      else case ec_state c of
        ClaimCompleted \<Rightarrow>
          if claim_outcome_code c \<noteq> None
          then (if ec_invocation_id c = au_invocation_id (tk_authority k)
                   \<and> ec_bridge_turn_id c = au_bridge_turn_id (tk_authority k)
                   \<and> ec_model_run_id c = au_model_run_id (tk_authority k)
                then (Completed (ec_id c), w) else refuse_reuse env k c t r w)
          else (case map_of policies (pe_family (tk_prepared k)) of
              None \<Rightarrow> refuse_reuse env k c t r w
            | Some policy \<Rightarrow> (case policy c (tk_authority k) (tk_prepared k) of
                None \<Rightarrow> refuse_reuse env k c t r w
              | Some decision \<Rightarrow> reuse_completed env k c use decision r w))
      | ClaimNotSubmitted \<Rightarrow> (DefinitelyNotSubmitted (ec_id c), w)
      | ClaimConsumed \<Rightarrow> (case r of Cancelled b \<Rightarrow> Escaped | _ \<Rightarrow> Ambiguous (ec_id c) True None,
          kept_world r (Inr (needs_review (ec_id c) ''replayed_consumed_claim'' True t w)) w)
      | ClaimNeedsReview \<Rightarrow> (Ambiguous (ec_id c) True None, w))"

text \<open>The gate: last checks, the durable handoff marker, then the transport may run.\<close>

definition pass_gate ::
  "effect_env \<Rightarrow> task \<Rightarrow> permit \<Rightarrow> permit list \<Rightarrow> int \<Rightarrow> int \<Rightarrow> int \<Rightarrow> datetime \<Rightarrow> reply \<Rightarrow> effect_world \<Rightarrow>
   stage \<times> effect_world" where
  "pass_gate env k m issued now store_now later t r w =
     (let p = tk_prepared k; c = pm_claim_id m;
          (admitted, w') = enter_handoff c (pm_nonce m) (pe_application_request_sha256 p) (pm_expires m) store_now t w in
      if \<not> permit_valid (ev_sha env) issued m (tk_authority k) p (task_key env k) now
         \<or> is_error (validate_prepared env p)
         \<or> wire_request_sha256 (ev_sha env) (pe_application_request p) \<noteq> pm_request_digest m
      then (AtSealZero c ''pre_handoff_gate_refused'', w)
      else case r of
        Cancelled committed \<Rightarrow> (seal_cancelled k c, if committed then w' else w)
      | Raised committed \<Rightarrow>
          (seal_review k c (transport_stage k (NamedFailure ''HandoffGateRefused'')), if committed then w' else w)
      | Returned \<Rightarrow>
          (if \<not> admitted then AtSealZero c ''pre_handoff_gate_refused''
           else if pm_expires m \<le> later then seal_review k c (transport_stage k (NamedFailure ''HandoffGateRefused''))
           else InTransport m False False, w'))"

text \<open>
  The physical send capability: one attempt, with the very request that was prepared, while its digests
  still hold and the permit can still be burnt. The transport sends right after it returns.
\<close>

definition call_capability ::
  "effect_env \<Rightarrow> task \<Rightarrow> permit \<Rightarrow> bool \<Rightarrow> bool \<Rightarrow> permit list \<Rightarrow> bool \<Rightarrow> int \<Rightarrow> int \<Rightarrow>
   stage \<times> permit list \<times> bool" where
  "call_capability env k m attempted used issued same now later =
     (let p = tk_prepared k in
      if attempted then (InTransport m attempted used, issued, False)
      else if \<not> same \<or> is_error (validate_prepared env p) then (InTransport m True used, issued, False)
      else let (ok, issued') = burn_and_validate (ev_sha env) issued m (tk_authority k) p (task_key env k) now in
        if wire_request_sha256 (ev_sha env) (pe_application_request p) \<noteq> pm_request_digest m \<or> \<not> ok
           \<or> pm_expires m \<le> later
        then (InTransport m True used, issued', False)
        else (InTransport m True True, issued', True))"

definition transport_returns :: "task \<Rightarrow> permit \<Rightarrow> bool \<Rightarrow> response option \<Rightarrow> stage" where
  "transport_returns k m used answer =
     (if \<not> used then seal_review k (pm_claim_id m) (transport_stage k (NamedFailure ''HandoffGateRefused''))
      else case answer of None \<Rightarrow> seal_review k (pm_claim_id m) ''invalid_transport_response''
        | Some x \<Rightarrow> AtComplete m x)"

definition finish_complete ::
  "effect_env \<Rightarrow> task \<Rightarrow> permit \<Rightarrow> response \<Rightarrow> uuid \<Rightarrow> datetime \<Rightarrow> reply \<Rightarrow> effect_world \<Rightarrow> stage \<times> effect_world" where
  "finish_complete env k m x use t r w =
     (let c = pm_claim_id m;
          call = complete (ev_persistable_ref env) c use (rs_result_ref x) (rs_evidence_refs x) (rs_outcome_code x) t w;
          failed = seal_review k c (named_stage k ''claim_completion_failed'' ''outcome_persist_failed'') in
      (case r of Cancelled b \<Rightarrow> Settled Escaped | Raised b \<Rightarrow> failed
        | Returned \<Rightarrow> (case call of Inr (True, w') \<Rightarrow> Settled (Completed c) | _ \<Rightarrow> failed),
       kept_world r call w))"

definition seal_zero_handoff ::
  "task \<Rightarrow> uuid \<Rightarrow> string \<Rightarrow> datetime \<Rightarrow> reply \<Rightarrow> effect_world \<Rightarrow> stage \<times> effect_world" where
  "seal_zero_handoff k c reason t r w =
     (let call = definitely_not_submitted True c reason t w;
          failed = AtSealReview c ''zero_handoff_seal_failed'' (tk_mark_invocation k) (Ambiguous c True None) in
      (case r of Cancelled b \<Rightarrow> Settled Escaped | Raised b \<Rightarrow> failed
        | Returned \<Rightarrow> (if fst call then Settled (DefinitelyNotSubmitted c) else failed),
       kept_world r (Inr call) w))"

definition seal_needs_review ::
  "uuid \<Rightarrow> string \<Rightarrow> bool \<Rightarrow> outcome \<Rightarrow> datetime \<Rightarrow> reply \<Rightarrow> effect_world \<Rightarrow> stage \<times> effect_world" where
  "seal_needs_review c reason mark out t r w =
     (case r of Cancelled b \<Rightarrow> Settled Escaped | _ \<Rightarrow> Settled out, kept_world r (Inr (needs_review c reason mark t w)) w)"

subsection \<open>The interleaved system\<close>

datatype event =
    Submit authority prepared bool bool
  | SubmitPassive authority prepared bool
  | Consume nat uuid uuid int int datetime reply
  | Existing nat uuid datetime reply
  | Gate nat int int int datetime reply
  | Call nat bool int int
  | Answer nat "response option"
  | Fail nat failure
  | Cancel nat
  | Complete nat uuid datetime reply
  | SealZero nat datetime reply
  | SealReview nat datetime reply
  | Die nat
  | Outside "effect_world \<Rightarrow> effect_world"

definition set_stage :: "nat \<Rightarrow> stage \<Rightarrow> system \<Rightarrow> system" where
  "set_stage n g s = s\<lparr>sy_tasks := (sy_tasks s)[n := (sy_tasks s ! n)\<lparr>tk_stage := g\<rparr>]\<rparr>"

definition stage_of :: "system \<Rightarrow> nat \<Rightarrow> stage option" where
  "stage_of s n = (if n < length (sy_tasks s) then Some (tk_stage (sy_tasks s ! n)) else None)"

definition not_scheduled :: "'a result" where
  "not_scheduled = Inl (RuntimeErr ''not scheduled'')"

definition step_consume ::
  "effect_env \<Rightarrow> int \<Rightarrow> nat \<Rightarrow> uuid \<Rightarrow> uuid \<Rightarrow> int \<Rightarrow> int \<Rightarrow> datetime \<Rightarrow> reply \<Rightarrow> system \<Rightarrow> system result" where
  "step_consume env ttl n row nonce issued_at now t r s =
     (let k = sy_tasks s ! n; a = tk_authority k; p = tk_prepared k;
          call = consume env row t a p (task_key env k) (occurrence_sha256 (ev_sha env) (pe_occurrence_id p)) (sy_world s);
          s' = s\<lparr>sy_world := kept_world r call (sy_world s)\<rparr> in
      if stage_of s n \<noteq> Some AtConsume \<or> nonce \<in> set (sy_nonces s) then not_scheduled
      else Inr (case r of
        Cancelled b \<Rightarrow> set_stage n (Settled Escaped) s'
      | Raised b \<Rightarrow> set_stage n (Settled (Refused ''consume_unavailable'')) s'
      | Returned \<Rightarrow> (case call of
            Inl e \<Rightarrow> set_stage n (Settled (Refused ''consume_unavailable'')) s'
          | Inr (x, w') \<Rightarrow> (case after_consume env ttl k nonce issued_at now x of (g, permits) \<Rightarrow>
              set_stage n g (s'\<lparr>sy_issued := permits @ sy_issued s, sy_nonces := nonce # sy_nonces s\<rparr>)))))"

definition step_gate ::
  "effect_env \<Rightarrow> nat \<Rightarrow> int \<Rightarrow> int \<Rightarrow> int \<Rightarrow> datetime \<Rightarrow> reply \<Rightarrow> system \<Rightarrow> system result" where
  "step_gate env n now store_now later t r s = (case stage_of s n of
     Some (AtGate m) \<Rightarrow> (case pass_gate env (sy_tasks s ! n) m (sy_issued s) now store_now later t r (sy_world s) of
         (g, w) \<Rightarrow> Inr (set_stage n g (s\<lparr>sy_world := w\<rparr>)))
   | _ \<Rightarrow> not_scheduled)"

definition sent_by :: "effect_env \<Rightarrow> task \<Rightarrow> permit \<Rightarrow> send" where
  "sent_by env k m = \<lparr>sn_claim = pm_claim_id m, sn_nonce = pm_nonce m,
     sn_investigation = au_investigation_id (tk_authority k), sn_key = task_key env k, sn_prepared = tk_prepared k\<rparr>"

definition step_call :: "effect_env \<Rightarrow> nat \<Rightarrow> bool \<Rightarrow> int \<Rightarrow> int \<Rightarrow> system \<Rightarrow> system result" where
  "step_call env n same now later s = (case stage_of s n of
     Some (InTransport m attempted used) \<Rightarrow>
       (case call_capability env (sy_tasks s ! n) m attempted used (sy_issued s) same now later of
          (g, issued, sent) \<Rightarrow> Inr (set_stage n g (s\<lparr>sy_issued := issued, sy_sends :=
            (if sent then [sent_by env (sy_tasks s ! n) m] else []) @ sy_sends s\<rparr>)))
   | _ \<Rightarrow> not_scheduled)"

definition in_stage :: "nat \<Rightarrow> (task \<Rightarrow> stage \<Rightarrow> (stage \<times> effect_world) option) \<Rightarrow> system \<Rightarrow> system result" where
  "in_stage n f s = (case stage_of s n of
     None \<Rightarrow> not_scheduled
   | Some g \<Rightarrow> (case f (sy_tasks s ! n) g of
         None \<Rightarrow> not_scheduled
       | Some (g', w) \<Rightarrow> Inr (set_stage n g' (s\<lparr>sy_world := w\<rparr>))))"

fun system_step :: "effect_env \<Rightarrow> reuse_policies \<Rightarrow> int \<Rightarrow> event \<Rightarrow> system \<Rightarrow> system result" where
  "system_step env policies ttl (Submit a p mark passive) s =
     Inr (s\<lparr>sy_tasks := sy_tasks s @ [new_task env a p mark passive]\<rparr>)"
| "system_step env policies ttl (SubmitPassive a p defer_review) s =
     Inr (s\<lparr>sy_tasks := sy_tasks s @ [passive_read_task env a p defer_review]\<rparr>)"
| "system_step env policies ttl (Consume n row nonce issued_at now t r) s =
     step_consume env ttl n row nonce issued_at now t r s"
| "system_step env policies ttl (Existing n use t r) s = in_stage n (\<lambda>k g. case g of
     AtExisting c \<Rightarrow> (case handle_existing env policies k c use t r (sy_world s) of (out, w) \<Rightarrow> Some (Settled out, w))
   | _ \<Rightarrow> None) s"
| "system_step env policies ttl (Gate n now store_now later t r) s = step_gate env n now store_now later t r s"
| "system_step env policies ttl (Call n same now later) s = step_call env n same now later s"
| "system_step env policies ttl (Answer n answer) s = in_stage n (\<lambda>k g. case g of
     InTransport m attempted used \<Rightarrow> Some (transport_returns k m used answer, sy_world s) | _ \<Rightarrow> None) s"
| "system_step env policies ttl (Fail n f) s = in_stage n (\<lambda>k g. case g of
     InTransport m attempted used \<Rightarrow> Some (seal_review k (pm_claim_id m) (transport_stage k f), sy_world s) | _ \<Rightarrow> None) s"
| "system_step env policies ttl (Cancel n) s = in_stage n (\<lambda>k g. case g of
     InTransport m attempted used \<Rightarrow> Some (seal_cancelled k (pm_claim_id m), sy_world s) | _ \<Rightarrow> None) s"
| "system_step env policies ttl (Complete n use t r) s = in_stage n (\<lambda>k g. case g of
     AtComplete m x \<Rightarrow> Some (finish_complete env k m x use t r (sy_world s)) | _ \<Rightarrow> None) s"
| "system_step env policies ttl (SealZero n t r) s = in_stage n (\<lambda>k g. case g of
     AtSealZero c reason \<Rightarrow> Some (seal_zero_handoff k c reason t r (sy_world s)) | _ \<Rightarrow> None) s"
| "system_step env policies ttl (SealReview n t r) s = in_stage n (\<lambda>k g. case g of
     AtSealReview c reason mark out \<Rightarrow> Some (seal_needs_review c reason mark out t r (sy_world s)) | _ \<Rightarrow> None) s"
| "system_step env policies ttl (Die n) s = in_stage n (\<lambda>k g. Some (Settled Escaped, sy_world s)) s"
| "system_step env policies ttl (Outside f) s =
     (if xw_claims (f (sy_world s)) = xw_claims (sy_world s) then Inr (s\<lparr>sy_world := f (sy_world s)\<rparr>)
      else not_scheduled)"

definition idle_system :: "effect_world \<Rightarrow> system" where
  "idle_system w = \<lparr>sy_world = w, sy_tasks = [], sy_issued = [], sy_nonces = [], sy_sends = []\<rparr>"

end
