(* ===== verification/EffectSafety.thy ===== *)
theory EffectSafety
  imports EffectCoordinator
begin

text \<open>
  What holds of the external effects under every interleaving of the coordinators: the invariant that
  ties the claims, the permits, the tasks and the log of physical sends together, its preservation
  by every step, and the guarantees that follow from it.
\<close>

subsection \<open>What holds of every interleaving\<close>

definition sent_pairs :: "system \<Rightarrow> (uuid \<times> uuid) set" where
  "sent_pairs s = (\<lambda>x. (sn_claim x, sn_nonce x)) ` set (sy_sends s)"

text \<open>The claim a permit was issued for, and the claim whose handoff it holds.\<close>

definition permit_held :: "effect_world \<Rightarrow> permit \<Rightarrow> bool" where
  "permit_held w m = (\<exists>c. claim_row_of (pm_claim_id m) w = Some c
     \<and> claim_identity c = (pm_investigation_id m, pm_effect_key m))"

definition handed_off :: "effect_world \<Rightarrow> permit \<Rightarrow> prepared \<Rightarrow> bool" where
  "handed_off w m p = (\<exists>c. claim_row_of (pm_claim_id m) w = Some c
     \<and> claim_identity c = (pm_investigation_id m, pm_effect_key m)
     \<and> ec_handoff_permit_nonce c = Some (pm_nonce m)
     \<and> ec_application_request_sha256 c = pe_application_request_sha256 p)"

definition snapshot_held :: "effect_world \<Rightarrow> claim_row \<Rightarrow> bool" where
  "snapshot_held w c = (\<exists>d. claim_row_of (ec_id c) w = Some d \<and> claim_evolves c d)"

definition claim_in :: "uuid \<Rightarrow> claim_state \<Rightarrow> effect_world \<Rightarrow> bool" where
  "claim_in c st w = (\<exists>x. claim_row_of c w = Some x \<and> ec_state x = st)"

fun outcome_ok :: "effect_world \<Rightarrow> outcome \<Rightarrow> bool" where
  "outcome_ok w (Completed c) = claim_in c ClaimCompleted w"
| "outcome_ok w (Reused c u) = claim_in c ClaimCompleted w"
| "outcome_ok w (DefinitelyNotSubmitted c) = claim_in c ClaimNotSubmitted w"
| "outcome_ok w out = True"

fun stage_ok :: "effect_world \<Rightarrow> (uuid \<times> uuid) set \<Rightarrow> prepared \<Rightarrow> stage \<Rightarrow> bool" where
  "stage_ok w sent p AtConsume = True"
| "stage_ok w sent p (AtExisting c) = snapshot_held w c"
| "stage_ok w sent p (AtGate m) = permit_held w m"
| "stage_ok w sent p (InTransport m attempted used) =
     (handed_off w m p \<and> (used \<longrightarrow> (pm_claim_id m, pm_nonce m) \<in> sent))"
| "stage_ok w sent p (AtComplete m x) = (handed_off w m p \<and> (pm_claim_id m, pm_nonce m) \<in> sent)"
| "stage_ok w sent p (AtSealZero c reason) = True"
| "stage_ok w sent p (AtSealReview c reason mark out) = outcome_ok w out"
| "stage_ok w sent p (Settled out) = outcome_ok w out"

definition send_ok :: "effect_env \<Rightarrow> effect_world \<Rightarrow> send \<Rightarrow> bool" where
  "send_ok env w x = (\<exists>c. claim_row_of (sn_claim x) w = Some c
     \<and> claim_identity c = (sn_investigation x, sn_key x)
     \<and> ec_handoff_permit_nonce c = Some (sn_nonce x)
     \<and> ec_application_request_sha256 c = pe_application_request_sha256 (sn_prepared x)
     \<and> sn_key x = effect_key (ev_sha env) (sn_investigation x) (sn_prepared x)
     \<and> check_digests (ev_sha env) (sn_prepared x) = Inr ())"

definition settled_ok :: "(uuid \<times> uuid) set \<Rightarrow> claim_row \<Rightarrow> bool" where
  "settled_ok sent c = ((ec_state c = ClaimNotSubmitted \<longrightarrow> ec_handoff_permit_nonce c = None)
     \<and> (ec_state c = ClaimCompleted \<longrightarrow> (\<exists>n. (ec_id c, n) \<in> sent)))"

definition nonces_ok :: "system \<Rightarrow> bool" where
  "nonces_ok s = (distinct (map sn_nonce (sy_sends s))
     \<and> sn_nonce ` set (sy_sends s) \<subseteq> set (sy_nonces s) \<and> pm_nonce ` set (sy_issued s) \<subseteq> set (sy_nonces s)
     \<and> sn_nonce ` set (sy_sends s) \<inter> pm_nonce ` set (sy_issued s) = {})"

definition world_ok :: "(uuid \<times> uuid) set \<Rightarrow> effect_world \<Rightarrow> bool" where
  "world_ok sent w = (claims_distinct w \<and> (\<forall>c\<in>set (xw_claims w). settled_ok sent c))"

definition system_inv :: "effect_env \<Rightarrow> effect_world \<Rightarrow> system \<Rightarrow> bool" where
  "system_inv env base s = (claims_evolve base (sy_world s) \<and> world_ok (sent_pairs s) (sy_world s) \<and> nonces_ok s
     \<and> (\<forall>x\<in>set (sy_sends s). send_ok env (sy_world s) x)
     \<and> (\<forall>k\<in>set (sy_tasks s). stage_ok (sy_world s) (sent_pairs s) (tk_prepared k) (tk_stage k)))"

text \<open>What was known of the claims stays known as they evolve.\<close>

named_theorems evolves

lemma claim_evolves_trans: "claim_evolves c d \<Longrightarrow> claim_evolves d e \<Longrightarrow> claim_evolves c e"
  by (auto simp: claim_evolves_def)

lemma permit_held_evolves [evolves]: "permit_held w m \<Longrightarrow> claims_evolve w w' \<Longrightarrow> permit_held w' m"
  unfolding permit_held_def by (auto dest!: claims_evolveD simp: claim_evolves_def claim_identity_def)

lemma handed_off_evolves [evolves]: "handed_off w m p \<Longrightarrow> claims_evolve w w' \<Longrightarrow> handed_off w' m p"
  unfolding handed_off_def by (auto dest!: claims_evolveD simp: claim_evolves_def claim_identity_def)

lemma send_ok_evolves [evolves]: "send_ok env w x \<Longrightarrow> claims_evolve w w' \<Longrightarrow> send_ok env w' x"
  unfolding send_ok_def by (auto dest!: claims_evolveD simp: claim_evolves_def claim_identity_def)

lemma claim_in_evolves [evolves]:
  "claim_in c st w \<Longrightarrow> claims_evolve w w' \<Longrightarrow> st \<noteq> ClaimConsumed \<Longrightarrow> claim_in c st w'"
  unfolding claim_in_def by (auto dest!: claims_evolveD simp: claim_evolves_def)

lemma outcome_ok_evolves [evolves]: "outcome_ok w out \<Longrightarrow> claims_evolve w w' \<Longrightarrow> outcome_ok w' out"
  by (cases out) (auto intro: claim_in_evolves)

lemma snapshot_held_evolves [evolves]: "snapshot_held w c \<Longrightarrow> claims_evolve w w' \<Longrightarrow> snapshot_held w' c"
  unfolding snapshot_held_def by (meson claims_evolveD claim_evolves_trans)

lemma stage_ok_evolves:
  assumes "stage_ok w sent p g" and "claims_evolve w w'" and "sent \<subseteq> sent'"
  shows "stage_ok w' sent' p g"
  using assms
  by (cases g) (auto intro: permit_held_evolves handed_off_evolves outcome_ok_evolves snapshot_held_evolves)

lemma claims_evolve_refl [simp]: "claims_evolve w w"
  by (simp add: claims_evolve_def)

lemma claims_evolve_trans: "claims_evolve u v \<Longrightarrow> claims_evolve v w \<Longrightarrow> claims_evolve u w"
  unfolding claims_evolve_def by (meson claim_evolves_trans)

text \<open>A transaction advances the world: claims evolve and the invariant of the claims is kept.\<close>

definition advances :: "(uuid \<times> uuid) set \<Rightarrow> effect_world \<Rightarrow> effect_world \<Rightarrow> bool" where
  "advances sent w w' = (claims_evolve w w' \<and> (world_ok sent w \<longrightarrow> world_ok sent w'))"

lemma advances_refl [simp]: "advances sent w w"
  by (simp add: advances_def)

lemma same_claims_advance: "xw_claims w' = xw_claims w \<Longrightarrow> advances sent w w'"
  by (simp add: advances_def same_claims_evolve world_ok_def claims_distinct_def)

lemma moved_claim_advances:
  assumes "claim_moves c row f w w'" and "world_ok sent w \<Longrightarrow> settled_ok sent (f row)"
  shows "advances sent w w'"
proof -
  have "settled_ok sent d" if "world_ok sent w" "d \<in> set (xw_claims w')" for d
    using that assms put_claim_all [of w c row "settled_ok sent" f w' d]
    by (auto simp: world_ok_def claim_moves_def)
  then show ?thesis
    using assms(1) claim_moves_evolves claim_moves_distinct by (auto simp: advances_def world_ok_def)
qed

lemma enter_handoff_advances: "enter_handoff c nonce digest expires now t w = (b, w') \<Longrightarrow> advances sent w w'"
  by (erule enter_handoff_cases) (auto intro!: moved_claim_advances simp: settled_ok_def)

lemma definitely_not_submitted_advances:
  "definitely_not_submitted proven c reason t w = (b, w') \<Longrightarrow> advances sent w w' \<and> (b \<longrightarrow> claim_in c ClaimNotSubmitted w')"
  by (erule definitely_not_submitted_cases)
    (auto intro!: moved_claim_advances simp: settled_ok_def claim_in_def dest: claim_moves_row)

lemma needs_review_advances: "needs_review c reason mark t w = (b, w') \<Longrightarrow> advances sent w w'"
  by (erule needs_review_cases) (auto intro!: moved_claim_advances simp: settled_ok_def)

lemma complete_advances:
  assumes "complete persistable c use result_ref refs outcome t w = Inr (b, w')" and "(c, n) \<in> sent"
  shows "advances sent w w' \<and> (b \<longrightarrow> claim_in c ClaimCompleted w')"
  using assms(1)
proof (cases rule: complete_cases)
  case refused
  then show ?thesis by simp
next
  case (completed row f)
  have "ec_id (f row) = c" using completed(2) by (auto simp: claim_moves_def claim_row_of_def dest: row_with_key)
  with completed assms(2) have "settled_ok sent (f row)" by (auto simp: settled_ok_def)
  with completed show ?thesis using moved_claim_advances claim_moves_row by (auto simp: claim_in_def)
qed

lemma consume_advances:
  assumes "consume env row t a p key occurrence w = Inr (x, w')"
  shows "advances sent w w'"
proof -
  have new: "settled_ok sent (new_claim row t a p key)" by (simp add: settled_ok_def new_claim_def)
  have "\<forall>c\<in>set (xw_claims w'). settled_ok sent c" if "\<forall>c\<in>set (xw_claims w). settled_ok sent c"
    using assms by (rule consume_claims) (use that new in auto)
  then show ?thesis using consume_evolves [OF assms] by (simp add: advances_def world_ok_def)
qed

lemma kept_world_advances:
  assumes "\<And>x w'. call = Inr (x, w') \<Longrightarrow> advances sent w w'"
  shows "advances sent w (kept_world r call w)"
  using assms by (auto simp: kept_world_def split: sum.splits)

text \<open>One step of one task.\<close>

lemma set_stage_simps [simp]:
  "sy_world (set_stage n g s) = sy_world s" "sy_issued (set_stage n g s) = sy_issued s"
  "sy_nonces (set_stage n g s) = sy_nonces s" "sy_sends (set_stage n g s) = sy_sends s"
  "sent_pairs (set_stage n g s) = sent_pairs s" "nonces_ok (set_stage n g s) = nonces_ok s"
  by (simp_all add: set_stage_def sent_pairs_def nonces_ok_def)

lemma set_stage_tasks:
  "k \<in> set (sy_tasks (set_stage n g s)) \<Longrightarrow>
   k \<in> set (sy_tasks s) \<or> k = (sy_tasks s ! n)\<lparr>tk_stage := g\<rparr>"
  unfolding set_stage_def by (auto dest: set_update_subset_insert [THEN subsetD])

lemma stage_of_Some: "stage_of s n = Some g \<longleftrightarrow> n < length (sy_tasks s) \<and> tk_stage (sy_tasks s ! n) = g"
  by (auto simp: stage_of_def)

lemma stage_known:
  assumes "system_inv env base s" and "stage_of s n = Some g"
  shows "stage_ok (sy_world s) (sent_pairs s) (tk_prepared (sy_tasks s ! n)) g"
  using assms by (auto simp: system_inv_def stage_of_Some)

lemma task_step_inv:
  assumes "system_inv env base s" and "advances (sent_pairs s) (sy_world s) (sy_world s')"
    and "sy_tasks s' = sy_tasks s" "sy_sends s' = sy_sends s" "nonces_ok s'"
    and "stage_ok (sy_world s') (sent_pairs s') (tk_prepared (sy_tasks s ! n)) g"
  shows "system_inv env base (set_stage n g s')"
proof -
  have sent: "sent_pairs s' = sent_pairs s" by (simp add: sent_pairs_def assms(4))
  have "stage_ok (sy_world s') (sent_pairs s) (tk_prepared k) (tk_stage k)" if "k \<in> set (sy_tasks (set_stage n g s'))" for k
    using set_stage_tasks [OF that] assms(1,2,3,6) stage_ok_evolves
    by (auto simp: system_inv_def advances_def sent)
  moreover have "send_ok env (sy_world s') x" if "x \<in> set (sy_sends s)" for x
    using that assms(1,2) send_ok_evolves by (auto simp: system_inv_def advances_def)
  moreover have "claims_evolve base (sy_world s')"
    using assms(1,2) claims_evolve_trans unfolding system_inv_def advances_def by blast
  ultimately show ?thesis
    using assms(1,2,5) by (simp add: system_inv_def sent assms(4) advances_def)
qed

lemma in_stage_inv:
  assumes "system_inv env base s" and "in_stage n f s = Inr s'"
    and "\<And>k g g' w'. k = sy_tasks s ! n \<Longrightarrow> f k g = Some (g', w') \<Longrightarrow>
      stage_ok (sy_world s) (sent_pairs s) (tk_prepared k) g \<Longrightarrow>
      advances (sent_pairs s) (sy_world s) w' \<and> stage_ok w' (sent_pairs s) (tk_prepared k) g'"
  shows "system_inv env base s'"
proof -
  from assms(2) obtain g g' w' where g: "stage_of s n = Some g" "f (sy_tasks s ! n) g = Some (g', w')"
    and s': "s' = set_stage n g' (s\<lparr>sy_world := w'\<rparr>)"
    by (auto simp: in_stage_def not_scheduled_def split: option.splits)
  note ok = assms(3) [OF refl g(2) stage_known [OF assms(1) g(1)]]
  have "nonces_ok (s\<lparr>sy_world := w'\<rparr>)" using assms(1) by (simp add: system_inv_def nonces_ok_def)
  with ok show ?thesis unfolding s'
    by (intro task_step_inv [OF assms(1)]) (simp_all add: sent_pairs_def)
qed

lemma seal_review_ok [simp]: "stage_ok w sent p (seal_review k c reason)" "stage_ok w sent p (seal_cancelled k c)"
  by (simp_all add: seal_review_def seal_cancelled_def)

lemma finish_complete_ok:
  assumes "finish_complete env k m x use t r w = (g, w')" and "(pm_claim_id m, pm_nonce m) \<in> sent"
  shows "advances sent w w' \<and> stage_ok w' sent p g"
proof -
  let ?call = "complete (ev_persistable_ref env) (pm_claim_id m) use (rs_result_ref x) (rs_evidence_refs x)
    (rs_outcome_code x) t w"
  have finished: "advances sent w v \<and> (b \<longrightarrow> claim_in (pm_claim_id m) ClaimCompleted v)" if "?call = Inr (b, v)" for b v
    using complete_advances [OF that assms(2)] .
  then have "advances sent w (kept_world r ?call w)" by (auto intro: kept_world_advances)
  with assms(1) finished show ?thesis
    by (auto simp: finish_complete_def Let_def kept_world_def reply_commits_def
      split: reply.splits sum.splits prod.splits bool.splits)
qed

lemma seal_zero_ok:
  assumes "seal_zero_handoff k c reason t r w = (g, w')"
  shows "advances sent w w' \<and> stage_ok w' sent p g"
proof -
  obtain b v where call: "definitely_not_submitted True c reason t w = (b, v)" by fastforce
  have "advances sent w v \<and> (b \<longrightarrow> claim_in c ClaimNotSubmitted v)"
    using definitely_not_submitted_advances [OF call] .
  with assms show ?thesis
    unfolding seal_zero_handoff_def call Let_def
    by (cases r) (auto simp: kept_world_def reply_commits_def split: if_splits)
qed

lemma seal_review_step_ok:
  assumes "seal_needs_review c reason mark out t r w = (g, w')" and "outcome_ok w out"
  shows "advances sent w w' \<and> stage_ok w' sent p g"
proof -
  obtain b v where call: "needs_review c reason mark t w = (b, v)" by fastforce
  have v: "advances sent w v" using needs_review_advances [OF call] .
  with assms(2) have "outcome_ok v out" using outcome_ok_evolves by (auto simp: advances_def)
  with assms v show ?thesis
    unfolding seal_needs_review_def call by (cases r) (auto simp: kept_world_def reply_commits_def split: if_splits)
qed

lemma refuse_reuse_ok:
  assumes "refuse_reuse env k c t r w = (out, w')"
  shows "advances sent w w' \<and> outcome_ok w' out"
proof -
  have "advances sent w (kept_world r (release_refused_reuse_reservation env c (tk_authority k) (tk_prepared k) t w) w)"
    by (rule kept_world_advances) (auto intro: same_claims_advance dest: release_refused_claims)
  with assms show ?thesis by (cases r) (auto simp: refuse_reuse_def)
qed

lemma reuse_completed_ok:
  assumes "reuse_completed env k c use decision r w = (out, w')"
  shows "advances sent w w' \<and> outcome_ok w' out"
proof -
  let ?call = "record_reuse env use c (tk_authority k) (tk_prepared k) (fst decision) (snd decision) w"
  have call: "xw_claims v = xw_claims w \<and> (x \<noteq> None \<longrightarrow> claim_in (ec_id c) ClaimCompleted w)" if "?call = Inr (x, v)" for x v
    using record_reuse_claims [OF that] by (simp add: claim_in_def)
  have w': "w' = kept_world r ?call w" using assms by (simp add: reuse_completed_def Let_def)
  have same: "xw_claims w' = xw_claims w"
    unfolding w' using call by (cases ?call) (auto simp: kept_world_def)
  have "outcome_ok w out"
  proof (cases "r = Returned \<and> (\<exists>u v. ?call = Inr (Some u, v))")
    case True
    then obtain u v where u: "r = Returned" "?call = Inr (Some u, v)" by blast
    then have "out = Reused (ec_id c) u" using assms by (simp add: reuse_completed_def)
    with call [OF u(2)] show ?thesis by simp
  next
    case False
    with assms have "out = Escaped \<or> out = Refused ''reuse_record_failed''"
      by (auto simp: reuse_completed_def Let_def split: reply.splits sum.splits option.splits)
    then show ?thesis by auto
  qed
  with same show ?thesis using same_claims_advance same_claims_evolve outcome_ok_evolves by blast
qed

lemma handle_existing_ok:
  assumes "handle_existing env policies k c use t r w = (out, w')" and "snapshot_held w c"
  shows "advances sent w w' \<and> outcome_ok w' out"
proof -
  obtain d where d: "claim_row_of (ec_id c) w = Some d" "claim_evolves c d" using assms(2) by (auto simp: snapshot_held_def)
  then have settled: "claim_in (ec_id c) (ec_state c) w" if "ec_state c \<noteq> ClaimConsumed"
    using that by (auto simp: claim_in_def claim_evolves_def)
  obtain b v where review: "needs_review (ec_id c) ''replayed_consumed_claim'' True t w = (b, v)" by fastforce
  have kept: "advances sent w (kept_world r (Inr (b, v)) w)"
    using needs_review_advances [OF review] by (auto simp: kept_world_def)
  show ?thesis
  proof (cases "ec_state c")
    case ClaimConsumed
    with assms(1) kept show ?thesis
      by (cases r) (auto simp: handle_existing_def review split: if_splits)
  next
    case ClaimCompleted
    with assms(1) settled show ?thesis
      by (auto simp: handle_existing_def dest: refuse_reuse_ok reuse_completed_ok split: if_splits option.splits)
  qed (use assms(1) settled in \<open>auto simp: handle_existing_def split: if_splits\<close>)
qed

lemma pass_gate_ok:
  assumes "pass_gate env k m issued now store_now later t r w = (g, w')" and "permit_held w m"
  shows "advances sent w w' \<and> stage_ok w' sent (tk_prepared k) g"
proof -
  let ?p = "tk_prepared k"
  obtain b v where call: "enter_handoff (pm_claim_id m) (pm_nonce m) (pe_application_request_sha256 ?p) (pm_expires m)
      store_now t w = (b, v)" by fastforce
  have "b \<longrightarrow> handed_off v m ?p"
    using call
  proof (cases rule: enter_handoff_cases)
    case (entered row f)
    with assms(2) have "claim_identity (f row) = (pm_investigation_id m, pm_effect_key m)"
      "ec_application_request_sha256 (f row) = pe_application_request_sha256 ?p"
      by (auto simp: permit_held_def claim_moves_def)
    with entered show ?thesis using claim_moves_row by (simp add: handed_off_def)
  qed simp
  moreover have "advances sent w v" using enter_handoff_advances [OF call] .
  ultimately show ?thesis
    using assms(1) unfolding pass_gate_def call Let_def
    by (cases r) (auto split: if_splits)
qed

lemma burn_and_validate_cases:
  assumes "burn_and_validate sha issued m a p key now = (ok, issued')"
  shows "set issued' \<subseteq> set issued \<and>
    (ok \<longrightarrow> m \<in> set issued \<and> permit_matches sha m a p key now \<and> pm_nonce m \<notin> pm_nonce ` set issued')"
  using assms by (auto simp: burn_and_validate_def forget_permit_def split: if_splits)

lemma call_capability_cases:
  assumes "call_capability env k m attempted used issued same now later = (g, issued', sent)"
  obtains (unsent) a where "\<not> sent" "g = InTransport m a used" "set issued' \<subseteq> set issued"
  | (sends) "sent" "g = InTransport m True True" "set issued' \<subseteq> set issued" "m \<in> set issued"
      "pm_nonce m \<notin> pm_nonce ` set issued'" "validate_prepared env (tk_prepared k) = Inr ()"
      "permit_matches (ev_sha env) m (tk_authority k) (tk_prepared k) (task_key env k) now"
proof -
  obtain ok i where burn: "burn_and_validate (ev_sha env) issued m (tk_authority k) (tk_prepared k) (task_key env k) now
      = (ok, i)" by fastforce
  note valid = burn_and_validate_cases [OF burn]
  show ?thesis
  proof (cases sent)
    case False
    with assms valid unsent show ?thesis by (auto simp: call_capability_def burn Let_def split: if_splits)
  next
    case True
    with assms have "ok" "i = issued'" "g = InTransport m True True" "validate_prepared env (tk_prepared k) = Inr ()"
      by (auto simp: call_capability_def burn Let_def is_error_def split: if_splits sum.splits)
    with True valid sends show ?thesis by simp
  qed
qed

lemma nonces_okI:
  assumes "distinct (map sn_nonce (sy_sends s))"
    and "\<And>x. x \<in> set (sy_sends s) \<Longrightarrow> sn_nonce x \<in> set (sy_nonces s)"
    and "\<And>m. m \<in> set (sy_issued s) \<Longrightarrow> pm_nonce m \<in> set (sy_nonces s)"
    and "\<And>x m. x \<in> set (sy_sends s) \<Longrightarrow> m \<in> set (sy_issued s) \<Longrightarrow> sn_nonce x \<noteq> pm_nonce m"
  shows "nonces_ok s"
  unfolding nonces_ok_def using assms by (intro conjI subsetI) (auto simp: disjoint_iff)

lemma nonces_okD:
  assumes "nonces_ok s"
  shows "distinct (map sn_nonce (sy_sends s))"
    and "x \<in> set (sy_sends s) \<Longrightarrow> sn_nonce x \<in> set (sy_nonces s)"
    and "m \<in> set (sy_issued s) \<Longrightarrow> pm_nonce m \<in> set (sy_nonces s)"
    and "x \<in> set (sy_sends s) \<Longrightarrow> m \<in> set (sy_issued s) \<Longrightarrow> sn_nonce x \<noteq> pm_nonce m"
  using assms by (auto simp: nonces_ok_def disjoint_iff)

lemma nonces_ok_fewer:
  assumes "nonces_ok s" and "set issued \<subseteq> set (sy_issued s)"
  shows "nonces_ok (s\<lparr>sy_issued := issued\<rparr>)"
  by (rule nonces_okI) (use assms(2) nonces_okD [OF assms(1)] in auto)

lemma nonces_ok_send:
  assumes "nonces_ok s" and "set issued \<subseteq> set (sy_issued s)" and "m \<in> set (sy_issued s)"
    and "pm_nonce m \<notin> pm_nonce ` set issued" and "sn_nonce x = pm_nonce m"
  shows "nonces_ok (s\<lparr>sy_issued := issued, sy_sends := x # sy_sends s\<rparr>)"
proof (rule nonces_okI)
  note ok = nonces_okD [OF assms(1)]
  have "pm_nonce m \<notin> sn_nonce ` set (sy_sends s)" using ok(4) [OF _ assms(3)] by fastforce
  then show "distinct (map sn_nonce (sy_sends (s\<lparr>sy_issued := issued, sy_sends := x # sy_sends s\<rparr>)))"
    using ok(1) assms(5) by simp
  show "sn_nonce y \<noteq> pm_nonce q"
    if "y \<in> set (sy_sends (s\<lparr>sy_issued := issued, sy_sends := x # sy_sends s\<rparr>))"
      and "q \<in> set (sy_issued (s\<lparr>sy_issued := issued, sy_sends := x # sy_sends s\<rparr>))" for y q
  proof (cases "y = x")
    case True
    have "q \<in> set issued" using that(2) by simp
    then have "pm_nonce q \<noteq> pm_nonce m" using assms(4) by (metis imageI)
    with True assms(5) show ?thesis by simp
  next
    case False
    with that ok(4) [of y q] assms(2) show ?thesis by auto
  qed
qed (use assms(2,3,5) nonces_okD [OF assms(1)] in auto)

lemma step_call_inv:
  assumes "system_inv env base s" and "step_call env n same now later s = Inr s'"
  shows "system_inv env base s'"
proof -
  let ?k = "sy_tasks s ! n"
  from assms(2) obtain m attempted used g issued sent where stage: "stage_of s n = Some (InTransport m attempted used)"
    and call: "call_capability env ?k m attempted used (sy_issued s) same now later = (g, issued, sent)"
    and s': "s' = set_stage n g (s\<lparr>sy_issued := issued, sy_sends := (if sent then [sent_by env ?k m] else []) @ sy_sends s\<rparr>)"
    by (auto simp: step_call_def not_scheduled_def split: option.splits stage.splits prod.splits)
  have held: "handed_off (sy_world s) m (tk_prepared ?k)" "used \<longrightarrow> (pm_claim_id m, pm_nonce m) \<in> sent_pairs s"
    using stage_known [OF assms(1) stage] by simp_all
  have nonces: "nonces_ok s" using assms(1) by (simp add: system_inv_def)
  from call show ?thesis
  proof (cases rule: call_capability_cases)
    case unsent
    have "nonces_ok (s\<lparr>sy_issued := issued\<rparr>)" using nonces unsent(3) by (rule nonces_ok_fewer)
    with unsent held show ?thesis unfolding s'
      by (intro task_step_inv [OF assms(1)]) (simp_all add: sent_pairs_def)
  next
    case sends
    let ?s = "s\<lparr>sy_issued := issued, sy_sends := sent_by env ?k m # sy_sends s\<rparr>"
    let ?g = "InTransport m True True"
    have k: "pm_investigation_id m = au_investigation_id (tk_authority ?k)" "pm_effect_key m = task_key env ?k"
      using sends(7) by (simp_all add: permit_matches_def)
    have "check_digests (ev_sha env) (tk_prepared ?k) = Inr ()"
      using sends(6) by (auto simp: validate_prepared_def and_then_Inr)
    with held(1) k have new: "send_ok env (sy_world s) (sent_by env ?k m)"
      by (auto simp: handed_off_def send_ok_def sent_by_def task_key_def)
    have pairs: "sent_pairs ?s = insert (pm_claim_id m, pm_nonce m) (sent_pairs s)"
      by (simp add: sent_pairs_def sent_by_def)
    have "nonces_ok ?s" using nonces sends(3,4,5) by (rule nonces_ok_send) (simp add: sent_by_def)
    moreover have "world_ok (sent_pairs ?s) (sy_world s)"
      using assms(1) by (auto simp: system_inv_def world_ok_def settled_ok_def pairs)
    moreover have "stage_ok (sy_world s) (sent_pairs ?s) (tk_prepared x) (tk_stage x)"
      if "x \<in> set (sy_tasks (set_stage n ?g ?s))" for x
      using set_stage_tasks [OF that] assms(1) held(1)
      by (auto simp: system_inv_def pairs intro: stage_ok_evolves [OF _ claims_evolve_refl])
    ultimately show ?thesis
      using assms(1) new sends(1,2) unfolding s' system_inv_def by auto
  qed
qed

lemma new_claim_identity: "claim_identity (new_claim row t a p key) = (au_investigation_id a, key)"
  by (simp add: new_claim_def claim_identity_def)

lemma after_consume_ok:
  assumes "consume env row t (tk_authority k) (tk_prepared k) (task_key env k) occurrence w = Inr (x, w')"
    and "claims_distinct w" and "after_consume env ttl k nonce issued_at now x = (g, permits)"
  shows "stage_ok w' sent (tk_prepared k) g \<and> (permits = [] \<or> (\<exists>m. permits = [m] \<and> pm_nonce m = nonce))"
  using assms(1)
proof (cases rule: consume_claims)
  case same
  have "snapshot_held w' c" if "x = ExistingClaim c" for c
  proof -
    have "claim_row_of (ec_id c) w = Some c"
      using same(3) [OF that] assms(2) claim_of_key_Some claim_row_of_Some by auto
    then have "claim_row_of (ec_id c) w' = Some c" using same_claims_row [OF same(1)] by simp
    then show ?thesis by (simp add: snapshot_held_def)
  qed
  with assms(3) same(2) show ?thesis by (auto simp: after_consume_def split: consume_result.splits)
next
  case new
  have fresh: "claim_row_of row w = None"
    using new(3) by (auto simp: claim_clash_def claim_row_of_def row_with_def find_None_iff list_ex_iff new_claim_def)
  have "claim_row_of row w' = Some (new_claim row t (tk_authority k) (tk_prepared k) (task_key env k))"
    using fresh by (simp add: claim_row_of_def new(2) row_with_append) (simp add: new_claim_def)
  then have "permit_held w' (issue_permit row (tk_authority k) (tk_prepared k) (task_key env k) nonce e)" for e
    by (simp add: permit_held_def issue_permit_def new_claim_identity)
  with assms(3) show ?thesis
    by (auto simp: after_consume_def new(1) Let_def issue_permit_def split: if_splits)
qed

lemma step_consume_inv:
  assumes "system_inv env base s" and "step_consume env ttl n row nonce issued_at now t r s = Inr s'"
  shows "system_inv env base s'"
proof -
  let ?k = "sy_tasks s ! n"
  let ?call = "consume env row t (tk_authority ?k) (tk_prepared ?k) (task_key env ?k)
    (occurrence_sha256 (ev_sha env) (pe_occurrence_id (tk_prepared ?k))) (sy_world s)"
  let ?w = "kept_world r ?call (sy_world s)"
  have fresh: "nonce \<notin> set (sy_nonces s)"
    using assms(2) by (auto simp: step_consume_def not_scheduled_def Let_def split: if_splits)
  have advances: "advances (sent_pairs s) (sy_world s) ?w"
    by (rule kept_world_advances) (rule consume_advances)
  have nonces: "nonces_ok s" using assms(1) by (simp add: system_inv_def)
  have plain: "system_inv env base (set_stage n g (s\<lparr>sy_world := ?w\<rparr>))" if "outcome_ok ?w out" "g = Settled out" for g out
    using assms(1) advances that nonces by (intro task_step_inv) (simp_all add: sent_pairs_def nonces_ok_def)
  show ?thesis
  proof (cases "r = Returned \<and> \<not> is_error ?call")
    case False
    with assms(2) have "s' = set_stage n (Settled Escaped) (s\<lparr>sy_world := ?w\<rparr>)
        \<or> s' = set_stage n (Settled (Refused ''consume_unavailable'')) (s\<lparr>sy_world := ?w\<rparr>)"
      by (auto simp: step_consume_def not_scheduled_def Let_def is_error_def split: if_splits reply.splits sum.splits)
    with plain show ?thesis by auto
  next
    case True
    then obtain x w' where call: "?call = Inr (x, w')" by (auto simp: is_error_def split: sum.splits)
    obtain g permits where after: "after_consume env ttl ?k nonce issued_at now x = (g, permits)" by fastforce
    have "claims_distinct (sy_world s)" using assms(1) by (simp add: system_inv_def world_ok_def)
    then have ok: "stage_ok w' sent (tk_prepared ?k) g" "permits = [] \<or> (\<exists>m. permits = [m] \<and> pm_nonce m = nonce)" for sent
      using after_consume_ok [OF call _ after] by blast+
    let ?s = "s\<lparr>sy_world := w', sy_issued := permits @ sy_issued s, sy_nonces := nonce # sy_nonces s\<rparr>"
    have w': "?w = w'" using True call by (simp add: kept_world_def reply_commits_def)
    have "s' = set_stage n g ?s"
      using assms(2) True call after
      by (auto simp: step_consume_def not_scheduled_def Let_def kept_world_def reply_commits_def split: if_splits)
    moreover have "nonces_ok ?s"
    proof (rule nonces_okI)
      have permits: "pm_nonce m = nonce" if "m \<in> set permits" for m using ok(2) that by auto
      note known = nonces_okD [OF nonces]
      show "sn_nonce x \<noteq> pm_nonce m" if "x \<in> set (sy_sends ?s)" "m \<in> set (sy_issued ?s)" for x m
        using that known(2) [of x] known(4) [of x m] permits [of m] fresh by auto
      show "pm_nonce m \<in> set (sy_nonces ?s)" if "m \<in> set (sy_issued ?s)" for m
        using that known(3) [of m] permits [of m] by auto
    qed (use nonces_okD(1,2) [OF nonces] in auto)
    ultimately show ?thesis
      using advances ok(1) by (auto simp: w' intro!: task_step_inv [OF assms(1)])
  qed
qed

lemma step_gate_inv:
  assumes "system_inv env base s" and "step_gate env n now store_now later t r s = Inr s'"
  shows "system_inv env base s'"
proof -
  from assms(2) obtain m g w where stage: "stage_of s n = Some (AtGate m)"
    and gate: "pass_gate env (sy_tasks s ! n) m (sy_issued s) now store_now later t r (sy_world s) = (g, w)"
    and s': "s' = set_stage n g (s\<lparr>sy_world := w\<rparr>)"
    by (auto simp: step_gate_def not_scheduled_def split: option.splits stage.splits prod.splits)
  have "permit_held (sy_world s) m" using stage_known [OF assms(1) stage] by simp
  note ok = pass_gate_ok [OF gate this]
  have "nonces_ok (s\<lparr>sy_world := w\<rparr>)" using assms(1) by (simp add: system_inv_def nonces_ok_def)
  then show ?thesis unfolding s'
    by (intro task_step_inv [OF assms(1)]) (simp_all add: ok sent_pairs_def)
qed

lemma outside_inv:
  assumes "system_inv env base s" and "xw_claims w = xw_claims (sy_world s)"
  shows "system_inv env base (s\<lparr>sy_world := w\<rparr>)"
proof -
  have e: "claims_evolve (sy_world s) w" "advances (sent_pairs s) (sy_world s) w"
    using assms(2) by (simp_all add: same_claims_evolve same_claims_advance)
  have "stage_ok w (sent_pairs s) (tk_prepared k) (tk_stage k)" if "k \<in> set (sy_tasks s)" for k
    using that assms(1) e(1) stage_ok_evolves by (auto simp: system_inv_def)
  moreover have "send_ok env w x" if "x \<in> set (sy_sends s)" for x
    using that assms(1) e(1) send_ok_evolves by (auto simp: system_inv_def)
  moreover have "claims_evolve base w"
    using assms(1) e(1) claims_evolve_trans unfolding system_inv_def by blast
  ultimately show ?thesis
    using assms(1) e(2) by (simp add: system_inv_def advances_def nonces_ok_def sent_pairs_def)
qed

lemma submitted_task_inv:
  assumes "system_inv env base s" and "tk_stage k \<in> {AtConsume, Settled (Refused reason)}"
  shows "system_inv env base (s\<lparr>sy_tasks := sy_tasks s @ [k]\<rparr>)"
  using assms by (auto simp: system_inv_def nonces_ok_def sent_pairs_def)

lemma system_step_inv:
  assumes "system_inv env base s" and "system_step env policies ttl e s = Inr s'"
  shows "system_inv env base s'"
proof (cases e)
  case (Submit a p mark read)
  with assms submitted_task_inv [OF assms(1), of "new_task env a p mark read" "''invalid_prepared_effect''"] show ?thesis
    by (auto simp: new_task_def split: if_splits)
next
  case (SubmitPassive a p d)
  then show ?thesis
    using assms(2) submitted_task_inv [OF assms(1), of "passive_read_task env a p d" "''invalid_prepared_effect''"]
      submitted_task_inv [OF assms(1), of "passive_read_task env a p d" "''passive_read_retry_not_allowed''"]
    by (auto simp: passive_read_task_def new_task_def Let_def split: if_splits)
next
  case (Consume n row nonce issued_at now t r)
  with assms step_consume_inv show ?thesis by auto
next
  case (Existing n use t r)
  with assms(2) show ?thesis
    by (auto elim!: in_stage_inv [OF assms(1)] dest!: handle_existing_ok [where sent = "sent_pairs s"]
      split: stage.splits prod.splits)
next
  case (Gate n now store_now later t r)
  with assms step_gate_inv show ?thesis by auto
next
  case (Call n same now later)
  with assms step_call_inv show ?thesis by auto
next
  case (Answer n answer)
  with assms(2) show ?thesis
    by (auto elim!: in_stage_inv [OF assms(1)] simp: transport_returns_def split: stage.splits option.splits)
next
  case (Fail n f)
  with assms(2) show ?thesis by (auto elim!: in_stage_inv [OF assms(1)] split: stage.splits)
next
  case (Cancel n)
  with assms(2) show ?thesis by (auto elim!: in_stage_inv [OF assms(1)] split: stage.splits)
next
  case (Complete n use t r)
  with assms(2) show ?thesis
    by (auto elim!: in_stage_inv [OF assms(1)] dest: finish_complete_ok split: stage.splits)
next
  case (SealZero n t r)
  with assms(2) show ?thesis
    by (auto elim!: in_stage_inv [OF assms(1)] dest: seal_zero_ok split: stage.splits)
next
  case (SealReview n t r)
  with assms(2) show ?thesis
    by (auto elim!: in_stage_inv [OF assms(1)] dest: seal_review_step_ok split: stage.splits)
next
  case (Die n)
  with assms(2) show ?thesis by (auto elim!: in_stage_inv [OF assms(1)])
next
  case (Outside f)
  with assms outside_inv show ?thesis by (auto simp: not_scheduled_def split: if_splits)
qed

text \<open>The coordinators of all processes together are a machine that keeps the invariant.\<close>

interpretation effects: guarded_machine "system_step env policies ttl" "system_inv env base"
  for env policies ttl base
  by unfold_locales (rule system_step_inv)

lemma idle_inv:
  assumes "xw_claims w = []"
  shows "system_inv env w (idle_system w)"
  using assms
  by (simp add: system_inv_def world_ok_def claims_distinct_def idle_system_def nonces_ok_def)

lemma driven_inv:
  assumes "xw_claims w = []"
  shows "system_inv env w (drive (system_step env policies ttl) events (idle_system w))"
  by (rule effects.drive_inv) (rule idle_inv [OF assms])

lemma rebased_inv: "system_inv env base s \<Longrightarrow> system_inv env (sy_world s) s"
  by (simp add: system_inv_def)

definition send_identity :: "send \<Rightarrow> uuid \<times> string" where
  "send_identity x = (sn_investigation x, sn_key x)"

lemma send_of_claim:
  assumes "system_inv env base s" and "x \<in> set (sy_sends s)"
  obtains c where "claim_row_of (sn_claim x) (sy_world s) = Some c" "c \<in> set (xw_claims (sy_world s))" "ec_id c = sn_claim x"
    "claim_identity c = send_identity x" "ec_handoff_permit_nonce c = Some (sn_nonce x)" "ec_state c \<noteq> ClaimNotSubmitted"
    "ec_application_request_sha256 c = pe_application_request_sha256 (sn_prepared x)"
    "sn_key x = effect_key (ev_sha env) (sn_investigation x) (sn_prepared x)"
    "check_digests (ev_sha env) (sn_prepared x) = Inr ()"
proof -
  have ok: "world_ok (sent_pairs s) (sy_world s)" "send_ok env (sy_world s) x"
    using assms by (auto simp: system_inv_def)
  from ok(2) obtain c where c: "claim_row_of (sn_claim x) (sy_world s) = Some c"
    "claim_identity c = send_identity x" "ec_handoff_permit_nonce c = Some (sn_nonce x)"
    "ec_application_request_sha256 c = pe_application_request_sha256 (sn_prepared x)"
    "sn_key x = effect_key (ev_sha env) (sn_investigation x) (sn_prepared x)"
    "check_digests (ev_sha env) (sn_prepared x) = Inr ()"
    by (auto simp: send_ok_def send_identity_def)
  then have mem: "c \<in> set (xw_claims (sy_world s))" "ec_id c = sn_claim x"
    using ok(1) claim_row_of_Some by (auto simp: world_ok_def)
  with ok(1) c(3) have "ec_state c \<noteq> ClaimNotSubmitted" by (auto simp: world_ok_def settled_ok_def)
  with c mem that show thesis by blast
qed

lemma same_claim_same_send:
  assumes "system_inv env base s" and "x \<in> set (sy_sends s)" "y \<in> set (sy_sends s)"
    and "sn_claim x = sn_claim y \<or> send_identity x = send_identity y"
  shows "sn_nonce x = sn_nonce y"
proof -
  obtain c where c: "claim_row_of (sn_claim x) (sy_world s) = Some c" "c \<in> set (xw_claims (sy_world s))"
    "claim_identity c = send_identity x" "ec_handoff_permit_nonce c = Some (sn_nonce x)"
    using assms(1,2) by (rule send_of_claim)
  obtain d where d: "claim_row_of (sn_claim y) (sy_world s) = Some d" "d \<in> set (xw_claims (sy_world s))"
    "claim_identity d = send_identity y" "ec_handoff_permit_nonce d = Some (sn_nonce y)"
    using assms(1,3) by (rule send_of_claim)
  have "inj_on claim_identity (set (xw_claims (sy_world s)))"
    using assms(1) by (simp add: system_inv_def world_ok_def claims_distinct_def distinct_map)
  then have "c = d" using assms(4) c d inj_onD [of claim_identity _ c d] by auto
  with c(4) d(4) show ?thesis by simp
qed

lemma distinct_by:
  assumes "distinct (map f xs)" and "\<And>x y. x \<in> set xs \<Longrightarrow> y \<in> set xs \<Longrightarrow> g x = g y \<Longrightarrow> f x = f y"
  shows "distinct (map g xs)"
proof -
  have "inj_on f (set xs)" "distinct xs" using assms(1) by (simp_all add: distinct_map)
  moreover have "inj_on g (set xs)"
    by (rule inj_onI) (use assms(2) inj_onD [OF calculation(1)] in blast)
  ultimately show ?thesis by (simp add: distinct_map)
qed

lemma sends_distinct:
  assumes "system_inv env base s"
  shows "distinct (map send_identity (sy_sends s)) \<and> distinct (map sn_claim (sy_sends s))"
proof -
  have nonces: "distinct (map sn_nonce (sy_sends s))" using assms by (simp add: system_inv_def nonces_ok_def)
  have "distinct (map send_identity (sy_sends s))"
    by (rule distinct_by [OF nonces]) (rule same_claim_same_send [OF assms], simp_all)
  moreover have "distinct (map sn_claim (sy_sends s))"
    by (rule distinct_by [OF nonces]) (rule same_claim_same_send [OF assms], simp_all)
  ultimately show ?thesis by blast
qed

lemma filter_key: "distinct (map f xs) \<Longrightarrow> x \<in> set xs \<Longrightarrow> filter (\<lambda>y. f y = f x) xs = [x]"
proof (induction xs)
  case (Cons y ys)
  show ?case
  proof (cases "y = x")
    case True
    with Cons.prems(1) have "filter (\<lambda>y. f y = f x) ys = []" by (simp add: filter_empty_conv) (metis imageI)
    with True show ?thesis by simp
  next
    case False
    with Cons.prems have "f y \<noteq> f x" by auto
    with False Cons show ?thesis by simp
  qed
qed simp

subsection \<open>Two small runs\<close>

text \<open>A submission, and what the first task then does: it is sent, or its permit expires at the gate.\<close>

definition small_permit :: permit where
  "small_permit = issue_permit 100 small_authority small_prepared (plain_sha []) 200 5"

definition small_send :: send where
  "small_send = \<lparr>sn_claim = 100, sn_nonce = 200, sn_investigation = 1, sn_key = plain_sha [],
     sn_prepared = small_prepared\<rparr>"

definition small_system :: "effect_world \<Rightarrow> stage \<Rightarrow> permit list \<Rightarrow> send list \<Rightarrow> system" where
  "small_system w g issued sends = \<lparr>sy_world = w, sy_tasks = [\<lparr>tk_authority = small_authority,
     tk_prepared = small_prepared, tk_mark_invocation = True, tk_passive = False, tk_stage = g\<rparr>],
     sy_issued = issued, sy_nonces = [200], sy_sends = sends\<rparr>"

lemma small_matches:
  "permit_matches plain_sha small_permit small_authority small_prepared (plain_sha []) now \<longleftrightarrow> now < 5"
  by (simp add: permit_matches_def small_permit_def issue_permit_def small_digests small_prepared_def)

lemma small_submitted:
  "step (system_step small_env [] 5) (Consume 0 100 200 0 1 (utc 1) Returned)
     (step (system_step small_env [] 5) (Submit small_authority small_prepared True False) (idle_system small_world))
   = small_system (claimed_world small_claim) (AtGate small_permit) [small_permit] []"
proof -
  have "\<not> prepared_refused small_env small_authority small_prepared"
    by (simp add: prepared_refused_def small_valid is_error_def) (simp add: small_authority_def)
  then have "step (system_step small_env [] 5) (Submit small_authority small_prepared True False) (idle_system small_world)
    = (small_system small_world AtConsume [] [])\<lparr>sy_nonces := []\<rparr>"
    by (simp add: step_def new_task_def small_system_def idle_system_def)
  moreover have "ev_sha small_env = plain_sha" by (simp add: small_env_def)
  ultimately show ?thesis
    by (simp add: step_def step_consume_def stage_of_def small_system_def Let_def task_key_def small_digests small_consumed
      after_consume_def kept_world_def reply_commits_def small_matches small_permit_def [symmetric] set_stage_def)
qed

text \<open>The first run passes the gate and sends; the second finds its permit expired and settles the claim.\<close>

definition sending_events :: "event list" where
  "sending_events = [Submit small_authority small_prepared True False, Consume 0 100 200 0 1 (utc 1) Returned,
     Gate 0 1 1 2 (utc 2) Returned, Call 0 True 2 3,
     Answer 0 (Some \<lparr>rs_result_ref = None, rs_evidence_refs = [], rs_outcome_code = None\<rparr>),
     Complete 0 300 (utc 3) Returned]"

definition expiring_events :: "event list" where
  "expiring_events = [Submit small_authority small_prepared True False, Consume 0 100 200 0 1 (utc 1) Returned,
     Gate 0 5 1 2 (utc 2) Returned, SealZero 0 (utc 3) Returned]"

lemma small_env_sha: "ev_sha small_env = plain_sha"
  by (simp add: small_env_def)

lemma claimed_row: "ec_id c = i \<Longrightarrow> claim_row_of i (claimed_world c) = Some c"
  by (simp add: claim_row_of_def row_with_def claimed_world_def)

lemma claimed_put: "ec_id c = i \<Longrightarrow> put_claim i f (claimed_world c) = claimed_world (f c)"
  by (simp add: put_claim_def update_where_def claimed_world_def)

lemma small_claim_fields: "ec_id small_claim = 100" "ec_state small_claim = ClaimConsumed" "ec_version small_claim = 1"
  "ec_handoff_permit_nonce small_claim = None" "ec_application_request_sha256 small_claim = plain_sha []"
  by (simp_all add: small_claim_def new_claim_def small_prepared_def)

lemma small_permit_fields: "pm_claim_id small_permit = 100" "pm_nonce small_permit = 200" "pm_expires small_permit = 5"
  "pm_request_digest small_permit = plain_sha []"
  by (simp_all add: small_permit_def issue_permit_def small_prepared_def)

definition handed_claim :: claim_row where
  "handed_claim = small_claim\<lparr>ec_handoff_permit_nonce := Some 200, ec_version := 2, ec_updated_at := utc 2\<rparr>"

lemma small_handoff:
  "enter_handoff 100 200 (plain_sha []) 5 1 (utc 2) (claimed_world small_claim) = (True, claimed_world handed_claim)"
proof -
  have "is_sha256 (plain_sha [])" by code_simp
  then show ?thesis by (simp add: enter_handoff_def claimed_row claimed_put small_claim_fields handed_claim_def)
qed

lemma small_gate:
  "step (system_step small_env [] 5) (Gate 0 now 1 2 (utc 2) Returned)
     (small_system (claimed_world small_claim) (AtGate small_permit) [small_permit] [])
   = (if now < 5 then small_system (claimed_world handed_claim) (InTransport small_permit False False) [small_permit] []
      else small_system (claimed_world small_claim) (AtSealZero 100 ''pre_handoff_gate_refused'') [small_permit] [])"
proof -
  have digest: "pe_application_request_sha256 small_prepared = plain_sha []" by (simp add: small_prepared_def)
  show ?thesis
    by (simp add: step_def step_gate_def stage_of_def small_system_def pass_gate_def Let_def small_permit_fields digest
      small_handoff permit_valid_def small_env_sha task_key_def small_digests small_matches small_valid is_error_def set_stage_def)
qed

lemma small_call:
  "step (system_step small_env [] 5) (Call 0 True 2 3)
     (small_system w (InTransport small_permit False False) [small_permit] [])
   = small_system w (InTransport small_permit True True) []
      [small_send]"
  by (simp add: step_def step_call_def stage_of_def small_system_def call_capability_def Let_def small_valid is_error_def
    burn_and_validate_def small_env_sha small_matches small_digests task_key_def forget_permit_def small_permit_fields sent_by_def
    set_stage_def) (simp add: small_authority_def small_send_def)

lemma small_sealed:
  "step (system_step small_env [] 5) (SealZero 0 t Returned)
     (small_system (claimed_world small_claim) (AtSealZero 100 reason) issued sends)
   = small_system (snd (definitely_not_submitted True 100 reason t (claimed_world small_claim)))
       (Settled (DefinitelyNotSubmitted 100)) issued sends"
  by (simp add: step_def in_stage_def stage_of_def small_system_def seal_zero_handoff_def Let_def kept_world_def reply_commits_def
    definitely_not_submitted_def claimed_row small_claim_fields set_stage_def)

lemma small_completed:
  obtains w c where
    "drive (system_step small_env [] 5) sending_events (idle_system small_world) = small_system w (Settled (Completed 100)) []
      [small_send]"
    "xw_claims w = [c]" "ec_state c = ClaimCompleted" "ec_id c = 100"
proof -
  let ?s = "\<lambda>w g. small_system w g [] [small_send]"
  let ?r = "\<lparr>rs_result_ref = None, rs_evidence_refs = [], rs_outcome_code = None\<rparr>"
  have answered: "step (system_step small_env [] 5) (Answer 0 (Some ?r)) (?s w (InTransport small_permit True True))
      = ?s w (AtComplete small_permit ?r)" for w
    by (simp add: step_def in_stage_def stage_of_def small_system_def transport_returns_def set_stage_def)
  obtain w where call: "complete (ev_persistable_ref small_env) 100 300 None [] None (utc 3) (claimed_world handed_claim)
      = Inr (True, w)"
    by (simp add: complete_def claimed_row handed_claim_def small_claim_fields Let_def)
  have finished: "step (system_step small_env [] 5) (Complete 0 300 (utc 3) Returned) (?s (claimed_world handed_claim) (AtComplete small_permit ?r))
      = ?s w (Settled (Completed 100))"
    using call by (simp add: step_def in_stage_def stage_of_def small_system_def finish_complete_def Let_def small_permit_fields
      kept_world_def reply_commits_def set_stage_def)
  from call obtain row f where f: "claim_moves 100 row f (claimed_world handed_claim) w" "ec_state (f row) = ClaimCompleted"
    by (auto elim: complete_cases)
  have "row = handed_claim" "ec_id (f row) = ec_id row"
    using f(1) by (auto simp: claim_moves_def claimed_row handed_claim_def small_claim_fields)
  moreover have "xw_claims w = [f handed_claim]"
    using f(1) by (simp add: claim_moves_def claimed_put handed_claim_def small_claim_fields) (simp add: claimed_world_def)
  moreover have "drive (system_step small_env [] 5) sending_events (idle_system small_world) = ?s w (Settled (Completed 100))"
    by (simp add: sending_events_def small_submitted small_gate small_call answered finished)
  moreover have "ec_id handed_claim = 100" by (simp add: handed_claim_def small_claim_fields)
  ultimately show ?thesis using that [of w "f handed_claim"] f(2) by simp
qed

subsection \<open>Properties\<close>

text \<open>
  C5. An external effect is sent at most once. Whatever the number of coordinators and tasks, and however their steps
  interleave with crashes, cancellations, lost acknowledgements and other transactions, no two
  physical sends ever carry the same effect of the same investigation; and each send carries the request
  its claim was admitted for, under the key that identifies that request, with the durable
  handoff marker of its own permit on the claim before the send.
\<close>

theorem sent_at_most_once:
  assumes "xw_claims w = []"
    and "s = drive (system_step env policies ttl) events (idle_system w)"
  shows "distinct (map send_identity (sy_sends s))
    \<and> (\<forall>x\<in>set (sy_sends s). \<exists>c\<in>set (xw_claims (sy_world s)). ec_id c = sn_claim x
        \<and> claim_identity c = (sn_investigation x, effect_key (ev_sha env) (sn_investigation x) (sn_prepared x))
        \<and> ec_handoff_permit_nonce c = Some (sn_nonce x)
        \<and> application_request_sha256 (ev_sha env) (pe_credential_parameter_names (sn_prepared x))
            (pe_application_request (sn_prepared x)) = Inr (ec_application_request_sha256 c))"
proof -
  have inv: "system_inv env w s" unfolding assms(2) by (rule driven_inv [OF assms(1)])
  have "\<exists>c\<in>set (xw_claims (sy_world s)). ec_id c = sn_claim x
        \<and> claim_identity c = (sn_investigation x, effect_key (ev_sha env) (sn_investigation x) (sn_prepared x))
        \<and> ec_handoff_permit_nonce c = Some (sn_nonce x)
        \<and> application_request_sha256 (ev_sha env) (pe_credential_parameter_names (sn_prepared x))
            (pe_application_request (sn_prepared x)) = Inr (ec_application_request_sha256 c)"
    if "x \<in> set (sy_sends s)" for x
    using inv that by (rule send_of_claim)
      (auto simp: send_identity_def check_digests_def and_then_Inr split: if_splits)
  with sends_distinct [OF inv] show ?thesis by blast
qed

theorem sent_at_most_once_witness:
  "map send_identity (sy_sends (drive (system_step small_env [] 5) (take 4 sending_events) (idle_system small_world)))
     = [(1, plain_sha [])]
   \<and> distinct (map send_identity (sy_sends (drive (system_step small_env [] 5) (take 4 sending_events) (idle_system small_world))))"
proof -
  have "xw_claims small_world = []" by (simp add: small_world_def)
  from sent_at_most_once [OF this refl, of small_env "[]" 5 "take 4 sending_events"] show ?thesis
    by (simp add: sending_events_def small_submitted small_gate small_call) (simp add: small_system_def send_identity_def small_send_def)
qed

text \<open>
  C6. What is reported as not submitted was not and will not be sent: once a caller was told so, or the
  claim says so, no send of that claim is in the log, nor will one be after any further events.
\<close>

theorem not_submitted_is_final:
  assumes "xw_claims w = []"
    and "s = drive (system_step env policies ttl) events (idle_system w)"
    and "(\<exists>k\<in>set (sy_tasks s). tk_stage k = Settled (DefinitelyNotSubmitted c))
      \<or> (\<exists>d\<in>set (xw_claims (sy_world s)). ec_id d = c \<and> ec_state d = ClaimNotSubmitted)"
    and "s' = drive (system_step env policies ttl) later s"
  shows "c \<notin> sn_claim ` set (sy_sends s')"
proof -
  have inv: "system_inv env w s" unfolding assms(2) by (rule driven_inv [OF assms(1)])
  have "claim_in c ClaimNotSubmitted (sy_world s)"
    using assms(3)
  proof
    assume "\<exists>k\<in>set (sy_tasks s). tk_stage k = Settled (DefinitelyNotSubmitted c)"
    then obtain k where "k \<in> set (sy_tasks s)" "tk_stage k = Settled (DefinitelyNotSubmitted c)" by blast
    then have "stage_ok (sy_world s) (sent_pairs s) (tk_prepared k) (Settled (DefinitelyNotSubmitted c))"
      using inv by (auto simp: system_inv_def)
    then show ?thesis by simp
  next
    assume "\<exists>d\<in>set (xw_claims (sy_world s)). ec_id d = c \<and> ec_state d = ClaimNotSubmitted"
    then show ?thesis
      using inv claim_row_of_Some by (auto simp: claim_in_def system_inv_def world_ok_def)
  qed
  moreover have inv': "system_inv env (sy_world s) s'"
    unfolding assms(4) by (rule effects.drive_inv) (rule rebased_inv [OF inv])
  ultimately have "claim_in c ClaimNotSubmitted (sy_world s')"
    using claim_in_evolves by (auto simp: system_inv_def)
  then obtain e where e: "claim_row_of c (sy_world s') = Some e" "ec_state e = ClaimNotSubmitted"
    by (auto simp: claim_in_def)
  have "sn_claim x \<noteq> c" if "x \<in> set (sy_sends s')" for x
    using inv' that by (rule send_of_claim) (use e in auto)
  then show ?thesis by blast
qed

theorem not_submitted_is_final_witness:
  "100 \<notin> sn_claim ` set (sy_sends (drive (system_step small_env [] 5) (tl sending_events)
     (drive (system_step small_env [] 5) expiring_events (idle_system small_world))))"
proof -
  have "xw_claims small_world = []" by (simp add: small_world_def)
  moreover have "\<exists>k\<in>set (sy_tasks (drive (system_step small_env [] 5) expiring_events (idle_system small_world))).
      tk_stage k = Settled (DefinitelyNotSubmitted 100)"
    by (simp add: expiring_events_def small_submitted small_gate small_sealed) (simp add: small_system_def)
  ultimately show ?thesis using not_submitted_is_final [OF _ refl _ refl] by blast
qed

text \<open>
  C7. What is reported as completed was sent, exactly once: the claim of a completed effect has one
  physical send in the log, and its sent request has the claim's effect key.
\<close>

theorem completed_was_sent_once:
  assumes "xw_claims w = []"
    and "s = drive (system_step env policies ttl) events (idle_system w)"
    and "d \<in> set (xw_claims (sy_world s))" "ec_state d = ClaimCompleted"
  shows "\<exists>x. filter (\<lambda>x. sn_claim x = ec_id d) (sy_sends s) = [x]
    \<and> ec_effect_key d = effect_key (ev_sha env) (ec_investigation_id d) (sn_prepared x)"
proof -
  have inv: "system_inv env w s" unfolding assms(2) by (rule driven_inv [OF assms(1)])
  then obtain x where x: "x \<in> set (sy_sends s)" "sn_claim x = ec_id d"
    using assms(3,4) by (auto simp: system_inv_def world_ok_def settled_ok_def sent_pairs_def)
  obtain c where c: "claim_row_of (sn_claim x) (sy_world s) = Some c" "claim_identity c = send_identity x"
    "sn_key x = effect_key (ev_sha env) (sn_investigation x) (sn_prepared x)"
    using inv x(1) by (rule send_of_claim)
  have "claim_row_of (ec_id d) (sy_world s) = Some d"
    using inv assms(3) claim_row_of_Some by (auto simp: system_inv_def world_ok_def)
  with c x(2) have "ec_effect_key d = effect_key (ev_sha env) (ec_investigation_id d) (sn_prepared x)"
    by (simp add: claim_identity_def send_identity_def)
  moreover have "filter (\<lambda>y. sn_claim y = sn_claim x) (sy_sends s) = [x]"
    using filter_key [of sn_claim, OF _ x(1)] sends_distinct [OF inv] by simp
  ultimately show ?thesis using x(2) by auto
qed

theorem completed_was_sent_once_witness:
  "\<exists>x. filter (\<lambda>x. sn_claim x = 100)
    (sy_sends (drive (system_step small_env [] 5) sending_events (idle_system small_world))) = [x]"
proof -
  obtain w c where run: "xw_claims w = [c]" "ec_state c = ClaimCompleted" "ec_id c = 100"
    "sy_world (drive (system_step small_env [] 5) sending_events (idle_system small_world)) = w"
    by (rule small_completed) (auto simp: small_system_def)
  have "xw_claims small_world = []" by (simp add: small_world_def)
  from completed_was_sent_once [OF this refl, of c small_env "[]" 5 sending_events] run show ?thesis by auto
qed

end
