(* ===== verification/SourceSafety.thy ===== *)
theory SourceSafety
  imports EffectAdmission
begin










subsection \<open>Every reference is recorded\<close>


definition cites_more :: "cited \<Rightarrow> cited \<Rightarrow> bool" where
  "cites_more c d = (set (ci_sample_hashes c) \<subseteq> set (ci_sample_hashes d) \<and> set (ci_sample_ids c) \<subseteq> set (ci_sample_ids d)
     \<and> set (ci_association_ids c) \<subseteq> set (ci_association_ids d) \<and> set (ci_document_ids c) \<subseteq> set (ci_document_ids d)
     \<and> (\<forall>i r. map_of (ci_association_sample_refs c) i = Some r \<longrightarrow> map_of (ci_association_sample_refs d) i = Some r)
     \<and> (\<forall>i r. map_of (ci_observations c) i = Some r \<longrightarrow> map_of (ci_observations d) i = Some r))"


lemma cites_more_refl [simp]: "cites_more c c"
  by (simp add: cites_more_def)









subsection \<open>What an observation grounds\<close>








subsection \<open>What the check establishes\<close>








subsection \<open>Admission\<close>







end
