(* ===== verification/OsintPolicy.thy ===== *)
theory OsintPolicy
  imports Investigation SourcePolicy
begin

text \<open>
  The standing policy under which investigations may search and acquire without an approval each,
  \<open>domain/osint_open.py\<close>: the rights a version grants, what an extension may change, the scopes and the
  effective policy of an investigation, and the intersection of the disclosure labels of a source
  with those of the policy. \<open>DisclosureBounds\<close> and \<open>TLPLevel\<close> are those of \<open>domain/investigation.py\<close>.
\<close>

subsection \<open>Disclosure\<close>

datatype tlp_level = TlpWhite | TlpClear | TlpGreen | TlpAmber | TlpRed

fun tlp_value :: "tlp_level \<Rightarrow> string" where
  "tlp_value TlpWhite = ''white''"
| "tlp_value TlpClear = ''clear''"
| "tlp_value TlpGreen = ''green''"
| "tlp_value TlpAmber = ''amber''"
| "tlp_value TlpRed = ''red''"

definition tlp_levels :: "tlp_level list" where
  "tlp_levels = [TlpWhite, TlpClear, TlpGreen, TlpAmber, TlpRed]"

definition tlp_of :: "string \<Rightarrow> tlp_level option" where
  "tlp_of s = find (\<lambda>l. tlp_value l = s) tlp_levels"

lemma tlp_of_value [simp]: "tlp_of (tlp_value l) = Some l"
  by (cases l) (simp_all add: tlp_of_def tlp_levels_def)

fun tlp_order :: "tlp_level \<Rightarrow> int" where
  "tlp_order TlpWhite = 0"
| "tlp_order TlpClear = 1"
| "tlp_order TlpGreen = 2"
| "tlp_order TlpAmber = 3"
| "tlp_order TlpRed = 4"

record disclosure_bounds =
  db_tlp :: "tlp_level option"
  db_do_not_submit :: bool
  db_external_llm_allowed :: bool

text \<open>\<open>max((source, policy), key=order)\<close>: the first of two equal levels.\<close>

definition stricter_tlp :: "tlp_level \<Rightarrow> tlp_level \<Rightarrow> tlp_level" where
  "stricter_tlp a b = (if tlp_order a < tlp_order b then b else a)"

definition closed_disclosure :: disclosure_bounds where
  "closed_disclosure = \<lparr>db_tlp = Some TlpRed, db_do_not_submit = True, db_external_llm_allowed = False\<rparr>"

text \<open>The level a source declares, as a \<open>TLPLevel\<close> or as text.\<close>

definition source_tlp :: "string option \<Rightarrow> tlp_level option" where
  "source_tlp raw = (case raw of None \<Rightarrow> None
     | Some s \<Rightarrow> (let t = casefold (py_strip s) in
         tlp_of (if starts_with t ''tlp:'' then py_strip (drop 4 t) else t)))"

definition intersect_disclosure :: "string option \<Rightarrow> bool \<Rightarrow> bool \<Rightarrow> disclosure_bounds \<Rightarrow> disclosure_bounds" where
  "intersect_disclosure raw do_not_submit external policy =
     (case (source_tlp raw, db_tlp policy) of
        (Some s, Some p) \<Rightarrow> \<lparr>db_tlp = Some (stricter_tlp s p),
          db_do_not_submit = (do_not_submit \<or> db_do_not_submit policy),
          db_external_llm_allowed = (external \<and> db_external_llm_allowed policy \<and> s \<noteq> TlpRed \<and> p \<noteq> TlpRed)\<rparr>
      | _ \<Rightarrow> closed_disclosure)"

subsection \<open>Capabilities\<close>

record osint_capabilities =
  oc_allowed_providers :: "string list"
  oc_budget_limits :: amounts
  oc_acquire_hits_allowed :: bool
  oc_disclosure :: disclosure_bounds
  oc_max_effect_claims :: int

definition provider_name :: "string \<Rightarrow> bool" where
  "provider_name s = (case s of [] \<Rightarrow> False
     | c # cs \<Rightarrow> c \<in> set ''abcdefghijklmnopqrstuvwxyz'' \<and> length cs \<le> 63
         \<and> list_all (\<lambda>d. d \<in> set ''abcdefghijklmnopqrstuvwxyz0123456789_.-'') cs)"

definition required_budgets :: "budget_dimension list" where
  "required_budgets = [VtUnits, Downloads, BridgeTurns, ToolSeconds, ContextBytes, ContextTokens]"

definition normalized_providers :: "string list \<Rightarrow> string list" where
  "normalized_providers ps = sort (remdups (map (\<lambda>p. casefold (py_strip p)) ps))"

definition has_budget :: "amounts \<Rightarrow> budget_dimension \<Rightarrow> bool" where
  "has_budget a d = (map_of a d \<noteq> None)"

definition capabilities_post_init :: "osint_capabilities \<Rightarrow> osint_capabilities result" where
  "capabilities_post_init c =
     (let ps = normalized_providers (oc_allowed_providers c); limits = oc_budget_limits c;
          external = db_external_llm_allowed (oc_disclosure c) in
      validated
     ([(\<not> list_all provider_name ps, ValueError ''Provider names must be lowercase identifiers''),
      (db_tlp (oc_disclosure c) = None, ValueError ''OSINT_OPEN policy requires an explicit default TLP''),
      (list_ex (\<lambda>(d, n). n < 0) limits, ValueError ''Policy budgets must be finite non-negative integers''),
      (\<not> list_all (has_budget limits) required_budgets,
        ValueError ''All required OSINT_OPEN budget dimensions must be finite''),
      (oc_acquire_hits_allowed c \<and> (''vt'' \<notin> set ps \<or> amount limits VtUnits < 1 \<or> amount limits Downloads < 1),
        ValueError ''Hit acquisition requires positive VT_UNITS and DOWNLOADS limits''),
      (oc_max_effect_claims c < 1, ValueError ''max_effect_claims_per_investigation must be positive''),
      (has_budget limits VtUnits \<and> ''vt'' \<in> set ps \<and> amount limits VtUnits < 1,
        ValueError ''The vt provider requires a positive VT_UNITS limit''),
      (''shodan'' \<in> set ps \<and> amount limits ShodanCredits < 1,
        ValueError ''The shodan provider requires a positive SHODAN_CREDITS limit''),
      (external \<and> amount limits BridgeTurns < 1,
        ValueError ''External model disclosure requires a positive BRIDGE_TURNS limit''),
      (''bridge'' \<in> set ps \<and> (\<not> external \<or> amount limits BridgeTurns < 1),
        ValueError ''The bridge provider requires external disclosure and a positive limit'')]
      @ map (\<lambda>d. ((ps \<noteq> [] \<or> oc_acquire_hits_allowed c \<or> external) \<and> amount limits d < 1,
        ValueError (dimension_value d @ '' must be positive for enabled effects''))) [ToolSeconds, ContextBytes, ContextTokens])
     (c\<lparr>oc_allowed_providers := ps\<rparr>))"

text \<open>Two concrete levels: the caller has checked that neither is missing.\<close>

definition lower_tlp :: "tlp_level option \<Rightarrow> tlp_level option \<Rightarrow> bool" where
  "lower_tlp a b = (case (a, b) of (Some x, Some y) \<Rightarrow> tlp_order x < tlp_order y | _ \<Rightarrow> False)"

definition require_growth_from :: "osint_capabilities \<Rightarrow> osint_capabilities \<Rightarrow> unit result" where
  "require_growth_from new current = validated
     ([(\<not> set (oc_allowed_providers current) \<subseteq> set (oc_allowed_providers new),
        ValueError ''A policy extension cannot remove an allowed provider'')]
      @ map (\<lambda>(d, previous). (amount (oc_budget_limits new) d < previous,
        ValueError (''A policy extension cannot reduce '' @ dimension_value d))) (oc_budget_limits current)
      @ [(oc_acquire_hits_allowed current \<and> \<not> oc_acquire_hits_allowed new,
        ValueError ''A policy extension cannot revoke acquisition rights''),
      (db_do_not_submit (oc_disclosure current) \<and> \<not> db_do_not_submit (oc_disclosure new),
        ValueError ''A policy extension cannot clear do_not_submit''),
      (db_external_llm_allowed (oc_disclosure current) \<and> \<not> db_external_llm_allowed (oc_disclosure new),
        ValueError ''A policy extension cannot revoke external model rights''),
      (db_tlp (oc_disclosure new) = None \<or> db_tlp (oc_disclosure current) = None,
        ValueError ''Policy disclosure requires a concrete TLP''),
      (lower_tlp (db_tlp (oc_disclosure new)) (db_tlp (oc_disclosure current)),
        ValueError ''A policy extension cannot lower the TLP restriction''),
      (oc_max_effect_claims new < oc_max_effect_claims current,
        ValueError ''A policy extension cannot reduce the effect-claim ceiling'')]) ()"

subsection \<open>Versions\<close>

datatype osint_mode = ModeRestricted | ModeOsintOpen
datatype scope_kind = ScopeInstance | ScopeSubjectSet
datatype policy_status = PolicyActive | PolicyRevoked
datatype inheritance_status = PinActive | PinRevoked | PinSuperseded
datatype policy_event_type = PolicyActivated | PolicyExtended | PolicyRevokedEvent

fun scope_kind_value :: "scope_kind \<Rightarrow> string" where
  "scope_kind_value ScopeInstance = ''instance''"
| "scope_kind_value ScopeSubjectSet = ''subject_set''"

record osint_policy =
  op_policy_id :: uuid
  op_version :: int
  op_scope_kind :: scope_kind
  op_scope_ref :: string
  op_mode :: osint_mode
  op_status :: policy_status
  op_capabilities :: osint_capabilities
  op_actor_id :: string
  op_reason :: string
  op_correlation_id :: string
  op_activation_correlation_id :: string
  op_event_id :: uuid
  op_created_at :: datetime
  op_previous_version :: "int option"

text \<open>The texts of UUIDs have one length and one case, so they sort as the numbers do.\<close>

definition scope_subject_ids :: "string \<Rightarrow> uuid list result" where
  "scope_subject_ids scope =
     (let parts = filter (\<lambda>p. p \<noteq> []) (split_at_char CHR '','' scope); parsed = map parse_uuid parts in
      if None \<in> set parsed then Inl (ValueError ''SUBJECT_SET scope_ref must contain UUIDs'')
      else let ids = map the parsed in
        if \<not> sorted_wrt (<) ids then Inl (ValueError ''SUBJECT_SET UUIDs must be unique and canonical'')
        else if map uuid_text ids \<noteq> parts then Inl (ValueError ''SUBJECT_SET UUIDs must use canonical form'')
        else Inr ids)"

definition subject_set_ref :: "uuid list \<Rightarrow> string result" where
  "subject_set_ref ids = (let normalized = sort (remdups ids) in
     if normalized = [] then Inl (ValueError ''SUBJECT_SET requires at least one subject'')
     else Inr (join_with '','' (map uuid_text normalized)))"

definition contains_subject :: "osint_policy \<Rightarrow> uuid \<Rightarrow> bool result" where
  "contains_subject p subject = (if op_scope_kind p = ScopeInstance then Inr True
     else and_then (scope_subject_ids (op_scope_ref p)) (\<lambda>ids. Inr (subject \<in> set ids)))"

text \<open>A subject set that cannot be parsed is its own error, the first of the two checks of the scope.\<close>

definition scope_check :: "scope_kind \<Rightarrow> string \<Rightarrow> unit result" where
  "scope_check kind scope =
     (if kind = ScopeInstance
      then (if scope \<noteq> ''instance'' then Inl (ValueError (''INSTANCE policy scope_ref must be '' @ [CHR 0x27] @ ''instance'' @ [CHR 0x27])) else Inr ())
      else and_then (scope_subject_ids scope) (\<lambda>ids.
        if ids = [] then Inl (ValueError ''SUBJECT_SET policy requires at least one subject'') else Inr ()))"

definition policy_post_init :: "osint_policy \<Rightarrow> osint_policy result" where
  "policy_post_init p =
     (let caps = op_capabilities p in
      and_then (validated
     [(op_version p < 1, ValueError ''Policy version must be positive''),
      (op_previous_version p \<noteq> None \<and> op_previous_version p \<noteq> Some (op_version p - 1),
        ValueError ''Policy previous_version must immediately precede version''),
      (blank (op_scope_ref p) \<or> blank (op_actor_id p) \<or> blank (op_reason p),
        ValueError ''Policy scope, actor and reason are required''),
      (blank (op_correlation_id p) \<or> blank (op_activation_correlation_id p),
        ValueError ''Policy correlations are required'')] ()) (\<lambda>_.
      and_then (scope_check (op_scope_kind p) (op_scope_ref p)) (\<lambda>_.
      validated
     [(op_mode p \<noteq> ModeOsintOpen, ValueError ''Persisted OSINT_OPEN policy versions must use OSINT_OPEN mode''),
      (\<not> aware (op_created_at p), ValueError ''Policy timestamp must be timezone-aware''),
      (op_status p = PolicyRevoked \<and> (oc_allowed_providers caps \<noteq> [] \<or> oc_acquire_hits_allowed caps
          \<or> db_external_llm_allowed (oc_disclosure caps)),
        ValueError ''A revoked policy must have zero external rights''),
      (op_status p = PolicyRevoked \<and> amount (oc_budget_limits caps) VtUnits \<noteq> 0,
        ValueError ''A revoked policy must zero acquisition budgets''),
      (op_status p = PolicyRevoked \<and> \<not> has_budget (oc_budget_limits caps) ShodanCredits, KeyErr ''shodan_credits''),
      (op_status p = PolicyRevoked \<and> (amount (oc_budget_limits caps) ShodanCredits \<noteq> 0
          \<or> amount (oc_budget_limits caps) Downloads \<noteq> 0),
        ValueError ''A revoked policy must zero acquisition budgets'')] p)))"

record osint_event =
  oe_id :: uuid
  oe_policy_id :: uuid
  oe_policy_version :: int
  oe_event_type :: policy_event_type
  oe_actor_id :: string
  oe_reason :: string
  oe_correlation_id :: string
  oe_payload_sha256 :: string
  oe_previous_version :: "int option"
  oe_created_at :: datetime

record inheritance =
  in_investigation_id :: uuid
  in_subject_id :: uuid
  in_policy_id :: uuid
  in_policy_version :: int
  in_policy_event_id :: uuid
  in_correlation_id :: string
  in_activation_correlation_id :: string
  in_status :: inheritance_status
  in_created_at :: datetime
  in_updated_at :: datetime

record effective_policy =
  ef_inheritance :: inheritance
  ef_policy :: osint_policy
  ef_current_policy_status :: policy_status

definition effective_revoked :: "effective_policy \<Rightarrow> bool" where
  "effective_revoked e = (in_status (ef_inheritance e) = PinRevoked \<or> ef_current_policy_status e = PolicyRevoked)"

definition effective_authorized :: "effective_policy \<Rightarrow> bool" where
  "effective_authorized e = (\<not> effective_revoked e \<and> in_status (ef_inheritance e) = PinActive
     \<and> op_status (ef_policy e) = PolicyActive)"

definition authorizes_binding ::
  "effective_policy option \<Rightarrow> uuid \<Rightarrow> uuid \<Rightarrow> uuid option \<Rightarrow> int option \<Rightarrow> uuid option \<Rightarrow> bool" where
  "authorizes_binding effective investigation subject policy version event = (case effective of
     None \<Rightarrow> False
   | Some e \<Rightarrow> (let i = ef_inheritance e; p = ef_policy e in
       effective_authorized e \<and> in_investigation_id i = investigation \<and> in_subject_id i = subject
       \<and> Some (in_policy_id i) = policy \<and> Some (in_policy_version i) = version
       \<and> Some (in_policy_event_id i) = event \<and> Some (op_policy_id p) = policy \<and> Some (op_version p) = version
       \<and> Some (op_event_id p) = event \<and> contains_subject p subject = Inr True))"

subsection \<open>What the rules guarantee\<close>

text \<open>Rights as an order: the left ones are included in the right ones.\<close>

definition disclosure_within :: "disclosure_bounds \<Rightarrow> disclosure_bounds \<Rightarrow> bool" where
  "disclosure_within a b = ((db_do_not_submit b \<longrightarrow> db_do_not_submit a)
     \<and> (db_external_llm_allowed a \<longrightarrow> db_external_llm_allowed b)
     \<and> (case (db_tlp a, db_tlp b) of (Some x, Some y) \<Rightarrow> tlp_order y \<le> tlp_order x | (None, Some y) \<Rightarrow> False | _ \<Rightarrow> True))"

lemma tlp_order_le: "tlp_order l \<le> 4"
  by (cases l) simp_all

lemma intersect_within_policy:
  "disclosure_within (intersect_disclosure raw do_not_submit external policy) policy"
  by (auto simp: intersect_disclosure_def disclosure_within_def closed_disclosure_def stricter_tlp_def tlp_order_le
    split: option.splits)

lemma intersect_within_source:
  "source_tlp raw = Some s \<Longrightarrow> disclosure_within (intersect_disclosure raw do_not_submit external policy)
     \<lparr>db_tlp = Some s, db_do_not_submit = do_not_submit, db_external_llm_allowed = external\<rparr>"
  by (cases s) (auto simp: intersect_disclosure_def disclosure_within_def closed_disclosure_def stricter_tlp_def
    split: option.splits)

lemma intersect_unlabelled: "source_tlp raw = None \<Longrightarrow> intersect_disclosure raw d e policy = closed_disclosure"
  by (simp add: intersect_disclosure_def)

lemma intersect_red:
  "db_tlp (intersect_disclosure raw d e policy) = Some TlpRed \<Longrightarrow> \<not> db_external_llm_allowed (intersect_disclosure raw d e policy)"
  by (auto simp: intersect_disclosure_def closed_disclosure_def stricter_tlp_def split: option.splits if_splits)

lemma capabilities_post_init_Inr:
  "capabilities_post_init c = Inr c' \<Longrightarrow> c' = c\<lparr>oc_allowed_providers := normalized_providers (oc_allowed_providers c)\<rparr>"
  by (simp add: capabilities_post_init_def Let_def validated_Inr)

lemma policy_post_init_Inr: "policy_post_init p = Inr q \<Longrightarrow> q = p"
  by (auto simp: policy_post_init_def Let_def and_then_Inr validated_Inr)

text \<open>A growth keeps every right of the version it extends.\<close>

lemma growth_keeps_rights:
  assumes "require_growth_from new current = Inr ()"
  shows "set (oc_allowed_providers current) \<subseteq> set (oc_allowed_providers new)"
    and "map_of (oc_budget_limits current) d = Some n \<Longrightarrow> n \<le> amount (oc_budget_limits new) d"
    and "oc_acquire_hits_allowed current \<Longrightarrow> oc_acquire_hits_allowed new"
    and "db_external_llm_allowed (oc_disclosure current) \<Longrightarrow> db_external_llm_allowed (oc_disclosure new)"
    and "oc_max_effect_claims current \<le> oc_max_effect_claims new"
  using assms
  by (auto simp: require_growth_from_def validated_Inr not_less dest!: map_of_SomeD)

end
