(* ===== verification/Governance.thy ===== *)
theory Governance
  imports OsintPolicy
begin

text \<open>
  The human approvals of an investigation, \<open>application/investigation_governance.py\<close>: an envelope holds
  what the investigation may do outside, and changes only by a decision of an analyst that is
  appended to the log. The tables are those of \<open>infrastructure/database/repositories\<close>; each
  operation is one transaction. \<open>uuid5\<close> and the two configured defaults are arguments, in
  \<open>governance_env\<close>; an exception class without a constructor of its own is \<open>Raised\<close> with its name.
\<close>

subsection \<open>Rows\<close>

datatype envelope_authority = EnvHumanG2 | EnvOsintPolicy

record envelope =
  ge_investigation_id :: uuid
  ge_allowed_providers :: "string list"
  ge_budget :: inv_budget
  ge_acquire_hits_allowed :: bool
  ge_disclosure :: disclosure_bounds
  ge_approval_decision_id :: uuid
  ge_approval_actor_id :: string
  ge_authority_kind :: envelope_authority
  ge_inherited_policy_id :: "uuid option"
  ge_inherited_policy_version :: "int option"
  ge_inherited_policy_event_id :: "uuid option"
  ge_approved_at :: datetime
  ge_version :: int

definition envelope_post_init :: "envelope \<Rightarrow> envelope result" where
  "envelope_post_init e =
     (let policy = (ge_authority_kind e = EnvOsintPolicy) in validated
     [(blank (ge_approval_actor_id e), ValueError ''An approved envelope requires an identified actor''),
      (policy \<and> (ge_inherited_policy_id e = None \<or> ge_inherited_policy_version e = None
          \<or> ge_inherited_policy_event_id e = None),
        ValueError ''An inherited envelope must identify its policy version and event''),
      (policy \<and> the (ge_inherited_policy_version e) < 1, ValueError ''Inherited policy version must be positive''),
      (policy \<and> Some (ge_approval_decision_id e) \<noteq> ge_inherited_policy_event_id e,
        ValueError ''Inherited envelope authority must reference its policy event''),
      (\<not> policy \<and> (ge_inherited_policy_id e \<noteq> None \<or> ge_inherited_policy_version e \<noteq> None
          \<or> ge_inherited_policy_event_id e \<noteq> None),
        ValueError ''A HUMAN_G2 envelope cannot retain inherited policy references''),
      (list_ex blank (ge_allowed_providers e), ValueError ''Allowed provider names must not be empty''),
      (ge_version e < 1, ValueError ''version must be >= 1''),
      (\<not> distinct (ge_allowed_providers e), ValueError ''Allowed providers must be unique''),
      (\<not> aware (ge_approved_at e), ValueError ''approved_at must be timezone-aware'')] e)"

datatype decision_type = MemberValidate | MemberReject | FeatureValidate | FeatureReject | PivotApprove | PivotReject
  | NoteApprove | NoteChangesRequested | DetectionApprove | DetectionReject

datatype decision_target = TargetMember | TargetFeature | TargetTool | TargetInvariant | TargetPivot | TargetCorpus
  | TargetDetection | TargetNote

record analyst_decision =
  ad_investigation_id :: uuid
  ad_decision_type :: decision_type
  ad_target_type :: decision_target
  ad_target_id :: uuid
  ad_actor_id :: string
  ad_reason :: string
  ad_correlation_id :: string
  ad_id :: uuid
  ad_occurred_at :: datetime
  ad_details :: "(string \<times> plain) list"

text \<open>\<open>gw_states\<close> and \<open>gw_invocations\<close> are the investigations of the stored working states and tool invocations.\<close>

record authority_world =
  gw_investigations :: "investigation list"
  gw_subjects :: "uuid list"
  gw_states :: "uuid list"
  gw_invocations :: "uuid list"
  gw_envelopes :: "envelope list"
  gw_decisions :: "analyst_decision list"
  gw_policies :: "osint_policy list"
  gw_events :: "osint_event list"
  gw_pins :: "inheritance list"

record governance_env =
  gv_uuid5 :: "string \<Rightarrow> uuid"
  gv_policy_uuid5 :: "string \<Rightarrow> uuid"
  gv_sha :: "string \<Rightarrow> string"
  gv_max_tool_seconds :: int
  gv_max_context_bytes :: int
  gv_maximum :: "budget_dimension \<Rightarrow> int"
  gv_max_effect_claims :: int
  gv_unsafe_text :: "string \<Rightarrow> bool"

definition envelope_of :: "uuid \<Rightarrow> authority_world \<Rightarrow> envelope option" where
  "envelope_of i w = row_with ge_investigation_id i (gw_envelopes w)"

definition investigation_of :: "uuid \<Rightarrow> authority_world \<Rightarrow> investigation option" where
  "investigation_of i w = row_with iv_id i (gw_investigations w)"

definition decisions_of :: "uuid \<Rightarrow> authority_world \<Rightarrow> analyst_decision list" where
  "decisions_of i w = filter (\<lambda>d. ad_investigation_id d = i) (gw_decisions w)"

definition save_envelope :: "envelope \<Rightarrow> int option \<Rightarrow> authority_world \<Rightarrow> authority_world result" where
  "save_envelope e expected w = (case envelope_of (ge_investigation_id e) w of
     None \<Rightarrow>
       if expected \<noteq> None \<or> ge_version e \<noteq> 1 then Inl (VersionConflict ''A first envelope version must be v1'')
       else Inr (w\<lparr>gw_envelopes := gw_envelopes w @ [e]\<rparr>)
   | Some current \<Rightarrow>
       if current = e then Inr w
       else if Some (ge_version current) \<noteq> expected \<or> ge_version e \<noteq> ge_version current + 1
       then Inl (VersionConflict ''Investigation envelope version changed'')
       else Inr (w\<lparr>gw_envelopes := update_where (\<lambda>x. ge_investigation_id x = ge_investigation_id e)
         (\<lambda>_. e) (gw_envelopes w)\<rparr>))"

definition append_analyst_decision :: "analyst_decision \<Rightarrow> authority_world \<Rightarrow> authority_world result" where
  "append_analyst_decision d w = (if list_ex (\<lambda>x. ad_id x = ad_id d) (gw_decisions w)
     then Inl (IntegrityError ''analyst_decisions_pkey'') else Inr (w\<lparr>gw_decisions := gw_decisions w @ [d]\<rparr>))"

text \<open>The update of an investigation is guarded by the version before it.\<close>

definition save_investigation :: "investigation \<Rightarrow> authority_world \<Rightarrow> authority_world result" where
  "save_investigation v w = (case investigation_of (iv_id v) w of
     None \<Rightarrow> Inl (RuntimeErr ''stale analyst investigation write'')
   | Some x \<Rightarrow> if iv_version x \<noteq> iv_version v - 1 then Inl (RuntimeErr ''stale analyst investigation write'')
       else Inr (w\<lparr>gw_investigations := update_where (\<lambda>y. iv_id y = iv_id v) (\<lambda>_. v) (gw_investigations w)\<rparr>))"

subsection \<open>Identities and JSON\<close>

text \<open>\<open>json.dumps(value, sort_keys=True, separators=(",", ":"))\<close>: every character but the printable ASCII is escaped.\<close>

definition ascii_char :: "char \<Rightarrow> string" where
  "ascii_char c = (let n = of_char c :: nat in if n < 127 then [c]
     else [backslash, CHR ''u'', CHR ''0'', CHR ''0'', hex_digits ! (n div 16), hex_digits ! (n mod 16)])"

definition json_dumps :: "plain \<Rightarrow> string" where
  "json_dumps v = concat (map ascii_char (write_jcs v))"

definition limits_identity :: "amounts \<Rightarrow> plain" where
  "limits_identity a = PObj (map (\<lambda>(d, n). (dimension_value d, PInt n)) a)"

fun reservation_status_value :: "reservation_status \<Rightarrow> string" where
  "reservation_status_value Reserved = ''reserved''"
| "reservation_status_value Committed = ''committed''"
| "reservation_status_value Released = ''released''"

definition budget_identity :: "inv_budget \<Rightarrow> plain" where
  "budget_identity b = PObj [(''limits'', limits_identity (ib_limits b)),
     (''reservations'', PArr (map (\<lambda>r. PObj [(''operation_key'', PStr (br_operation_key r)),
        (''amounts'', limits_identity (br_amounts r)), (''status'', PStr (reservation_status_value (br_status r))),
        (''committed_amounts'', limits_identity (br_committed_amounts r))]) (ib_reservations b)))]"

definition disclosure_identity :: "disclosure_bounds \<Rightarrow> plain" where
  "disclosure_identity d = PObj [(''tlp'', case db_tlp d of None \<Rightarrow> PNull | Some l \<Rightarrow> PStr (tlp_value l)),
     (''do_not_submit'', PBool (db_do_not_submit d)), (''external_llm_allowed'', PBool (db_external_llm_allowed d))]"

definition decision_for ::
  "governance_env \<Rightarrow> (string \<times> plain) list \<Rightarrow> uuid \<Rightarrow> decision_type \<Rightarrow> decision_target \<Rightarrow> uuid \<Rightarrow> string \<Rightarrow> string \<Rightarrow>
   string \<Rightarrow> datetime \<Rightarrow> analyst_decision" where
  "decision_for env payload i kind target target_id actor reason correlation t =
     \<lparr>ad_investigation_id = i, ad_decision_type = kind, ad_target_type = target, ad_target_id = target_id,
      ad_actor_id = py_strip actor, ad_reason = py_strip reason, ad_correlation_id = py_strip correlation,
      ad_id = gv_uuid5 env (correlation @ '':'' @ json_dumps (PObj payload)), ad_occurred_at = t, ad_details = []\<rparr>"

text \<open>The same content, whatever the time of the first write and the details added to it.\<close>

definition same_decision :: "analyst_decision \<Rightarrow> analyst_decision \<Rightarrow> bool" where
  "same_decision a b = (ad_id a = ad_id b \<and> ad_investigation_id a = ad_investigation_id b
     \<and> ad_decision_type a = ad_decision_type b \<and> ad_target_type a = ad_target_type b
     \<and> ad_target_id a = ad_target_id b \<and> ad_actor_id a = ad_actor_id b \<and> ad_reason a = ad_reason b
     \<and> ad_correlation_id a = ad_correlation_id b)"

definition decision_conflict :: "string \<Rightarrow> error" where
  "decision_conflict = Raised ''EnvelopeDecisionConflictError''"

definition envelope_conflict :: "string \<Rightarrow> error" where
  "envelope_conflict = Raised ''EnvelopeVersionConflictError''"

definition envelope_missing :: "string \<Rightarrow> error" where
  "envelope_missing = Raised ''EnvelopeNotFoundError''"

definition decision_by_correlation ::
  "uuid \<Rightarrow> string \<Rightarrow> analyst_decision \<Rightarrow> authority_world \<Rightarrow> analyst_decision option result" where
  "decision_by_correlation i correlation expected w =
     (case filter (\<lambda>d. ad_correlation_id d = correlation) (decisions_of i w) of
        [] \<Rightarrow> Inr None
      | d # ds \<Rightarrow> if ds \<noteq> [] \<or> \<not> same_decision d expected
          then Inl (decision_conflict ''Correlation id is already associated with a different analyst decision'')
          else Inr (Some d))"

subsection \<open>Providers and budgets\<close>

definition normalize_provider :: "string \<Rightarrow> string" where
  "normalize_provider s = (let v = casefold (py_strip s) in if v \<in> {''virustotal'', ''virus_total''} then ''vt'' else v)"

definition normalize_providers :: "string list \<Rightarrow> string list result" where
  "normalize_providers ps = (let ns = map normalize_provider ps in
     if list_ex (\<lambda>n. n = []) ns \<or> \<not> distinct ns
     then Inl (ValueError ''Allowed provider names must be non-empty and unique'') else Inr ns)"

fun restore_all :: "reservation list \<Rightarrow> inv_budget \<Rightarrow> inv_budget result" where
  "restore_all [] b = Inr b"
| "restore_all (r # rs) b = and_then (budget_of (restore_reservation r b)) (restore_all rs)"

definition copy_budget :: "inv_budget \<Rightarrow> amounts \<Rightarrow> inv_budget result" where
  "copy_budget b limits = and_then (new_budget limits) (restore_all (ib_reservations b))"

definition set_default :: "budget_dimension \<Rightarrow> int \<Rightarrow> amounts \<Rightarrow> amounts" where
  "set_default d n a = (if map_of a d = None then a @ [(d, n)] else a)"

fun merge_limits :: "amounts \<Rightarrow> amounts \<Rightarrow> amounts" where
  "merge_limits a [] = a"
| "merge_limits a ((d, n) # b) = merge_limits (AList.update d n a) b"

definition with_global_budget_defaults :: "governance_env \<Rightarrow> inv_budget \<Rightarrow> inv_budget result" where
  "with_global_budget_defaults env b =
     (let l1 = set_default ToolSeconds (gv_max_tool_seconds env) (ib_limits b);
          l2 = set_default ContextBytes (gv_max_context_bytes env) l1;
          l3 = set_default ContextTokens (max 1 (amount l2 ContextBytes div 4)) l2 in copy_budget b l3)"

definition require_acquisition_budget :: "bool \<Rightarrow> inv_budget \<Rightarrow> unit result" where
  "require_acquisition_budget allowed b =
     validated (map (\<lambda>d. (allowed \<and> \<not> has_budget (ib_limits b) d,
        ValueError (''Hit acquisition requires an explicit finite '' @ dimension_value d @ '' budget''))) [Downloads, VtUnits]) ()"

definition require_budget_extension :: "inv_budget \<Rightarrow> inv_budget \<Rightarrow> unit result" where
  "require_budget_extension current extended = validated (concat (map (\<lambda>d.
     let previous = map_of (ib_limits current) d; proposed = map_of (ib_limits extended) d in
     [(previous = None \<and> proposed \<noteq> None,
        ValueError (''An envelope extension cannot cap previously unlimited '' @ dimension_value d)),
      (previous \<noteq> None \<and> proposed \<noteq> None \<and> the proposed < the previous,
        ValueError (''An envelope extension cannot reduce '' @ dimension_value d))]) budget_dimensions)) ()"

definition tlp_rank :: "tlp_level option \<Rightarrow> int" where
  "tlp_rank l = (case l of None \<Rightarrow> 0 | Some TlpWhite \<Rightarrow> 1 | Some TlpClear \<Rightarrow> 1 | Some TlpGreen \<Rightarrow> 2
     | Some TlpAmber \<Rightarrow> 3 | Some TlpRed \<Rightarrow> 4)"

definition require_disclosure_within_bounds :: "disclosure_bounds \<Rightarrow> disclosure_bounds \<Rightarrow> unit result" where
  "require_disclosure_within_bounds d ceiling = validated
     [(db_do_not_submit ceiling \<and> \<not> db_do_not_submit d,
        ValueError ''An envelope extension cannot remove do_not_submit''),
      (\<not> db_external_llm_allowed ceiling \<and> db_external_llm_allowed d,
        ValueError ''An envelope extension cannot enable external LLM access''),
      (tlp_rank (db_tlp d) < tlp_rank (db_tlp ceiling),
        ValueError ''An envelope extension cannot widen the approved TLP''),
      (db_tlp d = Some TlpRed \<and> db_external_llm_allowed d,
        ValueError ''Disclosure policy forbids external LLM access'')] ()"

subsection \<open>The ceiling a revocation retains\<close>

record authorization_bounds =
  ab_allowed_providers :: "string list"
  ab_budget_limits :: amounts
  ab_acquire_hits_allowed :: bool
  ab_disclosure :: disclosure_bounds

definition bounds_for_envelope :: "envelope \<Rightarrow> authorization_bounds" where
  "bounds_for_envelope e = \<lparr>ab_allowed_providers = ge_allowed_providers e, ab_budget_limits = ib_limits (ge_budget e),
     ab_acquire_hits_allowed = ge_acquire_hits_allowed e, ab_disclosure = ge_disclosure e\<rparr>"

definition bounds_payload :: "envelope \<Rightarrow> plain" where
  "bounds_payload e = PObj [(''allowed_providers'', PArr (map PStr (ge_allowed_providers e))),
     (''budget_limits'', limits_identity (ib_limits (ge_budget e))),
     (''acquire_hits_allowed'', PBool (ge_acquire_hits_allowed e)),
     (''disclosure'', disclosure_identity (ge_disclosure e))]"

fun plain_text :: "plain \<Rightarrow> string option" where
  "plain_text (PStr s) = Some s"
| "plain_text v = None"

fun plain_bool :: "plain \<Rightarrow> bool option" where
  "plain_bool (PBool b) = Some b"
| "plain_bool v = None"

fun plain_texts :: "plain \<Rightarrow> string list option" where
  "plain_texts (PArr xs) = those (map plain_text xs)"
| "plain_texts v = None"

fun plain_members :: "plain \<Rightarrow> (string \<times> plain) list option" where
  "plain_members (PObj ms) = Some ms"
| "plain_members v = None"

definition dimension_of :: "string \<Rightarrow> budget_dimension option" where
  "dimension_of s = find (\<lambda>d. dimension_value d = s) budget_dimensions"

fun plain_limit :: "string \<times> plain \<Rightarrow> (budget_dimension \<times> int) option" where
  "plain_limit (k, PInt n) = map_option (\<lambda>d. (d, n)) (dimension_of k)"
| "plain_limit (k, v) = None"

definition plain_disclosure :: "(string \<times> plain) list \<Rightarrow> disclosure_bounds option" where
  "plain_disclosure ms = (case Option.bind (map_of ms ''tlp'') plain_text of
       Some s \<Rightarrow> (case tlp_of s of None \<Rightarrow> None | Some l \<Rightarrow>
         (case (Option.bind (map_of ms ''do_not_submit'') plain_bool, Option.bind (map_of ms ''external_llm_allowed'') plain_bool) of
            (Some d, Some x) \<Rightarrow> Some \<lparr>db_tlp = Some l, db_do_not_submit = d, db_external_llm_allowed = x\<rparr> | _ \<Rightarrow> None))
     | None \<Rightarrow>
         (case (Option.bind (map_of ms ''do_not_submit'') plain_bool, Option.bind (map_of ms ''external_llm_allowed'') plain_bool) of
            (Some d, Some x) \<Rightarrow> Some \<lparr>db_tlp = None, db_do_not_submit = d, db_external_llm_allowed = x\<rparr> | _ \<Rightarrow> None))"

text \<open>\<open>None\<close> for any payload that is not that of a ceiling.\<close>

definition bounds_from_payload :: "plain option \<Rightarrow> authorization_bounds option" where
  "bounds_from_payload v = (case Option.bind v plain_members of None \<Rightarrow> None
     | Some ms \<Rightarrow>
       (case (Option.bind (map_of ms ''allowed_providers'') plain_texts, Option.bind (map_of ms ''budget_limits'') plain_members,
          Option.bind (map_of ms ''acquire_hits_allowed'') plain_bool, Option.bind (map_of ms ''disclosure'') plain_members) of
          (Some providers, Some limits, Some acquire, Some disclosure) \<Rightarrow>
            (case (normalize_providers providers, those (map plain_limit limits), plain_disclosure disclosure) of
               (Inr ps, Some ls, Some d) \<Rightarrow> (case new_budget ls of
                   Inl _ \<Rightarrow> None
                 | Inr b \<Rightarrow> Some \<lparr>ab_allowed_providers = ps, ab_budget_limits = ib_limits b,
                     ab_acquire_hits_allowed = acquire, ab_disclosure = d\<rparr>)
             | _ \<Rightarrow> None)
        | _ \<Rightarrow> None))"

text \<open>Whether the envelope is the one a revocation wrote, and the bounds that then cap a new approval.\<close>

definition authorization_state :: "envelope \<Rightarrow> analyst_decision list \<Rightarrow> bool \<times> authorization_bounds option" where
  "authorization_state e decisions =
     (if ge_authority_kind e = EnvOsintPolicy then (False, Some (bounds_for_envelope e))
      else case find (\<lambda>d. ad_id d = ge_approval_decision_id e \<and> ad_decision_type d = PivotReject
          \<and> ad_target_type d = TargetPivot \<and> ad_target_id d = ge_investigation_id e) decisions of
        None \<Rightarrow> (False, Some (bounds_for_envelope e))
      | Some d \<Rightarrow> (True, bounds_from_payload (map_of (ad_details d) ''authorization_ceiling'')))"

definition require_revoked_reextension ::
  "inv_budget \<Rightarrow> string list \<Rightarrow> inv_budget \<Rightarrow> bool \<Rightarrow> disclosure_bounds \<Rightarrow> authorization_bounds \<Rightarrow> unit result" where
  "require_revoked_reextension current providers requested acquire d ceiling =
     (if \<not> set providers \<subseteq> set (ab_allowed_providers ceiling)
      then Inl (ValueError ''A re-extension cannot exceed the prior G2 provider authorization'')
      else if acquire \<and> \<not> ab_acquire_hits_allowed ceiling
      then Inl (ValueError ''A re-extension cannot restore unapproved acquisition rights'')
      else and_then (require_disclosure_within_bounds d (ab_disclosure ceiling)) (\<lambda>_. validated (concat (map (\<lambda>dim.
        [(case map_of (ab_budget_limits ceiling) dim of None \<Rightarrow> False
            | Some m \<Rightarrow> (case map_of (ib_limits requested) dim of None \<Rightarrow> True | Some n \<Rightarrow> m < n),
          ValueError (''A re-extension cannot exceed the prior G2 '' @ dimension_value dim @ '' budget'')),
         (case map_of (ib_limits requested) dim of None \<Rightarrow> False
            | Some n \<Rightarrow> n < consumed current dim + reserved current dim,
          ValueError (''A re-extension cannot reduce '' @ dimension_value dim @ '' below its consumed or reserved usage''))]) budget_dimensions)) ()))"

end
