(* ===== verification/EnvelopeService.thy ===== *)
theory EnvelopeService
  imports Governance
begin

text \<open>
  The operations of \<open>InvestigationEnvelopeService\<close> in \<open>application/investigation_governance.py\<close>. Each is
  one transaction: it returns its value with the new tables, or an error after which nothing is
  stored. \<open>t\<close> is the time the transaction reads.
\<close>

definition as_envelope_conflict :: "'a result \<Rightarrow> 'a result" where
  "as_envelope_conflict r = (case r of Inl (VersionConflict m) \<Rightarrow> Inl (envelope_conflict m) | other \<Rightarrow> other)"

text \<open>Three legacy caps of the loop follow the approved downloads upwards; the row is written only then.\<close>

definition raised_caps :: "int \<Rightarrow> loop_budget \<Rightarrow> loop_budget" where
  "raised_caps n b = b\<lparr>lb_max_hits_acquired := max (lb_max_hits_acquired b) n,
     lb_max_new_samples := max (lb_max_new_samples b) n, lb_max_vt_read_units := max (lb_max_vt_read_units b) n\<rparr>"

definition synchronize_downloads :: "investigation \<Rightarrow> int \<Rightarrow> datetime \<Rightarrow> authority_world \<Rightarrow> authority_world result" where
  "synchronize_downloads v n t w = (if raised_caps n (iv_budget v) = iv_budget v then Inr w
     else save_investigation (bump t (v\<lparr>iv_budget := raised_caps n (iv_budget v)\<rparr>)) w)"

definition identified :: "string \<Rightarrow> string \<Rightarrow> string \<Rightarrow> string \<Rightarrow> unit result" where
  "identified message actor reason correlation =
     (if blank actor \<or> blank reason \<or> blank correlation then Inl (ValueError message) else Inr ())"

definition human_envelope ::
  "uuid \<Rightarrow> string list \<Rightarrow> inv_budget \<Rightarrow> bool \<Rightarrow> disclosure_bounds \<Rightarrow> analyst_decision \<Rightarrow> string \<Rightarrow> datetime \<Rightarrow> int \<Rightarrow>
   envelope result" where
  "human_envelope i providers b acquire d decision actor t version = envelope_post_init
     \<lparr>ge_investigation_id = i, ge_allowed_providers = providers, ge_budget = b, ge_acquire_hits_allowed = acquire,
      ge_disclosure = d, ge_approval_decision_id = ad_id decision, ge_approval_actor_id = py_strip actor,
      ge_authority_kind = EnvHumanG2, ge_inherited_policy_id = None, ge_inherited_policy_version = None,
      ge_inherited_policy_event_id = None, ge_approved_at = t, ge_version = version\<rparr>"

subsection \<open>A first approval\<close>

record envelope_proposal =
  ep_investigation_id :: uuid
  ep_allowed_providers :: "string list"
  ep_budget :: inv_budget
  ep_acquire_hits_allowed :: bool
  ep_disclosure :: disclosure_bounds

definition propose_default :: "governance_env \<Rightarrow> uuid \<Rightarrow> inv_budget option \<Rightarrow> envelope_proposal result" where
  "propose_default env i b = and_then (case b of Some x \<Rightarrow> Inr x | None \<Rightarrow> new_budget [(VtUnits, 0), (Downloads, 0)]) (\<lambda>x.
     and_then (with_global_budget_defaults env x) (\<lambda>y.
     Inr \<lparr>ep_investigation_id = i, ep_allowed_providers = [], ep_budget = y, ep_acquire_hits_allowed = False,
       ep_disclosure = \<lparr>db_tlp = None, db_do_not_submit = True, db_external_llm_allowed = False\<rparr>\<rparr>))"

definition approval_payload :: "envelope_proposal \<Rightarrow> string list \<Rightarrow> inv_budget \<Rightarrow> string \<Rightarrow> string \<Rightarrow> (string \<times> plain) list" where
  "approval_payload p providers b actor reason =
     [(''action'', PStr ''approve''), (''investigation_id'', PStr (uuid_text (ep_investigation_id p))),
      (''allowed_providers'', PArr (map PStr providers)), (''budget'', budget_identity b),
      (''acquire_hits_allowed'', PBool (ep_acquire_hits_allowed p)), (''disclosure'', disclosure_identity (ep_disclosure p)),
      (''actor_id'', PStr (py_strip actor)), (''reason'', PStr (py_strip reason))]"

definition approve_first ::
  "envelope_proposal \<Rightarrow> inv_budget \<Rightarrow> string list \<Rightarrow> analyst_decision \<Rightarrow> string \<Rightarrow> datetime \<Rightarrow> authority_world \<Rightarrow>
   (envelope \<times> authority_world) result" where
  "approve_first p b providers d actor t w = (case investigation_of (ep_investigation_id p) w of
     None \<Rightarrow> Inl (envelope_missing ''Investigation does not exist'')
   | Some v \<Rightarrow>
       and_then (copy_budget b (ib_limits b)) (\<lambda>c.
       and_then (human_envelope (ep_investigation_id p) providers c (ep_acquire_hits_allowed p) (ep_disclosure p) d actor t 1) (\<lambda>e.
       and_then (append_analyst_decision d w) (\<lambda>w1.
       and_then (as_envelope_conflict (save_envelope e None w1)) (\<lambda>w2.
       and_then (synchronize_downloads v (amount (ib_limits b) Downloads) t w2) (\<lambda>w3. Inr (e, w3)))))))"

definition approve_envelope ::
  "governance_env \<Rightarrow> envelope_proposal \<Rightarrow> string \<Rightarrow> string \<Rightarrow> string \<Rightarrow> int option \<Rightarrow> datetime \<Rightarrow> authority_world \<Rightarrow>
   (envelope \<times> authority_world) result" where
  "approve_envelope env p actor reason correlation expected t w =
     and_then (identified ''G2 approval requires actor, reason and correlation'' actor reason correlation) (\<lambda>_.
     and_then (with_global_budget_defaults env (ep_budget p)) (\<lambda>b.
     and_then (require_acquisition_budget (ep_acquire_hits_allowed p) b) (\<lambda>_.
     and_then (normalize_providers (ep_allowed_providers p)) (\<lambda>providers.
     let i = ep_investigation_id p;
         d = decision_for env (approval_payload p providers b actor reason) i PivotApprove TargetPivot i actor reason correlation t in
     and_then (decision_by_correlation i correlation d w) (\<lambda>replay.
       if replay \<noteq> None
       then (case envelope_of i w of
           None \<Rightarrow> Inl (decision_conflict ''G2 approval decision exists without its approved envelope'')
         | Some e \<Rightarrow> Inr (e, w))
       else if expected \<noteq> None then Inl (envelope_conflict ''A first G2 envelope has no prior version'')
       else if envelope_of i w \<noteq> None then Inl (envelope_conflict ''An approved envelope already exists; use extend'')
       else approve_first p b providers d actor t w)))))"

subsection \<open>Extension\<close>

text \<open>A manual decision on an envelope under a policy leaves the policy; an active or revoked pin is superseded.\<close>

definition supersede_pin :: "uuid \<Rightarrow> datetime \<Rightarrow> authority_world \<Rightarrow> authority_world" where
  "supersede_pin i t w = w\<lparr>gw_pins := update_where (\<lambda>x. in_investigation_id x = i \<and> in_status x \<noteq> PinSuperseded)
     (\<lambda>x. x\<lparr>in_status := PinSuperseded, in_updated_at := t\<rparr>) (gw_pins w)\<rparr>"

definition leave_policy :: "envelope \<Rightarrow> datetime \<Rightarrow> authority_world \<Rightarrow> authority_world" where
  "leave_policy current t w =
     (if ge_authority_kind current = EnvOsintPolicy then supersede_pin (ge_investigation_id current) t w else w)"

record envelope_extension =
  ex_expected_version :: int
  ex_allowed_providers :: "string list"
  ex_budget :: inv_budget
  ex_acquire_hits_allowed :: bool
  ex_disclosure :: disclosure_bounds

definition extension_payload ::
  "uuid \<Rightarrow> envelope_extension \<Rightarrow> string list \<Rightarrow> inv_budget \<Rightarrow> string \<Rightarrow> string \<Rightarrow> (string \<times> plain) list" where
  "extension_payload i x providers requested actor reason =
     [(''action'', PStr ''extend''), (''investigation_id'', PStr (uuid_text i)),
      (''expected_version'', PInt (ex_expected_version x)), (''allowed_providers'', PArr (map PStr providers)),
      (''budget'', budget_identity requested), (''acquire_hits_allowed'', PBool (ex_acquire_hits_allowed x)),
      (''disclosure'', disclosure_identity (ex_disclosure x)), (''actor_id'', PStr (py_strip actor)),
      (''reason'', PStr (py_strip reason))]"

text \<open>What an approved envelope may become, and what a revoked one may be given back.\<close>

definition check_extension ::
  "envelope \<Rightarrow> analyst_decision list \<Rightarrow> envelope_extension \<Rightarrow> string list \<Rightarrow> inv_budget \<Rightarrow> unit result" where
  "check_extension current decisions x providers requested = (case authorization_state current decisions of
     (True, None) \<Rightarrow> Inl (Raised ''EnvelopeRevokedError'' ''The revoked envelope has no retained authorization bounds; create a new investigation.'')
   | (True, Some ceiling) \<Rightarrow>
       require_revoked_reextension (ge_budget current) providers requested (ex_acquire_hits_allowed x) (ex_disclosure x) ceiling
   | (False, _) \<Rightarrow>
       if \<not> set (ge_allowed_providers current) \<subseteq> set providers
       then Inl (ValueError ''An envelope extension cannot remove an allowed provider'')
       else if ge_acquire_hits_allowed current \<and> \<not> ex_acquire_hits_allowed x
       then Inl (ValueError ''An envelope extension cannot revoke acquisition rights'')
       else and_then (require_budget_extension (ge_budget current) requested) (\<lambda>_.
         require_disclosure_within_bounds (ex_disclosure x) (ge_disclosure current)))"

definition apply_extension ::
  "envelope \<Rightarrow> envelope_extension \<Rightarrow> string list \<Rightarrow> inv_budget \<Rightarrow> analyst_decision \<Rightarrow> string \<Rightarrow> datetime \<Rightarrow> authority_world \<Rightarrow>
   (envelope \<times> authority_world) result" where
  "apply_extension current x providers requested d actor t w = (case investigation_of (ge_investigation_id current) w of
     None \<Rightarrow> Inl (envelope_missing ''Investigation does not exist'')
   | Some v \<Rightarrow>
       and_then (copy_budget (ge_budget current) (ib_limits requested)) (\<lambda>b.
       and_then (human_envelope (ge_investigation_id current) providers b (ex_acquire_hits_allowed x) (ex_disclosure x) d actor t
         (ge_version current + 1)) (\<lambda>e.
       and_then (append_analyst_decision d w) (\<lambda>w1.
       and_then (as_envelope_conflict (save_envelope e (Some (ex_expected_version x)) (leave_policy current t w1))) (\<lambda>w2.
       and_then (synchronize_downloads v (amount (ib_limits requested) Downloads) t w2) (\<lambda>w3. Inr (e, w3)))))))"

definition extend_envelope ::
  "governance_env \<Rightarrow> uuid \<Rightarrow> envelope_extension \<Rightarrow> string \<Rightarrow> string \<Rightarrow> string \<Rightarrow> datetime \<Rightarrow> authority_world \<Rightarrow>
   (envelope \<times> authority_world) result" where
  "extend_envelope env i x actor reason correlation t w =
     and_then (identified ''G2 extension requires actor, reason and correlation'' actor reason correlation) (\<lambda>_.
     and_then (normalize_providers (ex_allowed_providers x)) (\<lambda>providers.
     case envelope_of i w of None \<Rightarrow> Inl (envelope_missing ''No approved G2 envelope exists'')
     | Some current \<Rightarrow>
       and_then (new_budget (merge_limits (ib_limits (ge_budget current)) (ib_limits (ex_budget x)))) (\<lambda>requested.
       and_then (require_acquisition_budget (ex_acquire_hits_allowed x) requested) (\<lambda>_.
       let d = decision_for env (extension_payload i x providers requested actor reason) i PivotApprove TargetPivot i
         actor reason correlation t in
       and_then (decision_by_correlation i correlation d w) (\<lambda>replay.
         if replay \<noteq> None then Inr (current, w)
         else if ge_version current \<noteq> ex_expected_version x
         then Inl (envelope_conflict ''Investigation envelope version changed'')
         else and_then (check_extension current (decisions_of i w) x providers requested) (\<lambda>_.
           apply_extension current x providers requested d actor t w))))))"

subsection \<open>Rejection and revocation\<close>

definition action_payload :: "string \<Rightarrow> uuid \<Rightarrow> int option \<Rightarrow> string \<Rightarrow> string \<Rightarrow> (string \<times> plain) list" where
  "action_payload action i expected actor reason =
     [(''action'', PStr action), (''investigation_id'', PStr (uuid_text i)),
      (''expected_version'', case expected of None \<Rightarrow> PNull | Some n \<Rightarrow> PInt n),
      (''actor_id'', PStr (py_strip actor)), (''reason'', PStr (py_strip reason))]"

definition reject_envelope ::
  "governance_env \<Rightarrow> uuid \<Rightarrow> string \<Rightarrow> string \<Rightarrow> string \<Rightarrow> int option \<Rightarrow> datetime \<Rightarrow> authority_world \<Rightarrow>
   (analyst_decision \<times> authority_world) result" where
  "reject_envelope env i actor reason correlation expected t w =
     and_then (identified ''G2 rejection requires actor, reason and correlation'' actor reason correlation) (\<lambda>_.
     let d = decision_for env (action_payload ''reject'' i expected actor reason) i PivotReject TargetPivot i
       actor reason correlation t in
     and_then (decision_by_correlation i correlation d w) (\<lambda>replay. case replay of
       Some x \<Rightarrow> Inr (x, w)
     | None \<Rightarrow>
         if map_option ge_version (envelope_of i w) \<noteq> expected
         then Inl (envelope_conflict ''Investigation envelope version changed'')
         else if envelope_of i w \<noteq> None
         then Inl (envelope_conflict ''The domain has no revocation state for an approved envelope'')
         else if investigation_of i w = None then Inl (envelope_missing ''Investigation does not exist'')
         else and_then (append_analyst_decision d w) (\<lambda>w1. Inr (d, w1))))"

definition external_dimensions :: "budget_dimension list" where
  "external_dimensions = [VtUnits, ShodanCredits, Downloads]"

text \<open>The same limits with nothing left outside, and every recorded reservation.\<close>

definition zeroed_budget :: "inv_budget \<Rightarrow> inv_budget result" where
  "zeroed_budget b = copy_budget b (merge_limits (ib_limits b) (map (\<lambda>d. (d, 0)) external_dimensions))"

definition closed_to_models :: "disclosure_bounds \<Rightarrow> disclosure_bounds" where
  "closed_to_models d = d\<lparr>db_external_llm_allowed := False\<rparr>"

definition revoke_envelope ::
  "governance_env \<Rightarrow> uuid \<Rightarrow> int \<Rightarrow> string \<Rightarrow> string \<Rightarrow> string \<Rightarrow> datetime \<Rightarrow> authority_world \<Rightarrow>
   (envelope \<times> authority_world) result" where
  "revoke_envelope env i expected actor reason correlation t w =
     and_then (identified ''G2 revocation requires actor, reason and correlation'' actor reason correlation) (\<lambda>_.
     let d = decision_for env (action_payload ''revoke'' i (Some expected) actor reason) i PivotReject TargetPivot i
       actor reason correlation t in
     and_then (decision_by_correlation i correlation d w) (\<lambda>replay.
     case envelope_of i w of
       None \<Rightarrow> Inl (if replay \<noteq> None then decision_conflict ''G2 revocation decision exists without its envelope''
         else envelope_missing ''No approved G2 envelope exists'')
     | Some current \<Rightarrow>
       if replay \<noteq> None then Inr (current, w)
       else if ge_version current \<noteq> expected then Inl (envelope_conflict ''Investigation envelope version changed'')
       else (case investigation_of i w of
         None \<Rightarrow> Inl (envelope_missing ''Investigation does not exist'')
       | Some v \<Rightarrow>
         and_then (synchronize_downloads v (amount (ib_limits (ge_budget current)) Downloads) t w) (\<lambda>w1.
         and_then (zeroed_budget (ge_budget current)) (\<lambda>b.
         and_then (human_envelope i [] b False (closed_to_models (ge_disclosure current)) d actor t (ge_version current + 1)) (\<lambda>e.
         and_then (append_analyst_decision (d\<lparr>ad_details := [(''authorization_ceiling'', bounds_payload current)]\<rparr>) w1) (\<lambda>w2.
         and_then (as_envelope_conflict (save_envelope e (Some expected) (leave_policy current t w2))) (\<lambda>w3.
         Inr (e, w3)))))))))"

subsection \<open>Other writers of envelopes\<close>

text \<open>The envelope a policy gives a new investigation: the authority is the event of the policy.\<close>

definition create_policy_inherited_envelope ::
  "uuid \<Rightarrow> uuid \<Rightarrow> int \<Rightarrow> uuid \<Rightarrow> string \<Rightarrow> osint_capabilities \<Rightarrow> disclosure_bounds \<Rightarrow> datetime \<Rightarrow> authority_world \<Rightarrow>
   (envelope \<times> authority_world) result" where
  "create_policy_inherited_envelope i policy version event actor caps d t w =
     (if blank actor then Inl (ValueError ''Policy inheritance requires the identified activating actor'')
      else case envelope_of i w of Some e \<Rightarrow> Inr (e, w)
      | None \<Rightarrow> (case investigation_of i w of None \<Rightarrow> Inl (envelope_missing ''Investigation does not exist'')
        | Some v \<Rightarrow>
          and_then (new_budget (oc_budget_limits caps)) (\<lambda>b.
          and_then (envelope_post_init \<lparr>ge_investigation_id = i, ge_allowed_providers = oc_allowed_providers caps,
            ge_budget = b, ge_acquire_hits_allowed = oc_acquire_hits_allowed caps, ge_disclosure = d,
            ge_approval_decision_id = event, ge_approval_actor_id = py_strip actor, ge_authority_kind = EnvOsintPolicy,
            ge_inherited_policy_id = Some policy, ge_inherited_policy_version = Some version,
            ge_inherited_policy_event_id = Some event, ge_approved_at = t, ge_version = 1\<rparr>) (\<lambda>e.
          and_then (as_envelope_conflict (save_envelope e None w)) (\<lambda>w1.
          and_then (synchronize_downloads v (amount (oc_budget_limits caps) Downloads) t w1) (\<lambda>w2. Inr (e, w2)))))))"

text \<open>A tool that reserves, commits or releases its budget saves the same envelope with its new budget.\<close>

definition spend_budget :: "uuid \<Rightarrow> budget_op \<Rightarrow> authority_world \<Rightarrow> authority_world result" where
  "spend_budget i op w = (case envelope_of i w of None \<Rightarrow> Inl (envelope_missing ''Investigation envelope is missing'')
     | Some e \<Rightarrow> and_then (budget_exec op (ge_budget e)) (\<lambda>b.
         save_envelope (e\<lparr>ge_budget := b, ge_version := ge_version e + 1\<rparr>) (Some (ge_version e)) w))"

end
