(* ===== verification/OsintService.thy ===== *)
theory OsintService
  imports EnvelopeService
begin

text \<open>
  The standing policies, \<open>OsintOpenPolicyService\<close> in \<open>application/osint_open_policy.py\<close> over the repository
  \<open>infrastructure/database/repositories/osint_open_policy.py\<close>: append-only versions with an event each,
  the pin an investigation takes at its start, and the propagation of a revocation to the pins. The locks
  make the transactions on policies follow one another. The pattern of texts that look like a
  secret, SHA-256 and the configured maxima are arguments, in \<open>governance_env\<close>.
\<close>

definition policy_error :: "string \<Rightarrow> error" where
  "policy_error = Raised ''OsintPolicyError''"

definition policy_conflict :: "string \<Rightarrow> error" where
  "policy_conflict = Raised ''OsintPolicyConflictError''"

definition policy_missing :: "string \<Rightarrow> error" where
  "policy_missing = Raised ''OsintPolicyNotFoundError''"

subsection \<open>The repository\<close>

definition same_scope :: "scope_kind \<Rightarrow> string \<Rightarrow> osint_policy \<Rightarrow> bool" where
  "same_scope kind scope p = (op_scope_kind p = kind \<and> op_scope_ref p = scope)"

text \<open>The row of the highest version; the order of the versions of one scope is strict.\<close>

definition newest :: "osint_policy list \<Rightarrow> osint_policy option" where
  "newest ps = (case sort_key op_version ps of [] \<Rightarrow> None | _ \<Rightarrow> Some (last (sort_key op_version ps)))"

definition event_for_version :: "uuid \<Rightarrow> int \<Rightarrow> authority_world \<Rightarrow> osint_event option" where
  "event_for_version p v w = find (\<lambda>e. oe_policy_id e = p \<and> oe_policy_version e = v) (gw_events w)"

definition latest_for_scope :: "scope_kind \<Rightarrow> string \<Rightarrow> authority_world \<Rightarrow> osint_policy option" where
  "latest_for_scope kind scope w = newest (filter (same_scope kind scope) (gw_policies w))"

definition get_version :: "uuid \<Rightarrow> int \<Rightarrow> authority_world \<Rightarrow> osint_policy option" where
  "get_version p v w = find (\<lambda>x. op_policy_id x = p \<and> op_version x = v) (gw_policies w)"

definition latest_of_policy :: "uuid \<Rightarrow> authority_world \<Rightarrow> osint_policy option" where
  "latest_of_policy p w = newest (filter (\<lambda>x. op_policy_id x = p) (gw_policies w))"

text \<open>The latest version of each policy, in the order of their ids, kept when its scope holds the subject.\<close>

definition latest_versions :: "authority_world \<Rightarrow> osint_policy list" where
  "latest_versions w = List.map_filter (\<lambda>p. latest_of_policy p w) (sort (remdups (map op_policy_id (gw_policies w))))"

fun matching_policies :: "uuid \<Rightarrow> osint_policy list \<Rightarrow> osint_policy list result" where
  "matching_policies subject [] = Inr []"
| "matching_policies subject (p # ps) = and_then (contains_subject p subject) (\<lambda>hit.
     and_then (matching_policies subject ps) (\<lambda>rest. Inr (if hit then p # rest else rest)))"

definition latest_for_subject :: "uuid \<Rightarrow> authority_world \<Rightarrow> osint_policy list result" where
  "latest_for_subject subject w = matching_policies subject (latest_versions w)"

definition pin_of :: "uuid \<Rightarrow> authority_world \<Rightarrow> inheritance option" where
  "pin_of i w = row_with in_investigation_id i (gw_pins w)"

definition by_correlation :: "string \<Rightarrow> authority_world \<Rightarrow> (osint_policy \<times> osint_event) option result" where
  "by_correlation correlation w = (case find (\<lambda>e. oe_correlation_id e = correlation) (gw_events w) of
     None \<Rightarrow> Inr None
   | Some e \<Rightarrow> (case get_version (oe_policy_id e) (oe_policy_version e) w of
       None \<Rightarrow> Inl (RuntimeErr ''OSINT_OPEN event has no policy version'')
     | Some p \<Rightarrow> Inr (Some (p, e))))"

text \<open>The keys and unique constraints of the two tables.\<close>

definition add_version :: "osint_policy \<Rightarrow> osint_event \<Rightarrow> authority_world \<Rightarrow> authority_world result" where
  "add_version p e w =
     (if list_ex (\<lambda>x. op_version x = op_version p \<and> (op_policy_id x = op_policy_id p
          \<or> same_scope (op_scope_kind p) (op_scope_ref p) x)) (gw_policies w)
      then Inl (IntegrityError ''osint_open_policies'')
      else if list_ex (\<lambda>x. oe_id x = oe_id e \<or> oe_correlation_id x = oe_correlation_id e
          \<or> (oe_policy_id x = oe_policy_id e \<and> oe_policy_version x = oe_policy_version e)) (gw_events w)
      then Inl (IntegrityError ''osint_open_policy_events'')
      else Inr (w\<lparr>gw_policies := gw_policies w @ [p], gw_events := gw_events w @ [e]\<rparr>))"

definition add_inheritance :: "inheritance \<Rightarrow> authority_world \<Rightarrow> authority_world result" where
  "add_inheritance x w = (if list_ex (\<lambda>y. in_investigation_id y = in_investigation_id x
       \<or> in_correlation_id y = in_correlation_id x) (gw_pins w)
     then Inl (IntegrityError ''osint_open_inheritances'') else Inr (w\<lparr>gw_pins := gw_pins w @ [x]\<rparr>))"

definition set_inheritance_status :: "inheritance \<Rightarrow> inheritance_status \<Rightarrow> datetime \<Rightarrow> authority_world \<Rightarrow> authority_world result" where
  "set_inheritance_status x s t w =
     (let hit = (\<lambda>y. in_investigation_id y = in_investigation_id x \<and> in_policy_id y = in_policy_id x
        \<and> in_policy_version y = in_policy_version x \<and> in_status y = PinActive) in
      if \<not> list_ex hit (gw_pins w)
      then (case pin_of (in_investigation_id x) w of
          Some y \<Rightarrow> if in_status y = s then Inr w else Inl (RuntimeErr ''OSINT_OPEN inheritance status changed concurrently'')
        | None \<Rightarrow> Inl (RuntimeErr ''OSINT_OPEN inheritance status changed concurrently''))
      else Inr (w\<lparr>gw_pins := update_where hit (\<lambda>y. y\<lparr>in_status := s, in_updated_at := t\<rparr>) (gw_pins w)\<rparr>))"

subsection \<open>Validation\<close>

definition normalize_scope_ref :: "scope_kind \<Rightarrow> string \<Rightarrow> string result" where
  "normalize_scope_ref kind scope =
     (if kind = ScopeInstance
      then (if scope \<noteq> ''instance'' then Inl (policy_error (''INSTANCE is global and must use scope_ref '' @ [CHR 0x27] @ ''instance'' @ [CHR 0x27])) else Inr scope)
      else case scope_subject_ids scope of Inl _ \<Rightarrow> Inl (policy_error ''Invalid SUBJECT_SET scope'')
        | Inr ids \<Rightarrow> subject_set_ref ids)"

definition is_human_actor_id :: "string \<Rightarrow> bool" where
  "is_human_actor_id actor = (let n = casefold (py_strip actor) in
     n \<noteq> [] \<and> \<not> has_prefix [''system:'', ''agent:'', ''bridge:''] n)"

definition control_char :: "char \<Rightarrow> bool" where
  "control_char c = (of_char c < (32 :: nat) \<or> of_char c = (127 :: nat))"

definition validate_audit_fields :: "governance_env \<Rightarrow> string \<Rightarrow> string \<Rightarrow> string \<Rightarrow> unit result" where
  "validate_audit_fields env actor reason correlation = validated (concat (map (\<lambda>(label, v, longest).
     [(blank v \<or> longest < length v, policy_error (''Invalid '' @ label @ '' field'')),
      (gv_unsafe_text env v \<or> list_ex control_char v, policy_error (''Unsafe '' @ label @ '' field''))])
     [(''actor'', actor, 255), (''reason'', reason, 2000), (''correlation'', correlation, 255)])) ()"

definition validate_actor :: "string \<Rightarrow> unit result" where
  "validate_actor actor = (if is_human_actor_id actor then Inr ()
     else Inl (policy_error ''A human operator identity is required''))"

definition validate_capabilities :: "governance_env \<Rightarrow> osint_capabilities \<Rightarrow> unit result" where
  "validate_capabilities env c = validated
     ((list_ex (\<lambda>p. p \<notin> {''vt'', ''shodan'', ''bridge''}) (oc_allowed_providers c), policy_error ''Unsupported policy provider'')
      # map (\<lambda>(d, n). (gv_maximum env d < n, policy_error (dimension_value d @ '' exceeds the configured maximum'')))
          (oc_budget_limits c)
      @ [(gv_max_effect_claims env < oc_max_effect_claims c,
          policy_error ''Effect-claim limit exceeds the configured maximum'')]) ()"

subsection \<open>Payloads, versions and events\<close>

definition capabilities_payload :: "osint_capabilities \<Rightarrow> plain" where
  "capabilities_payload c = PObj [(''allowed_providers'', PArr (map PStr (oc_allowed_providers c))),
     (''budget_limits'', limits_identity (oc_budget_limits c)), (''acquire_hits_allowed'', PBool (oc_acquire_hits_allowed c)),
     (''disclosure'', disclosure_identity (oc_disclosure c)),
     (''max_effect_claims_per_investigation'', PInt (oc_max_effect_claims c))]"

definition payload_hash ::
  "governance_env \<Rightarrow> string \<Rightarrow> scope_kind \<Rightarrow> string \<Rightarrow> osint_capabilities option \<Rightarrow> string \<Rightarrow> string \<Rightarrow> string \<Rightarrow> string \<Rightarrow>
   int option \<Rightarrow> string" where
  "payload_hash env action kind scope caps actor reason correlation activation previous = gv_sha env (json_dumps (PObj
     [(''action'', PStr action), (''scope_kind'', PStr (scope_kind_value kind)), (''scope_ref'', PStr scope),
      (''capabilities'', case caps of None \<Rightarrow> PNull | Some c \<Rightarrow> capabilities_payload c),
      (''actor_id'', PStr (py_strip actor)), (''reason'', PStr (py_strip reason)),
      (''correlation_id'', PStr (py_strip correlation)), (''activation_correlation_id'', PStr (py_strip activation)),
      (''previous_version'', case previous of None \<Rightarrow> PNull | Some n \<Rightarrow> PInt n)]))"

definition stable_policy_id :: "governance_env \<Rightarrow> scope_kind \<Rightarrow> string \<Rightarrow> uuid" where
  "stable_policy_id env kind scope = gv_policy_uuid5 env (scope_kind_value kind @ '':'' @ scope)"

definition new_version ::
  "uuid \<Rightarrow> scope_kind \<Rightarrow> string \<Rightarrow> int \<Rightarrow> int option \<Rightarrow> policy_status \<Rightarrow> osint_capabilities \<Rightarrow> string \<Rightarrow> string \<Rightarrow> string \<Rightarrow>
   string \<Rightarrow> uuid \<Rightarrow> datetime \<Rightarrow> osint_policy result" where
  "new_version policy kind scope version previous status caps actor reason correlation activation event t = policy_post_init
     \<lparr>op_policy_id = policy, op_version = version, op_scope_kind = kind, op_scope_ref = scope, op_mode = ModeOsintOpen,
      op_status = status, op_capabilities = caps, op_actor_id = py_strip actor, op_reason = py_strip reason,
      op_correlation_id = py_strip correlation, op_activation_correlation_id = py_strip activation,
      op_event_id = event, op_created_at = t, op_previous_version = previous\<rparr>"

fun event_action :: "policy_event_type \<Rightarrow> string" where
  "event_action PolicyActivated = ''activate''"
| "event_action PolicyExtended = ''extend''"
| "event_action PolicyRevokedEvent = ''revoke''"

definition event_for :: "governance_env \<Rightarrow> osint_policy \<Rightarrow> policy_event_type \<Rightarrow> osint_event" where
  "event_for env p kind = \<lparr>oe_id = op_event_id p, oe_policy_id = op_policy_id p, oe_policy_version = op_version p,
     oe_event_type = kind, oe_actor_id = op_actor_id p, oe_reason = op_reason p, oe_correlation_id = op_correlation_id p,
     oe_payload_sha256 = payload_hash env (event_action kind) (op_scope_kind p) (op_scope_ref p)
       (if kind = PolicyRevokedEvent then None else Some (op_capabilities p)) (op_actor_id p) (op_reason p)
       (op_correlation_id p) (op_activation_correlation_id p) (op_previous_version p),
     oe_previous_version = op_previous_version p, oe_created_at = op_created_at p\<rparr>"

definition replay_policy :: "string \<Rightarrow> string \<Rightarrow> authority_world \<Rightarrow> osint_policy option result" where
  "replay_policy correlation payload w = and_then (by_correlation correlation w) (\<lambda>found. case found of
     None \<Rightarrow> Inr None
   | Some (p, e) \<Rightarrow> if oe_payload_sha256 e \<noteq> payload
       then Inl (policy_conflict ''Correlation was reused with different policy content'') else Inr (Some p))"

subsection \<open>Activation\<close>

definition missing_subject :: "scope_kind \<Rightarrow> string \<Rightarrow> authority_world \<Rightarrow> bool result" where
  "missing_subject kind scope w = (if kind = ScopeInstance then Inr False
     else and_then (scope_subject_ids scope) (\<lambda>ids. Inr (\<not> set ids \<subseteq> set (gw_subjects w))))"

definition activate_scope ::
  "governance_env \<Rightarrow> scope_kind \<Rightarrow> string \<Rightarrow> osint_capabilities \<Rightarrow> string \<Rightarrow> string \<Rightarrow> string \<Rightarrow> uuid \<Rightarrow> datetime \<Rightarrow>
   authority_world \<Rightarrow> (osint_policy \<times> authority_world) result" where
  "activate_scope env kind scope caps actor reason correlation event t w =
     (let previous = latest_for_scope kind scope w in
      if previous \<noteq> None \<and> op_status (the previous) = PolicyActive
      then Inl (policy_conflict ''An active policy already exists for this scope'')
      else and_then (missing_subject kind scope w) (\<lambda>missing.
        if missing then Inl (policy_missing ''A policy subject does not exist'')
        else let version = (case previous of None \<Rightarrow> 1 | Some p \<Rightarrow> op_version p + 1) in
          and_then (new_version (stable_policy_id env kind scope) kind scope version (map_option op_version previous)
            PolicyActive caps actor reason correlation correlation event t) (\<lambda>p.
          and_then (add_version p (event_for env p PolicyActivated) w) (\<lambda>w1. Inr (p, w1)))))"

definition activate_policy ::
  "governance_env \<Rightarrow> scope_kind \<Rightarrow> string \<Rightarrow> osint_capabilities \<Rightarrow> string \<Rightarrow> string \<Rightarrow> string \<Rightarrow> uuid \<Rightarrow> datetime \<Rightarrow>
   authority_world \<Rightarrow> (osint_policy \<times> authority_world) result" where
  "activate_policy env kind raw caps actor reason correlation event t w =
     and_then (validate_audit_fields env actor reason correlation) (\<lambda>_.
     and_then (validate_actor actor) (\<lambda>_.
     and_then (normalize_scope_ref kind raw) (\<lambda>scope.
     and_then (validate_capabilities env caps) (\<lambda>_.
     and_then (replay_policy correlation (payload_hash env ''activate'' kind scope (Some caps) actor reason correlation
       correlation None) w) (\<lambda>replay. case replay of Some p \<Rightarrow> Inr (p, w)
     | None \<Rightarrow> activate_scope env kind scope caps actor reason correlation event t w)))))"

subsection \<open>Extension and revocation\<close>

text \<open>What both check of the version they change: it is the latest of its scope, and active.\<close>

definition current_version :: "osint_policy \<Rightarrow> int \<Rightarrow> string \<Rightarrow> authority_world \<Rightarrow> osint_policy result" where
  "current_version current expected inactive w =
     (case latest_for_scope (op_scope_kind current) (op_scope_ref current) w of
        None \<Rightarrow> Inl (policy_conflict ''Policy version changed'')
      | Some latest \<Rightarrow>
          if op_version latest \<noteq> expected then Inl (policy_conflict ''Policy version changed'')
          else if op_status latest \<noteq> PolicyActive then Inl (policy_conflict inactive) else Inr latest)"

definition as_policy_error :: "'a result \<Rightarrow> 'a result" where
  "as_policy_error r = (case r of Inl (ValueError m) \<Rightarrow> Inl (policy_error m) | other \<Rightarrow> other)"

definition extend_policy ::
  "governance_env \<Rightarrow> uuid \<Rightarrow> int \<Rightarrow> osint_capabilities \<Rightarrow> string \<Rightarrow> string \<Rightarrow> string \<Rightarrow> uuid \<Rightarrow> datetime \<Rightarrow>
   authority_world \<Rightarrow> (osint_policy \<times> authority_world) result" where
  "extend_policy env policy expected caps actor reason correlation event t w =
     and_then (validate_audit_fields env actor reason correlation) (\<lambda>_.
     and_then (validate_actor actor) (\<lambda>_.
     and_then (validate_capabilities env caps) (\<lambda>_.
     case get_version policy expected w of None \<Rightarrow> Inl (policy_missing ''Policy version does not exist'')
     | Some current \<Rightarrow>
       and_then (replay_policy correlation (payload_hash env ''extend'' (op_scope_kind current) (op_scope_ref current)
         (Some caps) actor reason correlation (op_activation_correlation_id current) (Some expected)) w) (\<lambda>replay.
       case replay of Some p \<Rightarrow> Inr (p, w)
       | None \<Rightarrow>
         and_then (current_version current expected ''A revoked policy cannot be extended'' w) (\<lambda>latest.
         and_then (as_policy_error (require_growth_from caps (op_capabilities latest))) (\<lambda>_.
         and_then (new_version policy (op_scope_kind current) (op_scope_ref current) (expected + 1) (Some expected)
           PolicyActive caps actor reason correlation (op_activation_correlation_id current) event t) (\<lambda>p.
         and_then (add_version p (event_for env p PolicyExtended) w) (\<lambda>w1. Inr (p, w1)))))))))"

definition revoked_capabilities :: "osint_capabilities \<Rightarrow> osint_capabilities result" where
  "revoked_capabilities c = capabilities_post_init
     \<lparr>oc_allowed_providers = [], oc_budget_limits = merge_limits (oc_budget_limits c) (map (\<lambda>d. (d, 0)) external_dimensions),
      oc_acquire_hits_allowed = False, oc_disclosure = closed_to_models (oc_disclosure c),
      oc_max_effect_claims = oc_max_effect_claims c\<rparr>"

text \<open>An envelope still under the policy loses its external rights with its pin; one a human took over only loses the pin.\<close>

definition propagate_to :: "inheritance \<Rightarrow> datetime \<Rightarrow> authority_world \<Rightarrow> authority_world result" where
  "propagate_to x t w =
     (case investigation_of (in_investigation_id x) w of
        None \<Rightarrow> Inl (policy_conflict ''Pinned subject no longer matches investigation'')
      | Some v \<Rightarrow>
        if iv_subject_id v \<noteq> in_subject_id x then Inl (policy_conflict ''Pinned subject no longer matches investigation'')
        else case envelope_of (in_investigation_id x) w of
          None \<Rightarrow> Inl (policy_conflict ''Pinned envelope is missing'')
        | Some e \<Rightarrow>
          if ge_authority_kind e \<noteq> EnvOsintPolicy then set_inheritance_status x PinSuperseded t w
          else if ge_inherited_policy_id e \<noteq> Some (in_policy_id x)
            \<or> ge_inherited_policy_version e \<noteq> Some (in_policy_version x)
            \<or> ge_inherited_policy_event_id e \<noteq> Some (in_policy_event_id x)
          then Inl (policy_conflict ''Envelope policy lineage differs from its pin'')
          else and_then (zeroed_budget (ge_budget e)) (\<lambda>b.
            and_then (envelope_post_init (e\<lparr>ge_allowed_providers := [], ge_budget := b, ge_acquire_hits_allowed := False,
              ge_disclosure := closed_to_models (ge_disclosure e), ge_version := ge_version e + 1\<rparr>)) (\<lambda>e1.
            and_then (save_envelope e1 (Some (ge_version e)) w) (\<lambda>w1. set_inheritance_status x PinRevoked t w1))))"

fun propagate_revocation :: "inheritance list \<Rightarrow> datetime \<Rightarrow> authority_world \<Rightarrow> authority_world result" where
  "propagate_revocation [] t w = Inr w"
| "propagate_revocation (x # xs) t w = and_then (propagate_to x t w) (propagate_revocation xs t)"

definition active_inheritances :: "uuid \<Rightarrow> authority_world \<Rightarrow> inheritance list" where
  "active_inheritances p w = sort_key in_investigation_id
     (filter (\<lambda>x. in_policy_id x = p \<and> in_status x = PinActive) (gw_pins w))"

definition revoke_policy ::
  "governance_env \<Rightarrow> uuid \<Rightarrow> int \<Rightarrow> string \<Rightarrow> string \<Rightarrow> string \<Rightarrow> uuid \<Rightarrow> datetime \<Rightarrow>
   authority_world \<Rightarrow> (osint_policy \<times> authority_world) result" where
  "revoke_policy env policy expected actor reason correlation event t w =
     and_then (validate_audit_fields env actor reason correlation) (\<lambda>_.
     and_then (validate_actor actor) (\<lambda>_.
     case get_version policy expected w of None \<Rightarrow> Inl (policy_missing ''Policy version does not exist'')
     | Some current \<Rightarrow>
       and_then (replay_policy correlation (payload_hash env ''revoke'' (op_scope_kind current) (op_scope_ref current)
         None actor reason correlation (op_activation_correlation_id current) (Some expected)) w) (\<lambda>replay.
       case replay of Some p \<Rightarrow> Inr (p, w)
       | None \<Rightarrow>
         and_then (current_version current expected ''Policy is already revoked'' w) (\<lambda>latest.
         and_then (revoked_capabilities (op_capabilities latest)) (\<lambda>caps.
         and_then (new_version policy (op_scope_kind current) (op_scope_ref current) (expected + 1) (Some expected)
           PolicyRevoked caps actor reason correlation (op_activation_correlation_id current) event t) (\<lambda>p.
         and_then (add_version p (event_for env p PolicyRevokedEvent) w) (\<lambda>w1.
         and_then (propagate_revocation (active_inheritances policy w1) t w1) (\<lambda>w2. Inr (p, w2)))))))))"

subsection \<open>The start of an investigation\<close>

text \<open>The labels of the source snapshot of the investigation.\<close>

record source_snapshot =
  ss_subject_id :: uuid
  ss_tlp :: "string option"
  ss_do_not_submit :: bool
  ss_external_llm_allowed :: bool

text \<open>One matching subject set, or else the policy of the instance; \<open>None\<close> when none is active.\<close>

definition applicable_policy :: "osint_policy list \<Rightarrow> osint_policy option result" where
  "applicable_policy candidates =
     (let sets = filter (\<lambda>p. op_scope_kind p = ScopeSubjectSet) candidates;
          global = filter (\<lambda>p. op_scope_kind p = ScopeInstance) candidates;
          chosen = (case sets of p # _ \<Rightarrow> Some p | [] \<Rightarrow> (case global of p # _ \<Rightarrow> Some p | [] \<Rightarrow> None)) in
      if 1 < length sets then Inl (policy_conflict ''Multiple subject policies match this investigation'')
      else Inr (case chosen of None \<Rightarrow> None | Some p \<Rightarrow> if op_status p = PolicyActive then Some p else None))"

definition inheritance_correlation :: "osint_policy \<Rightarrow> uuid \<Rightarrow> string" where
  "inheritance_correlation p i = ''osint-inherit:'' @ uuid_text (op_policy_id p) @ '':'' @ int_text (op_version p) @ '':'' @ uuid_text i"

definition new_pin :: "osint_policy \<Rightarrow> uuid \<Rightarrow> uuid \<Rightarrow> datetime \<Rightarrow> inheritance" where
  "new_pin p i subject t = \<lparr>in_investigation_id = i, in_subject_id = subject, in_policy_id = op_policy_id p,
     in_policy_version = op_version p, in_policy_event_id = op_event_id p,
     in_correlation_id = inheritance_correlation p i, in_activation_correlation_id = op_activation_correlation_id p,
     in_status = PinActive, in_created_at = t, in_updated_at = t\<rparr>"

definition inherit_policy ::
  "osint_policy \<Rightarrow> uuid \<Rightarrow> uuid \<Rightarrow> source_snapshot \<Rightarrow> datetime \<Rightarrow> authority_world \<Rightarrow> (envelope option \<times> authority_world) result" where
  "inherit_policy p i subject source t w =
     and_then (create_policy_inherited_envelope i (op_policy_id p) (op_version p) (op_event_id p) (op_actor_id p)
       (op_capabilities p) (intersect_disclosure (ss_tlp source) (ss_do_not_submit source) (ss_external_llm_allowed source)
         (oc_disclosure (op_capabilities p))) t w) (\<lambda>(e, w1).
     case add_inheritance (new_pin p i subject t) w1 of
       Inl _ \<Rightarrow> Inl (policy_conflict ''Concurrent policy inheritance; retry start'')
     | Inr w2 \<Rightarrow> Inr (Some e, w2))"

definition ensure_inherited_envelope ::
  "uuid \<Rightarrow> uuid \<Rightarrow> source_snapshot \<Rightarrow> bool \<Rightarrow> datetime \<Rightarrow> authority_world \<Rightarrow> (envelope option \<times> authority_world) result" where
  "ensure_inherited_envelope i subject source at_start t w =
     (if \<not> at_start then Inr (None, w)
      else and_then (latest_for_subject subject w) (\<lambda>candidates.
      case pin_of i w of
        Some x \<Rightarrow>
          if in_subject_id x \<noteq> subject then Inl (policy_conflict ''Pinned subject does not match investigation subject'')
          else (case envelope_of i w of None \<Rightarrow> Inl (policy_conflict ''A durable policy pin exists without its envelope'')
            | Some e \<Rightarrow> Inr (Some e, w))
      | None \<Rightarrow>
          if envelope_of i w \<noteq> None then Inr (envelope_of i w, w)
          else if i \<in> set (gw_states w) \<or> i \<in> set (gw_invocations w) then Inr (None, w)
          else if ss_subject_id source \<noteq> subject
          then Inl (policy_conflict ''Source snapshot subject does not match investigation'')
          else and_then (applicable_policy candidates) (\<lambda>chosen. case chosen of None \<Rightarrow> Inr (None, w)
            | Some p \<Rightarrow> inherit_policy p i subject source t w)))"

subsection \<open>The effective policy\<close>

definition effective_for :: "uuid \<Rightarrow> authority_world \<Rightarrow> effective_policy option result" where
  "effective_for i w = (case pin_of i w of None \<Rightarrow> Inr None
     | Some x \<Rightarrow>
       if map_option iv_subject_id (investigation_of i w) \<noteq> Some (in_subject_id x)
       then Inl (policy_conflict ''Pinned subject no longer matches investigation'')
       else (case get_version (in_policy_id x) (in_policy_version x) w of
           None \<Rightarrow> Inl (policy_conflict ''Pinned policy version is missing'')
         | Some p \<Rightarrow> (case row_with oe_id (in_policy_event_id x) (gw_events w) of
             None \<Rightarrow> Inl (policy_conflict ''Pinned policy event lineage is incomplete'')
           | Some e \<Rightarrow>
             if oe_policy_id e \<noteq> in_policy_id x \<or> oe_policy_version e \<noteq> in_policy_version x
             then Inl (policy_conflict ''Pinned policy event lineage is incomplete'')
             else (case latest_for_scope (op_scope_kind p) (op_scope_ref p) w of
                 None \<Rightarrow> Inl (policy_conflict ''Pinned policy has no current version'')
               | Some latest \<Rightarrow> Inr (Some \<lparr>ef_inheritance = x, ef_policy = p, ef_current_policy_status = op_status latest\<rparr>)))))"

end
