(* ===== verification/AuthorityOps.thy ===== *)
theory AuthorityOps
  imports OsintService EffectAdmission AgentLoop
begin

text \<open>
  Every transaction that changes what an investigation may do outside, as the operations of one
  machine, and the guard through which the claim store asks a standing policy,
  \<open>SqlAlchemyVirusTotalPolicyGuard\<close> in \<open>infrastructure/database/repositories/virustotal_external_effects.py\<close>.
  The investigations, subjects, working states and invocations that other parts of the program
  create are operations too.
\<close>

subsection \<open>The policy guard\<close>

definition decimal_text :: "string option \<Rightarrow> int option" where
  "decimal_text v = (case v of None \<Rightarrow> None
     | Some s \<Rightarrow> if s \<noteq> [] \<and> list_all digit s then Some (int (decimal_value s)) else None)"

text \<open>The event, the pinned version, the current version and the pin the two checks read, when the event authorises.\<close>

definition authorising_event :: "authority \<Rightarrow> authority_world \<Rightarrow> osint_event option" where
  "authorising_event a g = (case (au_policy_event_id a, au_pinned_subject_id a, decimal_text (au_policy_version a)) of
     (Some i, Some subject, Some version) \<Rightarrow> (case row_with oe_id i (gw_events g) of None \<Rightarrow> None
       | Some e \<Rightarrow> if oe_policy_version e = version \<and> oe_event_type e \<in> {PolicyActivated, PolicyExtended}
           then Some e else None)
   | _ \<Rightarrow> None)"

definition pin_matches :: "authority \<Rightarrow> osint_event \<Rightarrow> authority_world \<Rightarrow> bool" where
  "pin_matches a e g = (case pin_of (au_investigation_id a) g of None \<Rightarrow> False
     | Some x \<Rightarrow> in_status x = PinActive \<and> in_policy_id x = oe_policy_id e \<and> in_policy_version x = oe_policy_version e
         \<and> in_policy_event_id x = oe_id e \<and> Some (in_subject_id x) = au_pinned_subject_id a)"

definition active_version :: "osint_policy option \<Rightarrow> bool" where
  "active_version p = (case p of None \<Rightarrow> False | Some x \<Rightarrow> op_status x = PolicyActive)"

definition lock_for_consume :: "authority \<Rightarrow> authority_world \<Rightarrow> bool" where
  "lock_for_consume a g = (case authorising_event a g of None \<Rightarrow> False
     | Some e \<Rightarrow> active_version (latest_of_policy (oe_policy_id e) g)
         \<and> active_version (get_version (oe_policy_id e) (oe_policy_version e) g) \<and> pin_matches a e g)"

definition policy_discloses :: "bool \<Rightarrow> string \<Rightarrow> osint_policy \<Rightarrow> bool" where
  "policy_discloses permissive family p = (ignores_restriction_labels permissive family
     \<or> (db_tlp (oc_disclosure (op_capabilities p)) \<noteq> Some TlpRed \<and> db_external_llm_allowed (oc_disclosure (op_capabilities p))))"

text \<open>\<open>disclosed\<close> is the check of the labels of the cited sources, which the guard makes as well.\<close>

definition authorize ::
  "bool \<Rightarrow> (authority \<Rightarrow> prepared \<Rightarrow> string \<Rightarrow> effect_world \<Rightarrow> bool) \<Rightarrow> authority \<Rightarrow> prepared \<Rightarrow> string \<Rightarrow> authority_world \<Rightarrow>
   effect_world \<Rightarrow> bool" where
  "authorize permissive disclosed a p key g w =
     (map_option ir_subject_id (row_with ir_id (au_investigation_id a) (xw_investigations w)) = au_pinned_subject_id a
      \<and> (case authorising_event a g of None \<Rightarrow> False
       | Some e \<Rightarrow> active_version (latest_of_policy (oe_policy_id e) g) \<and> pin_matches a e g
         \<and> (case get_version (oe_policy_id e) (oe_policy_version e) g of None \<Rightarrow> False
            | Some pinned \<Rightarrow> op_status pinned = PolicyActive
                \<and> policy_discloses permissive (pe_family p) pinned \<and> disclosed a p key w
                \<and> contains_subject pinned (the (au_pinned_subject_id a)) = Inr True
                \<and> pe_provider p \<in> set (oc_allowed_providers (op_capabilities pinned))
                \<and> (claim_of_key (au_investigation_id a) key w \<noteq> None
                   \<or> int (length (filter (\<lambda>c. ec_investigation_id c = au_investigation_id a) (xw_claims w)))
                       < oc_max_effect_claims (op_capabilities pinned))
                \<and> (case map_of (au_reservation_amounts a) ''vt_units'' of None \<Rightarrow> 0 | Some n \<Rightarrow> n)
                    \<le> amount (oc_budget_limits (op_capabilities pinned)) VtUnits)))"

definition osint_guard ::
  "bool \<Rightarrow> (authority \<Rightarrow> prepared \<Rightarrow> string \<Rightarrow> effect_world \<Rightarrow> bool) \<Rightarrow> authority_world \<Rightarrow> policy_guard" where
  "osint_guard permissive disclosed g = \<lparr>pg_lock = (\<lambda>a w. Some (lock_for_consume a g)),
     pg_authorize = (\<lambda>a p key w. Some (authorize permissive disclosed a p key g w)),
     pg_authorize_source = (\<lambda>a p key w. Some (disclosed a p key w))\<rparr>"

subsection \<open>The operations\<close>

datatype authority_op =
    OpActivate scope_kind string osint_capabilities string string string uuid datetime
  | OpExtendPolicy uuid int osint_capabilities string string string uuid datetime
  | OpRevokePolicy uuid int string string string uuid datetime
  | OpStart uuid source_snapshot bool datetime
  | OpApprove envelope_proposal string string string "int option" datetime
  | OpExtend uuid envelope_extension string string string datetime
  | OpReject uuid string string string "int option" datetime
  | OpRevoke uuid int string string string datetime
  | OpSpend uuid budget_op
  | NewInvestigation investigation
  | NewSubject uuid
  | NewState uuid
  | NewInvocation uuid

definition tables_of :: "('a \<times> authority_world) result \<Rightarrow> authority_world result" where
  "tables_of r = and_then r (\<lambda>(_, w). Inr w)"

lemma tables_of_Inr: "tables_of r = Inr w \<longleftrightarrow> (\<exists>x. r = Inr (x, w))"
  by (auto simp: tables_of_def and_then_Inr)

text \<open>A caller builds the capabilities it passes, so they have passed their own validation.\<close>

fun authority_exec :: "governance_env \<Rightarrow> authority_op \<Rightarrow> authority_world \<Rightarrow> authority_world result" where
  "authority_exec env (OpActivate kind scope raw actor reason corr e t) w = and_then (capabilities_post_init raw) (\<lambda>caps.
     tables_of (activate_policy env kind scope caps actor reason corr e t w))"
| "authority_exec env (OpExtendPolicy p n raw actor reason corr e t) w = and_then (capabilities_post_init raw) (\<lambda>caps.
     tables_of (extend_policy env p n caps actor reason corr e t w))"
| "authority_exec env (OpRevokePolicy p n actor reason corr e t) w = tables_of (revoke_policy env p n actor reason corr e t w)"
| "authority_exec env (OpStart i source at_start t) w = (case investigation_of i w of
     None \<Rightarrow> Inl (policy_error ''Investigation identity is incomplete'')
   | Some v \<Rightarrow> tables_of (ensure_inherited_envelope i (iv_subject_id v) source at_start t w))"
| "authority_exec env (OpApprove p actor reason corr n t) w = tables_of (approve_envelope env p actor reason corr n t w)"
| "authority_exec env (OpExtend i x actor reason corr t) w = tables_of (extend_envelope env i x actor reason corr t w)"
| "authority_exec env (OpReject i actor reason corr n t) w = tables_of (reject_envelope env i actor reason corr n t w)"
| "authority_exec env (OpRevoke i n actor reason corr t) w = tables_of (revoke_envelope env i n actor reason corr t w)"
| "authority_exec env (OpSpend i op) w = spend_budget i op w"
| "authority_exec env (NewInvestigation v) w = (if investigation_of (iv_id v) w \<noteq> None
     then Inl (IntegrityError ''analyst_investigations_pkey'')
     else Inr (w\<lparr>gw_investigations := gw_investigations w @ [v]\<rparr>))"
| "authority_exec env (NewSubject s) w = Inr (w\<lparr>gw_subjects := s # gw_subjects w\<rparr>)"
| "authority_exec env (NewState i) w = Inr (w\<lparr>gw_states := i # gw_states w\<rparr>)"
| "authority_exec env (NewInvocation i) w = Inr (w\<lparr>gw_invocations := i # gw_invocations w\<rparr>)"

subsection \<open>What each step does to the tables\<close>

text \<open>The steps on envelopes leave the policies alone, and the pins except for the manual supersession.\<close>

definition same_policies :: "authority_world \<Rightarrow> authority_world \<Rightarrow> bool" where
  "same_policies w w' = (gw_policies w' = gw_policies w \<and> gw_events w' = gw_events w)"

lemma same_policies_refl [simp]: "same_policies w w"
  by (simp add: same_policies_def)

lemma same_policies_trans: "same_policies u v \<Longrightarrow> same_policies v w \<Longrightarrow> same_policies u w"
  by (simp add: same_policies_def)

lemma as_envelope_conflict_Inr: "as_envelope_conflict r = Inr x \<longleftrightarrow> r = Inr x"
  by (auto simp: as_envelope_conflict_def split: sum.splits error.splits)

definition put_envelope :: "envelope \<Rightarrow> authority_world \<Rightarrow> authority_world" where
  "put_envelope e w = w\<lparr>gw_envelopes := (if envelope_of (ge_investigation_id e) w = None then gw_envelopes w @ [e]
     else update_where (\<lambda>x. ge_investigation_id x = ge_investigation_id e) (\<lambda>_. e) (gw_envelopes w))\<rparr>"

lemma put_envelope_fields [simp]:
  "gw_pins (put_envelope e w) = gw_pins w" "gw_decisions (put_envelope e w) = gw_decisions w"
  "gw_policies (put_envelope e w) = gw_policies w" "gw_events (put_envelope e w) = gw_events w"
  "gw_investigations (put_envelope e w) = gw_investigations w"
  by (simp_all add: put_envelope_def)

lemma put_envelope_set: "x \<in> set (gw_envelopes (put_envelope e w)) \<Longrightarrow> x = e \<or>
    x \<in> set (gw_envelopes w) \<and> ge_investigation_id x \<noteq> ge_investigation_id e"
  by (auto simp: put_envelope_def update_where_def envelope_of_def row_with_def find_None_iff split: if_splits)

lemma save_envelope_new:
  assumes "save_envelope e n w = Inr w'" and "envelope_of (ge_investigation_id e) w = None"
  shows "w' = put_envelope e w"
  using assms by (simp add: save_envelope_def put_envelope_def split: if_splits)

lemma save_envelope_next:
  assumes "save_envelope e n w = Inr w'" and "envelope_of (ge_investigation_id e) w = Some c"
    and "ge_version e = ge_version c + 1"
  shows "w' = put_envelope e w"
proof -
  have "c \<noteq> e" using assms(3) by auto
  with assms(1,2) show ?thesis by (simp add: save_envelope_def put_envelope_def split: if_splits)
qed

text \<open>The investigation keeps its subject when its caps are raised.\<close>

definition same_but_investigations :: "authority_world \<Rightarrow> authority_world \<Rightarrow> bool" where
  "same_but_investigations w w' = (gw_envelopes w' = gw_envelopes w \<and> gw_decisions w' = gw_decisions w
     \<and> gw_pins w' = gw_pins w \<and> same_policies w w'
     \<and> (\<forall>i. map_option iv_subject_id (investigation_of i w') = map_option iv_subject_id (investigation_of i w)))"

lemma save_investigation_subject:
  assumes "save_investigation v w = Inr w'" and "investigation_of (iv_id v) w = Some u" and "iv_subject_id v = iv_subject_id u"
  shows "same_but_investigations w w'"
proof -
  have w': "w' = w\<lparr>gw_investigations := update_where (\<lambda>y. iv_id y = iv_id v) (\<lambda>_. v) (gw_investigations w)\<rparr>"
    using assms(1,2) by (simp add: save_investigation_def split: if_splits)
  have "map_option iv_subject_id (find (\<lambda>y. iv_id y = i) (update_where (\<lambda>y. iv_id y = iv_id v) (\<lambda>_. v) xs))
      = map_option iv_subject_id (find (\<lambda>y. iv_id y = i) xs)" if "find (\<lambda>y. iv_id y = iv_id v) xs = Some u" for i xs
    using that
  proof (induction xs)
    case (Cons y ys)
    then show ?case
    proof (cases "iv_id y = iv_id v")
      case True
      with Cons.prems have "y = u" by simp
      with True assms(3) show ?thesis
      proof (cases "iv_id v = i")
        case False
        have "find (\<lambda>y. iv_id y = i) (update_where (\<lambda>y. iv_id y = iv_id v) (\<lambda>_. v) ys) = find (\<lambda>y. iv_id y = i) ys"
          using False by (induction ys) (auto simp: update_where_def)
        with True False show ?thesis by (simp add: update_where_def)
      qed (use True \<open>y = u\<close> assms(3) in \<open>simp add: update_where_def\<close>)
    qed (use Cons in \<open>auto simp: update_where_def\<close>)
  qed simp
  with w' assms(2) show ?thesis
    by (simp add: same_but_investigations_def same_policies_def investigation_of_def row_with_def)
qed

lemma synchronize_Inr:
  assumes "synchronize_downloads v n t w = Inr w'" and "investigation_of (iv_id v) w = Some v"
  shows "same_but_investigations w w'"
  using assms(1) save_investigation_subject [of "bump t (v\<lparr>iv_budget := raised_caps n (iv_budget v)\<rparr>)" w w' v] assms(2)
  by (auto simp: synchronize_downloads_def bump_def same_but_investigations_def split: if_splits)

lemma append_analyst_decision_Inr: "append_analyst_decision d w = Inr w' \<longleftrightarrow>
    w' = w\<lparr>gw_decisions := gw_decisions w @ [d]\<rparr> \<and> list_all (\<lambda>x. ad_id x \<noteq> ad_id d) (gw_decisions w)"
  by (auto simp: append_analyst_decision_def list_ex_iff list_all_iff)

lemma leave_policy_fields [simp]:
  "gw_envelopes (leave_policy e t w) = gw_envelopes w" "gw_decisions (leave_policy e t w) = gw_decisions w"
  "gw_policies (leave_policy e t w) = gw_policies w" "gw_events (leave_policy e t w) = gw_events w"
  "gw_investigations (leave_policy e t w) = gw_investigations w"
  by (simp_all add: leave_policy_def supersede_pin_def)

lemma envelope_of_cong: "gw_envelopes w' = gw_envelopes w \<Longrightarrow> envelope_of i w' = envelope_of i w"
  by (simp add: envelope_of_def)

lemma investigation_of_key: "investigation_of i w = Some v \<Longrightarrow> iv_id v = i"
  by (auto simp: investigation_of_def dest: row_with_key)

lemma envelope_of_key: "envelope_of i w = Some e \<Longrightarrow> ge_investigation_id e = i \<and> e \<in> set (gw_envelopes w)"
  by (auto simp: envelope_of_def dest: row_with_key)

lemma envelope_post_init_Inr: "envelope_post_init e = Inr x \<Longrightarrow> x = e"
  by (simp add: envelope_post_init_def Let_def validated_Inr)

lemma human_envelope_Inr: "human_envelope i ps b a d dec actor t n = Inr e \<Longrightarrow>
    e = \<lparr>ge_investigation_id = i, ge_allowed_providers = ps, ge_budget = b, ge_acquire_hits_allowed = a,
      ge_disclosure = d, ge_approval_decision_id = ad_id dec, ge_approval_actor_id = py_strip actor,
      ge_authority_kind = EnvHumanG2, ge_inherited_policy_id = None, ge_inherited_policy_version = None,
      ge_inherited_policy_event_id = None, ge_approved_at = t, ge_version = n\<rparr> \<and> envelope_post_init e = Inr e"
  unfolding human_envelope_def by (metis envelope_post_init_Inr)

text \<open>
  What a human decision writes: the decision, the envelope that names it, the pin it supersedes, and
  caps of the loop.
\<close>

definition human_change :: "envelope option \<Rightarrow> envelope \<Rightarrow> analyst_decision \<Rightarrow> datetime \<Rightarrow> authority_world \<Rightarrow> authority_world \<Rightarrow> bool" where
  "human_change current e d t w w' = (same_policies w w' \<and> gw_decisions w' = gw_decisions w @ [d]
     \<and> list_all (\<lambda>x. ad_id x \<noteq> ad_id d) (gw_decisions w) \<and> gw_envelopes w' = gw_envelopes (put_envelope e w)
     \<and> gw_pins w' = (case current of None \<Rightarrow> gw_pins w | Some c \<Rightarrow> gw_pins (leave_policy c t w))
     \<and> current = envelope_of (ge_investigation_id e) w \<and> ge_authority_kind e = EnvHumanG2
     \<and> ge_approval_decision_id e = ad_id d \<and> envelope_post_init e = Inr e
     \<and> ad_investigation_id d = ge_investigation_id e \<and> ad_target_id d = ge_investigation_id e \<and> ad_target_type d = TargetPivot
     \<and> (\<forall>i. map_option iv_subject_id (investigation_of i w') = map_option iv_subject_id (investigation_of i w)))"

end
