(* ===== verification/AuthorityChanges.thy ===== *)
theory AuthorityChanges
  imports AuthorityOps
begin

text \<open>What each operation on envelopes writes, as one case per outcome.\<close>

lemma decision_for_fields [simp]:
  "ad_investigation_id (decision_for env payload i kind target j actor reason corr t) = i"
  "ad_decision_type (decision_for env payload i kind target j actor reason corr t) = kind"
  "ad_target_type (decision_for env payload i kind target j actor reason corr t) = target"
  "ad_target_id (decision_for env payload i kind target j actor reason corr t) = j"
  "ad_actor_id (decision_for env payload i kind target j actor reason corr t) = py_strip actor"
  by (simp_all add: decision_for_def)

lemma identified_Inr: "identified m actor reason corr = Inr () \<longleftrightarrow> \<not> blank actor \<and> \<not> blank reason \<and> \<not> blank corr"
  by (auto simp: identified_def)

lemma approve_first_Inr:
  assumes "approve_first p b providers d actor t w = Inr (e, w')" and "envelope_of (ep_investigation_id p) w = None"
    and "ad_investigation_id d = ep_investigation_id p" "ad_target_id d = ep_investigation_id p" "ad_target_type d = TargetPivot"
  shows "human_change None e d t w w' \<and> ge_investigation_id e = ep_investigation_id p \<and> ge_allowed_providers e = providers"
proof -
  from assms(1) obtain v c w1 w2 where v: "investigation_of (ep_investigation_id p) w = Some v" and
    e: "human_envelope (ep_investigation_id p) providers c (ep_acquire_hits_allowed p) (ep_disclosure p) d actor t 1 = Inr e" and
    w1: "append_analyst_decision d w = Inr w1" and w2: "save_envelope e None w1 = Inr w2" and
    w': "synchronize_downloads v (amount (ib_limits b) Downloads) t w2 = Inr w'"
    by (auto simp: approve_first_def and_then_Inr as_envelope_conflict_Inr split: option.splits)
  note e' = human_envelope_Inr [OF e]
  have w1': "w1 = w\<lparr>gw_decisions := gw_decisions w @ [d]\<rparr>" "list_all (\<lambda>x. ad_id x \<noteq> ad_id d) (gw_decisions w)"
    using w1 by (simp_all add: append_analyst_decision_Inr)
  have i: "ge_investigation_id e = ep_investigation_id p" using e' by simp
  have none: "envelope_of (ge_investigation_id e) w1 = None" using assms(2) w1' i by (simp add: envelope_of_def)
  note w2' = save_envelope_new [OF w2 none]
  have "investigation_of (iv_id v) w2 = Some v" using v investigation_of_key [OF v] w1' w2' by (simp add: investigation_of_def)
  note sync = synchronize_Inr [OF w' this]
  have "gw_envelopes w2 = gw_envelopes (put_envelope e w)" using w1' w2' by (simp add: put_envelope_def envelope_of_def)
  then show ?thesis
    using sync w1' w2' e' assms(2-5) i
    by (auto simp: human_change_def same_but_investigations_def same_policies_def investigation_of_def)
qed

lemma approve_cases:
  assumes "approve_envelope env p actor reason corr n t w = Inr (e, w')"
  obtains (unchanged) "w' = w"
  | (approved) d providers where "human_change None e d t w w'" "ad_decision_type d = PivotApprove" "\<not> blank (ad_actor_id d)"
      "normalize_providers (ep_allowed_providers p) = Inr providers" "ge_allowed_providers e = providers"
proof -
  from assms obtain b providers d replay where h: "identified ''G2 approval requires actor, reason and correlation'' actor reason corr = Inr ()"
      "normalize_providers (ep_allowed_providers p) = Inr providers"
      "d = decision_for env (approval_payload p providers b actor reason) (ep_investigation_id p) PivotApprove TargetPivot
        (ep_investigation_id p) actor reason corr t"
      "w' = w \<or> envelope_of (ep_investigation_id p) w = None \<and> approve_first p b providers d actor t w = Inr (e, w')"
    by (fastforce simp: approve_envelope_def Let_def and_then_Inr split: if_splits option.splits)
  then show ?thesis
  proof (elim disjE conjE)
    assume "approve_first p b providers d actor t w = Inr (e, w')" "envelope_of (ep_investigation_id p) w = None"
    from approve_first_Inr [OF this] h show ?thesis
      using approved [of d providers] by (simp add: identified_Inr)
  qed (rule unchanged)
qed

lemma apply_extension_Inr:
  assumes "apply_extension c x providers requested d actor t w = Inr (e, w')" and "envelope_of (ge_investigation_id c) w = Some c"
    and "ad_investigation_id d = ge_investigation_id c" "ad_target_id d = ge_investigation_id c" "ad_target_type d = TargetPivot"
  shows "human_change (Some c) e d t w w' \<and> ge_investigation_id e = ge_investigation_id c \<and> ge_allowed_providers e = providers
    \<and> ge_acquire_hits_allowed e = ex_acquire_hits_allowed x \<and> ge_disclosure e = ex_disclosure x
    \<and> copy_budget (ge_budget c) (ib_limits requested) = Inr (ge_budget e)"
proof -
  from assms(1) obtain v b w1 w2 where v: "investigation_of (ge_investigation_id c) w = Some v" and
    b: "copy_budget (ge_budget c) (ib_limits requested) = Inr b" and
    e: "human_envelope (ge_investigation_id c) providers b (ex_acquire_hits_allowed x) (ex_disclosure x) d actor t
      (ge_version c + 1) = Inr e" and
    w1: "append_analyst_decision d w = Inr w1" and
    w2: "save_envelope e (Some (ex_expected_version x)) (leave_policy c t w1) = Inr w2" and
    w': "synchronize_downloads v (amount (ib_limits requested) Downloads) t w2 = Inr w'"
    by (auto simp: apply_extension_def and_then_Inr as_envelope_conflict_Inr split: option.splits)
  note e' = human_envelope_Inr [OF e]
  have w1': "w1 = w\<lparr>gw_decisions := gw_decisions w @ [d]\<rparr>" "list_all (\<lambda>x. ad_id x \<noteq> ad_id d) (gw_decisions w)"
    using w1 by (simp_all add: append_analyst_decision_Inr)
  have i: "ge_investigation_id e = ge_investigation_id c" "ge_version e = ge_version c + 1" using e' by simp_all
  have some: "envelope_of (ge_investigation_id e) (leave_policy c t w1) = Some c"
    using assms(2) w1' i by (simp add: envelope_of_def)
  note w2' = save_envelope_next [OF w2 some i(2)]
  have "investigation_of (iv_id v) w2 = Some v" using v investigation_of_key [OF v] w1' w2' by (simp add: investigation_of_def)
  note sync = synchronize_Inr [OF w' this]
  have "gw_envelopes w2 = gw_envelopes (put_envelope e w)" using w1' w2' by (simp add: put_envelope_def envelope_of_def)
  moreover have "gw_pins (leave_policy c t w1) = gw_pins (leave_policy c t w)"
    using w1' by (simp add: leave_policy_def supersede_pin_def)
  ultimately show ?thesis
    using sync w1' w2' e' assms(2-5) i b
    by (auto simp: human_change_def same_but_investigations_def same_policies_def investigation_of_def)
qed

lemma extend_cases:
  assumes "extend_envelope env i x actor reason corr t w = Inr (e, w')"
  obtains (unchanged) "w' = w"
  | (extended) c d providers requested where "envelope_of i w = Some c" "ge_investigation_id e = i"
      "normalize_providers (ex_allowed_providers x) = Inr providers"
      "new_budget (merge_limits (ib_limits (ge_budget c)) (ib_limits (ex_budget x))) = Inr requested"
      "require_acquisition_budget (ex_acquire_hits_allowed x) requested = Inr ()"
      "check_extension c (decisions_of i w) x providers requested = Inr ()"
      "human_change (Some c) e d t w w'" "ad_decision_type d = PivotApprove" "\<not> blank (ad_actor_id d)"
      "ge_allowed_providers e = providers" "ge_acquire_hits_allowed e = ex_acquire_hits_allowed x"
      "ge_disclosure e = ex_disclosure x" "copy_budget (ge_budget c) (ib_limits requested) = Inr (ge_budget e)"
proof -
  from assms obtain providers c where providers: "normalize_providers (ex_allowed_providers x) = Inr providers"
    and c: "envelope_of i w = Some c" and actor: "\<not> blank actor"
    by (auto simp: extend_envelope_def and_then_Inr identified_Inr split: option.splits)
  with assms obtain requested d where h:
      "new_budget (merge_limits (ib_limits (ge_budget c)) (ib_limits (ex_budget x))) = Inr requested"
      "require_acquisition_budget (ex_acquire_hits_allowed x) requested = Inr ()"
      "d = decision_for env (extension_payload i x providers requested actor reason) i PivotApprove TargetPivot i actor reason corr t"
      "w' = w \<or> check_extension c (decisions_of i w) x providers requested = Inr ()
        \<and> apply_extension c x providers requested d actor t w = Inr (e, w')"
    by (fastforce simp: extend_envelope_def Let_def and_then_Inr split: if_splits option.splits)
  from h(4) show ?thesis
  proof (elim disjE conjE)
    assume check: "check_extension c (decisions_of i w) x providers requested = Inr ()"
      and apply': "apply_extension c x providers requested d actor t w = Inr (e, w')"
    have i: "ge_investigation_id c = i" using envelope_of_key [OF c] by simp
    have "envelope_of (ge_investigation_id c) w = Some c" using c i by simp
    from apply_extension_Inr [OF apply' this] have
      "human_change (Some c) e d t w w' \<and> ge_investigation_id e = i \<and> ge_allowed_providers e = providers
        \<and> ge_acquire_hits_allowed e = ex_acquire_hits_allowed x \<and> ge_disclosure e = ex_disclosure x
        \<and> copy_budget (ge_budget c) (ib_limits requested) = Inr (ge_budget e)"
      by (simp add: h(3) i)
    moreover have "ad_decision_type d = PivotApprove" "\<not> blank (ad_actor_id d)" using actor by (simp_all add: h(3))
    ultimately show ?thesis by (intro extended [OF c _ providers h(1,2) check]) simp_all
  qed (rule unchanged)
qed

lemma restore_all_limits: "restore_all rs b = Inr b' \<Longrightarrow> ib_limits b' = ib_limits b"
  by (induction rs arbitrary: b) (auto simp: and_then_Inr budget_of_Inr restore_reservation_def split: option.splits if_splits)

lemma copy_budget_limits: "copy_budget b l = Inr b' \<Longrightarrow> ib_limits b' = l \<and> natural l"
  by (auto simp: copy_budget_def and_then_Inr new_budget_def budget_values_Inr dest!: restore_all_limits)

lemma map_of_merge: "map_of (merge_limits a b) d = (case map_of (rev b) d of None \<Rightarrow> map_of a d | Some n \<Rightarrow> Some n)"
proof (induction b arbitrary: a)
  case (Cons x b)
  obtain k n where x: "x = (k, n)" by (cases x)
  have "map_of (rev b @ [(k, n)]) d = (case map_of (rev b) d of None \<Rightarrow> map_of [(k, n)] d | Some m \<Rightarrow> Some m)"
    by (simp add: map_add_def split: option.splits)
  with Cons [of "AList.update k n a"] x show ?case by (auto simp: update_conv' split: option.splits)
qed simp

definition no_external_rights :: "envelope \<Rightarrow> bool" where
  "no_external_rights e = (ge_allowed_providers e = [] \<and> \<not> ge_acquire_hits_allowed e
     \<and> \<not> db_external_llm_allowed (ge_disclosure e)
     \<and> (\<forall>d\<in>set external_dimensions. map_of (ib_limits (ge_budget e)) d = Some 0))"

lemma zeroed_budget_Inr:
  assumes "zeroed_budget b = Inr b'"
  shows "(\<forall>d\<in>set external_dimensions. map_of (ib_limits b') d = Some 0)
    \<and> (\<forall>d. d \<notin> set external_dimensions \<longrightarrow> map_of (ib_limits b') d = map_of (ib_limits b) d)"
  using copy_budget_limits [OF assms [unfolded zeroed_budget_def]]
  by (auto simp: external_dimensions_def update_conv')

lemma revoke_cases:
  assumes "revoke_envelope env i n actor reason corr t w = Inr (e, w')"
  obtains (unchanged) "w' = w"
  | (revoked) c d where "envelope_of i w = Some c" "human_change (Some c) e d t w w'" "ge_investigation_id e = i"
      "ad_decision_type d = PivotReject" "\<not> blank (ad_actor_id d)" "no_external_rights e"
      "ad_details d = [(''authorization_ceiling'', bounds_payload c)]" "zeroed_budget (ge_budget c) = Inr (ge_budget e)"
proof (cases "w' = w")
  case False
  define d0 where "d0 = decision_for env (action_payload ''revoke'' i (Some n) actor reason) i PivotReject TargetPivot i actor reason corr t"
  let ?d = "d0\<lparr>ad_details := [(''authorization_ceiling'', bounds_payload (the (envelope_of i w)))]\<rparr>"
  obtain c v where c: "envelope_of i w = Some c" and v: "investigation_of i w = Some v" and actor: "\<not> blank actor"
    using assms False
    by (auto simp: revoke_envelope_def Let_def and_then_Inr identified_Inr split: option.splits if_splits)
  obtain w1 b w2 where w1: "synchronize_downloads v (amount (ib_limits (ge_budget c)) Downloads) t w = Inr w1"
      and b: "zeroed_budget (ge_budget c) = Inr b"
      and e: "human_envelope i [] b False (closed_to_models (ge_disclosure c)) d0 actor t (ge_version c + 1) = Inr e"
      and w2: "append_analyst_decision ?d w1 = Inr w2"
      and w': "save_envelope e (Some n) (leave_policy c t w2) = Inr w'"
    using assms False c v
    by (auto simp: revoke_envelope_def Let_def and_then_Inr as_envelope_conflict_Inr d0_def [symmetric] split: option.splits if_splits)
  note e' = human_envelope_Inr [OF e]
  have d: "ad_id ?d = ad_id d0" by simp
  have "investigation_of (iv_id v) w = Some v" using v investigation_of_key [OF v] by simp
  note sync = synchronize_Inr [OF w1 this]
  have w2': "w2 = w1\<lparr>gw_decisions := gw_decisions w1 @ [?d]\<rparr>" "list_all (\<lambda>x. ad_id x \<noteq> ad_id ?d) (gw_decisions w1)"
    using w2 by (simp_all add: append_analyst_decision_Inr)
  have i: "ge_investigation_id e = i" "ge_version e = ge_version c + 1" using e' by simp_all
  have some: "envelope_of (ge_investigation_id e) (leave_policy c t w2) = Some c"
    using c w2' i sync by (simp add: envelope_of_def same_but_investigations_def)
  note w'' = save_envelope_next [OF w' some i(2)]
  have "gw_envelopes w' = gw_envelopes (put_envelope e w)"
    using w2' w'' sync by (simp add: put_envelope_def envelope_of_def same_but_investigations_def)
  moreover have "gw_pins (leave_policy c t w2) = gw_pins (leave_policy c t w)"
    using w2' sync by (simp add: leave_policy_def supersede_pin_def same_but_investigations_def)
  ultimately have "human_change (Some c) e ?d t w w'"
    using sync w2' w'' e' c i
    by (auto simp: human_change_def same_but_investigations_def same_policies_def investigation_of_def d0_def)
  moreover have "no_external_rights e"
    using e' zeroed_budget_Inr [OF b] by (simp add: no_external_rights_def closed_to_models_def)
  ultimately show ?thesis
    using revoked [of c ?d] c i e' b actor by (simp add: d0_def)
qed (rule unchanged)

lemma reject_cases:
  assumes "reject_envelope env i actor reason corr n t w = Inr (d, w')"
  obtains (unchanged) "w' = w"
  | (rejected) "w' = w\<lparr>gw_decisions := gw_decisions w @ [d]\<rparr>" "envelope_of i w = None"
  using assms by (auto simp: reject_envelope_def Let_def and_then_Inr append_analyst_decision_Inr split: option.splits if_splits)

lemma spend_cases:
  assumes "spend_budget i op w = Inr w'"
  obtains e b where "envelope_of i w = Some e" "budget_exec op (ge_budget e) = Inr b"
    "w' = put_envelope (e\<lparr>ge_budget := b, ge_version := ge_version e + 1\<rparr>) w"
proof -
  from assms obtain e b where eb: "envelope_of i w = Some e" "budget_exec op (ge_budget e) = Inr b"
      "save_envelope (e\<lparr>ge_budget := b, ge_version := ge_version e + 1\<rparr>) (Some (ge_version e)) w = Inr w'"
    by (auto simp: spend_budget_def and_then_Inr split: option.splits)
  have "envelope_of (ge_investigation_id (e\<lparr>ge_budget := b, ge_version := ge_version e + 1\<rparr>)) w = Some e"
    using eb(1) envelope_of_key [OF eb(1)] by simp
  from save_envelope_next [OF eb(3) this] eb(1,2) that show ?thesis by simp
qed

lemma create_inherited_cases:
  assumes "create_policy_inherited_envelope i p n ev actor caps dis t w = Inr (e, w')" and "envelope_of i w = None"
  obtains b where "new_budget (oc_budget_limits caps) = Inr b" "gw_envelopes w' = gw_envelopes (put_envelope e w)"
    "gw_pins w' = gw_pins w" "gw_decisions w' = gw_decisions w" "same_policies w w'" "envelope_post_init e = Inr e"
    "\<And>j. map_option iv_subject_id (investigation_of j w') = map_option iv_subject_id (investigation_of j w)"
    "e = \<lparr>ge_investigation_id = i, ge_allowed_providers = oc_allowed_providers caps,
      ge_budget = b, ge_acquire_hits_allowed = oc_acquire_hits_allowed caps, ge_disclosure = dis,
      ge_approval_decision_id = ev, ge_approval_actor_id = py_strip actor, ge_authority_kind = EnvOsintPolicy,
      ge_inherited_policy_id = Some p, ge_inherited_policy_version = Some n,
      ge_inherited_policy_event_id = Some ev, ge_approved_at = t, ge_version = 1\<rparr>"
proof -
  let ?e = "\<lambda>b. \<lparr>ge_investigation_id = i, ge_allowed_providers = oc_allowed_providers caps,
      ge_budget = b, ge_acquire_hits_allowed = oc_acquire_hits_allowed caps, ge_disclosure = dis,
      ge_approval_decision_id = ev, ge_approval_actor_id = py_strip actor, ge_authority_kind = EnvOsintPolicy,
      ge_inherited_policy_id = Some p, ge_inherited_policy_version = Some n,
      ge_inherited_policy_event_id = Some ev, ge_approved_at = t, ge_version = 1\<rparr>"
  from assms obtain v b w1 where v: "investigation_of i w = Some v" and b: "new_budget (oc_budget_limits caps) = Inr b"
    and e: "envelope_post_init (?e b) = Inr e" and w1: "save_envelope e None w = Inr w1"
    and w': "synchronize_downloads v (amount (oc_budget_limits caps) Downloads) t w1 = Inr w'"
    by (auto simp: create_policy_inherited_envelope_def and_then_Inr as_envelope_conflict_Inr split: option.splits if_splits)
  have e': "e = ?e b" using envelope_post_init_Inr [OF e] .
  have "envelope_of (ge_investigation_id e) w = None" using assms(2) e' by simp
  note w1' = save_envelope_new [OF w1 this]
  have "investigation_of (iv_id v) w1 = Some v" using v investigation_of_key [OF v] w1' by (simp add: investigation_of_def)
  note sync = synchronize_Inr [OF w' this]
  show ?thesis
    using b sync w1' e e'
    by (intro that [of b]) (auto simp: same_but_investigations_def same_policies_def investigation_of_def)
qed

end
