(* ===== verification/AuthoritySafety.thy ===== *)
theory AuthoritySafety
  imports AuthorityChanges
begin

text \<open>
  A revoked policy authorises nothing more. One invariant over the pins and the versions: a pin that is
  still active is younger than every revocation of its policy, and a pin that has left the
  active state never returns to it.
\<close>

subsection \<open>Pins only settle\<close>

definition pin_core :: "inheritance \<Rightarrow> uuid \<times> uuid \<times> uuid \<times> int \<times> uuid" where
  "pin_core x = (in_investigation_id x, in_subject_id x, in_policy_id x, in_policy_version x, in_policy_event_id x)"

definition settles :: "(inheritance \<Rightarrow> inheritance) \<Rightarrow> bool" where
  "settles f = (\<forall>x. pin_core (f x) = pin_core x \<and> (in_status (f x) = PinActive \<longrightarrow> in_status x = PinActive))"

definition pins_settle :: "authority_world \<Rightarrow> authority_world \<Rightarrow> bool" where
  "pins_settle w w' = (\<exists>f. settles f \<and> gw_pins w' = map f (gw_pins w))"

definition quiet :: "authority_world \<Rightarrow> authority_world \<Rightarrow> bool" where
  "quiet w w' = (same_policies w w' \<and> pins_settle w w')"

lemma pins_same: "gw_pins w' = gw_pins w \<Longrightarrow> pins_settle w w'"
  unfolding pins_settle_def settles_def by (intro exI [of _ id]) simp

lemma quiet_same: "gw_pins w' = gw_pins w \<Longrightarrow> same_policies w w' \<Longrightarrow> quiet w w'"
  by (simp add: quiet_def pins_same)

lemma quiet_refl [simp]: "quiet w w"
  by (simp add: quiet_same)

lemma pins_settleE:
  assumes "pins_settle w w'"
  obtains f where "settles f" "gw_pins w' = map f (gw_pins w)"
  using assms unfolding pins_settle_def by (elim exE conjE)

lemma quiet_trans:
  assumes "quiet u v" and "quiet v w"
  shows "quiet u w"
proof -
  from assms(1) have "pins_settle u v" by (simp add: quiet_def)
  then obtain f where f: "settles f" "gw_pins v = map f (gw_pins u)" by (rule pins_settleE)
  from assms(2) have "pins_settle v w" by (simp add: quiet_def)
  then obtain g where g: "settles g" "gw_pins w = map g (gw_pins v)" by (rule pins_settleE)
  have "settles (\<lambda>x. g (f x))" using f(1) g(1) unfolding settles_def by metis
  moreover have "gw_pins w = map (\<lambda>x. g (f x)) (gw_pins u)" using f(2) g(2) by simp
  ultimately have "pins_settle u w" unfolding pins_settle_def by (intro exI [of _ "\<lambda>x. g (f x)"] conjI)
  then show ?thesis using assms same_policies_trans [of u v w] by (simp add: quiet_def)
qed

lemma leave_policy_quiet [simp]: "quiet w (leave_policy e t w)"
proof -
  let ?f = "\<lambda>x. if in_investigation_id x = ge_investigation_id e \<and> in_status x \<noteq> PinSuperseded
    then x\<lparr>in_status := PinSuperseded, in_updated_at := t\<rparr> else x"
  have "settles ?f" by (simp add: settles_def pin_core_def)
  then have "pins_settle w (supersede_pin (ge_investigation_id e) t w)"
    unfolding pins_settle_def by (intro exI [of _ ?f]) (simp add: supersede_pin_def update_where_def)
  moreover have "same_policies w (supersede_pin (ge_investigation_id e) t w)"
    by (simp add: same_policies_def supersede_pin_def)
  ultimately show ?thesis by (simp add: quiet_def leave_policy_def pins_same)
qed

lemma human_change_quiet: "human_change c e d t w w' \<Longrightarrow> quiet w w'"
proof -
  assume h: "human_change c e d t w w'"
  have "pins_settle w w'"
  proof (cases c)
    case None
    with h show ?thesis by (simp add: human_change_def pins_same)
  next
    case (Some x)
    with h have "gw_pins w' = gw_pins (leave_policy x t w)" by (simp add: human_change_def)
    with leave_policy_quiet [of w x t] show ?thesis by (simp add: quiet_def pins_settle_def)
  qed
  with h show ?thesis by (simp add: quiet_def human_change_def)
qed

lemma approve_quiet: "approve_envelope env p actor reason corr n t w = Inr (e, w') \<Longrightarrow> quiet w w'"
  by (erule approve_cases) (auto intro: human_change_quiet)

lemma extend_quiet: "extend_envelope env i x actor reason corr t w = Inr (e, w') \<Longrightarrow> quiet w w'"
  by (erule extend_cases) (auto intro: human_change_quiet)

lemma revoke_quiet: "revoke_envelope env i n actor reason corr t w = Inr (e, w') \<Longrightarrow> quiet w w'"
  by (erule revoke_cases) (auto intro: human_change_quiet)

lemma reject_quiet: "reject_envelope env i actor reason corr n t w = Inr (d, w') \<Longrightarrow> quiet w w'"
  by (erule reject_cases) (auto intro: quiet_same simp: same_policies_def)

lemma spend_quiet: "spend_budget i op w = Inr w' \<Longrightarrow> quiet w w'"
  by (erule spend_cases) (auto intro: quiet_same simp: same_policies_def)

lemma save_envelope_quiet:
  assumes "save_envelope e n w = Inr v"
  shows "quiet w v \<and> gw_pins v = gw_pins w"
proof -
  have "v = w \<or> v = put_envelope e w"
    using assms by (auto simp: save_envelope_def put_envelope_def split: option.splits if_splits)
  then show ?thesis by (auto intro: quiet_same simp: same_policies_def)
qed

subsection \<open>The propagation of a revocation\<close>

definition pin_keys :: "authority_world \<Rightarrow> uuid list" where
  "pin_keys w = map in_investigation_id (gw_pins w)"

text \<open>A pin that a status was set for is no longer active, and no other one changed.\<close>

lemma set_status_quiet:
  assumes "set_inheritance_status x s t w = Inr w'" and "s \<noteq> PinActive"
  shows "quiet w w'"
proof -
  let ?f = "\<lambda>y. if in_investigation_id y = in_investigation_id x \<and> in_policy_id y = in_policy_id x
      \<and> in_policy_version y = in_policy_version x \<and> in_status y = PinActive
    then y\<lparr>in_status := s, in_updated_at := t\<rparr> else y"
  have "settles ?f" using assms(2) by (simp add: settles_def pin_core_def)
  then have "quiet w (w\<lparr>gw_pins := map ?f (gw_pins w)\<rparr>)"
    unfolding quiet_def pins_settle_def by (intro conjI exI [of _ ?f]) (simp_all add: same_policies_def)
  moreover have "w' = w \<or> w' = w\<lparr>gw_pins := map ?f (gw_pins w)\<rparr>"
    using assms(1) by (auto simp: set_inheritance_status_def Let_def update_where_def split: if_splits option.splits)
  ultimately show ?thesis by auto
qed

lemma set_status_settled:
  assumes "set_inheritance_status x s t w = Inr w'" and "s \<noteq> PinActive" and "distinct (pin_keys w)"
    and "y \<in> set (gw_pins w')" and "pin_core y = pin_core x"
  shows "in_status y \<noteq> PinActive"
proof (cases "list_ex (\<lambda>y. in_investigation_id y = in_investigation_id x \<and> in_policy_id y = in_policy_id x
    \<and> in_policy_version y = in_policy_version x \<and> in_status y = PinActive) (gw_pins w)")
  case True
  with assms(1,2,4,5) show ?thesis
    by (auto simp: set_inheritance_status_def update_where_def pin_core_def split: if_splits)
next
  case False
  with assms(1) have "w' = w" by (auto simp: set_inheritance_status_def split: option.splits if_splits)
  with False assms(4,5) show ?thesis by (auto simp: list_ex_iff pin_core_def)
qed

lemma propagate_to_Inr:
  assumes "propagate_to x t w = Inr w'"
  obtains v s where "quiet w v" "gw_pins v = gw_pins w" "s \<noteq> PinActive" "set_inheritance_status x s t v = Inr w'"
proof -
  consider "set_inheritance_status x PinSuperseded t w = Inr w'"
    | e n v where "save_envelope e n w = Inr v" "set_inheritance_status x PinRevoked t v = Inr w'"
    using assms by (auto simp: propagate_to_def and_then_Inr split: option.splits if_splits)
  then show ?thesis
  proof cases
    case 1
    then show ?thesis using that [of w PinSuperseded] by simp
  next
    case 2
    then show ?thesis using that [of v PinRevoked] save_envelope_quiet by blast
  qed
qed

lemma quiet_keys: "quiet w w' \<Longrightarrow> pin_keys w' = pin_keys w"
  by (auto simp: quiet_def pins_settle_def settles_def pin_core_def pin_keys_def)

lemma quiet_active:
  assumes "quiet w w'" and "y \<in> set (gw_pins w')" and "in_status y = PinActive"
  shows "\<exists>x\<in>set (gw_pins w). pin_core x = pin_core y \<and> in_status x = PinActive"
  using assms by (force simp: quiet_def pins_settle_def settles_def)

lemma propagate_quiet: "propagate_revocation xs t w = Inr w' \<Longrightarrow> quiet w w'"
proof (induction xs arbitrary: w)
  case (Cons x xs)
  then obtain v where "propagate_to x t w = Inr v" "quiet v w'" by (auto simp: and_then_Inr)
  then show ?case using set_status_quiet quiet_trans by (metis propagate_to_Inr)
qed simp

lemma propagate_settles:
  "propagate_revocation xs t w = Inr w' \<Longrightarrow> distinct (pin_keys w) \<Longrightarrow> x \<in> set xs \<Longrightarrow> y \<in> set (gw_pins w') \<Longrightarrow>
   pin_core y = pin_core x \<Longrightarrow> in_status y \<noteq> PinActive"
proof (induction xs arbitrary: w)
  case (Cons z zs)
  then obtain v where v: "propagate_to z t w = Inr v" "propagate_revocation zs t v = Inr w'" by (auto simp: and_then_Inr)
  from v(1) obtain u s where u: "quiet w u" "s \<noteq> PinActive" "set_inheritance_status z s t u = Inr v" by (rule propagate_to_Inr)
  have keys: "distinct (pin_keys u)" "distinct (pin_keys v)"
    using u Cons.prems(2) quiet_keys [of w u] quiet_keys [OF set_status_quiet [OF u(3,2)]] by simp_all
  show ?case
  proof (cases "x \<in> set zs")
    case True
    with Cons.IH [OF v(2) keys(2)] Cons.prems show ?thesis by blast
  next
    case False
    with Cons.prems(3) have "x = z" by simp
    show ?thesis
    proof
      assume "in_status y = PinActive"
      from quiet_active [OF propagate_quiet [OF v(2)] Cons.prems(4) this] obtain y0 where
        "y0 \<in> set (gw_pins v)" "pin_core y0 = pin_core z" "in_status y0 = PinActive" using Cons.prems(5) \<open>x = z\<close> by auto
      with set_status_settled [OF u(3,2) keys(1)] show False by blast
    qed
  qed
qed simp

subsection \<open>The invariant\<close>

definition revocations_older :: "authority_world \<Rightarrow> bool" where
  "revocations_older w = (\<forall>x\<in>set (gw_pins w). in_status x = PinActive \<longrightarrow>
     (\<forall>p\<in>set (gw_policies w). op_policy_id p = in_policy_id x \<longrightarrow> op_status p = PolicyRevoked \<longrightarrow>
        op_version p < in_policy_version x))"

definition version_keys :: "authority_world \<Rightarrow> (uuid \<times> int) list" where
  "version_keys w = map (\<lambda>p. (op_policy_id p, op_version p)) (gw_policies w)"

definition authority_inv :: "authority_world \<Rightarrow> bool" where
  "authority_inv w = (distinct (pin_keys w) \<and> distinct (version_keys w) \<and> revocations_older w)"

lemma quiet_inv: "authority_inv w \<Longrightarrow> quiet w w' \<Longrightarrow> authority_inv w'"
proof -
  assume inv: "authority_inv w" and q: "quiet w w'"
  then have "gw_policies w' = gw_policies w" by (simp add: quiet_def same_policies_def)
  moreover have "revocations_older w'" unfolding revocations_older_def
  proof (intro ballI impI)
    fix y p assume y: "y \<in> set (gw_pins w')" "in_status y = PinActive" and p: "p \<in> set (gw_policies w')"
      "op_policy_id p = in_policy_id y" "op_status p = PolicyRevoked"
    from quiet_active [OF q y] obtain x where x: "x \<in> set (gw_pins w)" "pin_core x = pin_core y" "in_status x = PinActive" by blast
    have "op_version p < in_policy_version x"
      using inv x p calculation by (auto simp: authority_inv_def revocations_older_def pin_core_def)
    with x(2) show "op_version p < in_policy_version y" by (simp add: pin_core_def)
  qed
  ultimately show "authority_inv w'"
    using inv quiet_keys [OF q] by (simp add: authority_inv_def version_keys_def)
qed

lemma add_version_Inr:
  "add_version p e w = Inr w' \<Longrightarrow> w' = w\<lparr>gw_policies := gw_policies w @ [p], gw_events := gw_events w @ [e]\<rparr>
     \<and> (op_policy_id p, op_version p) \<notin> set (version_keys w)"
  by (auto simp: add_version_def list_ex_iff version_keys_def split: if_splits)

lemma new_version_Inr:
  assumes "new_version i kind scope n prev st caps actor reason corr act ev t = Inr p"
  shows "op_policy_id p = i \<and> op_version p = n \<and> op_scope_kind p = kind \<and> op_scope_ref p = scope \<and> op_status p = st
    \<and> op_capabilities p = caps \<and> op_event_id p = ev \<and> op_activation_correlation_id p = py_strip act
    \<and> op_previous_version p = prev \<and> op_correlation_id p = py_strip corr \<and> op_actor_id p = py_strip actor"
  using policy_post_init_Inr [OF assms [unfolded new_version_def]] by simp

text \<open>A version that is not a revocation leaves the invariant alone.\<close>

lemma add_active_inv:
  assumes "authority_inv w" and "add_version p e w = Inr w'" and "op_status p = PolicyActive"
  shows "authority_inv w'"
  using add_version_Inr [OF assms(2)] assms(1,3)
  by (auto simp: authority_inv_def version_keys_def pin_keys_def revocations_older_def)

lemma replay_row: "replay_policy corr payload w = Inr (Some p) \<Longrightarrow> p \<in> set (gw_policies w)"
  by (auto simp: replay_policy_def by_correlation_def get_version_def and_then_Inr dest!: find_member
    split: option.splits if_splits)

lemma activate_cases:
  assumes "activate_policy env kind raw caps actor reason corr ev t w = Inr (p, w')"
  obtains (replayed) "w' = w" "p \<in> set (gw_policies w)"
  | (activated) scope where "normalize_scope_ref kind raw = Inr scope"
      "activate_scope env kind scope caps actor reason corr ev t w = Inr (p, w')"
proof -
  from assms obtain scope replay where h: "normalize_scope_ref kind raw = Inr scope"
    "replay_policy corr (payload_hash env ''activate'' kind scope (Some caps) actor reason corr corr None) w = Inr replay"
    "(case replay of Some p \<Rightarrow> Inr (p, w) | None \<Rightarrow> activate_scope env kind scope caps actor reason corr ev t w) = Inr (p, w')"
    unfolding activate_policy_def and_then_Inr by blast
  then show ?thesis using replayed activated replay_row by (cases replay) auto
qed

lemma activate_scope_Inr:
  assumes "activate_scope env kind scope caps actor reason corr ev t w = Inr (p, w')"
  shows "(latest_for_scope kind scope w = None \<or> op_status (the (latest_for_scope kind scope w)) \<noteq> PolicyActive)
    \<and> new_version (stable_policy_id env kind scope) kind scope
        (case latest_for_scope kind scope w of None \<Rightarrow> 1 | Some q \<Rightarrow> op_version q + 1)
        (map_option op_version (latest_for_scope kind scope w)) PolicyActive caps actor reason corr corr ev t = Inr p
    \<and> add_version p (event_for env p PolicyActivated) w = Inr w'"
  using assms unfolding activate_scope_def Let_def and_then_Inr by (auto simp: and_then_Inr split: if_splits)

lemma activate_inv:
  "authority_inv w \<Longrightarrow> activate_policy env kind raw caps actor reason corr ev t w = Inr (p, w') \<Longrightarrow> authority_inv w'"
  by (erule activate_cases) (auto dest!: activate_scope_Inr new_version_Inr elim: add_active_inv)

lemma extend_policy_cases:
  assumes "extend_policy env i n caps actor reason corr ev t w = Inr (p, w')"
  obtains (replayed) "w' = w" "p \<in> set (gw_policies w)"
  | (extended) c l where "get_version i n w = Some c" "current_version c n ''A revoked policy cannot be extended'' w = Inr l"
      "require_growth_from caps (op_capabilities l) = Inr ()"
      "new_version i (op_scope_kind c) (op_scope_ref c) (n + 1) (Some n) PolicyActive caps actor reason corr
        (op_activation_correlation_id c) ev t = Inr p"
      "add_version p (event_for env p PolicyExtended) w = Inr w'"
proof -
  have growth: "as_policy_error r = Inr x \<Longrightarrow> r = Inr x" for r :: "unit result" and x
    by (auto simp: as_policy_error_def split: sum.splits error.splits)
  from assms obtain c where c: "get_version i n w = Some c"
    by (auto simp: extend_policy_def and_then_Inr split: option.splits)
  with assms obtain replay where h:
    "replay_policy corr (payload_hash env ''extend'' (op_scope_kind c) (op_scope_ref c) (Some caps) actor reason corr
      (op_activation_correlation_id c) (Some n)) w = Inr replay"
    "(case replay of Some p \<Rightarrow> Inr (p, w) | None \<Rightarrow>
       and_then (current_version c n ''A revoked policy cannot be extended'' w) (\<lambda>latest.
       and_then (as_policy_error (require_growth_from caps (op_capabilities latest))) (\<lambda>_.
       and_then (new_version i (op_scope_kind c) (op_scope_ref c) (n + 1) (Some n)
         PolicyActive caps actor reason corr (op_activation_correlation_id c) ev t) (\<lambda>p.
       and_then (add_version p (event_for env p PolicyExtended) w) (\<lambda>w1. Inr (p, w1)))))) = Inr (p, w')"
    unfolding extend_policy_def by (auto simp: and_then_Inr [of "replay_policy corr _ w"] and_then_Inr [of "validate_audit_fields env actor reason corr"] and_then_Inr [of "validate_actor actor"] and_then_Inr [of "validate_capabilities env caps"])
  show ?thesis
  proof (cases replay)
    case None
    with h(2) c show ?thesis by (auto simp: and_then_Inr intro: extended dest: growth)
  qed (use h replayed replay_row in auto)
qed

lemma extend_policy_inv:
  "authority_inv w \<Longrightarrow> extend_policy env i n caps actor reason corr ev t w = Inr (p, w') \<Longrightarrow> authority_inv w'"
  by (erule extend_policy_cases) (auto dest!: new_version_Inr elim: add_active_inv)

text \<open>The revocation proper: a new version, then the propagation to the active pins of the policy.\<close>

lemma revoke_policy_cases:
  assumes "revoke_policy env i n actor reason corr ev t w = Inr (p, w')"
  obtains (replayed) "w' = w" "p \<in> set (gw_policies w)"
  | (revoked) c l caps w1 where "get_version i n w = Some c" "current_version c n ''Policy is already revoked'' w = Inr l"
      "revoked_capabilities (op_capabilities l) = Inr caps"
      "new_version i (op_scope_kind c) (op_scope_ref c) (n + 1) (Some n) PolicyRevoked caps actor reason corr
        (op_activation_correlation_id c) ev t = Inr p"
      "add_version p (event_for env p PolicyRevokedEvent) w = Inr w1"
      "propagate_revocation (active_inheritances i w1) t w1 = Inr w'"
proof -
  from assms obtain c where c: "get_version i n w = Some c"
    by (auto simp: revoke_policy_def and_then_Inr split: option.splits)
  with assms obtain replay where h:
    "replay_policy corr (payload_hash env ''revoke'' (op_scope_kind c) (op_scope_ref c) None actor reason corr
      (op_activation_correlation_id c) (Some n)) w = Inr replay"
    "(case replay of Some p \<Rightarrow> Inr (p, w) | None \<Rightarrow>
       and_then (current_version c n ''Policy is already revoked'' w) (\<lambda>latest.
       and_then (revoked_capabilities (op_capabilities latest)) (\<lambda>caps.
       and_then (new_version i (op_scope_kind c) (op_scope_ref c) (n + 1) (Some n)
         PolicyRevoked caps actor reason corr (op_activation_correlation_id c) ev t) (\<lambda>p.
       and_then (add_version p (event_for env p PolicyRevokedEvent) w) (\<lambda>w1.
       and_then (propagate_revocation (active_inheritances i w1) t w1) (\<lambda>w2. Inr (p, w2))))))) = Inr (p, w')"
    unfolding revoke_policy_def by (auto simp: and_then_Inr [of "replay_policy corr _ w"] and_then_Inr [of "validate_audit_fields env actor reason corr"] and_then_Inr [of "validate_actor actor"])
  show ?thesis
  proof (cases replay)
    case None
    with h(2) c show ?thesis by (auto simp: and_then_Inr intro: revoked)
  qed (use h replayed replay_row in auto)
qed

lemma revoke_policy_inv:
  assumes inv: "authority_inv w" and revoke: "revoke_policy env i n actor reason corr ev t w = Inr (p, w')"
  shows "authority_inv w'"
  using revoke
proof (cases rule: revoke_policy_cases)
  case (revoked c l caps w1)
  note w1 = add_version_Inr [OF revoked(5)] and p = new_version_Inr [OF revoked(4)]
  have keys: "distinct (pin_keys w1)" "distinct (version_keys w1)"
    using inv w1 by (simp_all add: authority_inv_def pin_keys_def version_keys_def)
  note q = propagate_quiet [OF revoked(6)]
  have "revocations_older w'" unfolding revocations_older_def
  proof (intro ballI impI)
    fix y q' assume y: "y \<in> set (gw_pins w')" "in_status y = PinActive" and q': "q' \<in> set (gw_policies w')"
      "op_policy_id q' = in_policy_id y" "op_status q' = PolicyRevoked"
    from quiet_active [OF q y] obtain x where x: "x \<in> set (gw_pins w1)" "pin_core x = pin_core y" "in_status x = PinActive" by blast
    have other: "in_policy_id x \<noteq> i"
    proof
      assume "in_policy_id x = i"
      with x have "x \<in> set (active_inheritances i w1)" by (simp add: active_inheritances_def)
      from propagate_settles [OF revoked(6) keys(1) this y(1)] x(2) y(2) show False by simp
    qed
    have "q' \<in> set (gw_policies w1)" using q q'(1) by (simp add: quiet_def same_policies_def)
    with other x(2) q'(2) w1 p have "q' \<in> set (gw_policies w)" by (auto simp: pin_core_def)
    with inv x w1 q' show "op_version q' < in_policy_version y"
      by (auto simp: authority_inv_def revocations_older_def pin_core_def)
  qed
  with keys quiet_keys [OF q] q show ?thesis by (simp add: authority_inv_def version_keys_def quiet_def same_policies_def)
qed (use inv in simp)

subsection \<open>A new pin\<close>

lemma newest_max: "newest ps = Some p \<Longrightarrow> p \<in> set ps \<and> (\<forall>q\<in>set ps. op_version q \<le> op_version p)"
proof -
  assume h: "newest ps = Some p"
  then have ne: "sort_key op_version ps \<noteq> []" and p: "p = last (sort_key op_version ps)"
    by (auto simp: newest_def split: list.splits)
  have "p \<in> set ps" using p last_in_set [OF ne] by simp
  moreover have "op_version q \<le> op_version p" if "q \<in> set ps" for q
  proof -
    obtain rs where split: "sort_key op_version ps = rs @ [p]" using p ne by (metis append_butlast_last_id)
    have "sorted (map op_version (rs @ [p]))" using split by (metis sorted_sort_key)
    moreover have "q \<in> set (rs @ [p])" using that split by (metis set_sort)
    ultimately show ?thesis by (auto simp: sorted_append)
  qed
  ultimately show ?thesis by blast
qed

lemma matching_subset: "matching_policies s ps = Inr qs \<Longrightarrow> set qs \<subseteq> set ps"
  by (induction ps arbitrary: qs) (auto simp: and_then_Inr split: if_splits)

lemma candidate_latest:
  assumes "latest_for_subject s w = Inr qs" and "p \<in> set qs"
  shows "p \<in> set (gw_policies w) \<and> (\<forall>q\<in>set (gw_policies w). op_policy_id q = op_policy_id p \<longrightarrow> op_version q \<le> op_version p)"
proof -
  from assms have "p \<in> set (latest_versions w)" unfolding latest_for_subject_def using matching_subset by blast
  then obtain i where "latest_of_policy i w = Some p" by (auto simp: latest_versions_def List.map_filter_def)
  from newest_max [OF this [unfolded latest_of_policy_def]] show ?thesis by auto
qed

lemma filter_head: "filter P xs = y # ys \<Longrightarrow> y \<in> set xs"
  by (metis filter_is_subset list.set_intros(1) subsetD)

lemma applicable_Inr: "applicable_policy qs = Inr (Some p) \<Longrightarrow> p \<in> set qs \<and> op_status p = PolicyActive"
  by (auto simp: applicable_policy_def Let_def split: if_splits list.splits option.splits dest: filter_head)

lemma start_cases:
  assumes "ensure_inherited_envelope i s source at t w = Inr (e, w')"
  obtains (unchanged) "w' = w"
  | (pinned) qs p where "latest_for_subject s w = Inr qs" "applicable_policy qs = Inr (Some p)" "pin_of i w = None"
      "envelope_of i w = None" "inherit_policy p i s source t w = Inr (e, w')"
  using assms
  by (auto simp: ensure_inherited_envelope_def and_then_Inr split: if_splits option.splits)

lemma inherit_policy_Inr:
  assumes "inherit_policy p i s source t w = Inr (e, w')"
    and "envelope_of i w = None"
  obtains e1 w1 where "create_policy_inherited_envelope i (op_policy_id p) (op_version p) (op_event_id p) (op_actor_id p)
      (op_capabilities p) (intersect_disclosure (ss_tlp source) (ss_do_not_submit source) (ss_external_llm_allowed source)
        (oc_disclosure (op_capabilities p))) t w = Inr (e1, w1)"
    "gw_pins w1 = gw_pins w" "same_policies w w1" "i \<notin> set (pin_keys w)"
    "w' = w1\<lparr>gw_pins := gw_pins w1 @ [new_pin p i s t]\<rparr>"
proof -
  let ?create = "create_policy_inherited_envelope i (op_policy_id p) (op_version p) (op_event_id p) (op_actor_id p)
      (op_capabilities p) (intersect_disclosure (ss_tlp source) (ss_do_not_submit source) (ss_external_llm_allowed source)
        (oc_disclosure (op_capabilities p))) t w"
  from assms(1) obtain y where y: "?create = Inr y" "(case y of (e, w1) \<Rightarrow> (case add_inheritance (new_pin p i s t) w1 of
       Inl _ \<Rightarrow> Inl (policy_conflict ''Concurrent policy inheritance; retry start'')
     | Inr w2 \<Rightarrow> Inr (Some e, w2))) = Inr (e, w')"
    unfolding inherit_policy_def and_then_Inr by blast
  obtain e1 w1 where w1: "y = (e1, w1)" by (cases y)
  with y have created: "?create = Inr (e1, w1)" and w': "add_inheritance (new_pin p i s t) w1 = Inr w'"
    by (auto split: sum.splits)
  from created assms(2) have "gw_pins w1 = gw_pins w" "same_policies w w1"
    by (auto elim: create_inherited_cases)
  moreover have "i \<notin> set (pin_keys w)" "w' = w1\<lparr>gw_pins := gw_pins w1 @ [new_pin p i s t]\<rparr>"
    using w' calculation(1) by (auto simp: add_inheritance_def new_pin_def list_ex_iff pin_keys_def split: if_splits)
  ultimately show ?thesis by (rule that [OF created])
qed

lemma start_inv:
  assumes inv: "authority_inv w" and start: "ensure_inherited_envelope i s source at t w = Inr (e, w')"
  shows "authority_inv w'"
  using start
proof (cases rule: start_cases)
  case (pinned qs p)
  from pinned(5,4) obtain e1 w1 where w1: "gw_pins w1 = gw_pins w" "same_policies w w1" "i \<notin> set (pin_keys w)"
    "w' = w1\<lparr>gw_pins := gw_pins w1 @ [new_pin p i s t]\<rparr>" by (rule inherit_policy_Inr)
  note active = applicable_Inr [OF pinned(2)]
  note latest = candidate_latest [OF pinned(1)]
  have older: "op_version q < op_version p" if "q \<in> set (gw_policies w)" "op_policy_id q = op_policy_id p"
    "op_status q = PolicyRevoked" for q
  proof -
    have "p \<in> set (gw_policies w)" "op_version q \<le> op_version p" using latest active that by blast+
    moreover have "op_version q \<noteq> op_version p"
      using inv that active calculation(1) by (auto simp: authority_inv_def version_keys_def distinct_map inj_on_def)
    ultimately show ?thesis by simp
  qed
  have "pin_keys w' = pin_keys w @ [i]" "version_keys w' = version_keys w"
    using w1 by (simp_all add: pin_keys_def version_keys_def new_pin_def same_policies_def)
  moreover have "revocations_older w'"
    using inv w1 older by (auto simp: authority_inv_def revocations_older_def same_policies_def new_pin_def)
  ultimately show ?thesis using inv w1(3) by (simp add: authority_inv_def)
qed (use inv in simp)

lemma other_tables_inv:
  "authority_inv w \<Longrightarrow> authority_inv (w\<lparr>gw_investigations := vs\<rparr>)" "authority_inv w \<Longrightarrow> authority_inv (w\<lparr>gw_subjects := ss\<rparr>)"
  "authority_inv w \<Longrightarrow> authority_inv (w\<lparr>gw_states := is\<rparr>)" "authority_inv w \<Longrightarrow> authority_inv (w\<lparr>gw_invocations := is\<rparr>)"
  by (simp_all add: authority_inv_def pin_keys_def version_keys_def revocations_older_def)

lemma authority_exec_inv: "authority_inv w \<Longrightarrow> authority_exec env op w = Inr w' \<Longrightarrow> authority_inv w'"
proof (cases op)
  case (OpStart i source at t)
  moreover assume "authority_inv w" "authority_exec env op w = Inr w'"
  ultimately show ?thesis by (auto simp: tables_of_Inr split: option.splits intro: start_inv)
qed (auto simp: tables_of_Inr and_then_Inr split: if_splits
  intro: other_tables_inv activate_inv extend_policy_inv revoke_policy_inv quiet_inv approve_quiet extend_quiet reject_quiet revoke_quiet
    spend_quiet)

interpretation authority: guarded_machine "authority_exec env" authority_inv
  by unfold_locales (rule authority_exec_inv)

end
