(* ===== verification/AuthorityExample.thy ===== *)
theory AuthorityExample
  imports AuthoritySafety
begin

text \<open>
  One concrete run the properties of the rights are applied to: a policy of the instance is
  activated, an investigation starts under it, the policy is revoked. Each step is evaluated once.
\<close>

definition empty_authority :: authority_world where
  "empty_authority = \<lparr>gw_investigations = [], gw_subjects = [], gw_states = [], gw_invocations = [], gw_envelopes = [],
     gw_decisions = [], gw_policies = [], gw_events = [], gw_pins = []\<rparr>"

definition open_capabilities :: osint_capabilities where
  "open_capabilities = \<lparr>oc_allowed_providers = [''vt''], oc_budget_limits = [(VtUnits, 10), (Downloads, 10), (BridgeTurns, 1),
     (ToolSeconds, 60), (ContextBytes, 1000), (ContextTokens, 250)], oc_acquire_hits_allowed = True,
     oc_disclosure = \<lparr>db_tlp = Some TlpGreen, db_do_not_submit = False, db_external_llm_allowed = True\<rparr>,
     oc_max_effect_claims = 5\<rparr>"

definition example_env :: governance_env where
  "example_env = \<lparr>gv_uuid5 = (\<lambda>s. of_char (hd s)), gv_policy_uuid5 = (\<lambda>_. 70), gv_sha = (\<lambda>_. []), gv_max_tool_seconds = 60,
     gv_max_context_bytes = 1000, gv_maximum = (\<lambda>_. 1000), gv_max_effect_claims = 100, gv_unsafe_text = (\<lambda>_. False)\<rparr>"

definition example_source :: source_snapshot where
  "example_source = \<lparr>ss_subject_id = 2, ss_tlp = Some ''green'', ss_do_not_submit = False, ss_external_llm_allowed = True\<rparr>"

definition example_start :: "authority_op list" where
  "example_start = [NewSubject 2, NewInvestigation demo_investigation,
     OpActivate ScopeInstance ''instance'' open_capabilities ''ana'' ''search'' ''c1'' 20 (utc 1),
     OpStart 4 example_source True (utc 2)]"

definition first_version :: osint_policy where
  "first_version = \<lparr>op_policy_id = 70, op_version = 1, op_scope_kind = ScopeInstance, op_scope_ref = ''instance'',
     op_mode = ModeOsintOpen, op_status = PolicyActive, op_capabilities = open_capabilities, op_actor_id = ''ana'',
     op_reason = ''search'', op_correlation_id = ''c1'', op_activation_correlation_id = ''c1'', op_event_id = 20,
     op_created_at = utc 1, op_previous_version = None\<rparr>"

definition first_event :: osint_event where
  "first_event = \<lparr>oe_id = 20, oe_policy_id = 70, oe_policy_version = 1, oe_event_type = PolicyActivated, oe_actor_id = ''ana'',
     oe_reason = ''search'', oe_correlation_id = ''c1'', oe_payload_sha256 = [], oe_previous_version = None,
     oe_created_at = utc 1\<rparr>"

definition active_world :: authority_world where
  "active_world = \<lparr>gw_investigations = [demo_investigation], gw_subjects = [2], gw_states = [], gw_invocations = [],
     gw_envelopes = [], gw_decisions = [], gw_policies = [first_version], gw_events = [first_event], gw_pins = []\<rparr>"

definition first_envelope :: envelope where
  "first_envelope = \<lparr>ge_investigation_id = 4, ge_allowed_providers = [''vt''],
     ge_budget = \<lparr>ib_limits = oc_budget_limits open_capabilities, ib_reservations = []\<rparr>, ge_acquire_hits_allowed = True,
     ge_disclosure = oc_disclosure open_capabilities, ge_approval_decision_id = 20, ge_approval_actor_id = ''ana'',
     ge_authority_kind = EnvOsintPolicy, ge_inherited_policy_id = Some 70, ge_inherited_policy_version = Some 1,
     ge_inherited_policy_event_id = Some 20, ge_approved_at = utc 2, ge_version = 1\<rparr>"

definition started_investigation :: investigation where
  "started_investigation = bump (utc 2) (demo_investigation\<lparr>iv_budget := raised_caps 10 (iv_budget demo_investigation)\<rparr>)"

definition started_world :: authority_world where
  "started_world = active_world\<lparr>gw_investigations := [started_investigation], gw_envelopes := [first_envelope],
     gw_pins := [new_pin first_version 4 2 (utc 2)]\<rparr>"

lemma example_hash [simp]: "payload_hash example_env action kind scope caps actor reason c c' n = []"
  by (simp add: payload_hash_def example_env_def)

lemma example_valid:
  "capabilities_post_init open_capabilities = Inr open_capabilities" "validate_capabilities example_env open_capabilities = Inr ()"
  "validate_audit_fields example_env ''ana'' ''search'' ''c1'' = Inr ()" "validate_actor ''ana'' = Inr ()"
  "new_version 70 ScopeInstance ''instance'' 1 None PolicyActive open_capabilities ''ana'' ''search'' ''c1'' ''c1'' 20 (utc 1)
     = Inr first_version"
  by (code_simp, code_simp, code_simp, code_simp, code_simp)

definition known_world :: authority_world where
  "known_world = empty_authority\<lparr>gw_investigations := [demo_investigation], gw_subjects := [2]\<rparr>"

lemma example_event: "event_for example_env first_version PolicyActivated = first_event"
  by (simp add: event_for_def first_version_def first_event_def)

lemma example_policy_id: "stable_policy_id example_env kind scope = 70"
  by (simp add: stable_policy_id_def example_env_def)

lemma example_activated:
  "activate_policy example_env ScopeInstance ''instance'' open_capabilities ''ana'' ''search'' ''c1'' 20 (utc 1) known_world
   = Inr (first_version, active_world)"
  by (simp add: activate_policy_def example_valid normalize_scope_ref_def replay_policy_def by_correlation_def activate_scope_def
      latest_for_scope_def newest_def missing_subject_def example_policy_id example_event known_world_def empty_authority_def
      add_version_def active_world_def)

lemma example_candidates: "latest_for_subject 2 active_world = Inr [first_version]" "applicable_policy [first_version] = Inr (Some first_version)"
  by (simp_all add: latest_for_subject_def latest_versions_def latest_of_policy_def newest_def active_world_def contains_subject_def
    applicable_policy_def first_version_def List.map_filter_def)

lemma example_inherited:
  "intersect_disclosure (Some ''green'') False True (oc_disclosure open_capabilities) = oc_disclosure open_capabilities"
  "new_budget (oc_budget_limits open_capabilities) = Inr \<lparr>ib_limits = oc_budget_limits open_capabilities, ib_reservations = []\<rparr>"
  "envelope_post_init first_envelope = Inr first_envelope" "amount (oc_budget_limits open_capabilities) Downloads = 10"
  "oc_allowed_providers open_capabilities = [''vt'']" "oc_acquire_hits_allowed open_capabilities"
  "\<not> blank ''ana''" "py_strip ''ana'' = ''ana''"
  by (code_simp, code_simp, code_simp, code_simp, code_simp, code_simp, code_simp, code_simp)

lemma example_created:
  "create_policy_inherited_envelope 4 70 1 20 ''ana'' open_capabilities (oc_disclosure open_capabilities) (utc 2) active_world
   = Inr (first_envelope, active_world\<lparr>gw_investigations := [started_investigation], gw_envelopes := [first_envelope]\<rparr>)"
proof -
  have "envelope_post_init first_envelope = Inr first_envelope" by (rule example_inherited)
  then show ?thesis
    by (simp add: create_policy_inherited_envelope_def example_inherited(1,2,4-8) first_envelope_def [symmetric] envelope_of_def row_with_def
        active_world_def investigation_of_def save_envelope_def as_envelope_conflict_def synchronize_downloads_def)
      (simp add: first_envelope_def save_investigation_def investigation_of_def row_with_def update_where_def bump_def started_investigation_def
        demo_investigation_def demo_loop_budget_def raised_caps_def)
qed

lemma example_started: "ensure_inherited_envelope 4 2 example_source True (utc 2) active_world
   = Inr (Some first_envelope, started_world)"
proof -
  have "inherit_policy first_version 4 2 example_source (utc 2) active_world = Inr (Some first_envelope, started_world)"
    using example_created
    by (simp add: inherit_policy_def first_version_def [symmetric] example_source_def example_inherited)
      (simp add: first_version_def example_inherited add_inheritance_def started_world_def active_world_def new_pin_def)
  then show ?thesis
    by (simp add: ensure_inherited_envelope_def example_candidates)
      (simp add: example_candidates pin_of_def envelope_of_def row_with_def active_world_def example_source_def)
qed

lemma started: "drive (authority_exec example_env) example_start empty_authority = started_world"
proof -
  have "drive (authority_exec example_env) [NewSubject 2, NewInvestigation demo_investigation] empty_authority = known_world"
    by (simp add: step_def known_world_def empty_authority_def investigation_of_def row_with_def)
  moreover have "iv_id demo_investigation = 4" "iv_subject_id demo_investigation = 2" by (simp_all add: demo_investigation_def)
  ultimately show ?thesis
    using example_activated example_started
    by (simp add: example_start_def step_def tables_of_def example_valid investigation_of_def active_world_def row_with_def)
qed

definition closed_capabilities :: osint_capabilities where
  "closed_capabilities = \<lparr>oc_allowed_providers = [], oc_budget_limits = [(VtUnits, 0), (Downloads, 0), (BridgeTurns, 1),
     (ToolSeconds, 60), (ContextBytes, 1000), (ContextTokens, 250), (ShodanCredits, 0)], oc_acquire_hits_allowed = False,
     oc_disclosure = \<lparr>db_tlp = Some TlpGreen, db_do_not_submit = False, db_external_llm_allowed = False\<rparr>,
     oc_max_effect_claims = 5\<rparr>"

definition second_version :: osint_policy where
  "second_version = first_version\<lparr>op_version := 2, op_status := PolicyRevoked, op_capabilities := closed_capabilities,
     op_reason := ''done'', op_correlation_id := ''c2'', op_event_id := 21, op_created_at := utc 3, op_previous_version := Some 1\<rparr>"

definition second_event :: osint_event where
  "second_event = \<lparr>oe_id = 21, oe_policy_id = 70, oe_policy_version = 2, oe_event_type = PolicyRevokedEvent, oe_actor_id = ''ana'',
     oe_reason = ''done'', oe_correlation_id = ''c2'', oe_payload_sha256 = [], oe_previous_version = Some 1,
     oe_created_at = utc 3\<rparr>"

definition closed_envelope :: envelope where
  "closed_envelope = first_envelope\<lparr>ge_allowed_providers := [],
     ge_budget := \<lparr>ib_limits = oc_budget_limits closed_capabilities, ib_reservations = []\<rparr>, ge_acquire_hits_allowed := False,
     ge_disclosure := oc_disclosure closed_capabilities, ge_version := 2\<rparr>"

definition closed_pin :: inheritance where
  "closed_pin = (new_pin first_version 4 2 (utc 2))\<lparr>in_status := PinRevoked, in_updated_at := utc 3\<rparr>"

definition closed_world :: authority_world where
  "closed_world = started_world\<lparr>gw_envelopes := [closed_envelope], gw_policies := [first_version, second_version],
     gw_events := [first_event, second_event], gw_pins := [closed_pin]\<rparr>"

lemma example_closing:
  "revoked_capabilities open_capabilities = Inr closed_capabilities" "zeroed_budget (ge_budget first_envelope)
     = Inr \<lparr>ib_limits = oc_budget_limits closed_capabilities, ib_reservations = []\<rparr>"
  "envelope_post_init closed_envelope = Inr closed_envelope" "closed_to_models (ge_disclosure first_envelope) = oc_disclosure closed_capabilities"
  "validate_audit_fields example_env ''ana'' ''done'' ''c2'' = Inr ()"
  "new_version 70 ScopeInstance ''instance'' 2 (Some 1) PolicyRevoked closed_capabilities ''ana'' ''done'' ''c2'' ''c1'' 21 (utc 3)
     = Inr second_version"
  by (code_simp, code_simp, code_simp, code_simp, code_simp, code_simp)

lemma example_propagated:
  "propagate_to (new_pin first_version 4 2 (utc 2)) (utc 3) (started_world\<lparr>gw_policies := ps, gw_events := es\<rparr>)
   = Inr (closed_world\<lparr>gw_policies := ps, gw_events := es\<rparr>)"
proof -
  have closed: "first_envelope\<lparr>ge_allowed_providers := [],
     ge_budget := \<lparr>ib_limits = oc_budget_limits closed_capabilities, ib_reservations = []\<rparr>, ge_acquire_hits_allowed := False,
     ge_disclosure := oc_disclosure closed_capabilities, ge_version := 2\<rparr> = closed_envelope" by (simp add: closed_envelope_def)
  have fields: "ge_authority_kind first_envelope = EnvOsintPolicy" "ge_inherited_policy_id first_envelope = Some 70"
    "ge_inherited_policy_version first_envelope = Some 1" "ge_inherited_policy_event_id first_envelope = Some 20"
    "ge_version first_envelope = 1" "ge_investigation_id first_envelope = 4" "ge_investigation_id closed_envelope = 4"
    "ge_version closed_envelope = 2" "iv_id started_investigation = 4" "iv_subject_id started_investigation = 2"
    by (simp_all add: first_envelope_def closed_envelope_def started_investigation_def bump_def demo_investigation_def)
  have pin: "in_investigation_id (new_pin first_version 4 2 (utc 2)) = 4" "in_subject_id (new_pin first_version 4 2 (utc 2)) = 2"
    "in_policy_id (new_pin first_version 4 2 (utc 2)) = 70" "in_policy_version (new_pin first_version 4 2 (utc 2)) = 1"
    "in_policy_event_id (new_pin first_version 4 2 (utc 2)) = 20" "in_status (new_pin first_version 4 2 (utc 2)) = PinActive"
    by (simp_all add: new_pin_def first_version_def)
  have "closed_envelope \<noteq> first_envelope" using fields by auto
  then show ?thesis
    by (auto simp: propagate_to_def fields pin started_world_def investigation_of_def row_with_def envelope_of_def example_closing closed
      save_envelope_def update_where_def set_inheritance_status_def closed_world_def closed_pin_def active_world_def)
qed

lemma example_revoked:
  "revoke_policy example_env 70 1 ''ana'' ''done'' ''c2'' 21 (utc 3) started_world = Inr (second_version, closed_world)"
proof -
  have version: "get_version 70 1 started_world = Some first_version" "by_correlation ''c2'' started_world = Inr None"
    "current_version first_version 1 ''Policy is already revoked'' started_world = Inr first_version"
    by (simp_all add: get_version_def by_correlation_def current_version_def latest_for_scope_def newest_def same_scope_def
      started_world_def active_world_def first_version_def first_event_def)
  have fields: "op_scope_kind first_version = ScopeInstance" "op_scope_ref first_version = ''instance''"
    "op_activation_correlation_id first_version = ''c1''" "op_capabilities first_version = open_capabilities"
    by (simp_all add: first_version_def)
  have event: "event_for example_env second_version PolicyRevokedEvent = second_event"
    by (simp add: event_for_def second_version_def second_event_def first_version_def)
  have added: "add_version second_version second_event started_world = Inr (started_world\<lparr>gw_policies := [first_version, second_version],
      gw_events := [first_event, second_event]\<rparr>)"
    by (simp add: add_version_def started_world_def active_world_def same_scope_def)
      (simp add: second_version_def first_version_def second_event_def first_event_def)
  have pins: "active_inheritances 70 (started_world\<lparr>gw_policies := ps, gw_events := es\<rparr>) = [new_pin first_version 4 2 (utc 2)]" for ps es
    by (simp add: active_inheritances_def started_world_def) (simp add: new_pin_def first_version_def)
  show ?thesis
    by (simp add: revoke_policy_def replay_policy_def version fields event added pins example_closing example_valid example_propagated)
      (simp add: closed_world_def)
qed

text \<open>The same start, then a revocation of the envelope by hand and a narrower extension.\<close>

definition withdrawal :: analyst_decision where
  "withdrawal = \<lparr>ad_investigation_id = 4, ad_decision_type = PivotReject, ad_target_type = TargetPivot, ad_target_id = 4,
     ad_actor_id = ''ana'', ad_reason = ''stop'', ad_correlation_id = ''r1'', ad_id = 114, ad_occurred_at = utc 5,
     ad_details = [(''authorization_ceiling'', bounds_payload first_envelope)]\<rparr>"

definition withdrawn_envelope :: envelope where
  "withdrawn_envelope = \<lparr>ge_investigation_id = 4, ge_allowed_providers = [],
     ge_budget = \<lparr>ib_limits = oc_budget_limits closed_capabilities, ib_reservations = []\<rparr>, ge_acquire_hits_allowed = False,
     ge_disclosure = oc_disclosure closed_capabilities, ge_approval_decision_id = 114, ge_approval_actor_id = ''ana'',
     ge_authority_kind = EnvHumanG2, ge_inherited_policy_id = None, ge_inherited_policy_version = None,
     ge_inherited_policy_event_id = None, ge_approved_at = utc 5, ge_version = 2\<rparr>"

definition withdrawn_world :: authority_world where
  "withdrawn_world = started_world\<lparr>gw_envelopes := [withdrawn_envelope], gw_decisions := [withdrawal],
     gw_pins := [(new_pin first_version 4 2 (utc 2))\<lparr>in_status := PinSuperseded, in_updated_at := utc 5\<rparr>]\<rparr>"

lemma example_withdrawal:
  "decision_for example_env payload 4 PivotReject TargetPivot 4 ''ana'' ''stop'' ''r1'' (utc 5) = withdrawal\<lparr>ad_details := []\<rparr>"
proof -
  have "py_strip ''ana'' = ''ana''" "py_strip ''stop'' = ''stop''" "py_strip ''r1'' = ''r1''" by code_simp+
  then show ?thesis by (simp add: decision_for_def withdrawal_def example_env_def)
qed

lemma example_withdrawn:
  "revoke_envelope example_env 4 1 ''ana'' ''stop'' ''r1'' (utc 5) started_world = Inr (withdrawn_envelope, withdrawn_world)"
proof -
  have fields: "ge_authority_kind first_envelope = EnvOsintPolicy" "ge_version first_envelope = 1"
    "ge_investigation_id first_envelope = 4" "amount (ib_limits (ge_budget first_envelope)) Downloads = 10"
    "iv_budget started_investigation = raised_caps 10 (iv_budget demo_investigation)" "iv_id started_investigation = 4"
    "ge_investigation_id withdrawn_envelope = 4" "ge_version withdrawn_envelope = 2"
    by (simp_all add: first_envelope_def example_inherited started_investigation_def bump_def demo_investigation_def withdrawn_envelope_def)
  have written: "human_envelope 4 [] \<lparr>ib_limits = oc_budget_limits closed_capabilities, ib_reservations = []\<rparr> False
      (oc_disclosure closed_capabilities) (withdrawal\<lparr>ad_details := []\<rparr>) ''ana'' (utc 5) 2 = Inr withdrawn_envelope"
  proof -
    have "envelope_post_init withdrawn_envelope = Inr withdrawn_envelope" by code_simp
    then show ?thesis by (simp add: human_envelope_def withdrawn_envelope_def withdrawal_def example_inherited)
  qed
  have identified: "identified m ''ana'' ''stop'' ''r1'' = Inr ()" for m
  proof -
    have "\<not> blank ''stop''" "\<not> blank ''r1''" by code_simp+
    then show ?thesis by (simp add: identified_def example_inherited)
  qed
  have rows: "envelope_of 4 started_world = Some first_envelope" "investigation_of 4 started_world = Some started_investigation"
    "decisions_of 4 started_world = []" "gw_decisions started_world = []"
    by (simp_all add: envelope_of_def investigation_of_def row_with_def started_world_def fields decisions_of_def active_world_def)
  have kept: "synchronize_downloads started_investigation 10 (utc 5) started_world = Inr started_world"
    by (simp add: synchronize_downloads_def fields raised_caps_def)
  have "withdrawn_envelope \<noteq> first_envelope" using fields by auto
  then have saved: "save_envelope withdrawn_envelope (Some 1) (leave_policy first_envelope (utc 5)
      (started_world\<lparr>gw_decisions := [withdrawal]\<rparr>)) = Inr withdrawn_world"
    by (simp add: save_envelope_def envelope_of_def row_with_def started_world_def leave_policy_def fields supersede_pin_def
      update_where_def withdrawn_world_def) (simp add: new_pin_def)
  have detailed: "withdrawal\<lparr>ad_details := []\<rparr>\<lparr>ad_details := [(''authorization_ceiling'', bounds_payload first_envelope)]\<rparr> = withdrawal"
    by (simp add: withdrawal_def)
  show ?thesis
    unfolding revoke_envelope_def example_withdrawal
    by (simp add: identified rows fields decision_by_correlation_def kept example_closing written
      append_analyst_decision_def detailed saved as_envelope_conflict_def del: analyst_decision.update_convs)
qed

definition narrower :: envelope_extension where
  "narrower = \<lparr>ex_expected_version = 2, ex_allowed_providers = [''virustotal''],
     ex_budget = \<lparr>ib_limits = [(VtUnits, 5), (Downloads, 5)], ib_reservations = []\<rparr>, ex_acquire_hits_allowed = True,
     ex_disclosure = oc_disclosure open_capabilities\<rparr>"

definition narrower_limits :: amounts where
  "narrower_limits = [(VtUnits, 5), (Downloads, 5), (BridgeTurns, 1), (ToolSeconds, 60), (ContextBytes, 1000),
     (ContextTokens, 250), (ShodanCredits, 0)]"

definition reopening :: analyst_decision where
  "reopening = \<lparr>ad_investigation_id = 4, ad_decision_type = PivotApprove, ad_target_type = TargetPivot, ad_target_id = 4,
     ad_actor_id = ''ana'', ad_reason = ''again'', ad_correlation_id = ''x1'', ad_id = 120, ad_occurred_at = utc 6,
     ad_details = []\<rparr>"

definition reopened_envelope :: envelope where
  "reopened_envelope = \<lparr>ge_investigation_id = 4, ge_allowed_providers = [''vt''],
     ge_budget = \<lparr>ib_limits = narrower_limits, ib_reservations = []\<rparr>, ge_acquire_hits_allowed = True,
     ge_disclosure = oc_disclosure open_capabilities, ge_approval_decision_id = 120, ge_approval_actor_id = ''ana'',
     ge_authority_kind = EnvHumanG2, ge_inherited_policy_id = None, ge_inherited_policy_version = None,
     ge_inherited_policy_event_id = None, ge_approved_at = utc 6, ge_version = 3\<rparr>"

definition reopened_world :: authority_world where
  "reopened_world = withdrawn_world\<lparr>gw_envelopes := [reopened_envelope], gw_decisions := [withdrawal, reopening]\<rparr>"

lemma example_reopening:
  "decision_for example_env payload 4 PivotApprove TargetPivot 4 ''ana'' ''again'' ''x1'' (utc 6) = reopening"
proof -
  have "py_strip ''ana'' = ''ana''" "py_strip ''again'' = ''again''" "py_strip ''x1'' = ''x1''" by code_simp+
  then show ?thesis by (simp add: decision_for_def reopening_def example_env_def)
qed

definition first_bounds :: authorization_bounds where
  "first_bounds = \<lparr>ab_allowed_providers = [''vt''], ab_budget_limits = oc_budget_limits open_capabilities,
     ab_acquire_hits_allowed = True, ab_disclosure = oc_disclosure open_capabilities\<rparr>"

lemma example_narrower:
  "normalize_providers [''virustotal''] = Inr [''vt'']"
  "new_budget (merge_limits (oc_budget_limits closed_capabilities) [(VtUnits, 5), (Downloads, 5)])
     = Inr \<lparr>ib_limits = narrower_limits, ib_reservations = []\<rparr>"
  "require_acquisition_budget True \<lparr>ib_limits = narrower_limits, ib_reservations = []\<rparr> = Inr ()"
  "bounds_from_payload (Some (bounds_payload first_envelope)) = Some first_bounds"
  "require_revoked_reextension \<lparr>ib_limits = oc_budget_limits closed_capabilities, ib_reservations = []\<rparr> [''vt'']
     \<lparr>ib_limits = narrower_limits, ib_reservations = []\<rparr> True (oc_disclosure open_capabilities) first_bounds = Inr ()"
  "copy_budget \<lparr>ib_limits = oc_budget_limits closed_capabilities, ib_reservations = []\<rparr> narrower_limits
     = Inr \<lparr>ib_limits = narrower_limits, ib_reservations = []\<rparr>"
  "envelope_post_init reopened_envelope = Inr reopened_envelope" "amount narrower_limits Downloads = 5"
  by (code_simp, code_simp, code_simp, code_simp, code_simp, code_simp, code_simp, code_simp)

lemma example_reopened:
  "extend_envelope example_env 4 narrower ''ana'' ''again'' ''x1'' (utc 6) withdrawn_world = Inr (reopened_envelope, reopened_world)"
proof -
  have fields: "ge_authority_kind withdrawn_envelope = EnvHumanG2" "ge_version withdrawn_envelope = 2"
    "ge_investigation_id withdrawn_envelope = 4" "ge_approval_decision_id withdrawn_envelope = 114"
    "ge_budget withdrawn_envelope = \<lparr>ib_limits = oc_budget_limits closed_capabilities, ib_reservations = []\<rparr>"
    "iv_budget started_investigation = raised_caps 10 (iv_budget demo_investigation)" "iv_id started_investigation = 4"
    "ge_investigation_id reopened_envelope = 4" "ge_version reopened_envelope = 3"
    by (simp_all add: withdrawn_envelope_def reopened_envelope_def started_investigation_def bump_def demo_investigation_def)
  have written: "human_envelope 4 [''vt''] \<lparr>ib_limits = narrower_limits, ib_reservations = []\<rparr> True
      (oc_disclosure open_capabilities) reopening ''ana'' (utc 6) 3 = Inr reopened_envelope"
    using example_narrower(7) by (simp add: human_envelope_def reopened_envelope_def reopening_def example_inherited)
  have identified: "identified m ''ana'' ''again'' ''x1'' = Inr ()" for m
  proof -
    have "\<not> blank ''again''" "\<not> blank ''x1''" by code_simp+
    then show ?thesis by (simp add: identified_def example_inherited)
  qed
  have rows: "envelope_of 4 withdrawn_world = Some withdrawn_envelope" "investigation_of 4 withdrawn_world = Some started_investigation"
    "decisions_of 4 withdrawn_world = [withdrawal]" "gw_decisions withdrawn_world = [withdrawal]"
    by (simp_all add: envelope_of_def investigation_of_def row_with_def withdrawn_world_def started_world_def fields decisions_of_def)
      (simp add: withdrawal_def)
  have state: "authorization_state withdrawn_envelope [withdrawal] = (True, Some first_bounds)"
    using example_narrower(4) by (simp add: authorization_state_def fields) (simp add: withdrawal_def)
  have kept: "synchronize_downloads started_investigation 5 (utc 6) g = Inr g" for g
    by (simp add: synchronize_downloads_def fields raised_caps_def demo_investigation_def demo_loop_budget_def)
  have "reopened_envelope \<noteq> withdrawn_envelope" using fields by auto
  then have saved: "save_envelope reopened_envelope (Some 2) (leave_policy withdrawn_envelope (utc 6)
      (withdrawn_world\<lparr>gw_decisions := [withdrawal, reopening]\<rparr>)) = Inr reopened_world"
    by (simp add: save_envelope_def envelope_of_def row_with_def withdrawn_world_def leave_policy_def fields
      update_where_def reopened_world_def)
  have ids: "ad_id withdrawal = 114" "ad_id reopening = 120" "ad_correlation_id withdrawal = ''r1''"
    by (simp_all add: withdrawal_def reopening_def)
  have narrower_fields: "ex_expected_version narrower = 2" "ex_allowed_providers narrower = [''virustotal'']"
    "ib_limits (ex_budget narrower) = [(VtUnits, 5), (Downloads, 5)]" "ex_acquire_hits_allowed narrower"
    "ex_disclosure narrower = oc_disclosure open_capabilities" by (simp_all add: narrower_def)
  show ?thesis
    unfolding extend_envelope_def
    by (simp add: narrower_fields identified rows fields example_narrower example_reopening decision_by_correlation_def ids
      check_extension_def state apply_extension_def written append_analyst_decision_def saved as_envelope_conflict_def kept del: merge_limits.simps)
qed

end
