(* ===== verification/AuthorityProperties.thy ===== *)
theory AuthorityProperties
  imports AuthorityExample
begin

text \<open>What holds of the rights of an investigation along every sequence of operations.\<close>

subsection \<open>What is never lost\<close>

text \<open>Versions and decisions stay, and so does the identity of every pin.\<close>

definition pin_cores :: "authority_world \<Rightarrow> (uuid \<times> uuid \<times> uuid \<times> int \<times> uuid) set" where
  "pin_cores w = set (map pin_core (gw_pins w))"

definition kept :: "authority_world \<Rightarrow> authority_world \<Rightarrow> bool" where
  "kept w w' = (set (gw_policies w) \<subseteq> set (gw_policies w') \<and> set (gw_decisions w) \<subseteq> set (gw_decisions w')
     \<and> pin_cores w \<subseteq> pin_cores w')"

lemma kept_refl [simp]: "kept w w"
  by (simp add: kept_def)

lemma kept_trans: "kept u v \<Longrightarrow> kept v w \<Longrightarrow> kept u w"
  unfolding kept_def by blast

lemma kept_pin:
  assumes "kept w w'" and "x \<in> set (gw_pins w)"
  obtains y where "y \<in> set (gw_pins w')" "pin_core y = pin_core x"
proof -
  have "pin_core x \<in> pin_cores w" using assms(2) by (simp add: pin_cores_def)
  then have "pin_core x \<in> pin_cores w'" using assms(1) unfolding kept_def by blast
  then show ?thesis using that by (auto simp: pin_cores_def)
qed

lemma quiet_cores: "quiet w w' \<Longrightarrow> pin_cores w' = pin_cores w"
  unfolding quiet_def pin_cores_def by (elim conjE pins_settleE) (simp add: settles_def comp_def image_image)

lemma quiet_kept: "quiet w w' \<Longrightarrow> set (gw_decisions w) \<subseteq> set (gw_decisions w') \<Longrightarrow> kept w w'"
  using quiet_cores [of w w'] by (simp add: kept_def quiet_def same_policies_def)

lemma human_change_kept: "human_change c e d t w w' \<Longrightarrow> kept w w'"
  by (rule quiet_kept [OF human_change_quiet]) (auto simp: human_change_def)

lemma add_version_kept: "add_version p e w = Inr w' \<Longrightarrow> kept w w'"
  by (auto dest: add_version_Inr simp: kept_def pin_cores_def)

lemma set_status_decisions: "set_inheritance_status x s t w = Inr w' \<Longrightarrow> gw_decisions w' = gw_decisions w"
  by (auto simp: set_inheritance_status_def Let_def split: if_splits option.splits)

lemma save_envelope_decisions: "save_envelope e n w = Inr w' \<Longrightarrow> gw_decisions w' = gw_decisions w"
  by (auto simp: save_envelope_def split: if_splits option.splits)

lemma propagate_to_decisions: "propagate_to x t w = Inr w' \<Longrightarrow> gw_decisions w' = gw_decisions w"
  by (auto simp: propagate_to_def and_then_Inr dest!: set_status_decisions save_envelope_decisions
    split: option.splits if_splits)

lemma propagate_decisions: "propagate_revocation xs t w = Inr w' \<Longrightarrow> gw_decisions w' = gw_decisions w"
  by (induction xs arbitrary: w) (auto simp: and_then_Inr dest: propagate_to_decisions)

lemma propagate_kept: "propagate_revocation xs t w = Inr w' \<Longrightarrow> kept w w'"
  by (simp add: quiet_kept propagate_quiet propagate_decisions)

lemma revoke_policy_kept: "revoke_policy env i n actor reason corr ev t w = Inr (p, w') \<Longrightarrow> kept w w'"
  by (erule revoke_policy_cases) (auto intro: kept_trans add_version_kept propagate_kept)

lemma start_kept: "ensure_inherited_envelope i s source at t w = Inr (e, w') \<Longrightarrow> kept w w'"
proof (erule start_cases)
  fix qs p
  assume none: "envelope_of i w = None" and inherit: "inherit_policy p i s source t w = Inr (e, w')"
  from inherit none obtain e1 w1 where w1: "create_policy_inherited_envelope i (op_policy_id p) (op_version p) (op_event_id p)
      (op_actor_id p) (op_capabilities p) (intersect_disclosure (ss_tlp source) (ss_do_not_submit source)
      (ss_external_llm_allowed source) (oc_disclosure (op_capabilities p))) t w = Inr (e1, w1)"
    "w' = w1\<lparr>gw_pins := gw_pins w1 @ [new_pin p i s t]\<rparr>" by (rule inherit_policy_Inr)
  from w1(1) none show "kept w w'"
    by (rule create_inherited_cases) (auto simp: kept_def pin_cores_def w1(2) same_policies_def)
qed simp

lemma authority_exec_kept: "authority_exec env op w = Inr w' \<Longrightarrow> kept w w'"
proof (cases op)
  case (OpActivate kind raw caps actor reason corr ev t)
  moreover assume "authority_exec env op w = Inr w'"
  ultimately show ?thesis
    by (auto simp: tables_of_Inr and_then_Inr elim!: activate_cases dest!: activate_scope_Inr intro: add_version_kept)
next
  case (OpExtendPolicy i n caps actor reason corr ev t)
  moreover assume "authority_exec env op w = Inr w'"
  ultimately show ?thesis by (auto simp: tables_of_Inr and_then_Inr elim!: extend_policy_cases intro: add_version_kept)
next
  case (OpRevokePolicy i n actor reason corr ev t)
  moreover assume "authority_exec env op w = Inr w'"
  ultimately show ?thesis by (auto simp: tables_of_Inr intro: revoke_policy_kept)
next
  case (OpStart i source at t)
  moreover assume "authority_exec env op w = Inr w'"
  ultimately show ?thesis by (auto simp: tables_of_Inr split: option.splits intro: start_kept)
next
  case (OpReject i actor reason corr n t)
  moreover assume "authority_exec env op w = Inr w'"
  ultimately show ?thesis by (auto simp: tables_of_Inr kept_def pin_cores_def elim!: reject_cases)
next
  case (OpSpend i b)
  moreover assume "authority_exec env op w = Inr w'"
  ultimately show ?thesis by (auto simp: kept_def pin_cores_def elim!: spend_cases)
next
  case (OpApprove p actor reason corr n t)
  moreover assume "authority_exec env op w = Inr w'"
  ultimately show ?thesis by (auto simp: tables_of_Inr elim!: approve_cases intro: human_change_kept)
next
  case (OpExtend i x actor reason corr t)
  moreover assume "authority_exec env op w = Inr w'"
  ultimately show ?thesis by (auto simp: tables_of_Inr elim!: extend_cases intro: human_change_kept)
next
  case (OpRevoke i n actor reason corr t)
  moreover assume "authority_exec env op w = Inr w'"
  ultimately show ?thesis by (auto simp: tables_of_Inr elim!: revoke_cases intro: human_change_kept)
qed (auto simp: kept_def pin_cores_def split: if_splits)

interpretation lasting: guarded_machine "authority_exec env" "kept w0" for env w0
  by unfold_locales (auto intro: kept_trans authority_exec_kept)

subsection \<open>Refusal\<close>

lemma empty_inv [simp]: "authority_inv empty_authority"
  by (simp add: authority_inv_def empty_authority_def pin_keys_def version_keys_def revocations_older_def)

lemma row_with_distinct: "distinct (map k rows) \<Longrightarrow> x \<in> set rows \<Longrightarrow> row_with k (k x) rows = Some x"
  unfolding row_with_def by (induction rows) auto

lemma unique_pin: "distinct (pin_keys w) \<Longrightarrow> x \<in> set (gw_pins w) \<Longrightarrow> pin_of (in_investigation_id x) w = Some x"
  by (simp add: pin_of_def pin_keys_def row_with_distinct)

lemma admit_family_refuses: "admit_family env a p key occurrence = Inl e \<Longrightarrow> \<exists>reason detail. e = EffectRefused reason detail"
  by (auto simp: admit_family_def denied_def split: if_splits option.splits)

lemma unlocked_refuses:
  assumes "au_authority_kind a = OsintPolicy" and "ev_guard env = Some (osint_guard permissive disclosed g)"
    and "\<not> lock_for_consume a g"
  shows "\<exists>reason detail. consume env row t a p key occurrence w = Inr (ConsumeRefused reason detail, w)"
proof (cases "admit_family env a p key occurrence")
  case (Inl e)
  with admit_family_refuses [OF this] show ?thesis by (auto simp: consume_def)
next
  case (Inr f)
  have "consume_in_transaction env row t a p key f w = denied ''osint_policy_denied''"
    using assms by (simp add: consume_in_transaction_def lock_policy_def osint_guard_def guarded_def denied_def)
  with Inr show ?thesis by (auto simp: consume_def denied_def)
qed

lemma settled_pin_locks_out:
  assumes "authority_inv g" and "x \<in> set (gw_pins g)" and "in_status x \<noteq> PinActive" and "au_investigation_id a = in_investigation_id x"
  shows "\<not> lock_for_consume a g"
  using unique_pin [OF _ assms(2)] assms(1,3,4)
  by (auto simp: lock_for_consume_def pin_matches_def authority_inv_def split: option.splits)

subsection \<open>Every right is granted\<close>

text \<open>The rights of an envelope, compared with those a version of a policy grants.\<close>

definition within_capabilities :: "envelope \<Rightarrow> osint_capabilities \<Rightarrow> bool" where
  "within_capabilities e caps = (set (ge_allowed_providers e) \<subseteq> set (oc_allowed_providers caps)
     \<and> (ge_acquire_hits_allowed e \<longrightarrow> oc_acquire_hits_allowed caps)
     \<and> disclosure_within (ge_disclosure e) (oc_disclosure caps)
     \<and> (\<forall>d n. map_of (oc_budget_limits caps) d = Some n \<longrightarrow>
          (\<exists>m. map_of (ib_limits (ge_budget e)) d = Some m \<and> 0 \<le> m \<and> m \<le> n)))"

definition decided :: "authority_world \<Rightarrow> envelope \<Rightarrow> bool" where
  "decided w e = (\<exists>d\<in>set (gw_decisions w). ad_id d = ge_approval_decision_id e
     \<and> ad_investigation_id d = ge_investigation_id e \<and> ad_target_type d = TargetPivot \<and> ad_target_id d = ge_investigation_id e
     \<and> \<not> blank (ad_actor_id d)
     \<and> (ad_decision_type d = PivotApprove \<or> ad_decision_type d = PivotReject \<and> no_external_rights e))"

definition inherited :: "authority_world \<Rightarrow> envelope \<Rightarrow> bool" where
  "inherited w e = (\<exists>p\<in>set (gw_policies w). ge_inherited_policy_id e = Some (op_policy_id p)
     \<and> ge_inherited_policy_version e = Some (op_version p) \<and> ge_inherited_policy_event_id e = Some (op_event_id p)
     \<and> op_status p = PolicyActive \<and> within_capabilities e (op_capabilities p))"

definition granted :: "authority_world \<Rightarrow> envelope \<Rightarrow> bool" where
  "granted w e = (case ge_authority_kind e of EnvHumanG2 \<Rightarrow> decided w e | EnvOsintPolicy \<Rightarrow> inherited w e)"

definition rights_granted :: "authority_world \<Rightarrow> bool" where
  "rights_granted w = (\<forall>e\<in>set (gw_envelopes w). granted w e)"

lemma granted_kept: "kept w w' \<Longrightarrow> granted w e \<Longrightarrow> granted w' e"
  unfolding granted_def decided_def inherited_def kept_def by (cases "ge_authority_kind e") auto

text \<open>A step that writes one envelope, which is granted.\<close>

lemma rights_put:
  assumes "rights_granted w" and "kept w w'" and "gw_envelopes w' = gw_envelopes (put_envelope e w)" and "granted w' e"
  shows "rights_granted w'"
  unfolding rights_granted_def
proof
  fix x
  assume "x \<in> set (gw_envelopes w')"
  then consider "x = e" | "x \<in> set (gw_envelopes w)" using assms(3) put_envelope_set by auto
  then show "granted w' x" using assms by cases (auto simp: rights_granted_def intro: granted_kept)
qed

lemma rights_same: "rights_granted w \<Longrightarrow> kept w w' \<Longrightarrow> gw_envelopes w' = gw_envelopes w \<Longrightarrow> rights_granted w'"
  by (auto simp: rights_granted_def intro: granted_kept)

lemma human_change_granted:
  assumes "rights_granted w" and "human_change c e d t w w'" and "\<not> blank (ad_actor_id d)"
    and "ad_decision_type d = PivotApprove \<or> ad_decision_type d = PivotReject \<and> no_external_rights e"
  shows "rights_granted w'"
proof (rule rights_put [OF assms(1) human_change_kept [OF assms(2)]])
  show "gw_envelopes w' = gw_envelopes (put_envelope e w)" using assms(2) by (simp add: human_change_def)
  show "granted w' e" using assms(2-4) by (auto simp: human_change_def granted_def decided_def)
qed

lemma budget_exec_limits: "budget_exec op b = Inr b' \<Longrightarrow> ib_limits b' = ib_limits b"
  by (cases op) (auto simp: budget_of_Inr reserve_def adjust_reservation_def commit_def release_def release_confirmed_non_submission_def
    and_then_Inr split: option.splits if_splits)

lemma spent_granted: "granted w e \<Longrightarrow> ib_limits b = ib_limits (ge_budget e) \<Longrightarrow> granted w (e\<lparr>ge_budget := b, ge_version := n\<rparr>)"
  by (auto simp: granted_def decided_def inherited_def within_capabilities_def no_external_rights_def split: envelope_authority.splits)

lemma closed_granted:
  assumes "granted w e" and "ge_authority_kind e = EnvOsintPolicy" and "zeroed_budget (ge_budget e) = Inr b"
  shows "granted w (e\<lparr>ge_allowed_providers := [], ge_budget := b, ge_acquire_hits_allowed := False,
    ge_disclosure := closed_to_models (ge_disclosure e), ge_version := n\<rparr>)"
proof -
  have limit: "\<exists>m. map_of (ib_limits b) d = Some m \<and> 0 \<le> m \<and> m \<le> k"
    if "\<exists>m. map_of (ib_limits (ge_budget e)) d = Some m \<and> 0 \<le> m \<and> m \<le> k" for d k
    using that zeroed_budget_Inr [OF assms(3)] by (cases "d \<in> set external_dimensions") auto
  have disclosure: "disclosure_within (closed_to_models x) y" if "disclosure_within x y" for x y
    using that by (simp add: disclosure_within_def closed_to_models_def)
  from assms(1,2) obtain p where p: "p \<in> set (gw_policies w)" "ge_inherited_policy_id e = Some (op_policy_id p)"
      "ge_inherited_policy_version e = Some (op_version p)" "ge_inherited_policy_event_id e = Some (op_event_id p)"
      "op_status p = PolicyActive" "within_capabilities e (op_capabilities p)"
    by (auto simp: granted_def inherited_def)
  then have "within_capabilities (e\<lparr>ge_allowed_providers := [], ge_budget := b, ge_acquire_hits_allowed := False,
      ge_disclosure := closed_to_models (ge_disclosure e), ge_version := n\<rparr>) (op_capabilities p)"
    using limit disclosure by (simp add: within_capabilities_def)
  with p assms(2) show ?thesis by (auto simp: granted_def inherited_def)
qed

lemma set_status_envelopes: "set_inheritance_status x s t w = Inr w' \<Longrightarrow> gw_envelopes w' = gw_envelopes w"
  by (auto simp: set_inheritance_status_def Let_def split: if_splits option.splits)

lemma propagate_to_kept: "propagate_to x t w = Inr w' \<Longrightarrow> kept w w'"
  using propagate_kept [of "[x]" t w w'] by (simp add: and_then_Inr)

lemma propagate_to_granted:
  assumes "rights_granted w" and "propagate_to x t w = Inr w'"
  shows "rights_granted w'"
proof -
  consider "set_inheritance_status x PinSuperseded t w = Inr w'"
    | e b w1 where "envelope_of (in_investigation_id x) w = Some e" "ge_authority_kind e = EnvOsintPolicy"
      "zeroed_budget (ge_budget e) = Inr b" "set_inheritance_status x PinRevoked t w1 = Inr w'"
      "save_envelope (e\<lparr>ge_allowed_providers := [], ge_budget := b, ge_acquire_hits_allowed := False,
        ge_disclosure := closed_to_models (ge_disclosure e), ge_version := ge_version e + 1\<rparr>) (Some (ge_version e)) w = Inr w1"
    using assms(2) by (auto simp: propagate_to_def and_then_Inr dest: envelope_post_init_Inr split: option.splits if_splits)
  then show ?thesis
  proof cases
    case 1
    with rights_same [OF assms(1) propagate_to_kept [OF assms(2)]] set_status_envelopes show ?thesis by blast
  next
    case (2 e b w1)
    let ?e = "e\<lparr>ge_allowed_providers := [], ge_budget := b, ge_acquire_hits_allowed := False,
        ge_disclosure := closed_to_models (ge_disclosure e), ge_version := ge_version e + 1\<rparr>"
    have "envelope_of (ge_investigation_id ?e) w = Some e" using 2(1) envelope_of_key [OF 2(1)] by simp
    from save_envelope_next [OF 2(5) this] have "gw_envelopes w' = gw_envelopes (put_envelope ?e w)"
      using set_status_envelopes [OF 2(4)] by simp
    moreover have "granted w e" using assms(1) envelope_of_key [OF 2(1)] by (simp add: rights_granted_def)
    ultimately show ?thesis
      using rights_put [OF assms(1) propagate_to_kept [OF assms(2)]] granted_kept [OF propagate_to_kept [OF assms(2)]]
        closed_granted [OF _ 2(2,3)] by blast
  qed
qed

lemma propagate_granted: "propagate_revocation xs t w = Inr w' \<Longrightarrow> rights_granted w \<Longrightarrow> rights_granted w'"
  by (induction xs arbitrary: w) (auto simp: and_then_Inr dest: propagate_to_granted)

lemma new_budget_within:
  "new_budget l = Inr b \<Longrightarrow> map_of l d = Some n \<Longrightarrow> map_of (ib_limits b) d = Some n \<and> 0 \<le> n"
  by (auto simp: new_budget_def and_then_Inr budget_values_Inr natural_def dest: map_of_SomeD)

lemma start_granted:
  assumes rights: "rights_granted w" and start: "ensure_inherited_envelope i s source at t w = Inr (e, w')"
  shows "rights_granted w'"
  using start
proof (cases rule: start_cases)
  case (pinned qs p)
  let ?d = "intersect_disclosure (ss_tlp source) (ss_do_not_submit source) (ss_external_llm_allowed source)
    (oc_disclosure (op_capabilities p))"
  from pinned(5,4) obtain e1 w1 where w1: "create_policy_inherited_envelope i (op_policy_id p) (op_version p) (op_event_id p)
      (op_actor_id p) (op_capabilities p) ?d t w = Inr (e1, w1)"
    "w' = w1\<lparr>gw_pins := gw_pins w1 @ [new_pin p i s t]\<rparr>" by (rule inherit_policy_Inr)
  have p: "p \<in> set (gw_policies w)" "op_status p = PolicyActive"
    using applicable_Inr [OF pinned(2)] candidate_latest [OF pinned(1)] by blast+
  from w1(1) pinned(4) obtain b where b: "new_budget (oc_budget_limits (op_capabilities p)) = Inr b"
    "gw_envelopes w1 = gw_envelopes (put_envelope e1 w)" "same_policies w w1"
    "e1 = \<lparr>ge_investigation_id = i, ge_allowed_providers = oc_allowed_providers (op_capabilities p),
      ge_budget = b, ge_acquire_hits_allowed = oc_acquire_hits_allowed (op_capabilities p), ge_disclosure = ?d,
      ge_approval_decision_id = op_event_id p, ge_approval_actor_id = py_strip (op_actor_id p), ge_authority_kind = EnvOsintPolicy,
      ge_inherited_policy_id = Some (op_policy_id p), ge_inherited_policy_version = Some (op_version p),
      ge_inherited_policy_event_id = Some (op_event_id p), ge_approved_at = t, ge_version = 1\<rparr>"
    by (rule create_inherited_cases)
  have "within_capabilities e1 (op_capabilities p)"
    using b(4) new_budget_within [OF b(1)] by (auto simp: within_capabilities_def intersect_within_policy)
  then have "granted w' e1"
    using p b(3,4) w1(2) by (auto simp: granted_def inherited_def same_policies_def)
  then show ?thesis
    using b(2) w1(2) by (intro rights_put [OF rights start_kept [OF start]]) simp_all
qed (use rights in simp)

lemma authority_exec_granted:
  assumes "rights_granted w" and "authority_exec env op w = Inr w'"
  shows "rights_granted w'"
proof (cases op)
  case (OpRevokePolicy i n actor reason corr ev t)
  with assms obtain p where "revoke_policy env i n actor reason corr ev t w = Inr (p, w')" by (auto simp: tables_of_Inr)
  then show ?thesis
  proof (cases rule: revoke_policy_cases)
    case (revoked c l caps w1)
    have "rights_granted w1" using add_version_kept [OF revoked(5)] add_version_Inr [OF revoked(5)]
      by (intro rights_same [OF assms(1)]) simp_all
    with revoked(6) show ?thesis by (rule propagate_granted)
  qed (use assms(1) in simp)
next
  case (OpStart i source at t)
  with assms show ?thesis by (auto simp: tables_of_Inr split: option.splits intro: start_granted)
next
  case (OpApprove p actor reason corr n t)
  with assms show ?thesis by (auto simp: tables_of_Inr elim!: approve_cases intro: human_change_granted)
next
  case (OpExtend i x actor reason corr t)
  with assms show ?thesis by (auto simp: tables_of_Inr elim!: extend_cases intro: human_change_granted)
next
  case (OpRevoke i n actor reason corr t)
  with assms show ?thesis by (auto simp: tables_of_Inr elim!: revoke_cases intro: human_change_granted)
next
  case (OpSpend i b)
  with assms(2) have "spend_budget i b w = Inr w'" by simp
  then obtain e b' where e: "envelope_of i w = Some e" "budget_exec b (ge_budget e) = Inr b'"
    "w' = put_envelope (e\<lparr>ge_budget := b', ge_version := ge_version e + 1\<rparr>) w" by (rule spend_cases)
  have "granted w e" using assms(1) envelope_of_key [OF e(1)] by (simp add: rights_granted_def)
  with rights_put [OF assms(1) authority_exec_kept [OF assms(2)]] e(3) granted_kept [OF authority_exec_kept [OF assms(2)]]
    spent_granted [OF _ budget_exec_limits [OF e(2)]] show ?thesis by (metis put_envelope_def)
qed (use assms rights_same [OF assms(1) authority_exec_kept [OF assms(2)]] in
  \<open>auto simp: tables_of_Inr and_then_Inr elim!: activate_cases extend_policy_cases reject_cases
    dest!: activate_scope_Inr add_version_Inr split: if_splits\<close>)

interpretation rights: guarded_machine "authority_exec env" rights_granted
  by unfold_locales (rule authority_exec_granted)

subsection \<open>What a revocation leaves to give back\<close>

lemma dimension_of_value: "dimension_of (dimension_value d) = Some d"
  by (cases d) (simp_all add: dimension_of_def budget_dimensions_def)

lemma limits_roundtrip: "those (map plain_limit (map (\<lambda>(d, n). (dimension_value d, PInt n)) a)) = Some a"
  by (induction a) (auto simp: dimension_of_value)

lemma texts_roundtrip: "those (map plain_text (map PStr xs)) = Some xs"
  by (induction xs) auto

lemma disclosure_roundtrip: "Option.bind (plain_members (disclosure_identity d)) plain_disclosure = Some d"
  by (cases "db_tlp d") (simp_all add: disclosure_identity_def plain_disclosure_def)

lemma retained_bounds:
  assumes "bounds_from_payload (Some (bounds_payload e)) = Some b"
  shows "set (ab_allowed_providers b) \<subseteq> normalize_provider ` set (ge_allowed_providers e)
    \<and> ab_budget_limits b = ib_limits (ge_budget e) \<and> ab_acquire_hits_allowed b = ge_acquire_hits_allowed e
    \<and> ab_disclosure b = ge_disclosure e"
proof -
  have "plain_members (disclosure_identity (ge_disclosure e)) = Some ms \<Longrightarrow> plain_disclosure ms = Some (ge_disclosure e)" for ms
    using disclosure_roundtrip [of "ge_disclosure e"] by simp
  with assms show ?thesis
    by (auto simp: bounds_from_payload_def bounds_payload_def limits_identity_def texts_roundtrip limits_roundtrip normalize_providers_def
      Let_def new_budget_def and_then_Inr budget_values_Inr simp del: map_map list.map split: sum.splits option.splits if_splits)
qed

lemma put_envelope_of: "gw_envelopes w' = gw_envelopes (put_envelope e w) \<Longrightarrow> envelope_of (ge_investigation_id e) w' = Some e"
proof -
  have "row_with k (k e) (update_where (\<lambda>x. k x = k e) (\<lambda>_. e) rows) = Some e" if "row_with k (k e) rows \<noteq> None"
    for k :: "envelope \<Rightarrow> uuid" and rows
    using that by (induction rows) (auto simp: row_with_def update_where_def)
  moreover assume "gw_envelopes w' = gw_envelopes (put_envelope e w)"
  ultimately show ?thesis
    by (simp add: envelope_of_def put_envelope_def row_with_append split: if_splits option.splits)
qed

text \<open>The state of a freshly revoked envelope: closed, with what it had as the ceiling.\<close>

lemma revoked_state:
  assumes "human_change (Some e0) e d t w w'" and "ad_decision_type d = PivotReject"
    and "ad_details d = [(''authorization_ceiling'', bounds_payload e0)]"
  shows "authorization_state e (decisions_of (ge_investigation_id e) w') = (True, bounds_from_payload (Some (bounds_payload e0)))"
proof -
  have "find (\<lambda>x. ad_id x = ad_id d \<and> Q x) (filter P (gw_decisions w)) = None" for P Q
    using assms(1) by (auto simp: find_None_iff human_change_def list_all_iff)
  then have "find (\<lambda>x. ad_id x = ad_id d \<and> Q x) (filter P (gw_decisions w) @ [d]) = (if Q d then Some d else None)" for P Q
    by (simp add: find_append)
  with assms show ?thesis by (simp add: authorization_state_def human_change_def decisions_of_def)
qed

lemma reextension_Inr:
  assumes "require_revoked_reextension b providers requested acquire d ceiling = Inr ()"
  shows "set providers \<subseteq> set (ab_allowed_providers ceiling) \<and> (acquire \<longrightarrow> ab_acquire_hits_allowed ceiling)
    \<and> require_disclosure_within_bounds d (ab_disclosure ceiling) = Inr ()
    \<and> (\<forall>x m. map_of (ab_budget_limits ceiling) x = Some m \<longrightarrow> (\<exists>n. map_of (ib_limits requested) x = Some n \<and> n \<le> m))"
  using assms
  by (fastforce simp: require_revoked_reextension_def and_then_Inr validated_Inr not_less split: if_splits option.splits)

subsection \<open>A revocation can always be made\<close>

lemma restore_all_fresh:
  "distinct (map br_operation_key (ib_reservations b @ rs)) \<Longrightarrow>
   restore_all rs b = Inr (b\<lparr>ib_reservations := ib_reservations b @ rs\<rparr>)"
proof (induction rs arbitrary: b)
  case (Cons r rs)
  then have "reservation_of b (br_operation_key r) = None"
    by (auto simp: reservation_of_def find_None_iff image_iff dest: sym)
  with Cons show ?case by (simp add: restore_reservation_def budget_of_def put_reservation_def)
qed simp

lemma copy_budget_ok:
  "keys_unique b \<Longrightarrow> natural l \<Longrightarrow> copy_budget b l = Inr \<lparr>ib_limits = l, ib_reservations = ib_reservations b\<rparr>"
  by (simp add: copy_budget_def new_budget_def budget_values_Inr [THEN iffD2] keys_unique_def restore_all_fresh)

lemma natural_update: "natural a \<Longrightarrow> 0 \<le> n \<Longrightarrow> natural (AList.update d n a)"
  by (induction a) (auto simp: natural_def)

lemma natural_merge: "natural a \<Longrightarrow> natural b \<Longrightarrow> natural (merge_limits a b)"
proof (induction b arbitrary: a)
  case (Cons x b)
  then show ?case by (cases x) (simp add: natural_def [of "_ # _"] natural_update natural_def [symmetric])
qed simp

lemma zeroed_budget_ok:
  "keys_unique b \<Longrightarrow> natural (ib_limits b) \<Longrightarrow> \<exists>l. zeroed_budget b = Inr \<lparr>ib_limits = l, ib_reservations = ib_reservations b\<rparr>"
  unfolding zeroed_budget_def
  by (rule exI, rule copy_budget_ok, assumption, rule natural_merge, assumption) (simp add: natural_def)

lemma synchronize_ok:
  assumes "investigation_of i w = Some v"
  obtains w' where "synchronize_downloads v n t w = Inr w'"
proof -
  have "investigation_of (iv_id v) w = Some v" using assms investigation_of_key [OF assms] by simp
  then have "\<exists>w'. synchronize_downloads v n t w = Inr w'"
    by (simp add: synchronize_downloads_def save_investigation_def bump_def)
  then show ?thesis using that by blast
qed

text \<open>
  C10. A revoked policy sends nothing more. Take any sequence of operations on envelopes and
  policies, then a revocation of a policy, then any further sequence (extensions, new activations of the same scope,
  starts and decisions included): whatever effect an investigation pinned to the policy, at the
  revoked version or before, asks for under the authority of a policy is refused, and the tables of
  the effects stay as they were.
\<close>

theorem revoked_policy_sends_nothing:
  assumes "revoke_policy env i n actor reason corr ev t (drive (authority_exec env) earlier empty_authority) = Inr (v, w)"
    and "op_status v = PolicyRevoked"
    and "x \<in> set (gw_pins w)" and "in_policy_id x = op_policy_id v" and "in_policy_version x \<le> op_version v"
    and "au_authority_kind a = OsintPolicy" and "au_investigation_id a = in_investigation_id x"
    and "ev_guard eff = Some (osint_guard permissive disclosed (drive (authority_exec env) later w))"
  shows "\<exists>reason detail. consume eff row now a p key occurrence u = Inr (ConsumeRefused reason detail, u)"
proof -
  let ?g = "drive (authority_exec env) later w"
  have inv: "authority_inv w" using authority.drive_inv [OF empty_inv] assms(1) by (rule revoke_policy_inv)
  have v: "v \<in> set (gw_policies w)"
    using assms(1) by (rule revoke_policy_cases) (auto dest!: add_version_Inr propagate_quiet simp: quiet_def same_policies_def)
  have kept: "kept w ?g" by (rule lasting.drive_inv) simp
  then obtain y where y: "y \<in> set (gw_pins ?g)" "pin_core y = pin_core x" using assms(3) by (rule kept_pin)
  have "v \<in> set (gw_policies ?g)" using kept v unfolding kept_def by blast
  moreover have g: "authority_inv ?g" by (rule authority.drive_inv [OF inv])
  ultimately have "in_status y \<noteq> PinActive"
    using y assms(2,4,5) unfolding authority_inv_def revocations_older_def by (fastforce simp: pin_core_def)
  with settled_pin_locks_out [OF g y(1)] y(2) assms(6-8) show ?thesis
    by (intro unlocked_refuses) (simp_all add: pin_core_def)
qed

theorem revoked_policy_sends_nothing_witness:
  "\<exists>reason detail. consume (small_env\<lparr>ev_guard := Some (osint_guard False (\<lambda>_ _ _ _. True)
       (drive (authority_exec example_env) [OpSpend 4 (BudgetRelease ''k'')] closed_world))\<rparr>) 100 (utc 4)
     (small_authority\<lparr>au_investigation_id := 4, au_authority_kind := OsintPolicy\<rparr>) small_prepared (plain_sha []) (plain_sha [])
     small_world = Inr (ConsumeRefused reason detail, small_world)"
proof -
  have "op_status second_version = PolicyRevoked" "closed_pin \<in> set (gw_pins closed_world)"
    "in_policy_id closed_pin = op_policy_id second_version" "in_policy_version closed_pin \<le> op_version second_version"
    "in_investigation_id closed_pin = 4"
    by (simp_all add: second_version_def closed_pin_def closed_world_def new_pin_def first_version_def)
  with example_revoked show ?thesis
    by (intro revoked_policy_sends_nothing [where env = example_env and earlier = example_start and x = closed_pin
      and later = "[OpSpend 4 (BudgetRelease ''k'')]" and permissive = False and disclosed = "\<lambda>_ _ _ _. True"])
      (simp_all add: started)
qed

text \<open>
  C11. No right without a grant. Whatever sequence of operations is run on empty tables, every
  envelope in force traces to its grant: a human one to a recorded decision on that investigation,
  by an identified actor, which is an approval unless the envelope holds no external right at all;
  an inherited one to an active version of a policy, with no provider, disclosure or acquisition right and
  no budget beyond those of that version.
\<close>

theorem every_right_is_granted:
  assumes "e \<in> set (gw_envelopes (drive (authority_exec env) ops empty_authority))"
  shows "granted (drive (authority_exec env) ops empty_authority) e"
proof -
  have "rights_granted empty_authority" by (simp add: rights_granted_def empty_authority_def)
  then have "rights_granted (drive (authority_exec env) ops empty_authority)" by (rule rights.drive_inv)
  with assms show ?thesis by (simp add: rights_granted_def)
qed

theorem every_right_is_granted_witness:
  "granted started_world first_envelope \<and> \<not> granted empty_authority first_envelope"
proof -
  have "first_envelope \<in> set (gw_envelopes (drive (authority_exec example_env) example_start empty_authority))"
    by (simp add: started started_world_def)
  from every_right_is_granted [OF this] show ?thesis
    by (simp add: started) (simp add: granted_def first_envelope_def inherited_def empty_authority_def)
qed

text \<open>
  C12. A revocation bounds what comes next. The extension that follows the revocation of an envelope, if it is
  accepted, gives back at most what the envelope held before: no new provider, no acquisition, no external
  model and no looser label that it did not have, and no higher limit.
\<close>

theorem reextension_bounded:
  assumes "revoke_envelope env i n actor reason corr t w = Inr (e1, w1)" and "w1 \<noteq> w" and "envelope_of i w = Some e0"
    and "extend_envelope env i x actor' reason' corr' t' w1 = Inr (e2, w2)" and "w2 \<noteq> w1"
  shows "set (ge_allowed_providers e2) \<subseteq> normalize_provider ` set (ge_allowed_providers e0)
    \<and> (ge_acquire_hits_allowed e2 \<longrightarrow> ge_acquire_hits_allowed e0)
    \<and> (db_do_not_submit (ge_disclosure e0) \<longrightarrow> db_do_not_submit (ge_disclosure e2))
    \<and> (db_external_llm_allowed (ge_disclosure e2) \<longrightarrow> db_external_llm_allowed (ge_disclosure e0))
    \<and> tlp_rank (db_tlp (ge_disclosure e0)) \<le> tlp_rank (db_tlp (ge_disclosure e2))
    \<and> (\<forall>d m. map_of (ib_limits (ge_budget e0)) d = Some m \<longrightarrow>
          (\<exists>k. map_of (ib_limits (ge_budget e2)) d = Some k \<and> k \<le> m))"
proof -
  from assms(1-3) obtain d where h: "human_change (Some e0) e1 d t w w1" "ge_investigation_id e1 = i" "ad_decision_type d = PivotReject"
      "ad_details d = [(''authorization_ceiling'', bounds_payload e0)]"
    by (elim revoke_cases) auto
  have state: "authorization_state e1 (decisions_of i w1) = (True, bounds_from_payload (Some (bounds_payload e0)))"
    using revoked_state [OF h(1,3,4)] h(2) by simp
  have "envelope_of i w1 = Some e1" using put_envelope_of [of w1 e1 w] h(1,2) by (simp add: human_change_def)
  with assms(4,5) obtain providers requested where x: "check_extension e1 (decisions_of i w1) x providers requested = Inr ()"
      "ge_allowed_providers e2 = providers" "ge_acquire_hits_allowed e2 = ex_acquire_hits_allowed x"
      "ge_disclosure e2 = ex_disclosure x" "copy_budget (ge_budget e1) (ib_limits requested) = Inr (ge_budget e2)"
    by (elim extend_cases) auto
  from x(1) state obtain b where b: "bounds_from_payload (Some (bounds_payload e0)) = Some b"
      "require_revoked_reextension (ge_budget e1) providers requested (ex_acquire_hits_allowed x) (ex_disclosure x) b = Inr ()"
    by (auto simp: check_extension_def split: option.splits)
  from reextension_Inr [OF b(2)] retained_bounds [OF b(1)] x(2-4) copy_budget_limits [OF x(5)] show ?thesis
    by (auto simp: require_disclosure_within_bounds_def validated_Inr not_less)
qed

theorem reextension_bounded_witness:
  "map_of (ib_limits (ge_budget first_envelope)) VtUnits = Some 10 \<and> map_of (ib_limits (ge_budget withdrawn_envelope)) VtUnits = Some 0
   \<and> (\<exists>k. map_of (ib_limits (ge_budget reopened_envelope)) VtUnits = Some k \<and> k \<le> 10)"
proof -
  have ten: "map_of (ib_limits (ge_budget first_envelope)) VtUnits = Some 10" by (simp add: first_envelope_def open_capabilities_def)
  have "withdrawn_world \<noteq> started_world" "reopened_world \<noteq> withdrawn_world" "envelope_of 4 started_world = Some first_envelope"
  proof -
    have "gw_decisions withdrawn_world \<noteq> gw_decisions started_world" "gw_decisions reopened_world \<noteq> gw_decisions withdrawn_world"
      by (simp_all add: withdrawn_world_def started_world_def active_world_def reopened_world_def)
    then show "withdrawn_world \<noteq> started_world" "reopened_world \<noteq> withdrawn_world" by auto
    show "envelope_of 4 started_world = Some first_envelope"
      by (simp add: envelope_of_def started_world_def row_with_def first_envelope_def)
  qed
  from reextension_bounded [OF example_withdrawn this(1,3) example_reopened this(2)] ten show ?thesis
    by (simp add: withdrawn_envelope_def closed_capabilities_def)
qed

text \<open>
  C13. Rights can always be taken back. Whoever is named, with a reason and a correlation not yet used,
  revokes the envelope in force at its version, whatever it has spent or still reserves and whatever
  granted it: the result holds no external right, keeps every reservation, and is stored.
\<close>

theorem revocation_never_blocked:
  assumes "envelope_of i w = Some e" and "investigation_of i w = Some v"
    and "\<not> blank actor" and "\<not> blank reason" and "\<not> blank corr"
    and "corr \<notin> ad_correlation_id ` set (decisions_of i w)"
    and "gv_uuid5 env (corr @ '':'' @ json_dumps (PObj (action_payload ''revoke'' i (Some (ge_version e)) actor reason)))
      \<notin> ad_id ` set (gw_decisions w)"
    and "keys_unique (ge_budget e)" and "natural (ib_limits (ge_budget e))" and "0 \<le> ge_version e" and "aware t"
  shows "\<exists>e' w'. revoke_envelope env i (ge_version e) actor reason corr t w = Inr (e', w') \<and> no_external_rights e'
    \<and> ib_reservations (ge_budget e') = ib_reservations (ge_budget e) \<and> envelope_of i w' = Some e'"
proof -
  define d where "d = decision_for env (action_payload ''revoke'' i (Some (ge_version e)) actor reason) i PivotReject TargetPivot i
    actor reason corr t"
  define d' where "d' = d\<lparr>ad_details := [(''authorization_ceiling'', bounds_payload e)]\<rparr>"
  obtain l where b: "zeroed_budget (ge_budget e) = Inr \<lparr>ib_limits = l, ib_reservations = ib_reservations (ge_budget e)\<rparr>"
    using zeroed_budget_ok [OF assms(8,9)] by blast
  let ?b = "\<lparr>ib_limits = l, ib_reservations = ib_reservations (ge_budget e)\<rparr>"
  define e' where "e' = \<lparr>ge_investigation_id = i, ge_allowed_providers = [], ge_budget = ?b, ge_acquire_hits_allowed = False,
      ge_disclosure = closed_to_models (ge_disclosure e), ge_approval_decision_id = ad_id d, ge_approval_actor_id = py_strip actor,
      ge_authority_kind = EnvHumanG2, ge_inherited_policy_id = None, ge_inherited_policy_version = None,
      ge_inherited_policy_event_id = None, ge_approved_at = t, ge_version = ge_version e + 1\<rparr>"
  obtain w1 where w1: "synchronize_downloads v (amount (ib_limits (ge_budget e)) Downloads) t w = Inr w1"
    using synchronize_ok [OF assms(2)] .
  have "investigation_of (iv_id v) w = Some v" using assms(2) investigation_of_key [OF assms(2)] by simp
  note same = synchronize_Inr [OF w1 this]
  have written: "human_envelope i [] ?b False (closed_to_models (ge_disclosure e)) d actor t (ge_version e + 1) = Inr e'"
    using assms(3,10,11) by (simp add: human_envelope_def e'_def envelope_post_init_def validated_Inr)
  have "ad_id d' = gv_uuid5 env (corr @ '':'' @ json_dumps (PObj (action_payload ''revoke'' i (Some (ge_version e)) actor reason)))"
    by (simp add: d'_def d_def decision_for_def)
  then have "ad_id d' \<notin> ad_id ` set (gw_decisions w1)" using assms(7) same by (simp add: same_but_investigations_def)
  then have added: "append_analyst_decision d' w1 = Inr (w1\<lparr>gw_decisions := gw_decisions w1 @ [d']\<rparr>)"
    unfolding append_analyst_decision_Inr by (auto simp: list_all_iff image_iff)
  let ?w2 = "leave_policy e t (w1\<lparr>gw_decisions := gw_decisions w1 @ [d']\<rparr>)"
  have row: "envelope_of i ?w2 = Some e" "ge_investigation_id e' = i" "ge_version e' = ge_version e + 1"
    using assms(1) same by (simp_all add: envelope_of_def same_but_investigations_def e'_def)
  have "e \<noteq> e'" using row(3) by auto
  then have saved: "save_envelope e' (Some (ge_version e)) ?w2 = Inr (put_envelope e' ?w2)"
    using row by (simp add: save_envelope_def put_envelope_def)
  have "filter (\<lambda>x. ad_correlation_id x = corr) (decisions_of i w) = []" using assms(6) by (auto simp: filter_empty_conv)
  then have replay: "decision_by_correlation i corr d w = Inr None" by (simp add: decision_by_correlation_def)
  have "revoke_envelope env i (ge_version e) actor reason corr t w = Inr (e', put_envelope e' ?w2)"
    using assms(1-5) by (simp add: revoke_envelope_def identified_def d_def [symmetric] d'_def [symmetric] replay w1 b written added
      saved as_envelope_conflict_def Let_def)
  moreover have "envelope_of i (put_envelope e' ?w2) = Some e'"
    using put_envelope_of [of "put_envelope e' ?w2" e' ?w2] row(2) by simp
  moreover have "no_external_rights e'"
    using zeroed_budget_Inr [OF b] by (simp add: no_external_rights_def e'_def closed_to_models_def)
  ultimately show ?thesis by (auto simp: e'_def)
qed

theorem revocation_never_blocked_witness:
  "\<exists>e' w'. revoke_envelope example_env 4 1 ''ana'' ''stop'' ''r1'' (utc 5) started_world = Inr (e', w') \<and> no_external_rights e'
    \<and> ib_reservations (ge_budget e') = [] \<and> envelope_of 4 w' = Some e'"
proof -
  have rows: "envelope_of 4 started_world = Some first_envelope" "investigation_of 4 started_world = Some started_investigation"
      "decisions_of 4 started_world = []" "gw_decisions started_world = []"
    by (simp_all add: envelope_of_def investigation_of_def row_with_def started_world_def decisions_of_def active_world_def
      first_envelope_def started_investigation_def bump_def demo_investigation_def)
  have fields: "ge_version first_envelope = 1" "ib_reservations (ge_budget first_envelope) = []"
      "natural (ib_limits (ge_budget first_envelope))"
    by (simp_all add: first_envelope_def open_capabilities_def natural_def)
  have "\<not> blank ''ana''" "\<not> blank ''stop''" "\<not> blank ''r1''" by code_simp+
  from revocation_never_blocked [OF rows(1,2) this, of example_env "utc 5"] rows(3,4) fields show ?thesis
    by (simp add: keys_unique_def)
qed

end
