(* ===== verification/Spec2Isabelle.thy ===== *)
theory Spec2Isabelle
  imports JobService RepairDecisions BatchProperties Conversation AgentLoop EffectSafety SourceSafety
    AuthorityProperties
begin

text \<open>
  A model of the backend of AutoWork, \<open>src/backend/src/cti_app\<close>: the parts that decide what work runs, in
  which order, at what cost, and what may leave the system. Paths below are relative to that
  directory.

  The program. An edition collects subjects; a subject is produced by a run that goes through the stages
  of a pipeline and leaves an artifact per stage; the runs of an edition are driven one after the
  other by a batch; a job is the unit a worker claims. An analyst repairs what a run left uncertain
  through an append-only decision log. Models are asked through runs and conversations whose
  submissions must never be repeated blindly. An investigation is an agent loop under a budget, and
  each request it sends outside is an external effect with an identity and a single claim.

  Conventions. A dataclass is a record, its \<open>__post_init__\<close> a check \<open>X_post_init\<close>, a method a function
  from the record to a \<open>result\<close>: \<open>Inl\<close> the exception, \<open>Inr\<close> the new value. A table is a list of
  rows in insertion order, a transaction a function on the tables that either yields the new tables
  or an error, after which nothing is stored. Python integers are \<open>int\<close>, UUIDs natural numbers below
  \<open>2 ^ 128\<close>, texts lists of the code points below 256, an aware time a number of microseconds with its
  offset; a transaction reads the clock once, as its argument \<open>t\<close>. SHA-256, the pacing delay of a
  batch, the registered handlers, the retry jitter and the policies a service is composed with are
  arguments of the definitions that use them.

  The theories.

  \<^item> \<open>Prelude\<close>: errors, first-failure validation, the Python string and time functions, lists and maps.
    \<open>Texts\<close>: case folding, decimal numbers, UTF-8, base64, UUID texts, each with its injectivity.
    \<open>Machines\<close>: the locales an entity is an instance of. A \<open>guarded_machine\<close> keeps an invariant, an
    \<open>absorbing_machine\<close> never leaves a set of states, a \<open>metered_machine\<close> pays for each operation, a
    \<open>versioned_machine\<close> grows its version by one, a \<open>keyed_table\<close> reads back what it saved. Each
    component interprets the ones it satisfies and its properties are facts of the interpretation.
  \<^item> \<open>Job\<close> (\<open>domain/jobs.py\<close>) and \<open>JobService\<close> (\<open>application/jobs.py\<close>, the job repository): the job
    entity, submission, claims, retries, cancellation, recovery, the executor and the inline
    dispatcher. The stored jobs stay well formed under every interleaving, a key is inserted once, a
    cancellation sticks, and the dispatcher returns: its fuel of 21 exceeds the 20 attempts a job
    can have.
  \<^item> \<open>Pipeline\<close> (\<open>domain/production_pipeline.py\<close>): the stages per kind of publication; the functions
    that search the table agree with walking it. The walk has fuel 7, one more than its stages.
  \<^item> \<open>ProductionRun\<close>, \<open>Batch\<close>, \<open>Repair\<close> (\<open>domain/production.py\<close>): the run with its reconciliation
    fence, the batch and its items, artifacts and repair entities. \<open>ProductionResume\<close>: where a
    stopped production starts again.
  \<^item> \<open>BatchTables\<close>, \<open>BatchService\<close> (\<open>application/subject_production.py\<close>,
    \<open>production_review_recovery.py\<close>, the production repositories): the rows and every service call.
    \<open>BatchProtocol\<close> is the abstract specification, a step relation in which a run settles, is activated
    outside cancelled batches, is added or relabelled, a batch row moves or a batch is enrolled, an item is
    counted or repointed, and artifacts turn stale; it keeps the integrity of the items, the cancellation barrier,
    one active batch per edition and one live run per subject. \<open>BatchSafety\<close> proves every service call a
    sequence of its steps, which respect the editorial order unless the call starts, resumes, retries or replaces a
    single article; \<open>BatchProperties\<close> draws the consequences for all interleavings of calls, says exactly what
    a hand-over does, and how a recovered article overtakes the queue.
  \<^item> \<open>RepairPlanner\<close>, \<open>RepairDecisions\<close> (\<open>application/production_repairs.py\<close>): what a repair costs, when
    an issue blocks, and the decision log with its optimistic fence, which protects a decision as long as the
    clocks that date the decisions agree with their order.
  \<^item> \<open>ModelRun\<close> (\<open>domain/model_runs.py\<close>), \<open>Conversation\<close> (\<open>domain/model_conversations.py\<close>): every
    transition of a model run, of a conversation and of its turns, the adoption of a recovered answer
    and the archiving of a conversation.
  \<^item> \<open>InvestigationBudget\<close>, \<open>Investigation\<close> (\<open>domain/investigation.py\<close>, \<open>domain/production.py\<close>),
    \<open>AgentLoop\<close> (\<open>domain/investigation_state.py\<close>, \<open>application/investigation_service.py\<close>): the
    reservation ledger, the investigation with every transition and every service that writes its fields
    (the hand-off, the acquisition caps, the resumption), its tool invocations and sample associations, the working
    state of the loop, its conclusion, the last steps of its resumption and the rebase of concurrent updates.
  \<^item> \<open>EffectIdentity\<close> (\<open>domain/external_effects.py\<close>): canonical JSON, redaction, digests and the key of
    an external effect. Canonical JSON is proved uniquely readable, which makes the digests and the
    key exact up to collisions of the hash on the bytes at hand. Every target is a path with a query and a fragment
    of parameters, and the redaction is described on that shape.
  \<^item> \<open>EffectRows\<close> (the tables an effect touches), \<open>SourcePolicy\<close> (\<open>application/external_effects.py\<close>) and
    \<open>SourceRestrictions\<close> (\<open>infrastructure/database/repositories/external_effects.py\<close>): which evidence a
    request may cite, what its references must resolve to, and the labels of the samples and documents
    behind them. \<open>EffectClaims\<close> (the same repository): the claim store, each
    method one transaction: the admission of an effect, the handoff marker, completion, the two
    seals, reuse. \<open>EffectAdmission\<close> shows what each does to the claims and what an admission found,
    \<open>SourceSafety\<close> that no admitted effect cites restricted material, whichever way a reference leads to it: a
    sample, an association, a hash, a document, or an evidence observation with what it observed.
    \<open>EffectCoordinator\<close> (\<open>application/external_effects.py\<close>): permits and the call that sends, cut
    into steps between which other calls, other processes, crashes and lost acknowledgements
    interleave. \<open>EffectSafety\<close> keeps one invariant over claims, permits, calls and a ghost log of
    the physical sends, and concludes that an effect is sent at most once, never when it is
    reported as not submitted, and exactly once when it is completed.
  \<^item> \<open>OsintPolicy\<close> (\<open>domain/osint_open.py\<close>), \<open>Governance\<close> and \<open>EnvelopeService\<close>
    (\<open>application/investigation_governance.py\<close>), \<open>OsintService\<close> (\<open>application/osint_open_policy.py\<close> and its
    repository): who may grant external rights to an investigation. An envelope is granted, extended, rejected
    and revoked by decisions in an append-only log, or inherited from a standing policy whose versions are
    append-only too. \<open>AuthorityOps\<close> makes one machine of all these transactions and models the guard of
    \<open>infrastructure/database/repositories/virustotal_external_effects.py\<close>, through which the claim
    store asks a policy. \<open>AuthorityChanges\<close> says what each operation writes, \<open>AuthoritySafety\<close> keeps the
    invariant that an active pin is younger than every revocation of its policy, \<open>AuthorityExample\<close>
    evaluates one run, and \<open>AuthorityProperties\<close> concludes: a revoked policy sends nothing more,
    every right traces to its grant, a revocation can always be made and bounds what comes next.

  How the parts meet. The job service consults the status of the batch of a job before it claims it. The
  batch services work on the runs and items of one edition; the recovery policy of \<open>ProductionResume\<close>
  decides which failed run the hand-over retries; the pipeline names the artifacts a retry makes
  stale. The decision log is read by the planner. A turn and its model run are moved by one
  transaction. The agent loop concludes its working state and the investigation row together. The
  claim store reads the investigation, its envelope, reservation and invocation, and moves the
  dispatch, retrohunt, turn and model run an effect belongs to in the transaction of the claim. It asks
  the guard whether the policy an investigation is pinned to still authorises an effect, in the same
  transaction.

  Not modelled. The HTTP routers, the frontend, the workers' process plumbing, blob storage, migrations and
  configuration are input and output. Acquisition and collection of documents, discovery, the
  extraction of model answers, editorial enrichment, synthesis and publication are text processing
  around calls of models and of Typst; their control flow is the stages of the run. Of the
  external effects, the families with their resolvers, the parsed content of a stored report and the
  safety check of a stored reference are arguments of the claim store; so is the guard, which
  the properties of the policies instantiate with its model, its check of the cited sources left
  as an argument. The routing decisions, the tools of the investigation and
  the rule workbench, and the read models of the status pages are code the model does not cover yet.
  The code points above 255 are outside the texts of the model, except in the names of request
  parameters, which are decoded in full.
\<close>

end
